(* ===== verification/Prelude.thy ===== *)
theory Prelude
  imports Main "HOL-Library.Word"
begin

text \<open>
  Shared vocabulary of the development: the Go types the components use (times, durations,
  byte strings, error values), the string functions of Go's standard library that the sources
  call, and the interfaces several components satisfy, stated as locales.

  Conventions used everywhere:
  \<^item> A Go \<open>string\<close> is a sequence of bytes and so is an Isabelle \<^typ>\<open>string\<close> (a list of
    8-bit \<^typ>\<open>char\<close>s). \<open>len(s)\<close> is \<^const>\<open>length\<close>, \<open>s[i:j]\<close> is \<open>take\<close>/\<open>drop\<close>.
  \<^item> A \<open>time.Time\<close> is the number of nanoseconds since Go's zero \<open>Time\<close>, so \<open>IsZero\<close> is
    \<open>t = 0\<close>; a \<open>time.Duration\<close> is a number of nanoseconds. The readings of \<open>time.Now()\<close>
    inside one call are one argument \<open>now\<close> of the operation.
  \<^item> A Go \<open>map\<close> is an Isabelle map. Where the code ranges over a map, the iteration order
    chosen by the Go runtime is an argument (a list that enumerates the keys).
  \<^item> Logging calls do not change program state and are left out.
\<close>

named_theorems vyx_simps \<open>unfolding equations of small definitions used across components\<close>

section \<open>Time\<close>

type_synonym go_time = int
type_synonym duration = int

definition second :: duration where
  "second = 1000000000"

abbreviation (input) zero_time :: go_time where
  "zero_time \<equiv> 0"

section \<open>Error values\<close>

text \<open>
  Go errors as the sources build them: a sentinel made with \<open>errors.New\<close>, a fresh text made
  with \<open>fmt.Errorf\<close> without \<open>%w\<close>, a text before a wrapped error (\<open>...%w\<close>), a wrapped error before a
  text (\<open>%w...\<close>), and the structured
  \<open>*ValidationError\<close> of \<open>core/domain/gateway/errors.go\<close>, which carries (field, message) pairs.
  Sentinels are compared by identity in Go; all sentinels of the sources have different texts,
  so the text identifies them.
\<close>

datatype go_error =
    Sentinel string
  | Errorf string
  | ErrorfW string go_error
  | WErrorf go_error string
  | ValidationError "(string \<times> string) list"

abbreviation ErrSchemaValidation :: go_error where
  "ErrSchemaValidation \<equiv> Sentinel ''validation failed''"

text \<open>
  \<open>errors.Is(err, target)\<close>: equality with the target, the error's own \<open>Is\<close> method (only
  \<open>*ValidationError\<close> has one, and it answers for \<open>ErrSchemaValidation\<close>), then the wrapped error.
\<close>

fun errors_Is :: "go_error \<Rightarrow> go_error \<Rightarrow> bool" where
  "errors_Is (Sentinel s) t = (Sentinel s = t)"
| "errors_Is (Errorf s) t = (Errorf s = t)"
| "errors_Is (ErrorfW s e) t = (ErrorfW s e = t \<or> errors_Is e t)"
| "errors_Is (WErrorf e s) t = (WErrorf e s = t \<or> errors_Is e t)"
| "errors_Is (ValidationError ds) t = (ValidationError ds = t \<or> t = ErrSchemaValidation)"

text \<open>\<open>errors.As(err, &ve)\<close> for a target of type \<open>*ValidationError\<close>.\<close>

fun errors_As_ValidationError :: "go_error \<Rightarrow> (string \<times> string) list option" where
  "errors_As_ValidationError (ValidationError ds) = Some ds"
| "errors_As_ValidationError (ErrorfW s e) = errors_As_ValidationError e"
| "errors_As_ValidationError (WErrorf e s) = errors_As_ValidationError e"
| "errors_As_ValidationError (Sentinel s) = None"
| "errors_As_ValidationError (Errorf s) = None"

section \<open>Strings\<close>

definition HasPrefix :: "string \<Rightarrow> string \<Rightarrow> bool" where
  "HasPrefix s p = (take (length p) s = p)"

lemma HasPrefix_append [simp]: "HasPrefix (p @ s) p"
  by (simp add: HasPrefix_def)

lemma HasPrefixE: "HasPrefix s p \<Longrightarrow> \<exists>r. s = p @ r"
  unfolding HasPrefix_def by (metis append_take_drop_id)

text \<open>\<open>strings.Contains\<close>.\<close>

fun Contains :: "string \<Rightarrow> string \<Rightarrow> bool" where
  "Contains [] sub = (sub = [])"
| "Contains (c # s) sub = (HasPrefix (c # s) sub \<or> Contains s sub)"

lemma Contains_self [simp]: "Contains s s"
  by (cases s) (simp_all add: HasPrefix_def)

text \<open>\<open>strings.Split(s, sep)\<close> for a separator of one byte.\<close>

fun Split :: "char \<Rightarrow> string \<Rightarrow> string list" where
  "Split c [] = [[]]"
| "Split c (x # xs) =
     (if x = c then [] # Split c xs
      else (case Split c xs of [] \<Rightarrow> [[x]] | y # ys \<Rightarrow> (x # y) # ys))"

lemma Split_not_Nil [simp]: "Split c s \<noteq> []"
  by (induction s) (auto split: list.splits)

lemma Split_no_sep: "c \<notin> set s \<Longrightarrow> Split c s = [s]"
  by (induction s) auto

lemma Split_append: "c \<notin> set s \<Longrightarrow> Split c (s @ c # t) = s # Split c t"
  by (induction s) auto

lemma Split_pieces: "p \<in> set (Split c s) \<Longrightarrow> c \<notin> set p"
proof (induction s arbitrary: p)
  case Nil
  then show ?case by simp
next
  case (Cons x xs)
  obtain y ys where y: "Split c xs = y # ys"
    using Split_not_Nil by (meson neq_Nil_conv)
  show ?case
    using Cons.prems Cons.IH [of p] Cons.IH [of y] y by (auto split: if_splits)
qed

text \<open>\<open>strings.Trim(s, cutset)\<close> for a cut set of one byte.\<close>

definition Trim :: "char \<Rightarrow> string \<Rightarrow> string" where
  "Trim c s = rev (dropWhile (\<lambda>x. x = c) (rev (dropWhile (\<lambda>x. x = c) s)))"

text \<open>\<open>strings.TrimSpace\<close>, for the ASCII white space characters.\<close>

definition is_space :: "char \<Rightarrow> bool" where
  "is_space c = (c \<in> {CHR 0x09, CHR 0x0A, CHR 0x0B, CHR 0x0C, CHR 0x0D, CHR '' ''})"

definition TrimSpace :: "string \<Rightarrow> string" where
  "TrimSpace s = rev (dropWhile is_space (rev (dropWhile is_space s)))"

text \<open>\<open>strings.ToUpper\<close> and \<open>strings.ToLower\<close> on ASCII letters; other bytes are unchanged.\<close>

definition upper_char :: "char \<Rightarrow> char" where
  "upper_char c = (let n = of_char c :: nat in if 97 \<le> n \<and> n \<le> 122 then char_of (n - 32) else c)"

definition lower_char :: "char \<Rightarrow> char" where
  "lower_char c = (let n = of_char c :: nat in if 65 \<le> n \<and> n \<le> 90 then char_of (n + 32) else c)"

definition ToUpper :: "string \<Rightarrow> string" where
  "ToUpper s = map upper_char s"

definition ToLower :: "string \<Rightarrow> string" where
  "ToLower s = map lower_char s"

lemma upper_char_idem [simp]: "upper_char (upper_char c) = upper_char c"
  by (auto simp: upper_char_def Let_def)

lemma ToUpper_idem [simp]: "ToUpper (ToUpper s) = ToUpper s"
  by (simp add: ToUpper_def)

text \<open>\<open>strings.EqualFold\<close> on ASCII.\<close>

definition EqualFold :: "string \<Rightarrow> string \<Rightarrow> bool" where
  "EqualFold s t = (ToLower s = ToLower t)"

text \<open>\<open>strings.IndexByte\<close> and \<open>strings.LastIndexByte\<close>, and \<open>strings.Index\<close>; \<open>None\<close> is -1.\<close>

fun last_index :: "char \<Rightarrow> string \<Rightarrow> nat option" where
  "last_index c [] = None"
| "last_index c (x # xs) =
     (case last_index c xs of Some i \<Rightarrow> Some (Suc i) | None \<Rightarrow> if x = c then Some 0 else None)"

fun first_index :: "char \<Rightarrow> string \<Rightarrow> nat option" where
  "first_index c [] = None"
| "first_index c (x # xs) = (if x = c then Some 0 else map_option Suc (first_index c xs))"

fun Index :: "string \<Rightarrow> string \<Rightarrow> nat option" where
  "Index [] sub = (if sub = [] then Some 0 else None)"
| "Index (c # s) sub = (if HasPrefix (c # s) sub then Some 0 else map_option Suc (Index s sub))"

lemma Index_bound: "Index s sub = Some i \<Longrightarrow> i + length sub \<le> length s"
proof (induction s arbitrary: i)
  case (Cons c s)
  then show ?case
    by (auto simp: HasPrefix_def split: if_splits dest!: arg_cong [of "take _ _" _ length])
qed (simp split: if_splits)

lemma first_index_bound: "first_index c s = Some i \<Longrightarrow> i < length s"
  by (induction s arbitrary: i) (auto split: if_splits)

text \<open>\<open>strings.Join\<close>.\<close>

fun Join :: "string list \<Rightarrow> string \<Rightarrow> string" where
  "Join [] sep = []"
| "Join [s] sep = s"
| "Join (s # t # ss) sep = s @ sep @ Join (t # ss) sep"

text \<open>\<open>strings.Fields\<close>: the maximal runs of characters that are not white space.\<close>

definition Fields :: "string \<Rightarrow> string list" where
  "Fields s = filter (\<lambda>p. p \<noteq> []) (Split (CHR '' '') (map (\<lambda>c. if is_space c then CHR '' '' else c) s))"

text \<open>Numbers in decimal and hexadecimal.\<close>

definition hex_digit :: "nat \<Rightarrow> char" where
  "hex_digit n = char_of (if n < 10 then 48 + n else 87 + n)"

fun nat_digits :: "nat \<Rightarrow> string" where
  "nat_digits n = (if n < 10 then [char_of (48 + n)] else nat_digits (n div 10) @ [char_of (48 + n mod 10)])"

declare nat_digits.simps [simp del]

text \<open>\<open>strconv.Itoa\<close>.\<close>

definition Itoa :: "int \<Rightarrow> string" where
  "Itoa i = (if i < 0 then CHR ''-'' # nat_digits (nat (- i)) else nat_digits (nat i))"

text \<open>\<open>filepath.Clean\<close> and \<open>filepath.Join\<close> on Unix: the elements of a path are processed from left to right.\<close>

fun clean_elems :: "bool \<Rightarrow> string list \<Rightarrow> string list \<Rightarrow> string list" where
  "clean_elems rooted out [] = rev out"
| "clean_elems rooted out (e # es) =
     (if e = [] \<or> e = ''.'' then clean_elems rooted out es
      else if e = ''..''
      then (case out of
              [] \<Rightarrow> clean_elems rooted (if rooted then [] else [e]) es
            | p # ps \<Rightarrow> clean_elems rooted (if p = ''..'' then e # out else ps) es)
      else clean_elems rooted (e # out) es)"

definition filepath_Clean :: "string \<Rightarrow> string" where
  "filepath_Clean p =
     (let rooted = HasPrefix p ''/''; s = Join (clean_elems rooted [] (Split (CHR ''/'') p)) ''/''
      in if rooted then CHR ''/'' # s else if s = [] then ''.'' else s)"

definition filepath_Join :: "string list \<Rightarrow> string" where
  "filepath_Join es =
     (let ne = dropWhile (\<lambda>e. e = []) es in if ne = [] then [] else filepath_Clean (Join ne ''/''))"

text \<open>The text of an error value, \<open>err.Error()\<close>.\<close>

fun Error :: "go_error \<Rightarrow> string" where
  "Error (Sentinel s) = s"
| "Error (Errorf s) = s"
| "Error (ErrorfW s e) = s @ Error e"
| "Error (WErrorf e s) = Error e @ s"
| "Error (ValidationError ds) =
     ''validation failed: '' @
     Join (map (\<lambda>(f, m). if f \<noteq> [] then f @ '': '' @ m else m) ds) ''; ''"

section \<open>Lists and maps\<close>

text \<open>Removing the first occurrence, as \<open>append(xs[:i], xs[i+1:]...)\<close> after a linear search.\<close>

fun remove_first :: "'a \<Rightarrow> 'a list \<Rightarrow> 'a list" where
  "remove_first x [] = []"
| "remove_first x (y # ys) = (if y = x then ys else y # remove_first x ys)"

lemma remove_first_remove1: "remove_first x xs = remove1 x xs"
  by (induction xs) auto

text \<open>A list enumerates the keys of a finite map: one possible iteration order of \<open>range m\<close>.\<close>

definition enumerates :: "'k list \<Rightarrow> ('k \<rightharpoonup> 'v) \<Rightarrow> bool" where
  "enumerates ks m \<longleftrightarrow> distinct ks \<and> set ks = dom m"

lemma enumerates_mem: "enumerates ks m \<Longrightarrow> k \<in> set ks \<longleftrightarrow> (\<exists>v. m k = Some v)"
  by (auto simp: enumerates_def)

lemma finite_enumerates: "finite (dom m) \<Longrightarrow> \<exists>ks. enumerates ks m"
  unfolding enumerates_def using finite_distinct_list by metis

section \<open>Interface: a registry that creates its entries on first use\<close>

text \<open>
  The circuit breaker registry, the rate limiter's bucket maps and the drainer's wait groups are
  all maps whose \<open>get\<close> creates a missing entry. Their clients rely on three laws: an existing entry is
  returned as it is, a missing one is created fresh, and no other entry is touched.
\<close>

locale lazy_registry =
  fixes entry :: "'r \<Rightarrow> string \<Rightarrow> 'v option"
    and get :: "'r \<Rightarrow> string \<Rightarrow> 'v \<times> 'r"
    and fresh :: "'r \<Rightarrow> string \<Rightarrow> 'v"
  assumes get_hit: "entry r k = Some v \<Longrightarrow> get r k = (v, r)"
    and get_miss: "entry r k = None \<Longrightarrow> fst (get r k) = fresh r k"
    and get_entry: "entry r k = None \<Longrightarrow> entry (snd (get r k)) = (entry r)(k \<mapsto> fresh r k)"
begin

lemma get_stored: "entry (snd (get r k)) k = Some (fst (get r k))"
  by (cases "entry r k") (simp_all add: get_hit get_miss get_entry)

lemma get_again: "get (snd (get r k)) k = (fst (get r k), snd (get r k))"
  by (rule get_hit) (rule get_stored)

lemma get_other: "k' \<noteq> k \<Longrightarrow> entry (snd (get r k)) k' = entry r k'"
  by (cases "entry r k") (simp_all add: get_hit get_entry)

lemma get_keeps: "entry r k' = Some v \<Longrightarrow> entry (snd (get r k)) k' = Some v"
  by (cases "entry r k") (auto simp: get_hit get_entry)

lemma get_dom: "dom (entry (snd (get r k))) = insert k (dom (entry r))"
  by (cases "entry r k") (auto simp: get_hit get_entry)

end

text \<open>
  Clients of such a registry fetch an entry, operate on it and leave the result behind the same pointer. \<open>store_run\<close> is a
  sequence of operations \<open>step\<close> on entries, each under a key.
\<close>

fun store_run ::
  "('r \<Rightarrow> string \<Rightarrow> 'v \<times> 'r) \<Rightarrow> ('r \<Rightarrow> string \<Rightarrow> 'v \<Rightarrow> 'r) \<Rightarrow> ('v \<Rightarrow> 'o \<Rightarrow> 'v) \<Rightarrow> 'r \<Rightarrow> (string \<times> 'o) list \<Rightarrow> 'r" where
  "store_run get put step r [] = r"
| "store_run get put step r ((k, x) # xs) =
     (case get r k of (v, r') \<Rightarrow> store_run get put step (put r' k (step v x)) xs)"

locale lazy_store = lazy_registry +
  fixes put :: "'r \<Rightarrow> string \<Rightarrow> 'v \<Rightarrow> 'r"
  assumes entry_put: "entry (put r k v) = (entry r)(k \<mapsto> v)"
    and fresh_put: "fresh (put r k v) k' = fresh r k'"
    and fresh_get: "fresh (snd (get r k)) k' = fresh r k'"
begin

lemma get_entry_value: "fst (get r k) = (case entry r k of Some v \<Rightarrow> v | None \<Rightarrow> fresh r k)"
  by (simp add: get_hit get_miss split: option.split)

lemma get_put:
  "fst (get (put (snd (get r k')) k' v) k) = (if k' = k then v else fst (get r k))"
  by (simp add: get_entry_value entry_put fresh_put fresh_get get_other split: option.split)

text \<open>Keys do not interfere: the entry of a key is what its own operations made of it.\<close>

lemma store_run_projection:
  "fst (get (store_run get put step r xs) k) =
     foldl step (fst (get r k)) (map snd (filter (\<lambda>x. fst x = k) xs))"
proof (induction xs arbitrary: r)
  case (Cons x xs)
  then show ?case by (cases x) (simp add: split_beta get_put)
qed simp

end

section \<open>Interface: a buffered channel with a sender that does not wait\<close>

text \<open>
  The read pump of a worker connection and the log multiplexer both send on a buffered Go channel inside a \<open>select\<close> with a
  \<open>default\<close> branch: a full buffer loses the new message. Receivers take the oldest one.
\<close>

locale bounded_fifo =
  fixes contents :: "'c \<Rightarrow> 'm list"
    and offer :: "'c \<Rightarrow> 'm \<Rightarrow> 'c"
    and poll :: "'c \<Rightarrow> ('m \<times> 'c) option"
    and cap :: nat
  assumes offer_contents: "contents (offer c m) = (if length (contents c) < cap then contents c @ [m] else contents c)"
    and poll_empty: "contents c = [] \<Longrightarrow> poll c = None"
    and poll_oldest: "contents c = m # ms \<Longrightarrow> \<exists>c'. poll c = Some (m, c') \<and> contents c' = ms"
begin

text \<open>Without a receiver the buffer keeps the oldest messages, in order, and loses the rest.\<close>

lemma offers_contents:
  assumes "length (contents c) \<le> cap"
  shows "contents (foldl offer c ms) = take cap (contents c @ ms)"
  using assms
proof (induction ms arbitrary: c)
  case (Cons m ms)
  have "length (contents (offer c m)) \<le> cap" using Cons.prems by (simp add: offer_contents)
  from Cons.IH [OF this] Cons.prems show ?case by (auto simp: offer_contents take_Cons')
qed simp

lemma offer_bound: "length (contents c) \<le> cap \<Longrightarrow> length (contents (offer c m)) \<le> cap"
  by (simp add: offer_contents)

lemma poll_Some: "poll c = Some (m, c') \<Longrightarrow> contents c = m # contents c'"
  using poll_empty [of c] poll_oldest [of c] by (cases "contents c") auto

end

text \<open>A Go channel's buffer as the list of its messages, oldest first.\<close>

definition chan_offer :: "nat \<Rightarrow> 'm list \<Rightarrow> 'm \<Rightarrow> 'm list" where
  "chan_offer cap ch m = (if length ch < cap then ch @ [m] else ch)"

fun chan_poll :: "'m list \<Rightarrow> ('m \<times> 'm list) option" where
  "chan_poll [] = None"
| "chan_poll (m # ms) = Some (m, ms)"

end
