(* ===== verification/Circuit.thy ===== *)
theory Circuit
  imports Prelude
begin

text \<open>
  The circuit breaker of \<open>core/domain/circuit/breaker.go\<close>: the breaker record, its three mutating
  operations \<open>RecordSuccess\<close>, \<open>RecordFailure\<close> and \<open>Allow\<close>, and the per-route registry. Every operation
  runs under the breaker's mutex, so a concurrent execution is a sequence of operations, and the
  theorems quantify over such sequences. State changes reported through \<open>onStateChange\<close> are
  returned as a list.
\<close>

section \<open>State\<close>

datatype cb_state = StateClosed | StateOpen | StateHalfOpen

fun cb_state_String :: "cb_state \<Rightarrow> string" where
  "cb_state_String StateClosed = ''closed''"
| "cb_state_String StateOpen = ''open''"
| "cb_state_String StateHalfOpen = ''half-open''"

record state_change =
  sc_From :: cb_state
  sc_To :: cb_state
  sc_Reason :: string
  sc_RouteID :: string
  sc_Time :: go_time

record circuit_config =
  cc_Failures :: int
  cc_Cooldown :: duration
  cc_HalfOpenMax :: int

text \<open>\<open>br_notify\<close> says whether the callback \<open>onStateChange\<close> is non-nil.\<close>

record breaker =
  br_failures :: int
  br_state :: cb_state
  br_lastFailure :: go_time
  br_openedAt :: go_time
  br_halfOpenProbes :: int
  br_routeID :: string
  br_config :: circuit_config
  br_notify :: bool

section \<open>Operations\<close>

definition New_config :: "circuit_config \<Rightarrow> circuit_config" where
  "New_config cfg =
     \<lparr>cc_Failures = (if cc_Failures cfg = 0 then 5 else cc_Failures cfg),
      cc_Cooldown = (if cc_Cooldown cfg = 0 then 30 * second else cc_Cooldown cfg),
      cc_HalfOpenMax = (if cc_HalfOpenMax cfg = 0 then 1 else cc_HalfOpenMax cfg)\<rparr>"

definition New :: "circuit_config \<Rightarrow> bool \<Rightarrow> breaker" where
  "New cfg notify =
     \<lparr>br_failures = 0, br_state = StateClosed, br_lastFailure = zero_time,
      br_openedAt = zero_time, br_halfOpenProbes = 0, br_routeID = [],
      br_config = New_config cfg, br_notify = notify\<rparr>"

definition SetRouteID :: "breaker \<Rightarrow> string \<Rightarrow> breaker" where
  "SetRouteID b rid = b\<lparr>br_routeID := rid\<rparr>"

definition emit :: "breaker \<Rightarrow> cb_state \<Rightarrow> cb_state \<Rightarrow> string \<Rightarrow> go_time \<Rightarrow> state_change list" where
  "emit b from to reason now =
     (if br_notify b
      then [\<lparr>sc_From = from, sc_To = to, sc_Reason = reason, sc_RouteID = br_routeID b, sc_Time = now\<rparr>]
      else [])"

definition RecordSuccess :: "breaker \<Rightarrow> go_time \<Rightarrow> breaker \<times> state_change list" where
  "RecordSuccess b now =
     (case br_state b of
        StateHalfOpen \<Rightarrow>
          (let b' = b\<lparr>br_state := StateClosed, br_failures := 0, br_halfOpenProbes := 0\<rparr>
           in (b', emit b' (br_state b) StateClosed ''probe succeeded'' now))
      | StateClosed \<Rightarrow> (b\<lparr>br_failures := 0\<rparr>, [])
      | StateOpen \<Rightarrow> (b, []))"

definition RecordFailure :: "breaker \<Rightarrow> go_time \<Rightarrow> breaker \<times> state_change list" where
  "RecordFailure b now =
     (let b1 = b\<lparr>br_failures := br_failures b + 1, br_lastFailure := now\<rparr>
      in case br_state b1 of
           StateClosed \<Rightarrow>
             (if cc_Failures (br_config b1) \<le> br_failures b1
              then (let b2 = b1\<lparr>br_state := StateOpen, br_openedAt := now\<rparr>
                    in (b2, emit b2 (br_state b1) StateOpen ''consecutive failures'' now))
              else (b1, []))
         | StateHalfOpen \<Rightarrow>
             (let b2 = b1\<lparr>br_state := StateOpen, br_halfOpenProbes := 0\<rparr>
              in (b2, emit b2 (br_state b1) StateOpen ''half-open probe failed'' now))
         | StateOpen \<Rightarrow> (b1, []))"

definition Allow :: "breaker \<Rightarrow> go_time \<Rightarrow> bool \<times> breaker \<times> state_change list" where
  "Allow b now =
     (case br_state b of
        StateClosed \<Rightarrow> (True, b, [])
      | StateOpen \<Rightarrow>
          (if cc_Cooldown (br_config b) \<le> now - br_openedAt b
           then (let b' = b\<lparr>br_state := StateHalfOpen, br_halfOpenProbes := 0\<rparr>
                 in (True, b', emit b' (br_state b) StateHalfOpen ''cooldown expired'' now))
           else (False, b, []))
      | StateHalfOpen \<Rightarrow>
          (if br_halfOpenProbes b < cc_HalfOpenMax (br_config b)
           then (True, b\<lparr>br_halfOpenProbes := br_halfOpenProbes b + 1\<rparr>, [])
           else (False, b, [])))"

definition Stats :: "breaker \<Rightarrow> cb_state \<times> int \<times> go_time" where
  "Stats b = (br_state b, br_failures b, br_lastFailure b)"

section \<open>Executions: sequences of operations\<close>

datatype cb_op = OpSuccess go_time | OpFailure go_time | OpAllow go_time

text \<open>One operation: the answer of \<open>Allow\<close> if it is one, the new breaker, the reported changes.\<close>

fun cb_step :: "breaker \<Rightarrow> cb_op \<Rightarrow> bool option \<times> breaker \<times> state_change list" where
  "cb_step b (OpSuccess t) = (None, RecordSuccess b t)"
| "cb_step b (OpFailure t) = (None, RecordFailure b t)"
| "cb_step b (OpAllow t) = (case Allow b t of (a, r) \<Rightarrow> (Some a, r))"

text \<open>A run: the answers of its \<open>Allow\<close> operations, the last breaker, all reported changes.\<close>

fun cb_run :: "breaker \<Rightarrow> cb_op list \<Rightarrow> bool list \<times> breaker \<times> state_change list" where
  "cb_run b [] = ([], b, [])"
| "cb_run b (x # xs) =
     (let (a, b', ev) = cb_step b x; (as, b'', evs) = cb_run b' xs
      in ((case a of None \<Rightarrow> as | Some v \<Rightarrow> v # as), b'', ev @ evs))"

abbreviation cb_final :: "breaker \<Rightarrow> cb_op list \<Rightarrow> breaker" where
  "cb_final b xs \<equiv> fst (snd (cb_run b xs))"

abbreviation cb_answers :: "breaker \<Rightarrow> cb_op list \<Rightarrow> bool list" where
  "cb_answers b xs \<equiv> fst (cb_run b xs)"

abbreviation cb_events :: "breaker \<Rightarrow> cb_op list \<Rightarrow> state_change list" where
  "cb_events b xs \<equiv> snd (snd (cb_run b xs))"

lemmas cb_op_defs = RecordSuccess_def RecordFailure_def Allow_def Let_def emit_def

lemma cb_final_Cons [simp]: "cb_final b (x # xs) = cb_final (fst (snd (cb_step b x))) xs"
  by (simp add: split_beta Let_def)

lemma cb_events_Cons [simp]:
  "cb_events b (x # xs) = snd (snd (cb_step b x)) @ cb_events (fst (snd (cb_step b x))) xs"
  by (simp add: split_beta Let_def)

lemma cb_answers_Cons [simp]:
  "cb_answers b (x # xs) =
     (case fst (cb_step b x) of None \<Rightarrow> [] | Some v \<Rightarrow> [v]) @ cb_answers (fst (snd (cb_step b x))) xs"
  by (simp add: split_beta Let_def split: option.split)

declare cb_run.simps(2) [simp del]

section \<open>Invariant\<close>

text \<open>
  A breaker is closed exactly while fewer than \<open>Failures\<close> consecutive failures are recorded; probes
  are counted in the half-open state only and never exceed \<open>HalfOpenMax\<close>.
\<close>

definition breaker_inv :: "breaker \<Rightarrow> bool" where
  "breaker_inv b \<longleftrightarrow>
     0 < cc_Failures (br_config b) \<and> 0 < cc_HalfOpenMax (br_config b) \<and> 0 < cc_Cooldown (br_config b) \<and>
     0 \<le> br_failures b \<and>
     (br_state b = StateClosed \<longleftrightarrow> br_failures b < cc_Failures (br_config b)) \<and>
     0 \<le> br_halfOpenProbes b \<and> br_halfOpenProbes b \<le> cc_HalfOpenMax (br_config b) \<and>
     (br_state b \<noteq> StateHalfOpen \<longrightarrow> br_halfOpenProbes b = 0)"

definition config_ok :: "circuit_config \<Rightarrow> bool" where
  "config_ok cfg \<longleftrightarrow> 0 \<le> cc_Failures cfg \<and> 0 \<le> cc_Cooldown cfg \<and> 0 \<le> cc_HalfOpenMax cfg"

lemma New_inv: "config_ok cfg \<Longrightarrow> breaker_inv (New cfg notify)"
  by (auto simp: breaker_inv_def config_ok_def New_def New_config_def second_def)

lemma cb_step_inv: "breaker_inv b \<Longrightarrow> breaker_inv (fst (snd (cb_step b x)))"
  by (cases x; cases "br_state b") (auto simp: breaker_inv_def cb_op_defs)

lemma cb_run_inv: "breaker_inv b \<Longrightarrow> breaker_inv (cb_final b xs)"
  by (induction xs arbitrary: b) (simp_all add: cb_step_inv)

lemma cb_step_frame:
  "br_config (fst (snd (cb_step b x))) = br_config b"
  "br_routeID (fst (snd (cb_step b x))) = br_routeID b"
  "br_notify (fst (snd (cb_step b x))) = br_notify b"
  by (cases x; cases "br_state b"; simp add: cb_op_defs)+

lemma cb_run_frame:
  "br_config (cb_final b xs) = br_config b"
  "br_notify (cb_final b xs) = br_notify b"
  by (induction xs arbitrary: b) (simp_all add: cb_step_frame)

section \<open>Behaviour of runs\<close>

lemma failures_run:
  assumes "breaker_inv b" and "br_state b = StateClosed"
  shows "br_state (cb_final b (map OpFailure ts)) =
    (if br_failures b + int (length ts) < cc_Failures (br_config b) then StateClosed else StateOpen)"
proof -
  have open_stays: "br_state b' = StateOpen \<Longrightarrow> br_state (cb_final b' (map OpFailure ts')) = StateOpen"
    for b' ts' by (induction ts' arbitrary: b') (simp_all add: cb_op_defs)
  show ?thesis
    using assms
  proof (induction ts arbitrary: b)
    case Nil
    then show ?case by (simp add: breaker_inv_def)
  next
    case (Cons t ts)
    let ?b = "fst (RecordFailure b t)"
    show ?case
    proof (cases "br_failures b + 1 < cc_Failures (br_config b)")
      case True
      then have c: "br_state ?b = StateClosed" "br_failures ?b = br_failures b + 1"
          "br_config ?b = br_config b"
        using Cons.prems by (simp_all add: cb_op_defs)
      have "breaker_inv ?b"
        using cb_step_inv [OF Cons.prems(1), of "OpFailure t"] by simp
      from Cons.IH [OF this c(1)] c show ?thesis by (simp add: algebra_simps)
    next
      case False
      then have "br_state ?b = StateOpen"
        using Cons.prems by (simp add: cb_op_defs)
      from open_stays [OF this] False show ?thesis by simp
    qed
  qed
qed

fun op_time :: "cb_op \<Rightarrow> go_time" where
  "op_time (OpSuccess t) = t"
| "op_time (OpFailure t) = t"
| "op_time (OpAllow t) = t"

lemma cooling_step:
  assumes "br_state b = StateOpen" and "op_time x < br_openedAt b + cc_Cooldown (br_config b)"
  shows "br_state (fst (snd (cb_step b x))) = StateOpen"
    and "br_openedAt (fst (snd (cb_step b x))) = br_openedAt b"
    and "fst (cb_step b x) \<noteq> Some True"
  using assms by (cases x; simp add: cb_op_defs)+

lemma cooling_run:
  assumes "br_state b = StateOpen"
    and "\<forall>x \<in> set xs. op_time x < br_openedAt b + cc_Cooldown (br_config b)"
  shows "br_state (cb_final b xs) = StateOpen \<and> True \<notin> set (cb_answers b xs)"
  using assms
proof (induction xs arbitrary: b)
  case Nil
  then show ?case by simp
next
  case (Cons x xs)
  let ?b = "fst (snd (cb_step b x))"
  have x: "op_time x < br_openedAt b + cc_Cooldown (br_config b)"
    using Cons.prems(2) by simp
  note step = cooling_step [OF Cons.prems(1) x]
  have "br_state (cb_final ?b xs) = StateOpen \<and> True \<notin> set (cb_answers ?b xs)"
    using Cons.prems(2) step by (intro Cons.IH) (simp_all add: cb_step_frame)
  with step(3) show ?case by (auto split: option.split)
qed

text \<open>In the half-open state, \<open>Allow\<close> hands out the remaining probes and then refuses.\<close>

lemma half_open_allows:
  assumes "br_state b = StateHalfOpen" and "br_halfOpenProbes b \<le> cc_HalfOpenMax (br_config b)"
  shows "cb_answers b (map OpAllow ts) =
    (let k = min (length ts) (nat (cc_HalfOpenMax (br_config b) - br_halfOpenProbes b))
     in replicate k True @ replicate (length ts - k) False)"
  using assms
proof (induction ts arbitrary: b)
  case Nil
  then show ?case by simp
next
  case (Cons t ts)
  show ?case
  proof (cases "br_halfOpenProbes b < cc_HalfOpenMax (br_config b)")
    case True
    let ?b = "b\<lparr>br_halfOpenProbes := br_halfOpenProbes b + 1\<rparr>"
    have IH: "cb_answers ?b (map OpAllow ts) =
      (let k = min (length ts) (nat (cc_HalfOpenMax (br_config b) - br_halfOpenProbes b - 1))
       in replicate k True @ replicate (length ts - k) False)"
      using Cons.IH [of ?b] Cons.prems True by (simp add: algebra_simps)
    have n: "nat (cc_HalfOpenMax (br_config b) - br_halfOpenProbes b) =
        Suc (nat (cc_HalfOpenMax (br_config b) - br_halfOpenProbes b - 1))"
      using True by simp
    show ?thesis
      using Cons.prems(1) True IH by (simp add: Allow_def n Let_def)
  next
    case False
    then show ?thesis
      using Cons.prems Cons.IH [of b] by (simp add: Allow_def Let_def)
  qed
qed

lemma half_open_exhausted:
  assumes "br_state b = StateHalfOpen" and "cc_HalfOpenMax (br_config b) \<le> br_halfOpenProbes b"
  shows "cb_final b (map OpAllow ts) = b \<and> True \<notin> set (cb_answers b (map OpAllow ts))"
  using assms by (induction ts) (simp_all add: Allow_def)

section \<open>Reported state changes\<close>

text \<open>The transitions a breaker may make, and a chain of reported changes between two states.\<close>

inductive cb_edge :: "cb_state \<Rightarrow> cb_state \<Rightarrow> bool" where
  trip: "cb_edge StateClosed StateOpen"
| cooled: "cb_edge StateOpen StateHalfOpen"
| recovered: "cb_edge StateHalfOpen StateClosed"
| relapsed: "cb_edge StateHalfOpen StateOpen"

inductive_simps cb_edge_simps [simp]: "cb_edge s t"

fun cb_chain :: "cb_state \<Rightarrow> state_change list \<Rightarrow> cb_state \<Rightarrow> bool" where
  "cb_chain s [] t = (s = t)"
| "cb_chain s (c # cs) t = (sc_From c = s \<and> cb_edge s (sc_To c) \<and> cb_chain (sc_To c) cs t)"

lemma cb_chain_append: "cb_chain s cs t \<Longrightarrow> cb_chain t ds u \<Longrightarrow> cb_chain s (cs @ ds) u"
  by (induction cs arbitrary: s) auto

lemma cb_step_chain:
  "br_notify b \<Longrightarrow> cb_chain (br_state b) (snd (snd (cb_step b x))) (br_state (fst (snd (cb_step b x))))"
  by (cases x; cases "br_state b") (auto simp: cb_op_defs)

lemma cb_run_chain: "br_notify b \<Longrightarrow> cb_chain (br_state b) (cb_events b xs) (br_state (cb_final b xs))"
proof (induction xs arbitrary: b)
  case Nil
  then show ?case by simp
next
  case (Cons x xs)
  then show ?case
    using cb_chain_append [OF cb_step_chain [OF Cons.prems]] by (simp add: cb_step_frame)
qed

section \<open>The registry of breakers\<close>

record registry =
  rg_breakers :: "string \<rightharpoonup> breaker"
  rg_config :: circuit_config
  rg_log :: bool

definition NewRegistry :: "circuit_config \<Rightarrow> bool \<Rightarrow> registry" where
  "NewRegistry cfg log = \<lparr>rg_breakers = Map.empty, rg_config = cfg, rg_log = log\<rparr>"

definition fresh_breaker :: "registry \<Rightarrow> string \<Rightarrow> breaker" where
  "fresh_breaker r routeID = SetRouteID (New (rg_config r) (rg_log r)) routeID"

definition Get :: "registry \<Rightarrow> string \<Rightarrow> breaker \<times> registry" where
  "Get r routeID =
     (case rg_breakers r routeID of
        Some b \<Rightarrow> (b, r)
      | None \<Rightarrow> (let b = fresh_breaker r routeID
                 in (b, r\<lparr>rg_breakers := (rg_breakers r)(routeID \<mapsto> b)\<rparr>)))"

definition Remove :: "registry \<Rightarrow> string \<Rightarrow> registry" where
  "Remove r routeID = r\<lparr>rg_breakers := (rg_breakers r)(routeID := None)\<rparr>"

definition Count :: "registry \<Rightarrow> nat" where
  "Count r = card (dom (rg_breakers r))"

text \<open>
  \<open>Get\<close> returns a pointer and the caller then operates on the breaker behind it: \<open>put_breaker\<close> leaves the result
  there, and \<open>reg_run\<close> is a sequence of operations on the breakers of a registry.
\<close>

definition put_breaker :: "registry \<Rightarrow> string \<Rightarrow> breaker \<Rightarrow> registry" where
  "put_breaker r routeID b = r\<lparr>rg_breakers := (rg_breakers r)(routeID \<mapsto> b)\<rparr>"

definition reg_run :: "registry \<Rightarrow> (string \<times> cb_op) list \<Rightarrow> registry" where
  "reg_run = store_run Get put_breaker (\<lambda>b x. fst (snd (cb_step b x)))"

interpretation cbreg: lazy_store rg_breakers Get fresh_breaker put_breaker
  by unfold_locales
    (simp_all add: Get_def put_breaker_def fresh_breaker_def Let_def split: option.split)

lemma cb_final_foldl: "foldl (\<lambda>b x. fst (snd (cb_step b x))) b xs = cb_final b xs"
  by (induction xs arbitrary: b) simp_all

lemma reg_run_projection:
  "fst (Get (reg_run r xs) k) = cb_final (fst (Get r k)) (map snd (filter (\<lambda>x. fst x = k) xs))"
  by (simp only: reg_run_def cbreg.store_run_projection cb_final_foldl)

section \<open>Properties\<close>

text \<open>
  C3: Whatever sequence of successes, failures and admission checks a breaker created by \<open>New\<close>
  goes through (with a configuration that passed validation), it stays well formed: it is closed
  exactly while fewer than \<open>Failures\<close> consecutive failures are recorded, and the number of half-open
  probes is between 0 and \<open>HalfOpenMax\<close>, and 0 outside the half-open state.
\<close>
theorem breaker_invariant:
  assumes "config_ok cfg"
  shows "breaker_inv (cb_final (New cfg notify) xs)"
  using New_inv [OF assms] by (rule cb_run_inv)

theorem breaker_invariant_witness:
  "config_ok \<lparr>cc_Failures = 2, cc_Cooldown = 10, cc_HalfOpenMax = 1\<rparr> \<and>
   breaker_inv (cb_final (New \<lparr>cc_Failures = 2, cc_Cooldown = 10, cc_HalfOpenMax = 1\<rparr> True)
     [OpFailure 1, OpFailure 2, OpAllow 20])"
proof -
  have h: "config_ok \<lparr>cc_Failures = 2, cc_Cooldown = 10, cc_HalfOpenMax = 1\<rparr>"
    by (simp add: config_ok_def)
  show ?thesis using h breaker_invariant [OF h] by blast
qed

text \<open>
  A closed breaker trips exactly at its threshold: after a run of failures with no success in
  between it is still closed if the recorded consecutive failures stay below \<open>Failures\<close>, and open otherwise.
\<close>
theorem breaker_trips_at_threshold:
  assumes "breaker_inv b" and "br_state b = StateClosed"
  shows "br_state (cb_final b (map OpFailure ts)) =
    (if br_failures b + int (length ts) < cc_Failures (br_config b) then StateClosed else StateOpen)"
  using assms by (rule failures_run)

theorem breaker_trips_at_threshold_witness:
  "br_state (cb_final (New \<lparr>cc_Failures = 3, cc_Cooldown = 10, cc_HalfOpenMax = 1\<rparr> True)
      (map OpFailure [1, 2, 3])) = StateOpen"
proof -
  let ?b = "New \<lparr>cc_Failures = 3, cc_Cooldown = 10, cc_HalfOpenMax = 1\<rparr> True"
  have i: "breaker_inv ?b" by (rule New_inv) (simp add: config_ok_def)
  have s: "br_state ?b = StateClosed" by (simp add: New_def)
  show ?thesis
    using breaker_trips_at_threshold [OF i s, of "[1, 2, 3]"] by (simp add: New_def New_config_def)
qed

text \<open>
  C35: While an open breaker is cooling down, no request is let through: whatever operations happen
  before \<open>openedAt + Cooldown\<close> (results of requests still in flight included), every \<open>Allow\<close> answers
  false and the breaker stays open.
\<close>
theorem open_breaker_denies_until_cooldown:
  assumes "br_state b = StateOpen"
    and "\<forall>x \<in> set xs. op_time x < br_openedAt b + cc_Cooldown (br_config b)"
  shows "br_state (cb_final b xs) = StateOpen \<and> True \<notin> set (cb_answers b xs)"
  using assms by (rule cooling_run)

theorem open_breaker_denies_until_cooldown_witness:
  "True \<notin> set (cb_answers (fst (RecordFailure
      (New \<lparr>cc_Failures = 1, cc_Cooldown = 10, cc_HalfOpenMax = 1\<rparr> True) 100))
      [OpAllow 101, OpSuccess 105, OpAllow 109])"
proof -
  let ?b = "fst (RecordFailure (New \<lparr>cc_Failures = 1, cc_Cooldown = 10, cc_HalfOpenMax = 1\<rparr> True) 100)"
  have s: "br_state ?b = StateOpen" by (simp add: New_def New_config_def cb_op_defs)
  have t: "\<forall>x \<in> set [OpAllow 101, OpSuccess 105, OpAllow 109].
      op_time x < br_openedAt ?b + cc_Cooldown (br_config ?b)"
    by (simp add: New_def New_config_def cb_op_defs)
  show ?thesis using open_breaker_denies_until_cooldown [OF s t] by blast
qed

text \<open>
  Once the cooldown is over, an open breaker admits exactly \<open>HalfOpenMax + 1\<close> requests before a
  result is recorded: the request that makes it half-open is admitted without being counted as a probe,
  then \<open>HalfOpenMax\<close> probes are, and every later request is refused.
\<close>
theorem half_open_admits_one_more:
  assumes "breaker_inv b" and "br_state b = StateOpen"
    and "br_openedAt b + cc_Cooldown (br_config b) \<le> t"
  shows "cb_answers b (map OpAllow (t # ts)) =
    (let k = min (length ts + 1) (nat (cc_HalfOpenMax (br_config b)) + 1)
     in replicate k True @ replicate (length ts + 1 - k) False)"
proof -
  let ?b = "b\<lparr>br_state := StateHalfOpen, br_halfOpenProbes := 0\<rparr>"
  have "cb_answers ?b (map OpAllow ts) =
    (let k = min (length ts) (nat (cc_HalfOpenMax (br_config b)))
     in replicate k True @ replicate (length ts - k) False)"
    using half_open_allows [of ?b ts] assms(1) by (simp add: breaker_inv_def)
  then show ?thesis
    using assms(2,3) by (simp add: Allow_def Let_def)
qed

theorem half_open_admits_one_more_witness:
  "cb_answers (fst (RecordFailure
      (New \<lparr>cc_Failures = 1, cc_Cooldown = 10, cc_HalfOpenMax = 1\<rparr> True) 100))
      (map OpAllow [110, 111, 112]) = [True, True, False]"
proof -
  let ?b = "fst (RecordFailure (New \<lparr>cc_Failures = 1, cc_Cooldown = 10, cc_HalfOpenMax = 1\<rparr> True) 100)"
  have i: "breaker_inv ?b"
    using cb_step_inv [OF New_inv, of _ _ "OpFailure 100"] by (simp add: config_ok_def)
  have s: "br_state ?b = StateOpen" by (simp add: New_def New_config_def cb_op_defs)
  have t: "br_openedAt ?b + cc_Cooldown (br_config ?b) \<le> 110"
    by (simp add: New_def New_config_def cb_op_defs)
  have m: "cc_HalfOpenMax (br_config ?b) = 1"
    by (simp add: New_def New_config_def cb_op_defs)
  show ?thesis
    using half_open_admits_one_more [OF i s t, of "[111, 112]"] m by (simp add: numeral_eq_Suc)
qed

text \<open>
  A failed half-open probe does not start a new cooldown: the breaker goes back to open but keeps
  the old \<open>openedAt\<close>, so the very next \<open>Allow\<close>, at any time not before the one that opened the probe
  window, is answered true.
\<close>
theorem failed_probe_keeps_old_cooldown:
  assumes "br_state b = StateOpen"
    and "br_openedAt b + cc_Cooldown (br_config b) \<le> t" and "t \<le> t'"
  shows "br_state (cb_final b [OpAllow t, OpFailure tf]) = StateOpen \<and>
    cb_answers b [OpAllow t, OpFailure tf, OpAllow t'] = [True, True]"
  using assms by (simp add: cb_op_defs)

theorem failed_probe_keeps_old_cooldown_witness:
  "cb_answers (fst (RecordFailure
      (New \<lparr>cc_Failures = 1, cc_Cooldown = 10, cc_HalfOpenMax = 1\<rparr> True) 100))
      [OpAllow 110, OpFailure 111, OpAllow 111] = [True, True]"
proof -
  let ?b = "fst (RecordFailure (New \<lparr>cc_Failures = 1, cc_Cooldown = 10, cc_HalfOpenMax = 1\<rparr> True) 100)"
  have s: "br_state ?b = StateOpen" by (simp add: New_def New_config_def cb_op_defs)
  have t: "br_openedAt ?b + cc_Cooldown (br_config ?b) \<le> 110"
    by (simp add: New_def New_config_def cb_op_defs)
  show ?thesis using failed_probe_keeps_old_cooldown [OF s t, of 111 111] by simp
qed

text \<open>
  The reported state changes tell the whole story: with a callback installed, the changes emitted
  over any run form a chain of legal transitions (closed to open, open to half-open, half-open to closed or
  open) from the first state to the last.
\<close>
theorem reported_changes_form_a_chain:
  assumes "br_notify b"
  shows "cb_chain (br_state b) (cb_events b xs) (br_state (cb_final b xs))"
  using assms by (rule cb_run_chain)

theorem reported_changes_form_a_chain_witness:
  "cb_chain StateClosed (cb_events (New \<lparr>cc_Failures = 1, cc_Cooldown = 10, cc_HalfOpenMax = 1\<rparr> True)
     [OpFailure 1, OpAllow 20, OpSuccess 21]) StateClosed"
proof -
  let ?b = "New \<lparr>cc_Failures = 1, cc_Cooldown = 10, cc_HalfOpenMax = 1\<rparr> True"
  have "br_notify ?b" by (simp add: New_def)
  from reported_changes_form_a_chain [OF this, of "[OpFailure 1, OpAllow 20, OpSuccess 21]"]
  show ?thesis by (simp add: New_def New_config_def cb_op_defs)
qed

text \<open>
  Breakers of different routes do not interfere: in any interleaving of operations through the
  registry, the breaker of a route is the one obtained by running that route's own operations alone.
\<close>
theorem registry_routes_independent:
  "fst (Get (reg_run (NewRegistry cfg log) xs) k) =
     cb_final (SetRouteID (New cfg log) k) (map snd (filter (\<lambda>x. fst x = k) xs))"
  by (simp add: reg_run_projection) (simp add: Get_def NewRegistry_def fresh_breaker_def Let_def)

end
