(* ===== verification/Routes.thy ===== *)
theory Routes
  imports Prelude
begin

text \<open>
  The route table of \<open>core/domain/gateway/route.go\<close>: a trie over path segments with literal children
  and at most one parameter child per node. \<open>buildTrie\<close> inserts the entries of \<open>route_map.json\<close> in order,
  \<open>Lookup\<close> walks the trie for a request. The pointer structure built by the code is a tree without
  sharing, so an in-place update is a functional update along the path.
\<close>

section \<open>Data\<close>

record route_entry =
  re_Path :: string
  re_Method :: string
  re_WorkerID :: string
  re_AuthRoles :: "string list"
  re_Validate :: string
  re_Type :: string

datatype route_node =
  RouteNode (children: "string \<Rightarrow> route_node option") (paramChild: "route_node option")
    (paramName: string) (entries: "string \<Rightarrow> route_entry option")

type_synonym params = "string \<rightharpoonup> string"

text \<open>\<open>RouteMap\<close> holds an atomic pointer to the root; \<open>None\<close> is the nil pointer of a zero \<open>RouteMap\<close>.\<close>

type_synonym route_map = "route_node option"

record lookup_result =
  lr_Entry :: route_entry
  lr_Params :: "params option"

section \<open>Operations\<close>

definition newRouteNode :: route_node where
  "newRouteNode = RouteNode Map.empty None [] Map.empty"

definition splitPath :: "string \<Rightarrow> string list" where
  "splitPath path = filter (\<lambda>p. p \<noteq> []) (Split (CHR ''/'') (Trim (CHR ''/'') path))"

definition copyParams :: "params option \<Rightarrow> params" where
  "copyParams src = (case src of None \<Rightarrow> Map.empty | Some m \<Rightarrow> m)"

fun traverse :: "route_node \<Rightarrow> string list \<Rightarrow> params option \<Rightarrow> (route_node \<times> params option) option" where
  "traverse node [] params = Some (node, params)"
| "traverse node (seg # rest) params =
     (case (case children node seg of None \<Rightarrow> None | Some child \<Rightarrow> traverse child rest params) of
        Some r \<Rightarrow> Some r
      | None \<Rightarrow>
          (case paramChild node of
             None \<Rightarrow> None
           | Some pc \<Rightarrow> traverse pc rest (Some ((copyParams params)(paramName pc \<mapsto> seg)))))"

text \<open>The body of the loop in \<open>buildTrie\<close>: descend along the segments, creating nodes, and store the entry.\<close>

fun insert_route :: "route_node \<Rightarrow> string list \<Rightarrow> route_entry \<Rightarrow> route_node" where
  "insert_route (RouteNode ch pc nm en) [] e =
     RouteNode ch pc nm (en(ToUpper (re_Method e) \<mapsto> e))"
| "insert_route (RouteNode ch pc nm en) (seg # rest) e =
     (if HasPrefix seg '':''
      then (let c = (case pc of Some c \<Rightarrow> c | None \<Rightarrow> RouteNode Map.empty None (drop 1 seg) Map.empty)
            in RouteNode ch (Some (insert_route c rest e)) nm en)
      else (let c = (case ch seg of Some c \<Rightarrow> c | None \<Rightarrow> newRouteNode)
            in RouteNode (ch(seg \<mapsto> insert_route c rest e)) pc nm en))"

definition buildTrie :: "route_entry list \<Rightarrow> route_node" where
  "buildTrie es = foldl (\<lambda>root e. insert_route root (splitPath (re_Path e)) e) newRouteNode es"

definition NewRouteMap :: "route_entry list \<Rightarrow> route_map" where
  "NewRouteMap es = Some (buildTrie es)"

definition Swap :: "route_map \<Rightarrow> route_entry list \<Rightarrow> route_map" where
  "Swap rm es = Some (buildTrie es)"

definition Lookup :: "route_map \<Rightarrow> string \<Rightarrow> string \<Rightarrow> lookup_result option" where
  "Lookup rm meth path =
     (case rm of
        None \<Rightarrow> None
      | Some root \<Rightarrow>
          (case traverse root (splitPath path) None of
             None \<Rightarrow> None
           | Some (node, params) \<Rightarrow>
               (case entries node (ToUpper meth) of
                  None \<Rightarrow> None
                | Some e \<Rightarrow> Some \<lparr>lr_Entry = e, lr_Params = params\<rparr>)))"

section \<open>Path splitting\<close>

lemma splitPath_segments: "s \<in> set (splitPath p) \<Longrightarrow> s \<noteq> [] \<and> CHR ''/'' \<notin> set s"
  by (auto simp: splitPath_def dest: Split_pieces)

lemma Split_Join:
  assumes "\<forall>s \<in> set ss. c \<notin> set s" and "ss \<noteq> []"
  shows "Split c (Join ss [c]) = ss"
  using assms by (induction ss "[c]" rule: Join.induct) (simp_all add: Split_no_sep Split_append)

lemma Join_ends:
  assumes "\<forall>s \<in> set ss. s \<noteq> [] \<and> c \<notin> set s" and "ss \<noteq> []"
  shows "Join ss [c] \<noteq> []" "hd (Join ss [c]) \<noteq> c" "last (Join ss [c]) \<noteq> c"
  using assms
  by (induction ss "[c]" rule: Join.induct) (auto simp: hd_append last_append)

lemma Trim_id: "s \<noteq> [] \<Longrightarrow> hd s \<noteq> c \<Longrightarrow> last s \<noteq> c \<Longrightarrow> Trim c s = s"
proof -
  assume s: "s \<noteq> []" "hd s \<noteq> c" "last s \<noteq> c"
  have "dropWhile (\<lambda>x. x = c) s = s" using s(1,2) by (cases s) simp_all
  moreover have "dropWhile (\<lambda>x. x = c) (rev s) = rev s"
    using s(1,3) by (cases s rule: rev_cases) simp_all
  ultimately show ?thesis by (simp add: Trim_def)
qed

text \<open>Splitting is the inverse of joining non-empty segments, with or without a leading slash.\<close>

lemma splitPath_Join:
  assumes "\<forall>s \<in> set ss. s \<noteq> [] \<and> CHR ''/'' \<notin> set s"
  shows "splitPath (''/'' @ Join ss ''/'') = ss"
proof (cases "ss = []")
  case True
  then show ?thesis by (simp add: splitPath_def Trim_def)
next
  case False
  let ?j = "Join ss ''/''"
  note ends = Join_ends [OF assms False]
  have "Trim (CHR ''/'') (''/'' @ ?j) = Trim (CHR ''/'') ?j"
    by (simp add: Trim_def)
  also have "\<dots> = ?j" using ends by (intro Trim_id) simp_all
  finally have "splitPath (''/'' @ ?j) = filter (\<lambda>p. p \<noteq> []) (Split (CHR ''/'') ?j)"
    by (simp add: splitPath_def)
  also have "\<dots> = filter (\<lambda>p. p \<noteq> []) ss"
    using assms False by (simp add: Split_Join)
  finally show ?thesis using assms by (simp add: filter_id_conv)
qed

section \<open>The trie as a table from patterns to entries\<close>

text \<open>
  A pattern is a list of segments in which \<open>None\<close> stands for a parameter. \<open>node_at\<close> follows a
  pattern through the trie.
\<close>

type_synonym pattern = "string option list"

lemma pattern_cases:
  obtains "q = []" | (lit) s r where "q = Some s # r" | (par) r where "q = None # r"
  by (metis list.exhaust option.exhaust)

definition pseg :: "string \<Rightarrow> string option" where
  "pseg s = (if HasPrefix s '':'' then None else Some s)"

definition pat :: "route_entry \<Rightarrow> pattern" where
  "pat e = map pseg (splitPath (re_Path e))"

fun node_at :: "route_node \<Rightarrow> pattern \<Rightarrow> route_node option" where
  "node_at n [] = Some n"
| "node_at n (Some s # q) = (case children n s of None \<Rightarrow> None | Some c \<Rightarrow> node_at c q)"
| "node_at n (None # q) = (case paramChild n of None \<Rightarrow> None | Some c \<Rightarrow> node_at c q)"

definition entry_at :: "route_node \<Rightarrow> pattern \<Rightarrow> string \<Rightarrow> route_entry option" where
  "entry_at n q m = (case node_at n q of None \<Rightarrow> None | Some x \<Rightarrow> entries x m)"

lemma entry_at_simps [simp]:
  "entry_at n [] m = entries n m"
  "entry_at n (Some s # q) m = (case children n s of None \<Rightarrow> None | Some c \<Rightarrow> entry_at c q m)"
  "entry_at n (None # q) m = (case paramChild n of None \<Rightarrow> None | Some c \<Rightarrow> entry_at c q m)"
  by (simp_all add: entry_at_def split: option.split)

lemma entry_at_empty: "entry_at (RouteNode Map.empty None nm Map.empty) q m = None"
  by (cases q rule: pattern_cases) simp_all

lemma entry_at_insert:
  "entry_at (insert_route n segs e) q m =
     (if q = map pseg segs \<and> m = ToUpper (re_Method e) then Some e else entry_at n q m)"
proof (induction n segs e arbitrary: q rule: insert_route.induct)
  case (1 ch pc nm en e)
  then show ?case by (cases q rule: pattern_cases) simp_all
next
  case (2 ch pc nm en seg rest e)
  show ?case
    using 2 entry_at_empty
    by (cases q rule: pattern_cases)
      (auto simp: pseg_def Let_def newRouteNode_def split: option.splits)
qed

lemma node_at_insert:
  "node_at (insert_route n segs e) q \<noteq> None \<longleftrightarrow>
     node_at n q \<noteq> None \<or> (\<exists>r. map pseg segs = q @ r)"
proof (induction n segs e arbitrary: q rule: insert_route.induct)
  case (1 ch pc nm en e)
  then show ?case by (cases q rule: pattern_cases) simp_all
next
  case (2 ch pc nm en seg rest e)
  have empty: "node_at (RouteNode Map.empty None n Map.empty) q \<noteq> None \<longleftrightarrow> q = []" for n q
    by (cases q rule: pattern_cases) simp_all
  show ?case
    using 2 empty
    by (cases q rule: pattern_cases)
      (auto simp: pseg_def Let_def newRouteNode_def split: option.splits)
qed

text \<open>The entry stored under a pattern and a method is the last one inserted for them.\<close>

definition last_entry :: "route_entry list \<Rightarrow> pattern \<Rightarrow> string \<Rightarrow> route_entry option" where
  "last_entry es q m = find (\<lambda>e. pat e = q \<and> ToUpper (re_Method e) = m) (rev es)"

lemma last_entry_snoc:
  "last_entry (es @ [e]) q m =
     (if pat e = q \<and> ToUpper (re_Method e) = m then Some e else last_entry es q m)"
  by (simp add: last_entry_def)

lemma buildTrie_snoc:
  "buildTrie (es @ [e]) = insert_route (buildTrie es) (splitPath (re_Path e)) e"
  by (simp add: buildTrie_def)

lemma entry_at_buildTrie: "entry_at (buildTrie es) q m = last_entry es q m"
proof (induction es rule: rev_induct)
  case Nil
  show ?case
    using entry_at_empty by (simp add: buildTrie_def newRouteNode_def last_entry_def)
next
  case (snoc e es)
  then show ?case
    by (auto simp: buildTrie_snoc entry_at_insert last_entry_snoc pat_def)
qed

lemma node_at_buildTrie:
  "q \<noteq> [] \<Longrightarrow> node_at (buildTrie es) q \<noteq> None \<longleftrightarrow> (\<exists>e \<in> set es. \<exists>r. pat e = q @ r)"
proof (induction es rule: rev_induct)
  case Nil
  then show ?case
    by (cases q rule: pattern_cases) (simp_all add: buildTrie_def newRouteNode_def)
next
  case (snoc e es)
  from snoc.IH [OF snoc.prems] show ?case
    unfolding buildTrie_snoc node_at_insert pat_def by simp blast
qed

section \<open>The search\<close>

text \<open>A pattern matches a list of segments; literal segments are more specific than parameters.\<close>

fun matches :: "pattern \<Rightarrow> string list \<Rightarrow> bool" where
  "matches [] [] = True"
| "matches (Some t # q) (s # ss) = (t = s \<and> matches q ss)"
| "matches (None # q) (s # ss) = matches q ss"
| "matches _ _ = False"

fun at_least_as_specific :: "pattern \<Rightarrow> pattern \<Rightarrow> bool" where
  "at_least_as_specific (Some s # q) (None # q') = True"
| "at_least_as_specific (None # q) (Some s # q') = False"
| "at_least_as_specific (Some s # q) (Some t # q') = (s = t \<longrightarrow> at_least_as_specific q q')"
| "at_least_as_specific (None # q) (None # q') = at_least_as_specific q q'"
| "at_least_as_specific _ _ = True"

text \<open>
  Reference search over the list of registered patterns: at every segment the patterns that
  continue with that literal are tried first, then those that continue with a parameter.
\<close>

definition continue_with :: "string option \<Rightarrow> pattern list \<Rightarrow> pattern list" where
  "continue_with h qs = map tl (filter (\<lambda>q. q \<noteq> [] \<and> hd q = h) qs)"

fun best_match :: "pattern list \<Rightarrow> string list \<Rightarrow> pattern option" where
  "best_match qs [] = (if qs = [] then None else Some [])"
| "best_match qs (s # ss) =
     (case best_match (continue_with (Some s) qs) ss of
        Some q \<Rightarrow> Some (Some s # q)
      | None \<Rightarrow> map_option (Cons None) (best_match (continue_with None qs) ss))"

lemma continue_with_mem: "q \<in> set (continue_with h qs) \<longleftrightarrow> h # q \<in> set qs"
  by (force simp: continue_with_def image_iff neq_Nil_conv)

lemma continue_with_Nil: "continue_with h qs = [] \<longleftrightarrow> (\<forall>q. h # q \<notin> set qs)"
  using continue_with_mem [of _ h qs] by (metis list.set_intros(1) list.set(1) empty_iff neq_Nil_conv)

text \<open>The reference search returns a matching prefix of a registered pattern, the most specific one.\<close>

lemma best_match_sound:
  "best_match qs ss = Some q \<Longrightarrow> matches q ss \<and> (\<exists>r. q @ r \<in> set qs)"
proof (induction qs ss arbitrary: q rule: best_match.induct)
  case (1 qs)
  then show ?case by (cases qs) (auto split: if_splits)
next
  case (2 qs s ss)
  then show ?case by (fastforce simp: continue_with_mem split: option.splits)
qed

lemma best_match_complete:
  "matches q ss \<Longrightarrow> q @ r \<in> set qs \<Longrightarrow>
    \<exists>q'. best_match qs ss = Some q' \<and> at_least_as_specific q' q"
proof (induction qs ss arbitrary: q rule: best_match.induct)
  case (1 qs)
  then show ?case by (cases q rule: pattern_cases) auto
next
  case (2 qs s ss)
  show ?case
  proof (cases q rule: pattern_cases)
    case (lit t q0)
    with 2(3,4) 2(1) [of q0] show ?thesis by (auto simp: continue_with_mem)
  next
    case (par q0)
    show ?thesis
    proof (cases "best_match (continue_with (Some s) qs) ss")
      case None
      with par 2(3,4) 2(2) [OF None, of q0] show ?thesis by (auto simp: continue_with_mem)
    next
      case (Some a)
      with par show ?thesis by simp
    qed
  qed (use 2(3) in simp)
qed

lemma specific_antisym:
  "matches q ss \<Longrightarrow> matches q' ss \<Longrightarrow> at_least_as_specific q q' \<Longrightarrow> at_least_as_specific q' q \<Longrightarrow> q = q'"
  by (induction q q' arbitrary: ss rule: at_least_as_specific.induct) (auto elim: matches.elims)

text \<open>The trie holds exactly the prefixes of a list of patterns.\<close>

definition trie_of :: "route_node \<Rightarrow> pattern list \<Rightarrow> bool" where
  "trie_of n qs \<longleftrightarrow> (\<forall>q. node_at n q \<noteq> None \<longleftrightarrow> (\<exists>r. q @ r \<in> set qs))"

lemma trie_of_child:
  assumes "trie_of n qs"
  shows "case children n s of None \<Rightarrow> continue_with (Some s) qs = []
                            | Some c \<Rightarrow> trie_of c (continue_with (Some s) qs)"
    and "case paramChild n of None \<Rightarrow> continue_with None qs = []
                            | Some c \<Rightarrow> trie_of c (continue_with None qs)"
proof -
  have "(\<exists>r. h # q @ r \<in> set qs) \<longleftrightarrow> node_at n (h # q) \<noteq> None" for h q
    using assms by (simp add: trie_of_def)
  note this [of "Some s"] this [of None]
  then show "case children n s of None \<Rightarrow> continue_with (Some s) qs = []
                            | Some c \<Rightarrow> trie_of c (continue_with (Some s) qs)"
    and "case paramChild n of None \<Rightarrow> continue_with None qs = []
                            | Some c \<Rightarrow> trie_of c (continue_with None qs)"
    by (auto simp: trie_of_def continue_with_mem continue_with_Nil split: option.split)
      (metis append_Nil)+
qed

text \<open>The parameters bound along a pattern.\<close>

fun binds :: "route_node \<Rightarrow> pattern \<Rightarrow> string list \<Rightarrow> params option \<Rightarrow> params option" where
  "binds n (Some t # q) (s # ss) ps =
     (case children n t of None \<Rightarrow> ps | Some c \<Rightarrow> binds c q ss ps)"
| "binds n (None # q) (s # ss) ps =
     (case paramChild n of
        None \<Rightarrow> ps
      | Some c \<Rightarrow> binds c q ss (Some ((copyParams ps)(paramName c \<mapsto> s))))"
| "binds n _ _ ps = ps"

lemma best_match_empty [simp]: "best_match [] ss = None"
  by (induction ss) (simp_all add: continue_with_def)

lemma traverse_best_match:
  assumes "trie_of n qs" and "qs \<noteq> []"
  shows "traverse n ss ps =
    (case best_match qs ss of None \<Rightarrow> None | Some q \<Rightarrow> Some (the (node_at n q), binds n q ss ps))"
  using assms
proof (induction ss arbitrary: n qs ps)
  case Nil
  then show ?case by simp
next
  case (Cons s ss)
  have lit: "(case children n s of None \<Rightarrow> None | Some c \<Rightarrow> traverse c ss ps) =
    (case best_match (continue_with (Some s) qs) ss of None \<Rightarrow> None
     | Some q \<Rightarrow> Some (the (node_at n (Some s # q)), binds n (Some s # q) (s # ss) ps))"
  proof (cases "children n s")
    case (Some c)
    with trie_of_child(1) [OF Cons.prems(1), of s] have c: "trie_of c (continue_with (Some s) qs)" by simp
    then have "continue_with (Some s) qs \<noteq> []" by (auto simp: trie_of_def dest: spec [of _ "[]"])
    from Cons.IH [OF c this] Some show ?thesis by (simp split: option.split)
  qed (use trie_of_child(1) [OF Cons.prems(1), of s] in simp)
  have par: "(case paramChild n of None \<Rightarrow> None
      | Some c \<Rightarrow> traverse c ss (Some ((copyParams ps)(paramName c \<mapsto> s)))) =
    (case best_match (continue_with None qs) ss of None \<Rightarrow> None
     | Some q \<Rightarrow> Some (the (node_at n (None # q)), binds n (None # q) (s # ss) ps))"
  proof (cases "paramChild n")
    case (Some c)
    with trie_of_child(2) [OF Cons.prems(1)] have c: "trie_of c (continue_with None qs)" by simp
    then have "continue_with None qs \<noteq> []" by (auto simp: trie_of_def dest: spec [of _ "[]"])
    from Cons.IH [OF c this] Some show ?thesis by (simp split: option.split)
  qed (use trie_of_child(2) [OF Cons.prems(1)] in simp)
  show ?case
    using lit par by (simp split: option.splits)
qed

lemma trie_of_buildTrie: "es \<noteq> [] \<Longrightarrow> trie_of (buildTrie es) (map pat es)"
  unfolding trie_of_def
proof
  fix q assume es: "es \<noteq> []"
  show "node_at (buildTrie es) q \<noteq> None \<longleftrightarrow> (\<exists>r. q @ r \<in> set (map pat es))"
  proof (cases "q = []")
    case True
    have "hd es \<in> set es" using es by simp
    with True show ?thesis by auto
  next
    case False
    from node_at_buildTrie [OF this, of es] show ?thesis by (metis (no_types) image_iff set_map)
  qed
qed

section \<open>Lookup\<close>

lemma best_match_node:
  assumes "best_match (map pat es) ss = Some q"
  shows "\<exists>x. node_at (buildTrie es) q = Some x"
proof -
  from assms have "es \<noteq> []" by auto
  with best_match_sound [OF assms] trie_of_buildTrie show ?thesis
    unfolding trie_of_def by blast
qed

lemma Lookup_best_match:
  "Lookup (NewRouteMap es) m p =
     (case best_match (map pat es) (splitPath p) of
        None \<Rightarrow> None
      | Some q \<Rightarrow>
          map_option (\<lambda>e. \<lparr>lr_Entry = e, lr_Params = binds (buildTrie es) q (splitPath p) None\<rparr>)
            (last_entry es q (ToUpper m)))"
proof (cases "es = []")
  case True
  then show ?thesis
    by (cases "splitPath p") (simp_all add: Lookup_def NewRouteMap_def buildTrie_def newRouteNode_def
        del: best_match.simps)
next
  case False
  note t = traverse_best_match [OF trie_of_buildTrie [OF False], simplified, OF False,
      of "splitPath p" None]
  show ?thesis
  proof (cases "best_match (map pat es) (splitPath p)")
    case None
    with t show ?thesis by (simp add: Lookup_def NewRouteMap_def)
  next
    case (Some q)
    then obtain x where x: "node_at (buildTrie es) q = Some x" using best_match_node by blast
    then have "entries x (ToUpper m) = last_entry es q (ToUpper m)"
      using entry_at_buildTrie [of es q] by (simp add: entry_at_def)
    with t Some x show ?thesis
      by (simp add: Lookup_def NewRouteMap_def split: option.split)
  qed
qed

lemma last_entry_SomeD:
  "last_entry es q m = Some e \<Longrightarrow> e \<in> set es \<and> pat e = q \<and> ToUpper (re_Method e) = m"
  by (induction es rule: rev_induct) (auto simp: last_entry_snoc last_entry_def split: if_splits)

lemma last_entry_None: "last_entry es q m = None \<longleftrightarrow> (\<forall>e \<in> set es. \<not> (pat e = q \<and> ToUpper (re_Method e) = m))"
  by (auto simp: last_entry_def find_None_iff)

lemma Lookup_SomeD:
  assumes "Lookup (NewRouteMap es) m p = Some r"
  shows "best_match (map pat es) (splitPath p) = Some (pat (lr_Entry r))"
    and "last_entry es (pat (lr_Entry r)) (ToUpper m) = Some (lr_Entry r)"
    and "lr_Params r = binds (buildTrie es) (pat (lr_Entry r)) (splitPath p) None"
  using assms last_entry_SomeD
  by (fastforce simp: Lookup_best_match split: option.splits)+

subsection \<open>Parameter names\<close>

lemma paramName_insert_keeps:
  "node_at n q = Some c \<Longrightarrow>
    \<exists>c'. node_at (insert_route n segs e) q = Some c' \<and> paramName c' = paramName c"
proof (induction n segs e arbitrary: q rule: insert_route.induct)
  case (1 ch pc nm en e)
  then show ?case by (cases q rule: pattern_cases) auto
next
  case (2 ch pc nm en seg rest e)
  then show ?case
    by (cases q rule: pattern_cases) (auto simp: Let_def split: option.splits)
qed

lemma paramName_insert_new:
  "node_at n (q @ [None]) = None \<Longrightarrow> node_at (insert_route n segs e) (q @ [None]) = Some c \<Longrightarrow>
    paramName c = drop 1 (segs ! length q)"
proof (induction n segs e arbitrary: q rule: insert_route.induct)
  case (1 ch pc nm en e)
  then show ?case by (cases q rule: pattern_cases) auto
next
  case (2 ch pc nm en seg rest e)
  have none: "node_at (RouteNode Map.empty None nm Map.empty) (q @ [None]) = None" for nm q
    by (cases q rule: pattern_cases) simp_all
  have root: "paramName (insert_route x segs e) = paramName x" for x segs
    by (cases x; cases segs) (simp_all add: Let_def)
  show ?case
    using 2 root none
    by (cases q rule: pattern_cases) (auto simp: Let_def newRouteNode_def split: option.splits if_splits)
qed

text \<open>Templates with a common pattern prefix name the parameters of that prefix alike.\<close>

definition names_agree :: "route_entry list \<Rightarrow> bool" where
  "names_agree es \<longleftrightarrow>
     (\<forall>e \<in> set es. \<forall>e' \<in> set es. \<forall>i < length (pat e).
        i < length (pat e') \<longrightarrow> pat e ! i = None \<longrightarrow> take (Suc i) (pat e) = take (Suc i) (pat e') \<longrightarrow>
        splitPath (re_Path e) ! i = splitPath (re_Path e') ! i)"

lemma names_agreeD:
  assumes "names_agree es" "e \<in> set es" "e' \<in> set es"
    and "pat e = q @ None # r" "pat e' = q @ None # r'"
  shows "splitPath (re_Path e) ! length q = splitPath (re_Path e') ! length q"
proof -
  have "pat e ! length q = None" "length q < length (pat e)" "length q < length (pat e')"
    "take (Suc (length q)) (pat e) = take (Suc (length q)) (pat e')"
    using assms(4,5) by (simp_all add: nth_append)
  then show ?thesis using assms(1-3) unfolding names_agree_def by blast
qed

lemma paramName_buildTrie:
  assumes "names_agree es" and "node_at (buildTrie es) (q @ [None]) = Some c"
    and "e \<in> set es" and "pat e = q @ None # r"
  shows "paramName c = drop 1 (splitPath (re_Path e) ! length q)"
  using assms
proof (induction es arbitrary: c e r rule: rev_induct)
  case Nil
  then show ?case by simp
next
  case (snoc f es)
  have agree: "names_agree es" using snoc.prems(1) by (simp add: names_agree_def)
  show ?case
  proof (cases "node_at (buildTrie es) (q @ [None])")
    case None
    then have "paramName c = drop 1 (splitPath (re_Path f) ! length q)"
      using snoc.prems(2) unfolding buildTrie_snoc by (rule paramName_insert_new)
    moreover have "\<exists>r'. pat f = q @ None # r'"
      using snoc.prems(2) None node_at_insert [of "buildTrie es" "splitPath (re_Path f)" f "q @ [None]"]
      by (auto simp: buildTrie_snoc pat_def)
    ultimately show ?thesis
      using names_agreeD [OF snoc.prems(1,3), of f] snoc.prems(4) by auto
  next
    case (Some c0)
    with paramName_insert_keeps [OF this, of "splitPath (re_Path f)" f] snoc.prems(2)
    have same: "paramName c = paramName c0" by (simp add: buildTrie_snoc)
    have "\<exists>g \<in> set es. \<exists>r. pat g = (q @ [None]) @ r"
      using node_at_buildTrie [of "q @ [None]" es] Some by simp
    then obtain g r' where g: "g \<in> set es" "pat g = q @ None # r'" by auto
    from snoc.IH [OF agree Some g] same g names_agreeD [OF snoc.prems(1,3), of g] snoc.prems(4)
    show ?thesis by auto
  qed
qed

text \<open>The parameters a template binds on a list of segments, from left to right.\<close>

fun bind_template :: "string list \<Rightarrow> string list \<Rightarrow> params option \<Rightarrow> params option" where
  "bind_template (t # ts) (s # ss) ps =
     bind_template ts ss (if HasPrefix t '':'' then Some ((copyParams ps)(drop 1 t \<mapsto> s)) else ps)"
| "bind_template _ _ ps = ps"

lemma pseg_param: "HasPrefix t '':'' \<Longrightarrow> pseg t = None"
  and pseg_lit: "\<not> HasPrefix t '':'' \<Longrightarrow> pseg t = Some t"
  by (simp_all add: pseg_def)

lemma binds_template:
  assumes "node_at n (map pseg ts) = Some x"
    and "\<And>q r c. map pseg ts = q @ None # r \<Longrightarrow> node_at n (q @ [None]) = Some c \<Longrightarrow>
      paramName c = drop 1 (ts ! length q)"
  shows "binds n (map pseg ts) ss ps = bind_template ts ss ps"
  using assms
proof (induction ts ss ps arbitrary: n rule: bind_template.induct)
  case (1 t ts s ss ps)
  show ?case
  proof (cases "HasPrefix t '':''")
    case True
    with 1(2) obtain c where c: "paramChild n = Some c" "node_at c (map pseg ts) = Some x"
      by (auto simp: pseg_param pseg_lit split: option.splits)
    have "paramName c = drop 1 t"
      using 1(3) [of "[]"] True c(1) by (simp add: pseg_param pseg_lit)
    moreover have "paramName c' = drop 1 (ts ! length q)"
      if "map pseg ts = q @ None # r" "node_at c (q @ [None]) = Some c'" for q r c'
      using 1(3) [of "None # q" r c'] that True c(1) by (simp add: pseg_param pseg_lit)
    ultimately show ?thesis
      using 1(1) [OF c(2)] True c(1) by (simp add: pseg_param pseg_lit)
  next
    case False
    with 1(2) obtain c where c: "children n t = Some c" "node_at c (map pseg ts) = Some x"
      by (auto simp: pseg_param pseg_lit split: option.splits)
    have "paramName c' = drop 1 (ts ! length q)"
      if "map pseg ts = q @ None # r" "node_at c (q @ [None]) = Some c'" for q r c'
      using 1(3) [of "Some t # q" r c'] that False c(1) by (simp add: pseg_param pseg_lit)
    then show ?thesis
      using 1(1) [OF c(2)] False c(1) by (simp add: pseg_param pseg_lit)
  qed
qed simp_all

lemma matches_literals: "matches (map Some ss) ss"
  by (induction ss) simp_all

lemma literals_most_specific:
  "at_least_as_specific q (map Some ss) \<Longrightarrow> matches q ss \<Longrightarrow> q = map Some ss"
  by (induction q ss rule: matches.induct) simp_all

lemma best_match_literals:
  assumes "map Some ss @ r \<in> set qs"
  shows "best_match qs ss = Some (map Some ss)"
proof -
  obtain q where q: "best_match qs ss = Some q" "at_least_as_specific q (map Some ss)"
    using best_match_complete [OF matches_literals assms] by blast
  with best_match_sound [OF q(1)] show ?thesis by (auto dest: literals_most_specific)
qed

lemma binds_literals: "binds n (map Some ss) ss ps = ps"
  by (induction ss arbitrary: n) (simp_all split: option.split)

section \<open>Properties\<close>

text \<open>
  C2: Looking a request up in the trie built from a list of routes is the same as searching the
  list: the trie search stops at the most specific registered pattern prefix that matches the segments
  (\<open>best_match\<close>), and the entry found is the last one registered for that pattern and the upper-cased
  method.
\<close>
theorem lookup_refines_list_search:
  "map_option lr_Entry (Lookup (NewRouteMap es) m p) =
     (case best_match (map pat es) (splitPath p) of
        None \<Rightarrow> None
      | Some q \<Rightarrow> last_entry es q (ToUpper m))"
  by (simp add: Lookup_best_match option.map_comp comp_def option.map_ident split: option.split)

text \<open>
  A successful lookup is sound and picks the most specific route: the entry is one of the
  registered ones, its method is the request's up to case, its pattern matches the request's segments, and
  every other registered pattern that matches is at most as specific.
\<close>
theorem lookup_most_specific:
  assumes "Lookup rm m p = Some r" and "rm = NewRouteMap es"
  shows "lr_Entry r \<in> set es \<and> ToUpper (re_Method (lr_Entry r)) = ToUpper m \<and>
    matches (pat (lr_Entry r)) (splitPath p) \<and>
    (\<forall>e \<in> set es. matches (pat e) (splitPath p) \<longrightarrow> at_least_as_specific (pat (lr_Entry r)) (pat e))"
proof -
  note L = Lookup_SomeD [OF assms(1) [unfolded assms(2)]]
  have "at_least_as_specific (pat (lr_Entry r)) (pat e)"
    if "e \<in> set es" "matches (pat e) (splitPath p)" for e
    using best_match_complete [OF that(2), of "[]" "map pat es"] that(1) L(1) by simp
  with last_entry_SomeD [OF L(2)] best_match_sound [OF L(1)] show ?thesis by blast
qed

definition ex_routes :: "route_entry list" where
  "ex_routes =
    [\<lparr>re_Path = ''/a/:id'', re_Method = ''GET'', re_WorkerID = ''w1'', re_AuthRoles = [], re_Validate = [], re_Type = ''api''\<rparr>,
     \<lparr>re_Path = ''/a/b'', re_Method = ''post'', re_WorkerID = ''w2'', re_AuthRoles = [], re_Validate = [], re_Type = ''api''\<rparr>]"

lemmas ex_eval = ex_routes_def Lookup_def NewRouteMap_def buildTrie_def newRouteNode_def splitPath_def
  Trim_def HasPrefix_def ToUpper_def upper_char_def copyParams_def pat_def pseg_def
  char_of_def bit_0

theorem lookup_most_specific_witness:
  "\<exists>r. Lookup (NewRouteMap ex_routes) ''POST'' ''/a/b'' = Some r \<and> re_WorkerID (lr_Entry r) = ''w2'' \<and>
    lr_Entry r \<in> set ex_routes"
proof -
  obtain r where r: "Lookup (NewRouteMap ex_routes) ''POST'' ''/a/b'' = Some r"
      "re_WorkerID (lr_Entry r) = ''w2''"
    by (simp add: ex_eval)
  with lookup_most_specific [OF r(1) refl] show ?thesis by blast
qed

text \<open>
  A static route always wins: when an entry is registered for exactly the request's literal
  segments and its method, the lookup returns the last such entry and no parameters, whatever
  parameterised routes also match.
\<close>
theorem static_route_wins:
  assumes "last_entry es (map Some (splitPath p)) (ToUpper m) = Some e"
  shows "Lookup (NewRouteMap es) m p = Some \<lparr>lr_Entry = e, lr_Params = None\<rparr>"
proof -
  have "map Some (splitPath p) \<in> set (map pat es)"
    using last_entry_SomeD [OF assms] by (metis image_eqI set_map)
  then have "best_match (map pat es) (splitPath p) = Some (map Some (splitPath p))"
    by (intro best_match_literals [of _ "[]"]) simp
  with assms show ?thesis by (simp add: Lookup_best_match binds_literals)
qed

theorem static_route_wins_witness:
  "Lookup (NewRouteMap ex_routes) ''Post'' ''/a/b'' = Some \<lparr>lr_Entry = ex_routes ! 1, lr_Params = None\<rparr>"
  by (rule static_route_wins) (simp add: ex_eval last_entry_def)

text \<open>
  When templates that share a pattern prefix name its parameters alike, the parameters of a
  successful lookup are exactly those of the matched entry's own template: each \<open>:name\<close> segment bound to
  the request segment at its position, from left to right, and no map at all when there is none.
\<close>
theorem lookup_binds_own_parameters:
  assumes "Lookup rm m p = Some r" and "rm = NewRouteMap es" and "names_agree es"
  shows "lr_Params r = bind_template (splitPath (re_Path (lr_Entry r))) (splitPath p) None"
proof -
  note L = Lookup_SomeD [OF assms(1) [unfolded assms(2)]]
  note e = last_entry_SomeD [OF L(2)]
  obtain x where x: "node_at (buildTrie es) (pat (lr_Entry r)) = Some x"
    using best_match_node [OF L(1)] by blast
  have "binds (buildTrie es) (map pseg (splitPath (re_Path (lr_Entry r)))) (splitPath p) None =
      bind_template (splitPath (re_Path (lr_Entry r))) (splitPath p) None"
    using x e paramName_buildTrie [OF assms(3)]
    by (intro binds_template [where x = x]) (auto simp: pat_def)
  with L(3) show ?thesis by (simp add: pat_def)
qed

theorem lookup_binds_own_parameters_witness:
  "\<exists>r. Lookup (NewRouteMap ex_routes) ''GET'' ''/a/42'' = Some r \<and> lr_Params r = Some [''id'' \<mapsto> ''42'']"
proof -
  obtain r where r: "Lookup (NewRouteMap ex_routes) ''GET'' ''/a/42'' = Some r"
      "lr_Entry r = ex_routes ! 0"
    by (simp add: ex_eval)
  have "names_agree ex_routes"
    by (simp add: names_agree_def ex_eval less_Suc_eq all_conj_distrib)
  from lookup_binds_own_parameters [OF r(1) refl this] r(2)
  have "lr_Params r = Some [''id'' \<mapsto> ''42'']" by (simp add: ex_eval)
  with r(1) show ?thesis by blast
qed

text \<open>
  The search does not fall back on the method: as soon as some registered route starts with the
  request's literal segments, a method not registered for exactly these literals is answered \<open>not found\<close>,
  even when a parameterised route registered for that method matches the path.
\<close>
theorem no_fallback_from_static_node:
  assumes "e \<in> set es" and "pat e = map Some (splitPath p) @ r"
    and "\<forall>e' \<in> set es. pat e' = map Some (splitPath p) \<longrightarrow> ToUpper (re_Method e') \<noteq> ToUpper m"
  shows "Lookup (NewRouteMap es) m p = None"
proof -
  have "map Some (splitPath p) @ r \<in> set (map pat es)"
    using assms(1,2) by (metis image_eqI set_map)
  then have b: "best_match (map pat es) (splitPath p) = Some (map Some (splitPath p))"
    by (rule best_match_literals)
  have "last_entry es (map Some (splitPath p)) (ToUpper m) = None"
    using assms(3) by (auto simp: last_entry_None)
  with b show ?thesis by (simp add: Lookup_best_match)
qed

theorem no_fallback_from_static_node_witness:
  "Lookup (NewRouteMap ex_routes) ''GET'' ''/a/b'' = None \<and>
   matches (pat (ex_routes ! 0)) (splitPath ''/a/b'') \<and> re_Method (ex_routes ! 0) = ''GET''"
proof -
  have m: "ex_routes ! 1 \<in> set ex_routes" by (simp add: ex_routes_def)
  have p: "pat (ex_routes ! 1) = map Some (splitPath ''/a/b'') @ []" by (simp add: ex_eval)
  have n: "\<forall>e' \<in> set ex_routes. pat e' = map Some (splitPath ''/a/b'') \<longrightarrow>
      ToUpper (re_Method e') \<noteq> ToUpper ''GET''" by (simp add: ex_eval)
  show ?thesis
    using no_fallback_from_static_node [OF m p n] by (simp add: ex_eval)
qed

end
