(* ===== verification/Framing.thy ===== *)
theory Framing
  imports Prelude
begin

unbundle bit_operations_syntax

text \<open>
  The wire protocol between the core and its workers: the message types of
  \<open>core/domain/ipc/message.go\<close>, the binary frames of \<open>core/infrastructure/ipc/framing/framing.go\<close>, and the
  choice of a message type by payload size of \<open>core/infrastructure/ipc/codec/selector.go\<close>. Bytes are
  8-bit words and the length field is a 32-bit word, so that truncation of the length is visible.
\<close>

section \<open>Messages\<close>

type_synonym bytes = "8 word list"
type_synonym message_type = "8 word"

abbreviation (input) TypeRequest :: message_type where "TypeRequest \<equiv> 0x01"
abbreviation (input) TypeResponse :: message_type where "TypeResponse \<equiv> 0x02"
abbreviation (input) TypeHeartbeat :: message_type where "TypeHeartbeat \<equiv> 0x03"
abbreviation (input) TypeError :: message_type where "TypeError \<equiv> 0x04"
abbreviation (input) TypeHandshake :: message_type where "TypeHandshake \<equiv> 0x05"
abbreviation (input) TypeWSOpen :: message_type where "TypeWSOpen \<equiv> 0x06"
abbreviation (input) TypeWSMessage :: message_type where "TypeWSMessage \<equiv> 0x07"
abbreviation (input) TypeWSClose :: message_type where "TypeWSClose \<equiv> 0x08"
abbreviation (input) TypeStreamStart :: message_type where "TypeStreamStart \<equiv> 0x09"
abbreviation (input) TypeStreamChunk :: message_type where "TypeStreamChunk \<equiv> 0x0A"
abbreviation (input) TypeStreamEnd :: message_type where "TypeStreamEnd \<equiv> 0x0B"
abbreviation (input) TypeArrowData :: message_type where "TypeArrowData \<equiv> 0x0C"
abbreviation (input) TypeArrowSHM :: message_type where "TypeArrowSHM \<equiv> 0x0D"

definition MessageType_String :: "message_type \<Rightarrow> string" where
  "MessageType_String t =
     (if t = TypeRequest then ''request''
      else if t = TypeResponse then ''response''
      else if t = TypeHeartbeat then ''heartbeat''
      else if t = TypeError then ''error''
      else if t = TypeHandshake then ''handshake''
      else if t = TypeWSOpen then ''ws_open''
      else if t = TypeWSMessage then ''ws_message''
      else if t = TypeWSClose then ''ws_close''
      else if t = TypeStreamStart then ''stream_start''
      else if t = TypeStreamChunk then ''stream_chunk''
      else if t = TypeStreamEnd then ''stream_end''
      else if t = TypeArrowData then ''arrow_data''
      else if t = TypeArrowSHM then ''arrow_shm''
      else ''unknown(0x'' @ [hex_digit (unat t div 16), hex_digit (unat t mod 16)] @ '')'')"

record message =
  m_Type :: message_type
  m_Payload :: bytes

definition MaxPayloadSize :: nat where
  "MaxPayloadSize = 16 * 2 ^ 20"

record transfer_config =
  tc_ArrowThreshold :: int
  tc_ArrowMMapThreshold :: int
  tc_ArrowStreamingThreshold :: int

abbreviation ErrPayloadTooLarge :: go_error where
  "ErrPayloadTooLarge \<equiv> Sentinel ''ipc: payload exceeds maximum allowed size''"
abbreviation ErrUnknownMessageType :: go_error where
  "ErrUnknownMessageType \<equiv> Sentinel ''ipc: unknown message type''"
abbreviation ErrConnectionClosed :: go_error where
  "ErrConnectionClosed \<equiv> Sentinel ''ipc: connection is closed''"
abbreviation ErrWorkerNotConnected :: go_error where
  "ErrWorkerNotConnected \<equiv> Sentinel ''ipc: worker is not connected''"

section \<open>Standard library: byte order and full reads\<close>

text \<open>\<open>binary.LittleEndian.PutUint32\<close> and \<open>Uint32\<close>.\<close>

definition PutUint32 :: "32 word \<Rightarrow> bytes" where
  "PutUint32 v = [ucast v, ucast (drop_bit 8 v), ucast (drop_bit 16 v), ucast (drop_bit 24 v)]"

definition Uint32 :: "bytes \<Rightarrow> 32 word" where
  "Uint32 b = ucast (b ! 0) OR push_bit 8 (ucast (b ! 1)) OR push_bit 16 (ucast (b ! 2))
     OR push_bit 24 (ucast (b ! 3))"

abbreviation EOF :: go_error where "EOF \<equiv> Sentinel ''EOF''"
abbreviation ErrUnexpectedEOF :: go_error where "ErrUnexpectedEOF \<equiv> Sentinel ''unexpected EOF''"

text \<open>
  \<open>io.ReadFull\<close> on a reader that delivers the bytes \<open>bs\<close> and then the end of the stream: the bytes
  read and those left.
\<close>

definition ReadFull :: "bytes \<Rightarrow> nat \<Rightarrow> go_error + bytes \<times> bytes" where
  "ReadFull bs n =
     (if n \<le> length bs then Inr (take n bs, drop n bs)
      else if bs = [] then Inl EOF else Inl ErrUnexpectedEOF)"

section \<open>Frames\<close>

abbreviation (input) headerSize :: nat where "headerSize \<equiv> 5"

text \<open>
  The frame built by \<open>Write\<close>: \<open>copy\<close> into a buffer of \<open>headerSize + payloadLen\<close> bytes, where \<open>payloadLen\<close> is
  the length modulo \<open>2^32\<close>.
\<close>

definition frame :: "message \<Rightarrow> bytes" where
  "frame msg =
     (let payloadLen = of_nat (length (m_Payload msg)) :: 32 word;
          header = PutUint32 payloadLen @ [m_Type msg]
      in header @ take (unat payloadLen) (m_Payload msg))"

text \<open>\<open>Write\<close> hands the frame to the writer in one call and returns the writer's error.\<close>

definition Write :: "('w \<Rightarrow> bytes \<Rightarrow> 'w \<times> go_error option) \<Rightarrow> 'w \<Rightarrow> message \<Rightarrow> 'w \<times> go_error option" where
  "Write w_Write w msg = w_Write w (frame msg)"

definition validateType :: "message_type \<Rightarrow> go_error option" where
  "validateType t =
     (if t \<in> {TypeRequest, TypeResponse, TypeHeartbeat, TypeError, TypeHandshake, TypeWSOpen,
              TypeWSMessage, TypeWSClose}
      then None else Some ErrUnknownMessageType)"

definition Read :: "bytes \<Rightarrow> go_error + message \<times> bytes" where
  "Read r =
     (case ReadFull r headerSize of
        Inl err \<Rightarrow> Inl (ErrorfW ''framing: read header: '' err)
      | Inr (header, r1) \<Rightarrow>
          (let payloadLen = Uint32 (take 4 header); msgType = header ! 4
           in case validateType msgType of
                Some err \<Rightarrow> Inl err
              | None \<Rightarrow>
                  if MaxPayloadSize < unat payloadLen then Inl ErrPayloadTooLarge
                  else if 0 < unat payloadLen
                  then (case ReadFull r1 (unat payloadLen) of
                          Inl err \<Rightarrow> Inl (ErrorfW ''framing: read payload: '' err)
                        | Inr (payload, r2) \<Rightarrow> Inr (\<lparr>m_Type = msgType, m_Payload = payload\<rparr>, r2))
                  else Inr (\<lparr>m_Type = msgType, m_Payload = []\<rparr>, r1)))"

section \<open>Choice of the message type\<close>

abbreviation (input) defaultArrowThreshold :: int where "defaultArrowThreshold \<equiv> 512 * 1024"
abbreviation (input) defaultMMapThreshold :: int where "defaultMMapThreshold \<equiv> 4 * 1024 * 1024"
abbreviation (input) defaultStreamThreshold :: int where "defaultStreamThreshold \<equiv> 256 * 1024 * 1024"

datatype codec = ArrowCodec | MsgPackCodec

definition SelectCodec :: "int \<Rightarrow> transfer_config \<Rightarrow> codec" where
  "SelectCodec payloadSize cfg =
     (let threshold = (if 0 < tc_ArrowThreshold cfg then tc_ArrowThreshold cfg else defaultArrowThreshold)
      in if threshold \<le> payloadSize then ArrowCodec else MsgPackCodec)"

definition SelectMessageType :: "int \<Rightarrow> transfer_config \<Rightarrow> message_type" where
  "SelectMessageType payloadSize cfg =
     (let threshold = (if 0 < tc_ArrowThreshold cfg then tc_ArrowThreshold cfg else defaultArrowThreshold);
          mmapThreshold = (if 0 < tc_ArrowMMapThreshold cfg then tc_ArrowMMapThreshold cfg
                           else defaultMMapThreshold);
          streamThreshold = (if 0 < tc_ArrowStreamingThreshold cfg then tc_ArrowStreamingThreshold cfg
                             else defaultStreamThreshold)
      in if payloadSize < threshold then TypeRequest
         else if streamThreshold \<le> payloadSize then TypeStreamStart
         else if mmapThreshold \<le> payloadSize then TypeArrowSHM
         else TypeArrowData)"

section \<open>Byte order\<close>

lemma length_PutUint32 [simp]: "length (PutUint32 v) = 4"
  by (simp add: PutUint32_def)

lemma Uint32_PutUint32: "Uint32 (PutUint32 v) = v"
proof (rule bit_word_eqI)
  fix n assume "n < LENGTH(32)"
  then have "n < 8 \<or> 8 \<le> n \<and> n < 16 \<or> 16 \<le> n \<and> n < 24 \<or> 24 \<le> n \<and> n < 32" by auto
  then show "bit (Uint32 (PutUint32 v)) n = bit v n"
    by (auto simp: Uint32_def PutUint32_def bit_simps)
qed

lemma PutUint32_Uint32:
  assumes "length b = 4"
  shows "PutUint32 (Uint32 b) = b"
proof -
  obtain w x y z where b: "b = [w, x, y, z]"
    using assms by (auto simp: numeral_eq_Suc length_Suc_conv)
  have "ucast (Uint32 b) = w"
    by (rule bit_word_eqI) (auto simp: b Uint32_def bit_simps dest: bit_imp_le_length)
  moreover have "ucast (drop_bit 8 (Uint32 b)) = x"
    by (rule bit_word_eqI) (auto simp: b Uint32_def bit_simps dest: bit_imp_le_length)
  moreover have "ucast (drop_bit 16 (Uint32 b)) = y"
    by (rule bit_word_eqI) (auto simp: b Uint32_def bit_simps dest: bit_imp_le_length)
  moreover have "ucast (drop_bit 24 (Uint32 b)) = z"
    by (rule bit_word_eqI) (auto simp: b Uint32_def bit_simps dest: bit_imp_le_length)
  ultimately show ?thesis by (simp add: PutUint32_def b)
qed

section \<open>Encoding and decoding\<close>

definition wire_ok :: "message \<Rightarrow> bool" where
  "wire_ok m \<longleftrightarrow> validateType (m_Type m) = None \<and> length (m_Payload m) \<le> MaxPayloadSize"

lemma unat_len32:
  "n < 2 ^ 32 \<Longrightarrow> unat (of_nat n :: 32 word) = n"
  by (simp add: unat_of_nat take_bit_eq_mod)

lemma frame_small:
  assumes "length (m_Payload m) < 2 ^ 32"
  shows "frame m = PutUint32 (of_nat (length (m_Payload m))) @ m_Type m # m_Payload m"
  using unat_len32 [OF assms] by (simp add: frame_def Let_def)

lemma frame_wire_ok:
  "wire_ok m \<Longrightarrow> frame m = PutUint32 (of_nat (length (m_Payload m))) @ m_Type m # m_Payload m"
  by (rule frame_small) (simp add: wire_ok_def MaxPayloadSize_def)

text \<open>A frame whose header announces the payload that follows is read back; \<open>Read\<close> looks no further.\<close>

lemma Read_header:
  assumes "length h = 4"
  shows "Read (h @ t # bs) =
    (case validateType t of
       Some err \<Rightarrow> Inl err
     | None \<Rightarrow>
         if MaxPayloadSize < unat (Uint32 h) then Inl ErrPayloadTooLarge
         else if unat (Uint32 h) \<le> length bs
         then Inr (\<lparr>m_Type = t, m_Payload = take (unat (Uint32 h)) bs\<rparr>, drop (unat (Uint32 h)) bs)
         else Inl (ErrorfW ''framing: read payload: '' (if bs = [] then EOF else ErrUnexpectedEOF)))"
  using assms by (simp add: Read_def ReadFull_def nth_append Let_def split: option.split)

lemma Read_short: "length bs < headerSize \<Longrightarrow>
    Read bs = Inl (ErrorfW ''framing: read header: '' (if bs = [] then EOF else ErrUnexpectedEOF))"
  by (simp add: Read_def ReadFull_def)

lemma Read_frame:
  assumes "wire_ok m"
  shows "Read (frame m @ rest) = Inr (m, rest)"
proof -
  have len: "unat (of_nat (length (m_Payload m)) :: 32 word) = length (m_Payload m)"
    using assms by (intro unat_len32) (simp add: wire_ok_def MaxPayloadSize_def)
  show ?thesis
    using assms len
    by (simp add: frame_wire_ok Read_header Uint32_PutUint32 wire_ok_def)
qed

lemma Read_SomeD:
  assumes "Read bs = Inr (m, rest)"
  shows "wire_ok m \<and> bs = frame m @ rest"
proof -
  have "headerSize \<le> length bs" using assms Read_short [of bs] by (cases "headerSize \<le> length bs") simp_all
  then have "bs = take 4 bs @ bs ! 4 # drop 5 bs" "length (take 4 bs) = 4"
    using id_take_nth_drop [of 4 bs] by simp_all
  then obtain h t ds where bs: "bs = h @ t # ds" "length h = 4" by blast
  let ?n = "unat (Uint32 h)"
  have r: "validateType t = None" "?n \<le> MaxPayloadSize" "?n \<le> length ds"
      "m = \<lparr>m_Type = t, m_Payload = take ?n ds\<rparr>" "rest = drop ?n ds"
    using assms by (auto simp: bs Read_header split: option.splits if_splits)
  then have ok: "wire_ok m" by (simp add: wire_ok_def)
  have "frame m = h @ t # take ?n ds"
    unfolding frame_wire_ok [OF ok] using r(3,4) bs(2) by (simp add: PutUint32_Uint32)
  with ok r(5) bs show ?thesis by simp
qed

lemma length_frame: "headerSize \<le> length (frame m)"
  by (simp add: frame_def Let_def)

section \<open>Interface: a self-delimiting codec\<close>

text \<open>
  What a stream connection needs of its frame format: a decoded frame is one that was encoded, and it is
  delimited by its own bytes. A reader that calls the decoder repeatedly then recovers the
  sequence of messages sent.
\<close>

fun read_frames :: "('b list \<Rightarrow> 'e + 'm \<times> 'b list) \<Rightarrow> nat \<Rightarrow> 'b list \<Rightarrow> 'e + 'm list \<times> 'b list" where
  "read_frames dec 0 bs = Inr ([], bs)"
| "read_frames dec (Suc n) bs =
     (case dec bs of
        Inl e \<Rightarrow> Inl e
      | Inr (m, bs') \<Rightarrow>
          (case read_frames dec n bs' of Inl e \<Rightarrow> Inl e | Inr (ms, r) \<Rightarrow> Inr (m # ms, r)))"

locale frame_codec =
  fixes enc :: "'m \<Rightarrow> 'b list"
    and dec :: "'b list \<Rightarrow> 'e + 'm \<times> 'b list"
    and ok :: "'m \<Rightarrow> bool"
  assumes dec_enc: "ok m \<Longrightarrow> dec (enc m @ rest) = Inr (m, rest)"
    and dec_sound: "dec bs = Inr (m, rest) \<Longrightarrow> ok m \<and> bs = enc m @ rest"
begin

lemma dec_iff: "dec bs = Inr (m, rest) \<longleftrightarrow> ok m \<and> bs = enc m @ rest"
  using dec_enc dec_sound by blast

lemma read_frames_enc:
  "\<forall>m \<in> set ms. ok m \<Longrightarrow>
    read_frames dec (length ms) (concat (map enc ms) @ rest) = Inr (ms, rest)"
  by (induction ms) (simp_all add: dec_enc)

lemma read_frames_sound:
  "read_frames dec n bs = Inr (ms, rest) \<Longrightarrow>
    length ms = n \<and> (\<forall>m \<in> set ms. ok m) \<and> bs = concat (map enc ms) @ rest"
proof (induction n arbitrary: bs ms)
  case 0
  then show ?case by simp
next
  case (Suc n)
  then obtain m bs' ms' where "dec bs = Inr (m, bs')" "read_frames dec n bs' = Inr (ms', rest)"
      "ms = m # ms'"
    by (auto split: sum.splits)
  with Suc.IH [of bs' ms'] dec_sound show ?case by auto
qed

lemma enc_inj: "ok m \<Longrightarrow> ok m' \<Longrightarrow> enc m @ r = enc m' @ r' \<Longrightarrow> m = m' \<and> r = r'"
  by (metis Pair_inject dec_enc sum.inject(2))

end

interpretation wire: frame_codec frame Read wire_ok
  by unfold_locales (use Read_frame Read_SomeD in blast)+

section \<open>Properties\<close>

text \<open>
  C7: The frame format is a bijection between acceptable messages and their encodings: \<open>Read\<close>
  returns a message and a rest of the stream exactly when the message has a known type and at most 16 MiB of
  payload and the stream is that message's frame followed by the rest.
\<close>
theorem read_iff_frame:
  "Read bs = Inr (m, rest) \<longleftrightarrow>
     (validateType (m_Type m) = None \<and> length (m_Payload m) \<le> MaxPayloadSize) \<and> bs = frame m @ rest"
  using wire.dec_iff [of bs m rest] by (simp add: wire_ok_def)

text \<open>
  A connection carries sequences of messages faithfully: reading as many frames as were written
  one after the other gives the same messages in the same order and leaves the bytes that follow.
\<close>
theorem frames_round_trip:
  assumes "\<forall>m \<in> set ms. wire_ok m"
  shows "read_frames Read (length ms)
      (fst (foldl (\<lambda>(w, e) m. Write (\<lambda>w bs. (w @ bs, None)) w m) ([], None) ms) @ rest) = Inr (ms, rest)"
proof -
  have "fst (foldl (\<lambda>(w, e) m. Write (\<lambda>w bs. (w @ bs, None)) w m) (w, e) ms) = w @ concat (map frame ms)"
    for w and e :: "go_error option"
    by (induction ms arbitrary: w e) (simp_all add: Write_def)
  with wire.read_frames_enc [OF assms] show ?thesis by simp
qed

theorem frames_round_trip_witness:
  "read_frames Read 2
      (fst (foldl (\<lambda>(w, e) m. Write (\<lambda>w bs. (w @ bs, None)) w m) ([], None)
        [\<lparr>m_Type = TypeRequest, m_Payload = [1, 2]\<rparr>, \<lparr>m_Type = TypeHeartbeat, m_Payload = []\<rparr>]) @ [9]) =
    Inr ([\<lparr>m_Type = TypeRequest, m_Payload = [1, 2]\<rparr>, \<lparr>m_Type = TypeHeartbeat, m_Payload = []\<rparr>], [9])"
proof -
  let ?ms = "[\<lparr>m_Type = TypeRequest, m_Payload = [1, 2]\<rparr>, \<lparr>m_Type = TypeHeartbeat, m_Payload = []\<rparr>]"
  have "\<forall>m \<in> set ?ms. wire_ok m" by (simp add: wire_ok_def validateType_def MaxPayloadSize_def)
  from frames_round_trip [OF this, of "[9]"] show ?thesis by (simp add: numeral_2_eq_2)
qed

text \<open>
  Every way a read can fail, from the first bytes of the stream: fewer than five bytes are a header
  error, an unknown type is refused before the length is looked at, a length above 16 MiB is refused before
  any payload is read, and a payload cut short is a payload error; otherwise the message is returned.
\<close>
theorem read_error_order:
  assumes "length h = 4"
  shows "(\<forall>k < 5. Read (take k (h @ [t])) =
        Inl (ErrorfW ''framing: read header: '' (if k = 0 then EOF else ErrUnexpectedEOF))) \<and>
    Read (h @ t # bs) =
     (if validateType t \<noteq> None then Inl ErrUnknownMessageType
      else if MaxPayloadSize < unat (Uint32 h) then Inl ErrPayloadTooLarge
      else if length bs < unat (Uint32 h)
      then Inl (ErrorfW ''framing: read payload: '' (if bs = [] then EOF else ErrUnexpectedEOF))
      else Inr (\<lparr>m_Type = t, m_Payload = take (unat (Uint32 h)) bs\<rparr>, drop (unat (Uint32 h)) bs))"
proof (intro conjI allI impI)
  fix k :: nat assume "k < 5"
  then show "Read (take k (h @ [t])) =
      Inl (ErrorfW ''framing: read header: '' (if k = 0 then EOF else ErrUnexpectedEOF))"
    using assms Read_short [of "take k (h @ [t])"] by auto
qed (use assms in \<open>simp add: Read_header validateType_def not_less\<close>)

theorem read_error_order_witness:
  "Read (take 3 ([0, 0, 0, 0] @ [TypeRequest])) = Inl (ErrorfW ''framing: read header: '' ErrUnexpectedEOF) \<and>
   Read ([2, 0, 0, 0] @ TypeRequest # [7]) = Inl (ErrorfW ''framing: read payload: '' ErrUnexpectedEOF)"
  using read_error_order [of "[0, 0, 0, 0]" TypeRequest "[]", THEN conjunct1, THEN spec, of 3]
    read_error_order [of "[2, 0, 0, 0]" TypeRequest "[7]"]
  by (simp add: validateType_def Uint32_def MaxPayloadSize_def)

text \<open>
  Large transfers cannot cross the wire: whenever \<open>SelectMessageType\<close> chooses anything but a plain
  request, that is from the Arrow threshold on, the frame written with the chosen type is refused by
  \<open>Read\<close> as an unknown message type.
\<close>
theorem selected_large_types_are_refused:
  assumes "(if 0 < tc_ArrowThreshold cfg then tc_ArrowThreshold cfg else defaultArrowThreshold) \<le> n"
  shows "Read (frame \<lparr>m_Type = SelectMessageType n cfg, m_Payload = p\<rparr> @ rest) = Inl ErrUnknownMessageType"
proof -
  have "validateType (SelectMessageType n cfg) = Some ErrUnknownMessageType"
    using assms by (auto simp: SelectMessageType_def validateType_def Let_def)
  then show ?thesis by (simp add: frame_def Let_def Read_header)
qed

theorem selected_large_types_are_refused_witness:
  "Read (frame \<lparr>m_Type = SelectMessageType 600000
      \<lparr>tc_ArrowThreshold = 0, tc_ArrowMMapThreshold = 0, tc_ArrowStreamingThreshold = 0\<rparr>, m_Payload = [1]\<rparr> @ []) =
    Inl ErrUnknownMessageType"
  by (rule selected_large_types_are_refused) simp

end
