(* ===== verification/Streams.thy ===== *)
theory Streams
  imports Framing
begin

text \<open>
  Streaming transfers, \<open>core/infrastructure/ipc/codec/stream.go\<close>: \<open>StreamSplitter.Split\<close> cuts a payload into
  start, chunk and end messages, \<open>StreamAssembler.Feed\<close> puts them together again. The decoding of the
  two small JSON payloads (\<open>encoding/json\<close>) is a parameter of \<open>Feed\<close>; the laws used of it are hypotheses of
  the theorems.
\<close>

section \<open>Splitting\<close>

fun dec_digits :: "nat \<Rightarrow> string" where
  "dec_digits n = (if n < 10 then [char_of (48 + n)] else dec_digits (n div 10) @ [char_of (48 + n mod 10)])"

declare dec_digits.simps [simp del]

definition bytes_of :: "string \<Rightarrow> bytes" where
  "bytes_of s = map (\<lambda>c. of_nat (of_char c)) s"

abbreviation (input) defaultChunkSize :: int where "defaultChunkSize \<equiv> 2 ^ 20"

record chunk_config =
  ck_ChunkSize :: int

definition NewStreamSplitter :: chunk_config where
  "NewStreamSplitter = \<lparr>ck_ChunkSize = defaultChunkSize\<rparr>"

definition start_payload :: "string \<Rightarrow> nat \<Rightarrow> bytes" where
  "start_payload streamID totalLen =
     bytes_of (''{\"stream_id\":\"'' @ streamID @ ''\",\"total_size\":'' @ dec_digits totalLen @ ''}'')"

definition end_payload :: "string \<Rightarrow> bytes" where
  "end_payload streamID = bytes_of (''{\"stream_id\":\"'' @ streamID @ ''\"}'')"

text \<open>The loop over the offsets, with \<open>sz > 0\<close>: the payload from the current offset on.\<close>

function split_chunks :: "nat \<Rightarrow> bytes \<Rightarrow> message list" where
  "split_chunks sz payload =
     (if payload = [] \<or> sz = 0 then []
      else \<lparr>m_Type = TypeStreamChunk, m_Payload = take sz payload\<rparr> # split_chunks sz (drop sz payload))"
  by auto
termination by (relation "measure (\<lambda>(_, p). length p)") auto

declare split_chunks.simps [simp del]

definition StreamSplit :: "chunk_config \<Rightarrow> string \<Rightarrow> bytes \<Rightarrow> message list" where
  "StreamSplit cfg streamID payload =
     (let sz = (if ck_ChunkSize cfg \<le> 0 then defaultChunkSize else ck_ChunkSize cfg)
      in [\<lparr>m_Type = TypeStreamStart, m_Payload = start_payload streamID (length payload)\<rparr>]
         @ split_chunks (nat sz) payload
         @ [\<lparr>m_Type = TypeStreamEnd, m_Payload = end_payload streamID\<rparr>])"

section \<open>Assembling\<close>

record stream_state =
  ss_totalSize :: int
  ss_received :: int
  ss_chunks :: "bytes list"

type_synonym assembler = "string \<rightharpoonup> stream_state"

definition NewStreamAssembler :: assembler where
  "NewStreamAssembler = Map.empty"

text \<open>
  The outcome of \<open>Feed\<close>: bytes or nil, an error, or the run-time panic of \<open>make([]byte, 0, n)\<close> for a
  negative \<open>n\<close> or one above the \<open>2^48\<close> bytes the Go allocator can address.
\<close>

datatype feed_result = Fed "bytes option" | FeedError go_error | FeedPanic

definition Feed ::
  "(bytes \<Rightarrow> go_error + string \<times> int) \<Rightarrow> (bytes \<Rightarrow> go_error + string) \<Rightarrow> assembler \<Rightarrow> message \<Rightarrow>
    feed_result \<times> assembler" where
  "Feed parse_start parse_end a msg =
     (if m_Type msg = TypeStreamStart then
        (case parse_start (m_Payload msg) of
           Inl err \<Rightarrow> (FeedError (ErrorfW ''stream: parse start: '' err), a)
         | Inr (sid, n) \<Rightarrow>
             if sid = [] then (FeedError (Errorf ''stream: empty stream_id in start message''), a)
             else (Fed None, a(sid \<mapsto> \<lparr>ss_totalSize = n, ss_received = 0, ss_chunks = []\<rparr>)))
      else if m_Type msg = TypeStreamChunk then
        (Fed None, \<lambda>i. map_option (\<lambda>st. st\<lparr>ss_chunks := ss_chunks st @ [m_Payload msg],
                                          ss_received := ss_received st + int (length (m_Payload msg))\<rparr>) (a i))
      else if m_Type msg = TypeStreamEnd then
        (case parse_end (m_Payload msg) of
           Inl err \<Rightarrow> (FeedError (ErrorfW ''stream: parse end: '' err), a)
         | Inr sid \<Rightarrow>
             (case a sid of
                None \<Rightarrow> (FeedError (Errorf (''stream: unknown stream '' @ sid)), a)
              | Some st \<Rightarrow>
                  (let a' = a(sid := None)
                   in if ss_totalSize st < 0 \<or> 2 ^ 48 < ss_totalSize st then (FeedPanic, a')
                      else (Fed (Some (concat (ss_chunks st))), a'))))
      else (Fed None, a))"

text \<open>Feeding a list of messages: the result of the last one.\<close>

fun feed_all ::
  "(bytes \<Rightarrow> go_error + string \<times> int) \<Rightarrow> (bytes \<Rightarrow> go_error + string) \<Rightarrow> assembler \<Rightarrow> message list \<Rightarrow>
    feed_result list \<times> assembler" where
  "feed_all ps pe a [] = ([], a)"
| "feed_all ps pe a (m # ms) =
     (case Feed ps pe a m of (r, a') \<Rightarrow> case feed_all ps pe a' ms of (rs, a'') \<Rightarrow> (r # rs, a''))"

section \<open>Lemmas\<close>

lemma split_chunks_Nil [simp]: "split_chunks sz [] = []"
  by (simp add: split_chunks.simps)

lemma split_chunks_concat: "0 < sz \<Longrightarrow> concat (map m_Payload (split_chunks sz p)) = p"
proof (induction sz p rule: split_chunks.induct)
  case (1 sz payload)
  then show ?case by (cases "payload = []"; simp add: split_chunks.simps [of sz payload])
qed

lemma split_chunks_chunk:
  "m \<in> set (split_chunks sz p) \<Longrightarrow>
    m_Type m = TypeStreamChunk \<and> m_Payload m \<noteq> [] \<and> length (m_Payload m) \<le> sz"
proof (induction sz p rule: split_chunks.induct)
  case (1 sz payload)
  then show ?case
    by (auto simp: split_chunks.simps [of sz payload] split: if_splits)
qed

lemma feed_all_append:
  "feed_all ps pe a (ms @ ns) =
     (case feed_all ps pe a ms of (rs, a') \<Rightarrow> case feed_all ps pe a' ns of (rs', a'') \<Rightarrow> (rs @ rs', a''))"
  by (induction ms arbitrary: a) (simp_all add: split_beta)

definition add_chunks :: "bytes list \<Rightarrow> stream_state \<Rightarrow> stream_state" where
  "add_chunks cs st = st\<lparr>ss_chunks := ss_chunks st @ cs,
     ss_received := ss_received st + int (length (concat cs))\<rparr>"

lemma feed_chunks:
  assumes "\<forall>m \<in> set ms. m_Type m = TypeStreamChunk"
  shows "feed_all ps pe a ms =
    (replicate (length ms) (Fed None), \<lambda>i. map_option (add_chunks (map m_Payload ms)) (a i))"
  using assms
proof (induction ms arbitrary: a)
  case Nil
  then show ?case by (simp add: add_chunks_def option.map_ident)
next
  case (Cons m ms)
  then show ?case
    by (simp add: Feed_def option.map_comp comp_def add_chunks_def algebra_simps)
qed

section \<open>Properties\<close>

text \<open>
  C37: A split payload is reassembled: feeding the messages of \<open>Split\<close> in order to an assembler returns
  nothing until the last one, which returns the original payload and removes the stream; other streams keep
  their identifiers. The laws used of the JSON decoder are that it reads back the two payloads \<open>Split\<close> builds.
\<close>
theorem split_feed_round_trip:
  assumes "parse_start (start_payload sid (length p)) = Inr (sid, int (length p))"
    and "parse_end (end_payload sid) = Inr sid"
    and "sid \<noteq> []" and "length p \<le> 2 ^ 48"
  shows "\<exists>k a'. feed_all parse_start parse_end a (StreamSplit cfg sid p) =
      (replicate k (Fed None) @ [Fed (Some p)], a') \<and> dom a' = dom a - {sid}"
proof -
  let ?sz = "nat (if ck_ChunkSize cfg \<le> 0 then defaultChunkSize else ck_ChunkSize cfg)"
  let ?cs = "split_chunks ?sz p"
  have sz: "0 < ?sz" by simp
  have chunks: "\<forall>m \<in> set ?cs. m_Type m = TypeStreamChunk" using split_chunks_chunk by blast
  let ?a1 = "a(sid \<mapsto> \<lparr>ss_totalSize = int (length p), ss_received = 0, ss_chunks = []\<rparr>)"
  let ?a2 = "\<lambda>i. map_option (add_chunks (map m_Payload ?cs)) (?a1 i)"
  have "feed_all parse_start parse_end a (StreamSplit cfg sid p) =
      (Fed None # replicate (length ?cs) (Fed None) @ [Fed (Some p)], ?a2(sid := None))"
    using assms split_chunks_concat [OF sz, of p] feed_chunks [OF chunks, of parse_start parse_end ?a1]
    by (simp add: StreamSplit_def Let_def feed_all_append Feed_def add_chunks_def)
  moreover have "dom (?a2(sid := None)) = dom a - {sid}" by (auto simp: dom_def)
  ultimately show ?thesis
    by (metis append_Cons replicate_Suc)
qed

theorem split_feed_round_trip_witness:
  "\<exists>k a'. feed_all (\<lambda>_. Inr (''s'', 3)) (\<lambda>_. Inr ''s'') NewStreamAssembler
      (StreamSplit \<lparr>ck_ChunkSize = 2\<rparr> ''s'' [1, 2, 3]) = (replicate k (Fed None) @ [Fed (Some [1, 2, 3])], a') \<and>
      dom a' = dom NewStreamAssembler - {''s''}"
  by (rule split_feed_round_trip) simp_all

text \<open>
  The cut is exact: the chunk messages of a split are non-empty, none is longer than the
  configured chunk size (1 MiB when it is not positive), and together they are the payload.
\<close>
theorem split_chunks_partition:
  "\<exists>cs. map m_Type (StreamSplit cfg sid p) =
       TypeStreamStart # replicate (length cs) TypeStreamChunk @ [TypeStreamEnd] \<and>
     map m_Payload (StreamSplit cfg sid p) = start_payload sid (length p) # cs @ [end_payload sid] \<and>
     concat cs = p \<and> [] \<notin> set cs \<and>
     list_all (\<lambda>c. int (length c) \<le> (if ck_ChunkSize cfg \<le> 0 then 2 ^ 20 else ck_ChunkSize cfg)) cs"
proof -
  let ?sz = "nat (if ck_ChunkSize cfg \<le> 0 then 2 ^ 20 else ck_ChunkSize cfg)"
  let ?cs = "split_chunks ?sz p"
  have "map m_Type ?cs = replicate (length ?cs) TypeStreamChunk"
    using split_chunks_chunk by (auto simp: map_eq_conv simp flip: map_replicate_const)
  moreover have "list_all (\<lambda>c. int (length c) \<le> (if ck_ChunkSize cfg \<le> 0 then 2 ^ 20 else ck_ChunkSize cfg))
      (map m_Payload ?cs)"
    using split_chunks_chunk [of _ ?sz p] by (fastforce simp: list_all_iff)
  moreover have "[] \<notin> set (map m_Payload ?cs)"
    using split_chunks_chunk [of _ ?sz p] by force
  ultimately show ?thesis
    using split_chunks_concat [of ?sz p]
    by (intro exI [of _ "map m_Payload ?cs"]) (auto simp: StreamSplit_def Let_def)
qed

text \<open>
  Interleaved streams are mixed up: a chunk carries no stream identifier and is appended to every open
  stream, so the stream that ends after \<open>n\<close> foreign chunks returns them as part of its own payload.
\<close>
theorem interleaved_streams_mixed:
  assumes "a sid = Some st" and "0 \<le> ss_totalSize st" and "ss_totalSize st \<le> 2 ^ 48"
    and "\<forall>m \<in> set ms. m_Type m = TypeStreamChunk" and "parse_end e = Inr sid"
  shows "last (fst (feed_all parse_start parse_end a (ms @ [\<lparr>m_Type = TypeStreamEnd, m_Payload = e\<rparr>]))) =
    Fed (Some (concat (ss_chunks st) @ concat (map m_Payload ms)))"
  using assms by (simp add: feed_all_append feed_chunks Feed_def add_chunks_def Let_def)

theorem interleaved_streams_mixed_witness:
  "last (fst (feed_all (\<lambda>_. Inl EOF) (\<lambda>_. Inr ''b'')
      [''a'' \<mapsto> \<lparr>ss_totalSize = 1, ss_received = 0, ss_chunks = []\<rparr>,
       ''b'' \<mapsto> \<lparr>ss_totalSize = 1, ss_received = 1, ss_chunks = [[7]]\<rparr>]
      ([\<lparr>m_Type = TypeStreamChunk, m_Payload = [9]\<rparr>] @ [\<lparr>m_Type = TypeStreamEnd, m_Payload = []\<rparr>]))) =
    Fed (Some (concat [[7]] @ concat (map m_Payload [\<lparr>m_Type = TypeStreamChunk, m_Payload = [9]\<rparr>])))"
  using interleaved_streams_mixed [where a = "[''a'' \<mapsto> \<lparr>ss_totalSize = 1, ss_received = 0, ss_chunks = []\<rparr>,
       ''b'' \<mapsto> \<lparr>ss_totalSize = 1, ss_received = 1, ss_chunks = [[7]]\<rparr>]" and sid = "''b''"
      and ms = "[\<lparr>m_Type = TypeStreamChunk, m_Payload = [9]\<rparr>]" and e = "[]"
      and parse_end = "\<lambda>_. Inr ''b''" and parse_start = "\<lambda>_. Inl EOF"]
  by simp

end
