(* ===== verification/Workers.thy ===== *)
theory Workers
  imports Prelude
begin

text \<open>
  Workers, their repository and the tracking of their in-flight requests: the entity and the events of
  \<open>core/domain/worker\<close>, the store of \<open>core/infrastructure/repository/memory_worker_repository.go\<close> and the
  \<open>WorkerDrainer\<close> of \<open>core/application/lifecycle/drainer.go\<close>. The repository copies workers on the way in and
  on the way out, so it is a map from identifiers to worker values.
\<close>

section \<open>Workers and events\<close>

datatype wstate = StateStarting | StateRunning | StateUnhealthy | StateRestarting | StateStopped

record worker =
  w_ID :: string
  w_Command :: string
  w_Args :: "string list"
  w_WorkDir :: string
  w_RuntimeVersion :: string
  w_State :: wstate
  w_RestartCount :: int
  w_LastHeartbeat :: go_time
  w_CreatedAt :: go_time
  w_UpdatedAt :: go_time
  w_ShutdownTimeout :: duration

definition IsAlive :: "worker \<Rightarrow> bool" where
  "IsAlive w = (w_State w = StateRunning)"

definition SetHealth :: "worker \<Rightarrow> bool \<Rightarrow> go_time \<Rightarrow> worker" where
  "SetHealth w healthy now =
     w\<lparr>w_State := (if healthy then StateRunning else StateUnhealthy), w_LastHeartbeat := now, w_UpdatedAt := now\<rparr>"

definition worker_RecordHeartbeat :: "worker \<Rightarrow> go_time \<Rightarrow> worker" where
  "worker_RecordHeartbeat w now =
     (let w1 = w\<lparr>w_LastHeartbeat := now, w_UpdatedAt := now\<rparr>
      in if w_State w1 = StateUnhealthy then w1\<lparr>w_State := StateRunning\<rparr> else w1)"

datatype event_type =
  EventSpawned | EventRunning | EventUnhealthy | EventRestarting | EventStopped | EventHeartbeat

record wevent =
  ev_Type :: event_type
  ev_WorkerID :: string
  ev_State :: wstate
  ev_Timestamp :: go_time
  ev_Details :: string

abbreviation ErrNotFound :: go_error where "ErrNotFound \<equiv> Sentinel ''worker not found''"
abbreviation ErrSpawnFailed :: go_error where "ErrSpawnFailed \<equiv> Sentinel ''failed to spawn worker process''"
abbreviation ErrInvalidCommand :: go_error where
  "ErrInvalidCommand \<equiv> Sentinel ''worker command is empty or invalid''"

section \<open>Interface: a worker repository\<close>

text \<open>
  What the lifecycle service relies on: a saved worker is found under its identifier, and saving or
  deleting one leaves the others alone.
\<close>

locale worker_repository =
  fixes Save :: "'r \<Rightarrow> worker \<Rightarrow> 'r"
    and FindByID :: "'r \<Rightarrow> string \<Rightarrow> worker option"
    and Delete :: "'r \<Rightarrow> string \<Rightarrow> 'r"
  assumes find_save: "FindByID (Save r w) i = (if i = w_ID w then Some w else FindByID r i)"
    and find_delete: "FindByID (Delete r j) i = (if i = j then None else FindByID r i)"
begin

text \<open>Every stored worker is stored under its own identifier.\<close>

definition keyed :: "'r \<Rightarrow> bool" where
  "keyed r \<longleftrightarrow> (\<forall>i w. FindByID r i = Some w \<longrightarrow> w_ID w = i)"

lemma keyed_save: "keyed r \<Longrightarrow> keyed (Save r w)"
  by (auto simp: keyed_def find_save split: if_splits)

lemma keyed_delete: "keyed r \<Longrightarrow> keyed (Delete r i)"
  by (auto simp: keyed_def find_delete split: if_splits)

lemma save_twice: "w_ID w = w_ID w' \<Longrightarrow> FindByID (Save (Save r w) w') i = FindByID (Save r w') i"
  by (simp add: find_save)

lemma save_swap:
  "w_ID w \<noteq> w_ID w' \<Longrightarrow> FindByID (Save (Save r w) w') i = FindByID (Save (Save r w') w) i"
  by (simp add: find_save)

end

section \<open>The in-memory repository\<close>

type_synonym repository = "string \<rightharpoonup> worker"

definition NewMemoryWorkerRepository :: repository where
  "NewMemoryWorkerRepository = Map.empty"

definition Save :: "repository \<Rightarrow> worker \<Rightarrow> repository" where
  "Save r w = r(w_ID w \<mapsto> w)"

definition FindByID :: "repository \<Rightarrow> string \<Rightarrow> worker option" where
  "FindByID r i = r i"

text \<open>\<open>order\<close> is the order in which the runtime iterates over the map.\<close>

definition FindAll :: "repository \<Rightarrow> string list \<Rightarrow> worker list" where
  "FindAll r order = map (\<lambda>i. the (r i)) (filter (\<lambda>i. r i \<noteq> None) order)"

definition Delete :: "repository \<Rightarrow> string \<Rightarrow> repository" where
  "Delete r i = r(i := None)"

definition LiveWorkerIDs :: "repository \<Rightarrow> string list \<Rightarrow> string list" where
  "LiveWorkerIDs r order = filter (\<lambda>i. r i \<noteq> None) order"

interpretation mrepo: worker_repository Save FindByID Delete
  by unfold_locales (simp_all add: Save_def FindByID_def Delete_def)

lemma FindAll_set: "enumerates order r \<Longrightarrow> set (FindAll r order) = ran r"
  by (force simp: FindAll_def enumerates_def ran_def image_iff)

lemma FindAll_keyed:
  assumes "enumerates order r" and "\<forall>i w. r i = Some w \<longrightarrow> w_ID w = i"
  shows "distinct (map w_ID (FindAll r order))" and "\<forall>w \<in> set (FindAll r order). r (w_ID w) = Some w"
    and "w \<in> set (FindAll r order) \<longleftrightarrow> r (w_ID w) = Some w"
proof -
  have flt: "filter (\<lambda>i. r i \<noteq> None) order = order"
    using assms(1) by (auto simp: enumerates_def filter_id_conv)
  have ws: "FindAll r order = map (\<lambda>i. the (r i)) order" unfolding FindAll_def flt ..
  have "map w_ID (FindAll r order) = order"
    unfolding ws map_map using assms by (intro map_idI) (auto simp: enumerates_def)
  then show "distinct (map w_ID (FindAll r order))" using assms(1) by (simp add: enumerates_def)
  have mem: "v \<in> set (FindAll r order) \<longleftrightarrow> r (w_ID v) = Some v" for v
  proof -
    have "v \<in> ran r \<longleftrightarrow> r (w_ID v) = Some v" using assms(2) unfolding ran_def by blast
    then show ?thesis using FindAll_set [OF assms(1)] by simp
  qed
  then show "\<forall>w \<in> set (FindAll r order). r (w_ID w) = Some w"
    and "w \<in> set (FindAll r order) \<longleftrightarrow> r (w_ID w) = Some w" by blast+
qed

lemma keyed_upd:
  fixes r :: repository
  assumes "\<forall>i w. r i = Some w \<longrightarrow> w_ID w = i" and "w_ID v = k"
  shows "\<forall>i w. (r(k \<mapsto> v)) i = Some w \<longrightarrow> w_ID w = i"
proof (intro allI impI)
  fix i w assume h: "(r(k \<mapsto> v)) i = Some w"
  show "w_ID w = i"
    using h assms by (cases "i = k") simp_all
qed

lemma keyed_Map [simp]: "mrepo.keyed r \<longleftrightarrow> (\<forall>i w. r i = Some w \<longrightarrow> w_ID w = i)"
  by (simp add: mrepo.keyed_def FindByID_def)

section \<open>In-flight requests and draining\<close>

text \<open>
  \<open>inflight\<close> maps a worker to the counter of its wait group. A counter that would become negative is the
  run-time panic \<open>sync: negative WaitGroup counter\<close>, the value \<open>None\<close> of \<open>Release\<close>.
\<close>

record drainer =
  dr_inflight :: "string \<rightharpoonup> int"
  dr_draining :: "string \<rightharpoonup> bool"

definition NewWorkerDrainer :: drainer where
  "NewWorkerDrainer = \<lparr>dr_inflight = Map.empty, dr_draining = Map.empty\<rparr>"

text \<open>\<open>LoadOrStore\<close> of an empty wait group.\<close>

definition LoadOrStore :: "(string \<rightharpoonup> int) \<Rightarrow> string \<Rightarrow> int \<times> (string \<rightharpoonup> int)" where
  "LoadOrStore m k = (case m k of Some c \<Rightarrow> (c, m) | None \<Rightarrow> (0, m(k \<mapsto> 0)))"

interpretation drreg: lazy_registry "\<lambda>m. m" LoadOrStore "\<lambda>_ _. 0"
  by unfold_locales (simp_all add: LoadOrStore_def)

definition Acquire :: "drainer \<Rightarrow> string \<Rightarrow> drainer" where
  "Acquire d wid =
     (case LoadOrStore (dr_inflight d) wid of (c, m) \<Rightarrow> d\<lparr>dr_inflight := m(wid \<mapsto> c + 1)\<rparr>)"

definition Release :: "drainer \<Rightarrow> string \<Rightarrow> drainer option" where
  "Release d wid =
     (case dr_inflight d wid of
        None \<Rightarrow> Some d
      | Some c \<Rightarrow> if c - 1 < 0 then None else Some (d\<lparr>dr_inflight := (dr_inflight d)(wid \<mapsto> c - 1)\<rparr>))"

definition MarkDraining :: "drainer \<Rightarrow> string \<Rightarrow> drainer" where
  "MarkDraining d wid = d\<lparr>dr_draining := (dr_draining d)(wid \<mapsto> True)\<rparr>"

definition IsDraining :: "drainer \<Rightarrow> string \<Rightarrow> bool" where
  "IsDraining d wid = (dr_draining d wid = Some True)"

definition Cleanup :: "drainer \<Rightarrow> string \<Rightarrow> drainer" where
  "Cleanup d wid = d\<lparr>dr_inflight := (dr_inflight d)(wid := None), dr_draining := (dr_draining d)(wid := None)\<rparr>"

text \<open>
  What other goroutines do while \<open>Drain\<close> waits: requests start and finish, or the caller's context is
  cancelled. \<open>Drain\<close> returns as soon as the counter is zero, the deadline has passed or the context is
  done; the second component is the drainer at that moment.
\<close>

datatype drain_event = EvAcquire string | EvRelease string | EvCancel

abbreviation DeadlineExceeded :: go_error where "DeadlineExceeded \<equiv> Sentinel ''context deadline exceeded''"
abbreviation Canceled :: go_error where "Canceled \<equiv> Sentinel ''context canceled''"

fun drain_step :: "drainer \<Rightarrow> drain_event \<Rightarrow> drainer option" where
  "drain_step d (EvAcquire i) = Some (Acquire d i)"
| "drain_step d (EvRelease i) = Release d i"
| "drain_step d EvCancel = Some d"

fun drain_wait :: "drainer \<Rightarrow> string \<Rightarrow> go_time \<Rightarrow> (go_time \<times> drain_event) list \<Rightarrow> (go_error option \<times> drainer) option" where
  "drain_wait d wid deadline [] =
     (if dr_inflight d wid = Some 0 then Some (None, d) else Some (Some DeadlineExceeded, d))"
| "drain_wait d wid deadline ((t, e) # es) =
     (if dr_inflight d wid = Some 0 then Some (None, d)
      else if deadline \<le> t then Some (Some DeadlineExceeded, d)
      else if e = EvCancel then Some (Some Canceled, d)
      else (case drain_step d e of None \<Rightarrow> None | Some d' \<Rightarrow> drain_wait d' wid deadline es))"

definition Drain ::
  "drainer \<Rightarrow> string \<Rightarrow> duration \<Rightarrow> go_time \<Rightarrow> (go_time \<times> drain_event) list \<Rightarrow> (go_error option \<times> drainer) option" where
  "Drain d wid timeout now es =
     (case dr_inflight d wid of
        None \<Rightarrow> Some (None, d)
      | Some _ \<Rightarrow> drain_wait d wid (now + timeout) es)"

lemmas dr_defs = Acquire_def Release_def MarkDraining_def Cleanup_def LoadOrStore_def

lemma Acquire_count:
  "dr_inflight (Acquire d i) j =
     (if j = i then Some ((case dr_inflight d i of None \<Rightarrow> 0 | Some c \<Rightarrow> c) + 1) else dr_inflight d j)"
  by (simp add: dr_defs split: option.split)

lemma drain_wait_sound:
  assumes "drain_wait d wid dl es = Some (None, d')"
  shows "dr_inflight d' wid = Some 0"
  using assms
  by (induction d wid dl es rule: drain_wait.induct) (auto split: if_splits option.splits)

text \<open>The requests of one worker that finish, each at its time, while those of others come and go.\<close>

definition releases :: "string \<Rightarrow> (go_time \<times> drain_event) list \<Rightarrow> nat" where
  "releases wid es = length (filter (\<lambda>e. snd e = EvRelease wid) es)"

lemma drain_wait_completes:
  assumes "dr_inflight d wid = Some (int n)" and "n \<le> releases wid es"
    and "\<forall>e \<in> set es. fst e < dl \<and> snd e \<noteq> EvCancel \<and> snd e \<noteq> EvAcquire wid"
    and "drain_wait d wid dl es \<noteq> None"
  shows "\<exists>d'. drain_wait d wid dl es = Some (None, d') \<and> dr_inflight d' wid = Some 0"
  using assms
proof (induction d wid dl es arbitrary: n rule: drain_wait.induct)
  case (1 d wid deadline)
  then show ?case by (simp add: releases_def)
next
  case (2 d wid deadline t e es)
  show ?case
  proof (cases "n = 0")
    case True
    with 2(2) show ?thesis by simp
  next
    case False
    from 2(4) have te: "t < deadline" "e \<noteq> EvCancel" "e \<noteq> EvAcquire wid" by auto
    from False te 2(2,5) obtain d' where d': "drain_step d e = Some d'"
        "drain_wait d wid deadline ((t, e) # es) = drain_wait d' wid deadline es"
      by (auto split: option.splits)
    define k where "k = (if e = EvRelease wid then n - 1 else n)"
    have "dr_inflight d' wid = Some (int k)"
      using d'(1) te 2(2) False
      by (cases e) (auto simp: k_def dr_defs of_nat_diff split: option.splits if_splits)
    moreover have "k \<le> releases wid es"
      using 2(3) by (auto simp: k_def releases_def)
    ultimately show ?thesis
      using 2(1) [of d' k] 2(2,4,5) False te d' by auto
  qed
qed

section \<open>Properties\<close>

text \<open>
  Draining keeps its promise: \<open>Drain\<close> returns without error only when the worker has no request in
  flight at that moment.
\<close>
theorem drain_ok_means_idle:
  assumes "Drain d wid timeout now es = Some (None, d')"
  shows "dr_inflight d' wid = None \<or> dr_inflight d' wid = Some 0"
  using assms drain_wait_sound by (fastforce simp: Drain_def split: option.splits)

theorem drain_ok_means_idle_witness:
  "\<exists>d'. Drain (Acquire NewWorkerDrainer ''w'') ''w'' 30 0 [(5, EvRelease ''w'')] = Some (None, d') \<and>
    (dr_inflight d' ''w'' = None \<or> dr_inflight d' ''w'' = Some 0)"
proof -
  obtain d' where d': "Drain (Acquire NewWorkerDrainer ''w'') ''w'' 30 0 [(5, EvRelease ''w'')] = Some (None, d')"
    by (simp add: Drain_def NewWorkerDrainer_def dr_defs)
  with drain_ok_means_idle [OF this] show ?thesis by blast
qed



text \<open>
  Cleaning up a worker while requests are still in flight, as \<open>StopWorker\<close> does after a drain timeout,
  loses their count: when the worker comes back and serves one more request, the late release of the old request
  is charged to the new wait group, and the release that should have balanced it panics.
\<close>
theorem cleanup_with_inflight_panics:
  assumes "dr_inflight d wid = Some c" and "0 < c"
  shows "\<exists>d'. Release (Acquire (Cleanup d wid) wid) wid = Some d' \<and> Release d' wid = None"
  using assms by (simp add: dr_defs)

theorem cleanup_with_inflight_panics_witness:
  "\<exists>d'. Release (Acquire (Cleanup (Acquire NewWorkerDrainer ''w'') ''w'') ''w'') ''w'' = Some d' \<and>
    Release d' ''w'' = None"
  by (rule cleanup_with_inflight_panics [where c = 1]) (simp_all add: dr_defs NewWorkerDrainer_def)

end
