(* ===== verification/Pools.thy ===== *)
theory Pools
  imports Workers "HOL-Library.Multiset" "HOL-Library.Signed_Division"
begin

text \<open>
  Worker pools, \<open>core/domain/pool\<close>: the load balancer of \<open>pool.go\<close> (round robin and least loaded) and the
  replica management of \<open>manager.go\<close>. The round-robin counter is the code's 64-bit integer. The process
  manager behind \<open>worker.Manager\<close> is a parameter: a state and the functions \<open>spawn\<close> and \<open>stop\<close> on it.
\<close>

section \<open>Pools\<close>

record worker_state =
  ws_worker :: worker
  ws_activeReqs :: int
  ws_lastHealthCheck :: go_time

record pool =
  pl_workers :: "string \<rightharpoonup> worker_state"
  pl_workerIDs :: "string list"
  pl_strategy :: string
  pl_counter :: "64 word"
  pl_lastUpdated :: go_time

abbreviation (input) RoundRobin :: string where "RoundRobin \<equiv> ''round-robin''"
abbreviation (input) LeastLoaded :: string where "LeastLoaded \<equiv> ''least-loaded''"

definition NewPool :: "string \<Rightarrow> pool" where
  "NewPool strategy =
     \<lparr>pl_workers = Map.empty, pl_workerIDs = [],
      pl_strategy = (if strategy = [] then RoundRobin else strategy), pl_counter = 0, pl_lastUpdated = zero_time\<rparr>"

definition AddWorker :: "pool \<Rightarrow> worker \<Rightarrow> go_time \<Rightarrow> pool" where
  "AddWorker p w now =
     p\<lparr>pl_workers := (pl_workers p)(w_ID w \<mapsto> \<lparr>ws_worker = w, ws_activeReqs = 0, ws_lastHealthCheck = now\<rparr>),
       pl_workerIDs := pl_workerIDs p @ [w_ID w], pl_lastUpdated := now\<rparr>"

definition RemoveWorker :: "pool \<Rightarrow> string \<Rightarrow> go_time \<Rightarrow> pool" where
  "RemoveWorker p wid now =
     p\<lparr>pl_workers := (pl_workers p)(wid := None), pl_workerIDs := remove_first wid (pl_workerIDs p),
       pl_lastUpdated := now\<rparr>"

definition UpdateWorker :: "pool \<Rightarrow> worker \<Rightarrow> go_time \<Rightarrow> pool" where
  "UpdateWorker p w now =
     (case pl_workers p (w_ID w) of
        Some ws \<Rightarrow> p\<lparr>pl_workers := (pl_workers p)(w_ID w \<mapsto> ws\<lparr>ws_worker := w, ws_lastHealthCheck := now\<rparr>),
                     pl_lastUpdated := now\<rparr>
      | None \<Rightarrow> p\<lparr>pl_lastUpdated := now\<rparr>)"

definition GetWorkers :: "pool \<Rightarrow> worker list" where
  "GetWorkers p = List.map_filter (\<lambda>i. map_option ws_worker (pl_workers p i)) (pl_workerIDs p)"

definition HealthyWorkers :: "pool \<Rightarrow> worker list" where
  "HealthyWorkers p = filter IsAlive (GetWorkers p)"

definition GetWorkerState :: "pool \<Rightarrow> string \<Rightarrow> (worker \<times> int) option" where
  "GetWorkerState p wid = map_option (\<lambda>ws. (ws_worker ws, ws_activeReqs ws)) (pl_workers p wid)"

definition add_activeReqs :: "int \<Rightarrow> pool \<Rightarrow> string \<Rightarrow> pool" where
  "add_activeReqs k p wid =
     (case pl_workers p wid of
        Some ws \<Rightarrow> p\<lparr>pl_workers := (pl_workers p)(wid \<mapsto> ws\<lparr>ws_activeReqs := ws_activeReqs ws + k\<rparr>)\<rparr>
      | None \<Rightarrow> p)"

definition IncrementActiveReqs :: "pool \<Rightarrow> string \<Rightarrow> pool" where
  "IncrementActiveReqs p wid = add_activeReqs 1 p wid"

definition DecrementActiveReqs :: "pool \<Rightarrow> string \<Rightarrow> pool" where
  "DecrementActiveReqs p wid = add_activeReqs (- 1) p wid"

text \<open>
  A selection: a worker, none (the nil pointer), or the run-time panic of an index out of range, which a
  negative counter gives since \<open>%\<close> takes the sign of the dividend.
\<close>

datatype selection = Selected worker | NoWorker | SelectPanic

definition selectRoundRobin :: "pool \<Rightarrow> worker list \<Rightarrow> selection \<times> pool" where
  "selectRoundRobin p ws =
     (if ws = [] then (NoWorker, p)
      else (let idx = sint (pl_counter p) smod int (length ws)
            in if idx < 0 then (SelectPanic, p)
               else (Selected (ws ! nat idx), p\<lparr>pl_counter := pl_counter p + 1\<rparr>)))"

definition least_step :: "pool \<Rightarrow> worker option \<times> int \<Rightarrow> worker \<Rightarrow> worker option \<times> int" where
  "least_step p acc w =
     (case pl_workers p (w_ID w) of
        None \<Rightarrow> acc
      | Some ws \<Rightarrow>
          (let reqs = ws_activeReqs ws
           in if snd acc = -1 \<or> reqs < snd acc then (Some w, reqs) else acc))"

definition selectLeastLoaded :: "pool \<Rightarrow> worker list \<Rightarrow> selection" where
  "selectLeastLoaded p ws =
     (if ws = [] then NoWorker
      else (case fst (foldl (least_step p) (None, -1) ws) of
              None \<Rightarrow> Selected (hd ws)
            | Some w \<Rightarrow> Selected w))"

definition SelectWorker :: "pool \<Rightarrow> selection \<times> pool" where
  "SelectWorker p =
     (let healthy = HealthyWorkers p
      in if healthy = [] then (NoWorker, p)
         else if pl_strategy p = LeastLoaded then (selectLeastLoaded p healthy, p)
         else selectRoundRobin p healthy)"

definition Size :: "pool \<Rightarrow> nat" where
  "Size p = length (pl_workerIDs p)"

definition HealthySize :: "pool \<Rightarrow> nat" where
  "HealthySize p = length (HealthyWorkers p)"

section \<open>The pool manager\<close>

record manager_config =
  mc_Replicas :: int
  mc_Strategy :: string
  mc_MaxPoolSize :: int

record pool_manager =
  pm_pools :: "string \<rightharpoonup> pool"
  pm_configs :: "string \<rightharpoonup> manager_config"
  pm_workerCfgs :: "string \<rightharpoonup> worker"

abbreviation ErrPoolNotFound :: go_error where "ErrPoolNotFound \<equiv> Sentinel ''pool not found''"

definition NewManager :: pool_manager where
  "NewManager = \<lparr>pm_pools = Map.empty, pm_configs = Map.empty, pm_workerCfgs = Map.empty\<rparr>"

definition RegisterPool :: "pool_manager \<Rightarrow> string \<Rightarrow> manager_config \<Rightarrow> pool_manager" where
  "RegisterPool m prefix cfg =
     (let cfg1 = (if mc_Strategy cfg = [] then cfg\<lparr>mc_Strategy := RoundRobin\<rparr> else cfg);
          cfg2 = (if mc_Replicas cfg1 \<le> 0 then cfg1\<lparr>mc_Replicas := 1\<rparr> else cfg1)
      in m\<lparr>pm_configs := (pm_configs m)(prefix \<mapsto> cfg2),
           pm_pools := (pm_pools m)(prefix \<mapsto> NewPool (mc_Strategy cfg2))\<rparr>)"

definition RegisterWorkerConfig :: "pool_manager \<Rightarrow> string \<Rightarrow> worker \<Rightarrow> pool_manager" where
  "RegisterWorkerConfig m prefix cfg = m\<lparr>pm_workerCfgs := (pm_workerCfgs m)(prefix \<mapsto> cfg)\<rparr>"

definition GetPool :: "pool_manager \<Rightarrow> string \<Rightarrow> pool option" where
  "GetPool m prefix = pm_pools m prefix"

definition put_pool :: "pool_manager \<Rightarrow> string \<Rightarrow> pool \<Rightarrow> pool_manager" where
  "put_pool m prefix p = m\<lparr>pm_pools := (pm_pools m)(prefix \<mapsto> p)\<rparr>"

text \<open>The loop of \<open>itoa\<close>.\<close>

function itoa_loop :: "int \<Rightarrow> string \<Rightarrow> string" where
  "itoa_loop n result =
     (if 0 < n then itoa_loop (n div 10) (char_of (48 + nat (n mod 10)) # result) else result)"
  by auto
termination by (relation "measure (\<lambda>(n, _). nat n)") auto

declare itoa_loop.simps [simp del]

definition itoa :: "int \<Rightarrow> string" where
  "itoa n = (if n = 0 then ''0'' else itoa_loop n '''')"

definition instanceID :: "string \<Rightarrow> nat \<Rightarrow> string" where
  "instanceID prefix i = (if 0 < i then prefix @ ''-'' @ itoa (int i) else prefix)"

text \<open>The spawning loop of \<open>SpawnWorkers\<close>, from instance \<open>i\<close>, with \<open>k\<close> instances left.\<close>

fun spawn_loop ::
  "('p \<Rightarrow> worker \<Rightarrow> go_error option \<times> 'p) \<Rightarrow> 'p \<Rightarrow> pool \<Rightarrow> string \<Rightarrow> worker \<Rightarrow> go_time \<Rightarrow> nat \<Rightarrow> nat \<Rightarrow>
    go_error option \<times> pool \<times> 'p" where
  "spawn_loop spawn s p prefix workerCfg now i 0 = (None, p, s)"
| "spawn_loop spawn s p prefix workerCfg now i (Suc k) =
     (let w = workerCfg\<lparr>w_ID := instanceID prefix i\<rparr>
      in case spawn s w of
           (Some err, s') \<Rightarrow> (Some err, p, s')
         | (None, s') \<Rightarrow> spawn_loop spawn s' (AddWorker p w now) prefix workerCfg now (Suc i) k)"

definition SpawnWorkers ::
  "('p \<Rightarrow> worker \<Rightarrow> go_error option \<times> 'p) \<Rightarrow> 'p \<Rightarrow> pool_manager \<Rightarrow> string \<Rightarrow> worker \<Rightarrow> go_time \<Rightarrow>
    go_error option \<times> pool_manager \<times> 'p" where
  "SpawnWorkers spawn s m prefix workerCfg now =
     (case (pm_configs m prefix, pm_pools m prefix) of
        (Some cfg, Some p) \<Rightarrow>
          if 0 < mc_MaxPoolSize cfg \<and> mc_MaxPoolSize cfg \<le> int (Size p) then (None, m, s)
          else (let count = (if 0 < mc_MaxPoolSize cfg
                             then min (mc_Replicas cfg) (mc_MaxPoolSize cfg - int (Size p))
                             else mc_Replicas cfg)
                in case spawn_loop spawn s p prefix workerCfg now 0 (nat count) of
                     (e, p', s') \<Rightarrow> (e, put_pool m prefix p', s'))
      | _ \<Rightarrow> (Some ErrPoolNotFound, m, s))"

text \<open>
  \<open>extractPrefix\<close> looks for the last dash, not at index 0, with digits only behind it; \<open>seen\<close> says
  whether only digits were seen so far from the right.
\<close>

definition is_digit :: "char \<Rightarrow> bool" where
  "is_digit c = (let n = of_char c :: nat in 48 \<le> n \<and> n \<le> 57)"

fun extract_scan :: "string \<Rightarrow> string \<Rightarrow> string option" where
  "extract_scan [] suffix = None"
| "extract_scan (c # before) suffix =
     (if c = CHR ''-'' \<and> list_all is_digit suffix \<and> before \<noteq> [] then Some (rev before)
      else extract_scan before (c # suffix))"

definition extractPrefix :: "string \<Rightarrow> string" where
  "extractPrefix wid = (case extract_scan (rev wid) [] of Some p \<Rightarrow> p | None \<Rightarrow> wid)"

text \<open>\<open>stamp\<close> is \<open>time.Now().Format("20060102-150405.000")\<close>.\<close>

definition generateWorkerID :: "string \<Rightarrow> string \<Rightarrow> string" where
  "generateWorkerID prefix stamp = prefix @ ''-'' @ stamp"

definition ReplaceWorker ::
  "('p \<Rightarrow> worker \<Rightarrow> go_error option \<times> 'p) \<Rightarrow> ('p \<Rightarrow> string \<Rightarrow> go_error option \<times> 'p) \<Rightarrow> 'p \<Rightarrow>
    pool_manager \<Rightarrow> string \<Rightarrow> string \<Rightarrow> go_time \<Rightarrow> go_error option \<times> pool_manager \<times> 'p" where
  "ReplaceWorker spawn stop s m wid stamp now =
     (let prefix = extractPrefix wid
      in case pm_pools m prefix of
           None \<Rightarrow> (Some ErrPoolNotFound, m, s)
         | Some p \<Rightarrow>
             (case GetWorkerState p wid of
                None \<Rightarrow> (Some (Errorf ''worker not found in pool''), m, s)
              | Some (oldWorker, _) \<Rightarrow>
                  (let p1 = RemoveWorker p wid now; (_, s1) = stop s wid;
                       newWorker = oldWorker\<lparr>w_ID := generateWorkerID prefix stamp\<rparr>
                   in case spawn s1 newWorker of
                        (Some err, s2) \<Rightarrow> (Some err, put_pool m prefix p1, s2)
                      | (None, s2) \<Rightarrow> (None, put_pool m prefix (AddWorker p1 newWorker now), s2))))"

text \<open>The spawning loop of \<open>ensureReplicas\<close>; a failed spawn is skipped. \<open>stamp i\<close> is the \<open>i\<close>-th time stamp.\<close>

fun ensure_loop ::
  "('p \<Rightarrow> worker \<Rightarrow> go_error option \<times> 'p) \<Rightarrow> 'p \<Rightarrow> pool \<Rightarrow> string \<Rightarrow> worker \<Rightarrow> (nat \<Rightarrow> string) \<Rightarrow> go_time \<Rightarrow>
    nat \<Rightarrow> nat \<Rightarrow> pool \<times> 'p" where
  "ensure_loop spawn s p prefix workerCfg stamp now i 0 = (p, s)"
| "ensure_loop spawn s p prefix workerCfg stamp now i (Suc k) =
     (let w = workerCfg\<lparr>w_ID := generateWorkerID prefix (stamp i)\<rparr>
      in case spawn s w of
           (Some err, s') \<Rightarrow> ensure_loop spawn s' p prefix workerCfg stamp now (Suc i) k
         | (None, s') \<Rightarrow> ensure_loop spawn s' (AddWorker p w now) prefix workerCfg stamp now (Suc i) k)"

definition ensureReplicas ::
  "('p \<Rightarrow> worker \<Rightarrow> go_error option \<times> 'p) \<Rightarrow> 'p \<Rightarrow> pool_manager \<Rightarrow> string \<Rightarrow> pool \<Rightarrow> (nat \<Rightarrow> string) \<Rightarrow>
    go_time \<Rightarrow> pool \<times> 'p" where
  "ensureReplicas spawn s m prefix p stamp now =
     (case (pm_configs m prefix, pm_workerCfgs m prefix) of
        (Some cfg, Some workerCfg) \<Rightarrow>
          (let spawnCount0 = mc_Replicas cfg - int (HealthySize p);
               spawnCount = (if 0 < mc_MaxPoolSize cfg
                             then max 0 (min spawnCount0 (mc_MaxPoolSize cfg - int (Size p)))
                             else spawnCount0)
           in ensure_loop spawn s p prefix workerCfg stamp now 0 (nat spawnCount))
      | _ \<Rightarrow> (p, s))"

text \<open>The inner loop of \<open>MonitorHealth\<close>: remove and stop the workers that are not alive.\<close>

fun reap :: "('p \<Rightarrow> string \<Rightarrow> go_error option \<times> 'p) \<Rightarrow> 'p \<Rightarrow> pool \<Rightarrow> worker list \<Rightarrow> go_time \<Rightarrow> pool \<times> 'p" where
  "reap stop s p [] now = (p, s)"
| "reap stop s p (w # ws) now =
     (if \<not> IsAlive w then reap stop (snd (stop s (w_ID w))) (RemoveWorker p (w_ID w) now) ws now
      else reap stop s p ws now)"

fun MonitorHealth ::
  "('p \<Rightarrow> worker \<Rightarrow> go_error option \<times> 'p) \<Rightarrow> ('p \<Rightarrow> string \<Rightarrow> go_error option \<times> 'p) \<Rightarrow> 'p \<Rightarrow>
    pool_manager \<Rightarrow> string list \<Rightarrow> (string \<Rightarrow> nat \<Rightarrow> string) \<Rightarrow> go_time \<Rightarrow> pool_manager \<times> 'p" where
  "MonitorHealth spawn stop s m [] stamp now = (m, s)"
| "MonitorHealth spawn stop s m (prefix # order) stamp now =
     (case pm_pools m prefix of
        None \<Rightarrow> MonitorHealth spawn stop s m order stamp now
      | Some p \<Rightarrow>
          (let (p1, s1) = reap stop s p (GetWorkers p) now;
               (p2, s2) = ensureReplicas spawn s1 m prefix p1 (stamp prefix) now
           in MonitorHealth spawn stop s2 (put_pool m prefix p2) order stamp now))"

fun stop_workers :: "('p \<Rightarrow> string \<Rightarrow> go_error option \<times> 'p) \<Rightarrow> 'p \<Rightarrow> worker list \<Rightarrow> 'p" where
  "stop_workers stop s [] = s"
| "stop_workers stop s (w # ws) = stop_workers stop (snd (stop s (w_ID w))) ws"

definition pools_StopAll ::
  "('p \<Rightarrow> string \<Rightarrow> go_error option \<times> 'p) \<Rightarrow> 'p \<Rightarrow> pool_manager \<Rightarrow> string list \<Rightarrow> go_error option \<times> 'p" where
  "pools_StopAll stop s m order =
     (None, foldl (\<lambda>s prefix. case pm_pools m prefix of None \<Rightarrow> s | Some p \<Rightarrow> stop_workers stop s (GetWorkers p))
        s order)"

section \<open>Invariant\<close>

text \<open>Workers are stored under their own identifier, which is in the order list, and counters are not negative.\<close>

definition pool_inv :: "pool \<Rightarrow> bool" where
  "pool_inv p \<longleftrightarrow>
     (\<forall>i ws. pl_workers p i = Some ws \<longrightarrow>
        w_ID (ws_worker ws) = i \<and> i \<in> set (pl_workerIDs p) \<and> 0 \<le> ws_activeReqs ws)"

lemma pool_invD:
  "pool_inv p \<Longrightarrow> pl_workers p i = Some ws \<Longrightarrow>
    w_ID (ws_worker ws) = i \<and> i \<in> set (pl_workerIDs p) \<and> 0 \<le> ws_activeReqs ws"
  by (auto simp: pool_inv_def)

lemma NewPool_inv: "pool_inv (NewPool st)"
  by (simp add: pool_inv_def NewPool_def)

lemma AddWorker_inv: "pool_inv p \<Longrightarrow> pool_inv (AddWorker p w now)"
  by (auto simp: pool_inv_def AddWorker_def split: if_splits)

lemma RemoveWorker_inv: "pool_inv p \<Longrightarrow> pool_inv (RemoveWorker p i now)"
  by (auto simp: pool_inv_def RemoveWorker_def remove_first_remove1 split: if_splits)

lemma UpdateWorker_inv: "pool_inv p \<Longrightarrow> pool_inv (UpdateWorker p w now)"
  by (auto simp: pool_inv_def UpdateWorker_def split: if_splits option.splits)

lemma IncrementActiveReqs_inv: "pool_inv p \<Longrightarrow> pool_inv (IncrementActiveReqs p i)"
  by (fastforce simp: pool_inv_def IncrementActiveReqs_def add_activeReqs_def split: if_splits option.splits)

lemma GetWorkers_mem:
  assumes "pool_inv p"
  shows "w \<in> set (GetWorkers p) \<longleftrightarrow> (\<exists>ws. pl_workers p (w_ID w) = Some ws \<and> ws_worker ws = w)"
proof
  assume "w \<in> set (GetWorkers p)"
  then obtain i ws where "i \<in> set (pl_workerIDs p)" "pl_workers p i = Some ws" "ws_worker ws = w"
    by (auto simp: GetWorkers_def List.map_filter_def)
  with pool_invD [OF assms] show "\<exists>ws. pl_workers p (w_ID w) = Some ws \<and> ws_worker ws = w" by auto
next
  assume "\<exists>ws. pl_workers p (w_ID w) = Some ws \<and> ws_worker ws = w"
  then obtain ws where ws: "pl_workers p (w_ID w) = Some ws" "ws_worker ws = w" by blast
  with pool_invD [OF assms ws(1)] show "w \<in> set (GetWorkers p)"
    by (force simp: GetWorkers_def List.map_filter_def)
qed

lemma GetWorkers_inj:
  assumes "pool_inv p" "w \<in> set (GetWorkers p)" "w' \<in> set (GetWorkers p)" "w_ID w = w_ID w'"
  shows "w = w'"
proof -
  obtain ws ws' where "pl_workers p (w_ID w) = Some ws" "ws_worker ws = w"
      "pl_workers p (w_ID w') = Some ws'" "ws_worker ws' = w'"
    using assms(2,3) unfolding GetWorkers_mem [OF assms(1)] by blast
  with assms(4) show ?thesis by simp
qed

section \<open>Selection\<close>

lemma GetWorkers_counter [simp]: "HealthyWorkers (p\<lparr>pl_counter := c\<rparr>) = HealthyWorkers p"
  by (simp add: HealthyWorkers_def GetWorkers_def)

text \<open>Consecutive selections from a pool.\<close>

fun select_many :: "nat \<Rightarrow> pool \<Rightarrow> selection list" where
  "select_many 0 p = []"
| "select_many (Suc n) p = (case SelectWorker p of (r, p') \<Rightarrow> r # select_many n p')"

lemma mset_rotate: "mset (rotate n xs) = mset xs"
  by (metis append_take_drop_id mset_append rotate_drop_take union_commute)

lemma sint_Suc64:
  assumes "0 \<le> sint c" and "sint c + 1 < 2 ^ 63"
  shows "sint (c + 1 :: 64 word) = sint c + 1"
  using assms by (simp add: sint_word_ariths signed_take_bit_int_eq_self)

lemma round_robin_picks:
  assumes "pl_strategy p \<noteq> LeastLoaded" and "HealthyWorkers p \<noteq> []"
    and "0 \<le> sint (pl_counter p)" and "sint (pl_counter p) + int n < 2 ^ 63"
  shows "select_many n p =
    map (\<lambda>i. Selected (HealthyWorkers p ! ((nat (sint (pl_counter p)) + i) mod length (HealthyWorkers p)))) [0..<n]"
  using assms
proof (induction n arbitrary: p)
  case 0
  then show ?case by simp
next
  case (Suc n)
  let ?h = "HealthyWorkers p" and ?c = "nat (sint (pl_counter p))"
  let ?p = "p\<lparr>pl_counter := pl_counter p + 1\<rparr>"
  have idx: "sint (pl_counter p) smod int (length ?h) = int (?c mod length ?h)"
    using Suc.prems(3) by (simp add: smod_mod_positive zmod_int)
  have sel: "SelectWorker p = (Selected (?h ! (?c mod length ?h)), ?p)"
    using Suc.prems(1,2) idx by (simp add: SelectWorker_def selectRoundRobin_def Let_def)
  have c: "sint (pl_counter ?p) = sint (pl_counter p) + 1"
    using sint_Suc64 [of "pl_counter p"] Suc.prems(3,4) by simp
  have IH: "select_many n ?p = map (\<lambda>i. Selected (?h ! ((Suc ?c + i) mod length ?h))) [0..<n]"
    using Suc.IH [of ?p] Suc.prems c by (simp add: nat_add_distrib)
  have "map (\<lambda>i. Selected (?h ! ((?c + i) mod length ?h))) [0..<Suc n] =
      Selected (?h ! (?c mod length ?h)) # map (\<lambda>i. Selected (?h ! ((?c + Suc i) mod length ?h))) [0..<n]"
    by (simp only: upt_conv_Cons zero_less_Suc list.map map_Suc_upt [symmetric] map_map comp_def add_0_right)
  with sel IH show ?case by simp
qed

lemma least_step_Some:
  "pl_workers p (w_ID w) = Some st \<Longrightarrow>
    least_step p acc w = (if snd acc = -1 \<or> ws_activeReqs st < snd acc then (Some w, ws_activeReqs st) else acc)"
  by (simp add: least_step_def Let_def)

lemma least_fold:
  assumes "pool_inv p" and "set ws \<subseteq> set (GetWorkers p)" and "ws \<noteq> []"
  shows "\<exists>w n. foldl (least_step p) (None, -1) ws = (Some w, n) \<and> w \<in> set ws \<and>
    GetWorkerState p (w_ID w) = Some (w, n) \<and> 0 \<le> n \<and>
    (\<forall>v \<in> set ws. \<forall>x k. GetWorkerState p (w_ID v) = Some (x, k) \<longrightarrow> n \<le> k)"
  using assms(2,3)
proof (induction ws rule: rev_induct)
  case Nil
  then show ?case by simp
next
  case (snoc w ws)
  obtain st where st: "pl_workers p (w_ID w) = Some st" "ws_worker st = w"
    using GetWorkers_mem [OF assms(1), of w] snoc.prems(1) by auto
  have nn: "0 \<le> ws_activeReqs st" using pool_invD [OF assms(1) st(1)] by blast
  show ?case
  proof (cases "ws = []")
    case True
    with st nn show ?thesis by (simp add: least_step_def GetWorkerState_def)
  next
    case False
    with snoc.IH snoc.prems(1) obtain u n where u: "foldl (least_step p) (None, -1) ws = (Some u, n)"
        "u \<in> set ws" "GetWorkerState p (w_ID u) = Some (u, n)" "0 \<le> n"
        "\<forall>v \<in> set ws. \<forall>x k. GetWorkerState p (w_ID v) = Some (x, k) \<longrightarrow> n \<le> k"
      by auto
    show ?thesis
    proof (cases "ws_activeReqs st < n")
      case True
      with u st have "foldl (least_step p) (None, -1) (ws @ [w]) = (Some w, ws_activeReqs st)"
        by (simp add: least_step_Some)
      moreover have "GetWorkerState p (w_ID w) = Some (w, ws_activeReqs st)"
        using st by (simp add: GetWorkerState_def)
      moreover have "\<forall>v \<in> set ws. \<forall>x k. GetWorkerState p (w_ID v) = Some (x, k) \<longrightarrow> ws_activeReqs st \<le> k"
        using u(5) True by (meson less_imp_le order_trans)
      ultimately show ?thesis using nn by auto
    next
      case False
      with u st have "foldl (least_step p) (None, -1) (ws @ [w]) = (Some u, n)"
        by (simp add: least_step_Some)
      moreover have "n \<le> k" if "GetWorkerState p (w_ID w) = Some (x, k)" for x k
        using that st False by (auto simp: GetWorkerState_def)
      ultimately show ?thesis using u(2-5) by auto
    qed
  qed
qed

section \<open>Spawning\<close>

lemma Size_AddWorker [simp]: "Size (AddWorker p w now) = Suc (Size p)"
  by (simp add: Size_def AddWorker_def)

lemma spawn_loop_ids:
  "\<exists>j \<le> k. pl_workerIDs (fst (snd (spawn_loop spawn s p prefix cfg now i k))) =
      pl_workerIDs p @ map (instanceID prefix) [i..<i + j] \<and>
    (fst (spawn_loop spawn s p prefix cfg now i k) = None \<longleftrightarrow> j = k)"
proof (induction k arbitrary: s p i)
  case 0
  then show ?case by simp
next
  case (Suc k)
  let ?w = "cfg\<lparr>w_ID := instanceID prefix i\<rparr>"
  obtain e s' where sp: "spawn s ?w = (e, s')" by fastforce
  show ?case
  proof (cases e)
    case (Some err)
    with sp show ?thesis by (intro exI [of _ 0]) (simp add: Let_def)
  next
    case None
    from Suc.IH [of s' "AddWorker p ?w now" "Suc i"] obtain j where j: "j \<le> k"
      "pl_workerIDs (fst (snd (spawn_loop spawn s' (AddWorker p ?w now) prefix cfg now (Suc i) k))) =
        pl_workerIDs (AddWorker p ?w now) @ map (instanceID prefix) [Suc i..<Suc i + j]"
      "fst (spawn_loop spawn s' (AddWorker p ?w now) prefix cfg now (Suc i) k) = None \<longleftrightarrow> j = k"
      by (elim exE conjE) (rule that)
    have eq: "spawn_loop spawn s p prefix cfg now i (Suc k) =
        spawn_loop spawn s' (AddWorker p ?w now) prefix cfg now (Suc i) k"
      using sp None by (simp add: Let_def)
    have "pl_workerIDs (AddWorker p ?w now) @ map (instanceID prefix) [Suc i..<Suc i + j] =
        pl_workerIDs p @ map (instanceID prefix) (i # [Suc i..<Suc i + j])"
      by (simp add: AddWorker_def)
    also have "i # [Suc i..<Suc i + j] = [i..<i + Suc j]" by (subst (2) upt_rec) simp
    finally show ?thesis
      unfolding eq using j by (metis Suc_inject Suc_le_mono)
  qed
qed

section \<open>Identifiers\<close>

lemma is_digit_char [simp]: "(n :: nat) < 10 \<Longrightarrow> is_digit (char_of (48 + n))"
  by (simp add: is_digit_def)

lemma itoa_loop_digits:
  "list_all is_digit r \<Longrightarrow> list_all is_digit (itoa_loop n r)"
proof (induction n r rule: itoa_loop.induct)
  case (1 n r)
  then show ?case
    by (subst itoa_loop.simps) (simp add: nat_less_iff)
qed

lemma itoa_digits: "list_all is_digit (itoa n)"
proof -
  have "is_digit (CHR ''0'')" by (simp add: is_digit_def)
  then show ?thesis by (simp add: itoa_def itoa_loop_digits)
qed

lemma dash_not_digit [simp]: "\<not> is_digit (CHR ''-'')" "\<not> is_digit (CHR ''.'')"
  by (simp_all add: is_digit_def)

lemma extract_scan_digits:
  "list_all is_digit ds \<Longrightarrow> list_all is_digit suffix \<Longrightarrow>
    extract_scan (ds @ rest) suffix = extract_scan rest (rev ds @ suffix)"
  by (induction ds arbitrary: suffix) auto

lemma extract_scan_blocked: "\<not> list_all is_digit suffix \<Longrightarrow> extract_scan s suffix = None"
  by (induction s arbitrary: suffix) auto

section \<open>Health monitoring\<close>

definition dead_ids :: "worker list \<Rightarrow> string set" where
  "dead_ids ws = w_ID ` {w \<in> set ws. \<not> IsAlive w}"

lemma remove_first_distinct: "distinct xs \<Longrightarrow> remove_first x xs = filter (\<lambda>i. i \<noteq> x) xs"
  by (induction xs) (auto intro!: filter_True [symmetric])

lemma reap_effect:
  assumes "distinct (pl_workerIDs p)"
  shows "pl_workerIDs (fst (reap stop s p ws now)) = filter (\<lambda>i. i \<notin> dead_ids ws) (pl_workerIDs p) \<and>
    pl_workers (fst (reap stop s p ws now)) = pl_workers p |` (- dead_ids ws)"
  using assms
proof (induction ws arbitrary: s p)
  case Nil
  then show ?case by (simp add: dead_ids_def)
next
  case (Cons w ws)
  have dead: "dead_ids (w # ws) = (if IsAlive w then {} else {w_ID w}) \<union> dead_ids ws"
    by (auto simp: dead_ids_def)
  show ?case
  proof (cases "IsAlive w")
    case True
    with Cons dead show ?thesis by simp
  next
    case False
    let ?p = "RemoveWorker p (w_ID w) now"
    have ids: "pl_workerIDs ?p = filter (\<lambda>i. i \<noteq> w_ID w) (pl_workerIDs p)"
      using Cons.prems by (simp add: RemoveWorker_def remove_first_distinct)
    then have "distinct (pl_workerIDs ?p)" using Cons.prems by simp
    note IH = Cons.IH [OF this, of "snd (stop s (w_ID w))"]
    have "pl_workers ?p |` (- dead_ids ws) = pl_workers p |` (- dead_ids (w # ws))"
      using dead False by (auto simp: RemoveWorker_def restrict_map_def fun_eq_iff)
    moreover have "filter (\<lambda>i. i \<notin> dead_ids ws) (pl_workerIDs ?p) =
        filter (\<lambda>i. i \<notin> dead_ids (w # ws)) (pl_workerIDs p)"
      using dead False ids by (auto intro!: filter_cong)
    ultimately show ?thesis using IH False by simp
  qed
qed

text \<open>A pool whose identifiers are in order: each worker listed once, and nothing else listed.\<close>

definition tidy :: "pool \<Rightarrow> bool" where
  "tidy p \<longleftrightarrow> pool_inv p \<and> distinct (pl_workerIDs p) \<and> set (pl_workerIDs p) = dom (pl_workers p)"

lemma GetWorkers_tidy:
  assumes "set (pl_workerIDs p) \<subseteq> dom (pl_workers p)"
  shows "GetWorkers p = map (\<lambda>i. ws_worker (the (pl_workers p i))) (pl_workerIDs p)"
proof -
  have "List.map_filter (\<lambda>i. map_option ws_worker (pl_workers p i)) is =
      map (\<lambda>i. ws_worker (the (pl_workers p i))) is" if "set is \<subseteq> dom (pl_workers p)" for "is"
    using that by (induction "is") (auto simp: map_filter_simps)
  with assms show ?thesis by (simp add: GetWorkers_def)
qed

lemma HealthySize_tidy:
  assumes "tidy p"
  shows "HealthySize p = length (filter (\<lambda>i. i \<notin> dead_ids (GetWorkers p)) (pl_workerIDs p))"
proof -
  have t: "set (pl_workerIDs p) \<subseteq> dom (pl_workers p)" "pool_inv p" using assms by (auto simp: tidy_def)
  have "IsAlive (ws_worker (the (pl_workers p i))) \<longleftrightarrow> i \<notin> dead_ids (GetWorkers p)"
    if "i \<in> set (pl_workerIDs p)" for i
  proof -
    from that t(1) obtain ws where ws: "pl_workers p i = Some ws" by blast
    note wid = pool_invD [OF t(2) ws]
    have "w = ws_worker ws" if "w \<in> set (GetWorkers p)" "w_ID w = i" for w
      using that ws GetWorkers_mem [OF t(2), of w] by auto
    moreover have "ws_worker ws \<in> set (GetWorkers p)"
      using ws wid GetWorkers_mem [OF t(2), of "ws_worker ws"] by auto
    ultimately have "i \<in> dead_ids (GetWorkers p) \<longleftrightarrow> \<not> IsAlive (ws_worker ws)"
      unfolding dead_ids_def using wid by blast
    with ws show ?thesis by simp
  qed
  then have "filter (IsAlive \<circ> (\<lambda>i. ws_worker (the (pl_workers p i)))) (pl_workerIDs p) =
      filter (\<lambda>i. i \<notin> dead_ids (GetWorkers p)) (pl_workerIDs p)"
    by (intro filter_cong) simp_all
  moreover have "HealthySize p =
      length (filter (IsAlive \<circ> (\<lambda>i. ws_worker (the (pl_workers p i)))) (pl_workerIDs p))"
    unfolding HealthySize_def HealthyWorkers_def GetWorkers_tidy [OF t(1)] filter_map by simp
  ultimately show ?thesis by simp
qed

lemma ensure_loop_size:
  assumes "\<And>s w. fst (spawn s w) = None"
  shows "Size (fst (ensure_loop spawn s p prefix cfg stamp now i k)) = Size p + k"
  using assms by (induction k arbitrary: s p i) (auto simp: Let_def split: prod.split option.split, metis fst_conv option.distinct(1))

lemma ensure_loop_keeps:
  "pl_workers p i = Some ws \<Longrightarrow> i \<notin> (\<lambda>j. generateWorkerID prefix (stamp j)) ` {n..<n + k} \<Longrightarrow>
    pl_workers (fst (ensure_loop spawn s p prefix cfg stamp now n k)) i = Some ws"
proof (induction k arbitrary: s p n)
  case 0
  then show ?case by simp
next
  case (Suc k)
  have i: "i \<noteq> generateWorkerID prefix (stamp n)"
      "i \<notin> (\<lambda>j. generateWorkerID prefix (stamp j)) ` {Suc n..<Suc n + k}"
    using Suc.prems(2) by (auto simp: image_iff)
  show ?case
    using Suc.IH [OF _ i(2)] Suc.prems(1) i(1)
    by (auto simp: Let_def AddWorker_def split: prod.split option.split)
qed

section \<open>Properties\<close>


definition ex_worker :: "string \<Rightarrow> wstate \<Rightarrow> worker" where
  "ex_worker i st = \<lparr>w_ID = i, w_Command = ''node'', w_Args = [], w_WorkDir = [], w_RuntimeVersion = [],
     w_State = st, w_RestartCount = 0, w_LastHeartbeat = 0, w_CreatedAt = 0, w_UpdatedAt = 0, w_ShutdownTimeout = 0\<rparr>"

definition ex_pool :: "string \<Rightarrow> pool" where
  "ex_pool st = AddWorker (AddWorker (NewPool st) (ex_worker ''a'' StateRunning) 0) (ex_worker ''a-1'' StateRunning) 0"

lemma ex_pool_facts:
  "HealthyWorkers (ex_pool st) = [ex_worker ''a'' StateRunning, ex_worker ''a-1'' StateRunning]"
  "pool_inv (ex_pool st)" "pl_counter (ex_pool st) = 0"
  by (simp_all add: HealthyWorkers_def GetWorkers_def ex_pool_def AddWorker_def NewPool_def ex_worker_def
      map_filter_simps IsAlive_def pool_inv_def)


text \<open>
  The least-loaded strategy is right: the selected worker is healthy and no healthy worker has fewer
  active requests.
\<close>
theorem least_loaded_minimal:
  assumes "pool_inv p" and "pl_strategy p = LeastLoaded" and "HealthyWorkers p \<noteq> []"
  shows "\<exists>w n. SelectWorker p = (Selected w, p) \<and> w \<in> set (HealthyWorkers p) \<and>
    GetWorkerState p (w_ID w) = Some (w, n) \<and>
    (\<forall>v \<in> set (HealthyWorkers p). \<forall>x k. GetWorkerState p (w_ID v) = Some (x, k) \<longrightarrow> n \<le> k)"
proof -
  have "set (HealthyWorkers p) \<subseteq> set (GetWorkers p)" by (auto simp: HealthyWorkers_def)
  from least_fold [OF assms(1) this assms(3)] assms(2,3) show ?thesis
    by (fastforce simp: SelectWorker_def selectLeastLoaded_def Let_def)
qed

theorem least_loaded_minimal_witness:
  "SelectWorker (IncrementActiveReqs (ex_pool LeastLoaded) ''a'') =
    (Selected (ex_worker ''a-1'' StateRunning), IncrementActiveReqs (ex_pool LeastLoaded) ''a'')"
proof -
  let ?p = "IncrementActiveReqs (ex_pool LeastLoaded) ''a''"
  have st: "GetWorkerState ?p ''a'' = Some (ex_worker ''a'' StateRunning, 1)"
      "GetWorkerState ?p ''a-1'' = Some (ex_worker ''a-1'' StateRunning, 0)"
    by (simp_all add: GetWorkerState_def IncrementActiveReqs_def add_activeReqs_def ex_pool_def AddWorker_def
        NewPool_def ex_worker_def)
  have h: "HealthyWorkers ?p = [ex_worker ''a'' StateRunning, ex_worker ''a-1'' StateRunning]"
    by (simp add: HealthyWorkers_def GetWorkers_def IncrementActiveReqs_def add_activeReqs_def ex_pool_def
        AddWorker_def NewPool_def ex_worker_def map_filter_simps IsAlive_def)
  have s: "pl_strategy ?p = LeastLoaded"
    by (simp add: IncrementActiveReqs_def add_activeReqs_def ex_pool_def AddWorker_def NewPool_def ex_worker_def)
  have ids: "w_ID (ex_worker i x) = i" for i x by (simp add: ex_worker_def)
  obtain w n where w: "SelectWorker ?p = (Selected w, ?p)" "w \<in> set (HealthyWorkers ?p)"
      "GetWorkerState ?p (w_ID w) = Some (w, n)"
      "\<forall>v \<in> set (HealthyWorkers ?p). \<forall>x k. GetWorkerState ?p (w_ID v) = Some (x, k) \<longrightarrow> n \<le> k"
    using least_loaded_minimal [OF IncrementActiveReqs_inv [OF ex_pool_facts(2)] s] h by auto
  have "n \<le> 0" using w(4) h st(2) ids by auto
  with w(1,2,3) h st(1) ids show ?thesis by auto
qed

text \<open>
  Spawning a pool adds instances \<open>prefix\<close>, \<open>prefix-1\<close>, \<open>prefix-2\<close>, ... in order up to the first failed
  spawn, whose error is returned; without an error all requested instances are there, and with a size limit
  the pool never grows beyond it.
\<close>
theorem spawn_workers_bounded:
  assumes "pm_configs m prefix = Some cfg" and "pm_pools m prefix = Some p"
    and "0 \<le> mc_Replicas cfg" and "SpawnWorkers spawn s m prefix w now = (e, m', s')"
  shows "\<exists>p' j. pm_pools m' prefix = Some p' \<and>
    pl_workerIDs p' = pl_workerIDs p @ map (instanceID prefix) [0..<j] \<and> int j \<le> mc_Replicas cfg \<and>
    (0 < mc_MaxPoolSize cfg \<longrightarrow> int (Size p') \<le> max (int (Size p)) (mc_MaxPoolSize cfg)) \<and>
    (e = None \<and> mc_MaxPoolSize cfg \<le> 0 \<longrightarrow> int j = mc_Replicas cfg)"
proof (cases "0 < mc_MaxPoolSize cfg \<and> mc_MaxPoolSize cfg \<le> int (Size p)")
  case True
  with assms show ?thesis by (intro exI [of _ p] exI [of _ 0]) (auto simp: SpawnWorkers_def)
next
  case False
  define count where "count = (if 0 < mc_MaxPoolSize cfg
    then min (mc_Replicas cfg) (mc_MaxPoolSize cfg - int (Size p)) else mc_Replicas cfg)"
  obtain e' p' s'' where r: "spawn_loop spawn s p prefix w now 0 (nat count) = (e', p', s'')"
    by (metis surj_pair)
  have res: "e = e'" "m' = put_pool m prefix p'"
    using assms(1,2,4) False r by (simp_all add: SpawnWorkers_def Let_def count_def split: if_splits)
  from spawn_loop_ids [of "nat count" spawn s p prefix w now 0] r
  obtain j where j: "j \<le> nat count" "pl_workerIDs p' = pl_workerIDs p @ map (instanceID prefix) [0..<j]"
      "e' = None \<longleftrightarrow> j = nat count"
    by auto
  have count: "0 \<le> count" "count \<le> mc_Replicas cfg"
    using assms(3) False by (auto simp: count_def)
  have "int (Size p') \<le> max (int (Size p)) (mc_MaxPoolSize cfg)" if "0 < mc_MaxPoolSize cfg"
    using j(1,2) that count(1) by (auto simp: Size_def count_def)
  moreover have "int j = mc_Replicas cfg" if "e = None" "mc_MaxPoolSize cfg \<le> 0"
    using that j(3) res count by (auto simp: count_def split: if_splits)
  moreover have "int j \<le> mc_Replicas cfg" using j(1) count by simp
  ultimately show ?thesis using res(2) j(2) by (auto simp: put_pool_def)
qed

definition ex_manager :: pool_manager where
  "ex_manager = RegisterPool NewManager ''a'' \<lparr>mc_Replicas = 3, mc_Strategy = [], mc_MaxPoolSize = 2\<rparr>"

theorem spawn_workers_bounded_witness:
  "\<exists>p' j. pm_pools (fst (snd (SpawnWorkers (\<lambda>s w. (None, s)) () ex_manager ''a'' (ex_worker ''a'' StateStarting) 0))) ''a'' =
      Some p' \<and> pl_workerIDs p' = [] @ map (instanceID ''a'') [0..<j] \<and> int j \<le> 3 \<and> int (Size p') \<le> 2"
proof -
  let ?cfg = "\<lparr>mc_Replicas = 3, mc_Strategy = RoundRobin, mc_MaxPoolSize = 2\<rparr> :: manager_config"
  have c: "pm_configs ex_manager ''a'' = Some ?cfg" "pm_pools ex_manager ''a'' = Some (NewPool RoundRobin)"
      "0 \<le> mc_Replicas ?cfg"
    by (simp_all add: ex_manager_def RegisterPool_def NewManager_def Let_def)
  obtain e m' s' where r: "SpawnWorkers (\<lambda>s w. (None, s)) () ex_manager ''a'' (ex_worker ''a'' StateStarting) 0 = (e, m', s')"
    by (metis surj_pair)
  show ?thesis
    using spawn_workers_bounded [OF c r] r by (auto simp: NewPool_def Size_def)
qed

text \<open>
  Monitoring restores the replica count: after \<open>MonitorHealth\<close> has looked at an unlimited, orderly pool,
  and if no spawn fails, the pool has \<open>Replicas\<close> workers (or as many as were healthy, if more), and every worker
  that was healthy is still there unchanged, unless a new identifier collides with its own.
\<close>
theorem monitor_restores_replicas:
  assumes "pm_pools m prefix = Some p" and "tidy p"
    and "pm_configs m prefix = Some cfg" and "pm_workerCfgs m prefix = Some base"
    and "mc_MaxPoolSize cfg \<le> 0" and "\<And>s w. fst (spawn s w) = None"
    and "MonitorHealth spawn stop s m [prefix] stamp now = (m', s')"
  shows "\<exists>p'. pm_pools m' prefix = Some p' \<and>
    int (Size p') = max (int (HealthySize p)) (mc_Replicas cfg) \<and>
    (\<forall>w \<in> set (HealthyWorkers p). (\<forall>j. w_ID w \<noteq> generateWorkerID prefix (stamp prefix j)) \<longrightarrow>
       pl_workers p' (w_ID w) = pl_workers p (w_ID w))"
proof -
  obtain p1 s1 where p1: "reap stop s p (GetWorkers p) now = (p1, s1)" by fastforce
  obtain p2 s2 where p2: "ensureReplicas spawn s1 m prefix p1 (stamp prefix) now = (p2, s2)" by fastforce
  have t: "pool_inv p" "distinct (pl_workerIDs p)" "set (pl_workerIDs p) = dom (pl_workers p)"
    using assms(2) by (simp_all add: tidy_def)
  note reaped = reap_effect [OF t(2), of stop s "GetWorkers p" now, unfolded p1 fst_conv]
  have size1: "Size p1 = HealthySize p"
    using reaped HealthySize_tidy [OF assms(2)] by (simp add: Size_def)
  have healthy: "w_ID w \<notin> dead_ids (GetWorkers p)" if "w \<in> set (HealthyWorkers p)" for w
    using that GetWorkers_inj [OF t(1), of _ w] unfolding HealthyWorkers_def dead_ids_def by auto
  have tidy1: "tidy p1"
    using reaped t by (auto simp: tidy_def pool_inv_def restrict_map_def split: if_splits)
  have "dead_ids (GetWorkers p1) = {}"
  proof -
    have "IsAlive w" if "w \<in> set (GetWorkers p1)" for w
      using that GetWorkers_mem [of p1 w] GetWorkers_mem [OF t(1), of w] tidy1 reaped
      by (auto simp: tidy_def restrict_map_def dead_ids_def split: if_splits)
    then show ?thesis by (auto simp: dead_ids_def)
  qed
  then have "HealthySize p1 = Size p1"
    using HealthySize_tidy [OF tidy1] by (simp add: Size_def)
  then have e2: "p2 = fst (ensure_loop spawn s1 p1 prefix base (stamp prefix) now 0
      (nat (mc_Replicas cfg - int (HealthySize p))))"
    using p2 assms(3-5) size1 by (simp add: ensureReplicas_def Let_def)
  have "int (Size p2) = max (int (HealthySize p)) (mc_Replicas cfg)"
    using ensure_loop_size [of spawn, OF assms(6)] size1 by (simp add: e2)
  moreover have "pl_workers p2 (w_ID w) = pl_workers p (w_ID w)"
    if "w \<in> set (HealthyWorkers p)" "\<forall>j. w_ID w \<noteq> generateWorkerID prefix (stamp prefix j)" for w
  proof -
    from that(1) obtain ws where "pl_workers p (w_ID w) = Some ws"
      using GetWorkers_mem [OF t(1), of w] by (auto simp: HealthyWorkers_def)
    moreover from this have "pl_workers p1 (w_ID w) = Some ws"
      using reaped healthy [OF that(1)] by simp
    moreover have "w_ID w \<notin> (\<lambda>j. generateWorkerID prefix (stamp prefix j)) ` {0..<0 + k}" for k
      using that(2) by auto
    ultimately show ?thesis unfolding e2 by (simp add: ensure_loop_keeps)
  qed
  moreover have "pm_pools m' prefix = Some p2"
    using assms(1,7) p1 p2 by (auto simp: put_pool_def)
  ultimately show ?thesis by blast
qed

definition ex_manager2 :: pool_manager where
  "ex_manager2 =
    \<lparr>pm_pools = [''a'' \<mapsto> AddWorker (ex_pool RoundRobin) (ex_worker ''a-2'' StateUnhealthy) 0],
     pm_configs = [''a'' \<mapsto> \<lparr>mc_Replicas = 3, mc_Strategy = RoundRobin, mc_MaxPoolSize = 0\<rparr>],
     pm_workerCfgs = [''a'' \<mapsto> ex_worker ''a'' StateStarting]\<rparr>"

theorem monitor_restores_replicas_witness:
  "\<exists>p'. pm_pools (fst (MonitorHealth (\<lambda>s w. (None, s)) (\<lambda>s i. (None, s)) () ex_manager2 [''a'']
      (\<lambda>_ _. ''20240101-000000.000'') 0)) ''a'' = Some p' \<and> int (Size p') = 3"
proof -
  let ?p = "AddWorker (ex_pool RoundRobin) (ex_worker ''a-2'' StateUnhealthy) 0"
  let ?cfg = "\<lparr>mc_Replicas = 3, mc_Strategy = RoundRobin, mc_MaxPoolSize = 0\<rparr> :: manager_config"
  have p: "pm_pools ex_manager2 ''a'' = Some ?p" by (simp add: ex_manager2_def)
  have t: "tidy ?p"
    unfolding tidy_def
    by (intro conjI AddWorker_inv ex_pool_facts(2))
      (auto simp: AddWorker_def ex_pool_def NewPool_def ex_worker_def)
  have c: "pm_configs ex_manager2 ''a'' = Some ?cfg"
      "pm_workerCfgs ex_manager2 ''a'' = Some (ex_worker ''a'' StateStarting)" "mc_MaxPoolSize ?cfg \<le> 0"
    by (simp_all add: ex_manager2_def)
  have h: "HealthySize ?p = 2"
    by (simp add: HealthySize_def HealthyWorkers_def GetWorkers_def ex_pool_def AddWorker_def NewPool_def
        ex_worker_def map_filter_simps IsAlive_def)
  obtain m' s' where r: "MonitorHealth (\<lambda>s w. (None, s)) (\<lambda>s i. (None, s)) () ex_manager2 [''a'']
      (\<lambda>_ _. ''20240101-000000.000'') 0 = (m', s')" by (metis surj_pair)
  show ?thesis
    using monitor_restores_replicas [OF p t c _ r] r h by auto
qed

text \<open>
  The prefix of an instance created by \<open>SpawnWorkers\<close> is recovered from its identifier, so such an instance
  is looked up in its own pool.
\<close>
theorem instance_prefix_recovered:
  assumes "prefix \<noteq> []" and "0 < i"
  shows "extractPrefix (instanceID prefix i) = prefix"
proof -
  have d: "list_all is_digit (rev (itoa (int i)))"
    using itoa_digits by (simp add: list_all_iff)
  have "extract_scan (rev (itoa (int i)) @ CHR ''-'' # rev prefix) [] = Some prefix"
    using extract_scan_digits [OF d, of "[]"] itoa_digits assms(1) by simp
  with assms(2) show ?thesis by (simp add: extractPrefix_def instanceID_def)
qed

theorem instance_prefix_recovered_witness:
  "extractPrefix (instanceID ''node:products'' 2) = ''node:products''"
  by (rule instance_prefix_recovered) simp_all

text \<open>
  A worker that was itself created as a replacement cannot be replaced: its identifier ends in a time stamp
  with a fraction (\<open>.000\<close>), which \<open>extractPrefix\<close> does not recognise, so unless a pool is registered under the full
  identifier \<open>ReplaceWorker\<close> reports \<open>pool not found\<close> and changes nothing.
\<close>
theorem generated_worker_not_replaceable:
  assumes "list_all is_digit ms"
    and "pm_pools m (generateWorkerID prefix (stamp @ ''.'' @ ms)) = None"
  shows "ReplaceWorker spawn stop s m (generateWorkerID prefix (stamp @ ''.'' @ ms)) stamp' now =
    (Some ErrPoolNotFound, m, s)"
proof -
  let ?id = "generateWorkerID prefix (stamp @ ''.'' @ ms)"
  have d: "list_all is_digit (rev ms)" using assms(1) by (simp add: list_all_iff)
  have "rev ?id = rev ms @ CHR ''.'' # rev (prefix @ ''-'' @ stamp)" by (simp add: generateWorkerID_def)
  then have "extract_scan (rev ?id) [] = None"
    using extract_scan_digits [OF d, of "[]" "CHR ''.'' # rev (prefix @ ''-'' @ stamp)"]
    by (simp add: extract_scan_blocked)
  then have "extractPrefix ?id = ?id" by (simp add: extractPrefix_def)
  with assms(2) show ?thesis by (simp add: ReplaceWorker_def)
qed

theorem generated_worker_not_replaceable_witness:
  "ReplaceWorker (\<lambda>s w. (None, s)) (\<lambda>s i. (None, s)) () ex_manager2
      (generateWorkerID ''a'' (''20240101-000000'' @ ''.'' @ ''000'')) ''20240101-000001.000'' 0 =
    (Some ErrPoolNotFound, ex_manager2, ())"
  by (rule generated_worker_not_replaceable)
    (simp_all add: is_digit_def ex_manager2_def generateWorkerID_def)

end
