(* ===== verification/Lifecycle.thy ===== *)
theory Lifecycle
  imports Pools
begin

text \<open>
  The worker lifecycle service of \<open>core/application/lifecycle/service.go\<close>, together with the parts of
  \<open>core/infrastructure/runtime/runtime.go\<close> that decide whether a runtime has to be provisioned. The state
  is the repository, the drainer, the pool manager and the trace of everything the service does to the outside
  world: events published, processes spawned and stopped, transport endpoints closed and opened, read loops
  restarted. The outside world answers through an environment whose replies may depend on the whole trace.
\<close>

section \<open>Runtime detection\<close>

datatype runtime = RuntimeNode | RuntimePython | RuntimeGo | RuntimeUnknown

definition Detect :: "string \<Rightarrow> runtime" where
  "Detect command =
     (if command = [] then RuntimeUnknown
      else (case Fields command of
              [] \<Rightarrow> RuntimeUnknown
            | first # _ \<Rightarrow>
                if first = ''node'' then RuntimeNode
                else if first \<in> {''python'', ''python3'', ''pypy''} then RuntimePython
                else if first = ''go'' then RuntimeGo
                else if first \<in> {''npm'', ''npx''} then RuntimeNode
                else if first \<in> {''pip'', ''uv''} then RuntimePython
                else if HasPrefix first ''node'' then RuntimeNode
                else if HasPrefix first ''python'' then RuntimePython
                else if HasPrefix first ''go'' then RuntimeGo
                else RuntimeUnknown))"

fun DefaultVersion :: "runtime \<Rightarrow> string" where
  "DefaultVersion RuntimeNode = ''20''"
| "DefaultVersion RuntimePython = ''3.12''"
| "DefaultVersion RuntimeGo = ''1.21''"
| "DefaultVersion RuntimeUnknown = ''''"

text \<open>\<open>skip\<close> says whether \<open>VYX_SKIP_RUNTIME\<close> is set to 1; a blank command is an index panic, \<open>None\<close>.\<close>

definition NeedsProvisioning :: "bool \<Rightarrow> string \<Rightarrow> bool option" where
  "NeedsProvisioning skip command =
     (if skip then Some False
      else if command = [] then Some False
      else (case Fields command of [] \<Rightarrow> None | first # _ \<Rightarrow> Some (first \<noteq> ''go'')))"

section \<open>State and environment\<close>

datatype effect =
    EffPublish wevent
  | EffSpawn worker
  | EffStop string
  | EffDeregister string
  | EffRegister string
  | EffRestartLoop string

record lifecycle =
  ls_repo :: repository
  ls_drainer :: "drainer option"
  ls_poolMgr :: "pool_manager option"
  ls_trace :: "effect list"

record env =
  en_spawn :: "effect list \<Rightarrow> worker \<Rightarrow> go_error option"
  en_stop :: "effect list \<Rightarrow> string \<Rightarrow> go_error option"
  en_transport :: bool
  en_register :: "effect list \<Rightarrow> string \<Rightarrow> go_error option"
  en_receiver :: bool
  en_skipRuntime :: bool
  en_vyxDirEnv :: string
  en_ensure :: "runtime \<Rightarrow> string \<Rightarrow> string \<Rightarrow> go_error option"
  en_resolve :: "runtime \<Rightarrow> string \<Rightarrow> go_error + string"

record spawn_config =
  sp_ID :: string
  sp_Command :: string
  sp_Args :: "string list"
  sp_WorkDir :: string
  sp_ShutdownTimeout :: duration
  sp_RuntimeVersion :: string
  sp_VyxDir :: string

definition NewService :: "repository \<Rightarrow> drainer option \<Rightarrow> pool_manager option \<Rightarrow> lifecycle" where
  "NewService repo drainer poolMgr =
     \<lparr>ls_repo = repo, ls_drainer = drainer, ls_poolMgr = poolMgr, ls_trace = []\<rparr>"

definition add_effect :: "lifecycle \<Rightarrow> effect \<Rightarrow> lifecycle" where
  "add_effect s e = s\<lparr>ls_trace := ls_trace s @ [e]\<rparr>"

definition save :: "lifecycle \<Rightarrow> worker \<Rightarrow> lifecycle" where
  "save s w = s\<lparr>ls_repo := Save (ls_repo s) w\<rparr>"

definition publish :: "lifecycle \<Rightarrow> event_type \<Rightarrow> worker \<Rightarrow> string \<Rightarrow> go_time \<Rightarrow> lifecycle" where
  "publish s ty w details now =
     add_effect s (EffPublish \<lparr>ev_Type = ty, ev_WorkerID = w_ID w, ev_State = w_State w,
                              ev_Timestamp = now, ev_Details = details\<rparr>)"

definition resolveVyxDir :: "string \<Rightarrow> string \<Rightarrow> string" where
  "resolveVyxDir envDir vyxDir = (if vyxDir \<noteq> [] then vyxDir else if envDir \<noteq> [] then envDir else ''.vyx'')"

text \<open>Calls to the process manager and the transport: recorded in the trace, answered by the environment.\<close>

definition mgr_Spawn :: "env \<Rightarrow> lifecycle \<Rightarrow> worker \<Rightarrow> go_error option \<times> lifecycle" where
  "mgr_Spawn E s w = (en_spawn E (ls_trace s) w, add_effect s (EffSpawn w))"

definition mgr_Stop :: "env \<Rightarrow> lifecycle \<Rightarrow> string \<Rightarrow> go_error option \<times> lifecycle" where
  "mgr_Stop E s i = (en_stop E (ls_trace s) i, add_effect s (EffStop i))"

section \<open>Spawning\<close>

text \<open>The provisioning step of \<open>SpawnWorkerWithReplicas\<close>: the command to run, or the error.\<close>

definition provision :: "env \<Rightarrow> spawn_config \<Rightarrow> go_error + string" where
  "provision E cfg =
     (let vyxDir = resolveVyxDir (en_vyxDirEnv E) (sp_VyxDir cfg); rt = Detect (sp_Command cfg)
      in if rt \<noteq> RuntimeUnknown \<and> NeedsProvisioning (en_skipRuntime E) (sp_Command cfg) = Some True
         then (let rtVersion = (if sp_RuntimeVersion cfg = [] then DefaultVersion rt else sp_RuntimeVersion cfg)
               in case en_ensure E rt rtVersion vyxDir of
                    Some err \<Rightarrow> Inl (ErrorfW ''ensure runtime: '' err)
                  | None \<Rightarrow>
                      (case en_resolve E rt vyxDir of
                         Inl err \<Rightarrow> Inl (ErrorfW ''resolve runtime: '' err)
                       | Inr path \<Rightarrow> Inr (path @ '' '' @ sp_Command cfg)))
         else Inr (sp_Command cfg))"

definition new_worker :: "spawn_config \<Rightarrow> string \<Rightarrow> go_time \<Rightarrow> worker" where
  "new_worker cfg command now =
     \<lparr>w_ID = sp_ID cfg, w_Command = command, w_Args = sp_Args cfg, w_WorkDir = sp_WorkDir cfg,
      w_RuntimeVersion = sp_RuntimeVersion cfg, w_State = StateStarting, w_RestartCount = 0,
      w_LastHeartbeat = zero_time, w_CreatedAt = now, w_UpdatedAt = now,
      w_ShutdownTimeout = sp_ShutdownTimeout cfg\<rparr>"

definition spawn_failed :: "lifecycle \<Rightarrow> worker \<Rightarrow> event_type \<Rightarrow> string \<Rightarrow> go_time \<Rightarrow> lifecycle" where
  "spawn_failed s w ty details now =
     (let w' = w\<lparr>w_State := StateStopped, w_UpdatedAt := now\<rparr> in publish (save s w') ty w' details now)"

text \<open>The two ways of starting processes: a pool of replicas, or a single process.\<close>

definition spawn_pool ::
  "env \<Rightarrow> lifecycle \<Rightarrow> pool_manager \<Rightarrow> worker \<Rightarrow> int \<Rightarrow> string \<Rightarrow> go_time \<Rightarrow> (go_error + worker) \<times> lifecycle" where
  "spawn_pool E s m w replicas strategy now =
     (let m1 = RegisterPool m (w_ID w) \<lparr>mc_Replicas = replicas, mc_Strategy = strategy, mc_MaxPoolSize = 0\<rparr>;
          (e, m2, s2) = SpawnWorkers (mgr_Spawn E) s m1 (w_ID w) w now;
          s3 = s2\<lparr>ls_poolMgr := Some m2\<rparr>
      in case e of
           Some err \<Rightarrow> (Inl ErrSpawnFailed, spawn_failed s3 w EventSpawned (Error err) now)
         | None \<Rightarrow>
             (Inr w, publish s3 EventSpawned w (''pool created with '' @ itoa replicas @ '' replicas'') now))"

definition spawn_single :: "env \<Rightarrow> lifecycle \<Rightarrow> worker \<Rightarrow> go_time \<Rightarrow> (go_error + worker) \<times> lifecycle" where
  "spawn_single E s w now =
     (case mgr_Spawn E s w of
        (Some err, s2) \<Rightarrow> (Inl ErrSpawnFailed, spawn_failed s2 w EventSpawned (Error err) now)
      | (None, s2) \<Rightarrow>
          (let w' = w\<lparr>w_UpdatedAt := now\<rparr>
           in (Inr w', publish (save s2 w') EventSpawned w' [] now)))"

definition SpawnWorkerWithReplicas ::
  "env \<Rightarrow> lifecycle \<Rightarrow> spawn_config \<Rightarrow> int \<Rightarrow> string \<Rightarrow> go_time \<Rightarrow> (go_error + worker) \<times> lifecycle" where
  "SpawnWorkerWithReplicas E s cfg replicas strategy now =
     (if sp_Command cfg = [] then (Inl ErrInvalidCommand, s)
      else (case provision E cfg of
              Inl err \<Rightarrow> (Inl err, s)
            | Inr command \<Rightarrow>
                (let w = new_worker cfg command now; s1 = save s w
                 in case ls_poolMgr s1 of
                      Some m \<Rightarrow> if 1 < replicas then spawn_pool E s1 m w replicas strategy now
                                else spawn_single E s1 w now
                    | None \<Rightarrow> spawn_single E s1 w now)))"

definition SpawnWorker :: "env \<Rightarrow> lifecycle \<Rightarrow> spawn_config \<Rightarrow> go_time \<Rightarrow> (go_error + worker) \<times> lifecycle" where
  "SpawnWorker E s cfg now = SpawnWorkerWithReplicas E s cfg 1 ''round-robin'' now"

section \<open>Stopping and restarting\<close>

definition shutdownTimeout :: "worker \<Rightarrow> duration" where
  "shutdownTimeout w = (if 0 < w_ShutdownTimeout w then w_ShutdownTimeout w else 30 * second)"

text \<open>
  Marking and draining. \<open>es\<close> is what the requests in flight do meanwhile; a release that panics in its own
  goroutine leaves the wait group unusable, and the drain runs into its timeout.
\<close>

definition mark_and_drain ::
  "lifecycle \<Rightarrow> worker \<Rightarrow> go_time \<Rightarrow> (go_time \<times> drain_event) list \<Rightarrow> go_error option \<times> lifecycle" where
  "mark_and_drain s w now es =
     (case ls_drainer s of
        None \<Rightarrow> (None, s)
      | Some d \<Rightarrow>
          (let d1 = MarkDraining d (w_ID w)
           in case Drain d1 (w_ID w) (shutdownTimeout w) now es of
                Some (e, d2) \<Rightarrow> (e, s\<lparr>ls_drainer := Some d2\<rparr>)
              | None \<Rightarrow> (Some DeadlineExceeded, s\<lparr>ls_drainer := Some d1\<rparr>)))"

definition StopWorker ::
  "env \<Rightarrow> lifecycle \<Rightarrow> string \<Rightarrow> go_time \<Rightarrow> (go_time \<times> drain_event) list \<Rightarrow> go_error option \<times> lifecycle" where
  "StopWorker E s i now es =
     (case FindByID (ls_repo s) i of
        None \<Rightarrow> (Some ErrNotFound, s)
      | Some w \<Rightarrow>
          (let (derr, s1) = mark_and_drain s w now es;
               s2 = (if derr \<noteq> None
                     then publish s1 EventStopped w ''drain timeout, proceeding to stop'' now else s1)
           in case mgr_Stop E s2 i of
                (Some err, s3) \<Rightarrow> (Some err, s3)
              | (None, s3) \<Rightarrow>
                  (let w' = w\<lparr>w_State := StateStopped, w_UpdatedAt := now\<rparr>;
                       s4 = publish (save s3 w') EventStopped w' ''graceful stop'' now
                   in (None, s4\<lparr>ls_drainer := map_option (\<lambda>d. Cleanup d i) (ls_drainer s4)\<rparr>))))"

definition RestartWorker ::
  "env \<Rightarrow> lifecycle \<Rightarrow> string \<Rightarrow> go_time \<Rightarrow> (go_time \<times> drain_event) list \<Rightarrow> go_error option \<times> lifecycle" where
  "RestartWorker E s i now es =
     (case FindByID (ls_repo s) i of
        None \<Rightarrow> (Some ErrNotFound, s)
      | Some w0 \<Rightarrow>
          (let w = w0\<lparr>w_State := StateRestarting, w_RestartCount := w_RestartCount w0 + 1, w_UpdatedAt := now\<rparr>;
               s1 = publish (save s w) EventRestarting w ''automatic restart'' now;
               (_, s2) = mark_and_drain s1 w now es
           in case mgr_Stop E s2 i of
                (Some err, s3) \<Rightarrow> (Some err, s3)
              | (None, s3) \<Rightarrow>
                  (let (rerr, s4) =
                         (if en_transport E
                          then (let s' = add_effect s3 (EffDeregister i)
                                in (en_register E (ls_trace s') i, add_effect s' (EffRegister i)))
                          else (None, s3))
                   in case rerr of
                        Some err \<Rightarrow>
                          (Some ErrSpawnFailed,
                           spawn_failed s4 w EventStopped (''restart failed: transport re-register: '' @ Error err) now)
                      | None \<Rightarrow>
                          (case mgr_Spawn E s4 w of
                             (Some err, s5) \<Rightarrow>
                               (Some ErrSpawnFailed,
                                spawn_failed s5 w EventStopped (''restart failed: '' @ Error err) now)
                           | (None, s5) \<Rightarrow>
                               (let w' = w\<lparr>w_State := StateRunning, w_UpdatedAt := now\<rparr>;
                                    s6 = publish (save s5 w') EventRunning w' ''restarted successfully'' now
                                in (None, if en_receiver E then add_effect s6 (EffRestartLoop i) else s6))))))"

text \<open>\<open>order\<close> is the iteration order of \<open>FindAll\<close>; \<open>es i\<close> are the requests in flight while worker \<open>i\<close> drains.\<close>

fun for_alive ::
  "(lifecycle \<Rightarrow> string \<Rightarrow> go_error option \<times> lifecycle) \<Rightarrow> worker list \<Rightarrow> go_error option \<Rightarrow> lifecycle \<Rightarrow>
    go_error option \<times> lifecycle" where
  "for_alive f [] lastErr s = (lastErr, s)"
| "for_alive f (w # ws) lastErr s =
     (if \<not> IsAlive w then for_alive f ws lastErr s
      else (case f s (w_ID w) of
              (Some err, s') \<Rightarrow> for_alive f ws (Some err) s'
            | (None, s') \<Rightarrow> for_alive f ws lastErr s'))"

definition StopAll ::
  "env \<Rightarrow> lifecycle \<Rightarrow> string list \<Rightarrow> go_time \<Rightarrow> (string \<Rightarrow> (go_time \<times> drain_event) list) \<Rightarrow> go_error option \<times> lifecycle" where
  "StopAll E s order now es =
     for_alive (\<lambda>s i. StopWorker E s i now (es i)) (FindAll (ls_repo s) order) None s"

definition RestartAll ::
  "env \<Rightarrow> lifecycle \<Rightarrow> string list \<Rightarrow> go_time \<Rightarrow> (string \<Rightarrow> (go_time \<times> drain_event) list) \<Rightarrow> go_error option \<times> lifecycle" where
  "RestartAll E s order now es =
     for_alive (\<lambda>s i. RestartWorker E s i now (es i)) (FindAll (ls_repo s) order) None s"

section \<open>Health\<close>

definition RecordHeartbeat :: "lifecycle \<Rightarrow> string \<Rightarrow> go_time \<Rightarrow> go_error option \<times> lifecycle" where
  "RecordHeartbeat s i now =
     (case FindByID (ls_repo s) i of
        None \<Rightarrow> (Some ErrNotFound, s)
      | Some w0 \<Rightarrow>
          (let w1 = w0\<lparr>w_LastHeartbeat := now, w_UpdatedAt := now\<rparr>;
               w = (if w_State w1 = StateUnhealthy then w1\<lparr>w_State := StateRunning\<rparr> else w1)
           in (None, save (publish s EventHeartbeat w '''' now) w)))"

definition MarkUnhealthy :: "lifecycle \<Rightarrow> string \<Rightarrow> go_time \<Rightarrow> go_error option \<times> lifecycle" where
  "MarkUnhealthy s i now =
     (case FindByID (ls_repo s) i of
        None \<Rightarrow> (Some ErrNotFound, s)
      | Some w0 \<Rightarrow>
          (let w = w0\<lparr>w_State := StateUnhealthy, w_UpdatedAt := now\<rparr>
           in (None, save (publish s EventUnhealthy w ''missed heartbeat'' now) w)))"

definition MarkRunning :: "lifecycle \<Rightarrow> string \<Rightarrow> go_time \<Rightarrow> go_error option \<times> lifecycle" where
  "MarkRunning s i now =
     (case FindByID (ls_repo s) i of
        None \<Rightarrow> (Some ErrNotFound, s)
      | Some w0 \<Rightarrow>
          if w_State w0 = StateRunning then (None, s)
          else (let w = w0\<lparr>w_State := StateRunning, w_LastHeartbeat := now, w_UpdatedAt := now\<rparr>
                in (None, save (publish s EventRunning w ''handshake complete'' now) w)))"

section \<open>Executions\<close>

datatype life_op =
    LSpawn spawn_config int string
  | LStop string "(go_time \<times> drain_event) list"
  | LRestart string "(go_time \<times> drain_event) list"
  | LHeartbeat string
  | LUnhealthy string
  | LRunning string
  | LStopAll "string list" "string \<Rightarrow> (go_time \<times> drain_event) list"
  | LRestartAll "string list" "string \<Rightarrow> (go_time \<times> drain_event) list"

fun life_step :: "env \<Rightarrow> lifecycle \<Rightarrow> go_time \<times> life_op \<Rightarrow> lifecycle" where
  "life_step E s (now, LSpawn cfg n st) = snd (SpawnWorkerWithReplicas E s cfg n st now)"
| "life_step E s (now, LStop i es) = snd (StopWorker E s i now es)"
| "life_step E s (now, LRestart i es) = snd (RestartWorker E s i now es)"
| "life_step E s (now, LHeartbeat i) = snd (RecordHeartbeat s i now)"
| "life_step E s (now, LUnhealthy i) = snd (MarkUnhealthy s i now)"
| "life_step E s (now, LRunning i) = snd (MarkRunning s i now)"
| "life_step E s (now, LStopAll order es) = snd (StopAll E s order now es)"
| "life_step E s (now, LRestartAll order es) = snd (RestartAll E s order now es)"

abbreviation life_run :: "env \<Rightarrow> lifecycle \<Rightarrow> (go_time \<times> life_op) list \<Rightarrow> lifecycle" where
  "life_run E s ops \<equiv> foldl (life_step E) s ops"

lemma for_alive_preserves:
  assumes "\<And>s i. P s \<Longrightarrow> P (snd (f s i))" and "P s"
  shows "P (snd (for_alive f ws e s))"
  using assms(2)
proof (induction ws arbitrary: e s)
  case (Cons w ws)
  then show ?case
    using assms(1) [of s "w_ID w"] by (auto split: prod.split option.split)
qed simp

section \<open>The published events mirror the repository\<close>

text \<open>The state carried by the last event published for a worker.\<close>

definition note_event :: "string \<Rightarrow> wstate option \<Rightarrow> effect \<Rightarrow> wstate option" where
  "note_event i a e =
     (case e of EffPublish ev \<Rightarrow> if ev_WorkerID ev = i then Some (ev_State ev) else a | _ \<Rightarrow> a)"

definition last_state :: "effect list \<Rightarrow> string \<Rightarrow> wstate option" where
  "last_state tr i = foldl (note_event i) None tr"

definition log_ok_at :: "lifecycle \<Rightarrow> string \<Rightarrow> bool" where
  "log_ok_at s i =
     (case ls_repo s i of
        None \<Rightarrow> True
      | Some w \<Rightarrow> w_ID w = i \<and> last_state (ls_trace s) i = Some (w_State w))"

definition log_ok :: "lifecycle \<Rightarrow> bool" where
  "log_ok s \<longleftrightarrow> (\<forall>i. log_ok_at s i)"

lemma last_state_snoc [simp]:
  "last_state (tr @ [e]) i = note_event i (last_state tr i) e"
  by (simp add: last_state_def)

lemma note_event_simps [simp]:
  "note_event i a (EffPublish ev) = (if ev_WorkerID ev = i then Some (ev_State ev) else a)"
  "note_event i a (EffSpawn w) = a" "note_event i a (EffStop j) = a" "note_event i a (EffDeregister j) = a"
  "note_event i a (EffRegister j) = a" "note_event i a (EffRestartLoop j) = a"
  by (simp_all add: note_event_def)

lemma add_effect_simps [simp]:
  "ls_repo (add_effect s e) = ls_repo s" "ls_drainer (add_effect s e) = ls_drainer s"
  "ls_poolMgr (add_effect s e) = ls_poolMgr s" "ls_trace (add_effect s e) = ls_trace s @ [e]"
  by (simp_all add: add_effect_def)

lemma save_simps [simp]:
  "ls_repo (save s w) = (ls_repo s)(w_ID w \<mapsto> w)" "ls_drainer (save s w) = ls_drainer s"
  "ls_poolMgr (save s w) = ls_poolMgr s" "ls_trace (save s w) = ls_trace s"
  by (simp_all add: save_def Save_def)

lemma publish_simps [simp]:
  "ls_repo (publish s ty w d now) = ls_repo s" "ls_drainer (publish s ty w d now) = ls_drainer s"
  "ls_poolMgr (publish s ty w d now) = ls_poolMgr s"
  "last_state (ls_trace (publish s ty w d now)) i =
     (if w_ID w = i then Some (w_State w) else last_state (ls_trace s) i)"
  by (simp_all add: publish_def)

lemma mgr_simps [simp]:
  "ls_repo (snd (mgr_Spawn E s w)) = ls_repo s" "ls_drainer (snd (mgr_Spawn E s w)) = ls_drainer s"
  "ls_poolMgr (snd (mgr_Spawn E s w)) = ls_poolMgr s"
  "last_state (ls_trace (snd (mgr_Spawn E s w))) i = last_state (ls_trace s) i"
  "ls_repo (snd (mgr_Stop E s j)) = ls_repo s" "ls_drainer (snd (mgr_Stop E s j)) = ls_drainer s"
  "ls_poolMgr (snd (mgr_Stop E s j)) = ls_poolMgr s"
  "last_state (ls_trace (snd (mgr_Stop E s j))) i = last_state (ls_trace s) i"
  by (simp_all add: mgr_Spawn_def mgr_Stop_def)

lemma mark_and_drain_simps [simp]:
  "ls_repo (snd (mark_and_drain s w now es)) = ls_repo s"
  "ls_poolMgr (snd (mark_and_drain s w now es)) = ls_poolMgr s"
  "ls_trace (snd (mark_and_drain s w now es)) = ls_trace s"
  by (simp_all add: mark_and_drain_def Let_def split: option.split prod.split)

text \<open>Saving a worker and publishing its state keep the log, whatever happened to this worker before.\<close>

definition log_ok_but :: "string \<Rightarrow> lifecycle \<Rightarrow> bool" where
  "log_ok_but k s \<longleftrightarrow> (\<forall>i. i \<noteq> k \<longrightarrow> log_ok_at s i)"

lemma log_ok_butI: "log_ok s \<Longrightarrow> log_ok_but k s"
  by (simp add: log_ok_def log_ok_but_def)

lemma log_ok_at_cong:
  "ls_repo s' i = ls_repo s i \<Longrightarrow> last_state (ls_trace s') i = last_state (ls_trace s) i \<Longrightarrow>
    log_ok_at s' i = log_ok_at s i"
  by (simp add: log_ok_at_def split: option.split)

lemma log_ok_but_cong:
  "ls_repo s' = ls_repo s \<Longrightarrow> (\<And>i. i \<noteq> k \<Longrightarrow> last_state (ls_trace s') i = last_state (ls_trace s) i) \<Longrightarrow>
    log_ok_but k s \<Longrightarrow> log_ok_but k s'"
  by (simp add: log_ok_but_def log_ok_at_cong [of s' _ s])

lemma log_ok_but_save: "log_ok_but (w_ID w) s \<Longrightarrow> log_ok_but (w_ID w) (save s w)"
  by (simp add: log_ok_but_def log_ok_at_cong [of "save s w" _ s])

lemma log_ok_but_publish: "log_ok_but (w_ID w) s \<Longrightarrow> log_ok_but (w_ID w) (publish s ty w d now)"
  by (simp add: log_ok_but_def log_ok_at_cong [of "publish s ty w d now" _ s])

lemma log_ok_at_save_publish: "log_ok_at (publish (save s w) ty w d now) (w_ID w)"
  "log_ok_at (save (publish s ty w d now) w) (w_ID w)"
  by (simp_all add: log_ok_at_def)

lemma log_ok_but_at: "log_ok_but k s \<Longrightarrow> log_ok_at s k \<Longrightarrow> log_ok s"
  unfolding log_ok_def log_ok_but_def by metis

lemma log_ok_save_publish:
  assumes "log_ok_but k s" and "w_ID w = k"
  shows "log_ok (publish (save s w) ty w d now)" and "log_ok (save (publish s ty w d now) w)"
  using assms log_ok_but_save log_ok_but_publish log_ok_at_save_publish
  by (auto intro!: log_ok_but_at [of "w_ID w"])

lemma log_ok_publish_same:
  assumes "log_ok_but k s" and "w_ID w = k" and "ls_repo s k = Some w"
  shows "log_ok (publish s ty w d now)"
  using assms log_ok_but_publish [of w s] by (intro log_ok_but_at [of k]) (simp_all add: log_ok_at_def)

lemma log_ok_same:
  "ls_repo s' = ls_repo s \<Longrightarrow> (\<And>i. last_state (ls_trace s') i = last_state (ls_trace s) i) \<Longrightarrow> log_ok s' = log_ok s"
  by (simp add: log_ok_def log_ok_at_cong [of s' _ s])

lemma log_ok_ID: "log_ok s \<Longrightarrow> ls_repo s i = Some w \<Longrightarrow> w_ID w = i"
  by (auto simp: log_ok_def log_ok_at_def dest: spec [of _ i])

lemma spawn_loop_frame:
  "ls_repo (snd (snd (spawn_loop (mgr_Spawn E) s p prefix w now i k))) = ls_repo s"
  "ls_drainer (snd (snd (spawn_loop (mgr_Spawn E) s p prefix w now i k))) = ls_drainer s"
  "last_state (ls_trace (snd (snd (spawn_loop (mgr_Spawn E) s p prefix w now i k)))) j = last_state (ls_trace s) j"
  by (induction k arbitrary: s p i; simp add: Let_def mgr_Spawn_def split: option.split)+

lemma SpawnWorkers_frame:
  "ls_repo (snd (snd (SpawnWorkers (mgr_Spawn E) s m prefix w now))) = ls_repo s"
  "ls_drainer (snd (snd (SpawnWorkers (mgr_Spawn E) s m prefix w now))) = ls_drainer s"
  "last_state (ls_trace (snd (snd (SpawnWorkers (mgr_Spawn E) s m prefix w now)))) j = last_state (ls_trace s) j"
  using spawn_loop_frame
  by (simp_all add: SpawnWorkers_def Let_def split_beta split: option.split)

lemma log_ok_drainer [simp]: "log_ok (s\<lparr>ls_drainer := d\<rparr>) = log_ok s" "log_ok_but k (s\<lparr>ls_drainer := d\<rparr>) = log_ok_but k s"
  and log_ok_poolMgr [simp]: "log_ok (s\<lparr>ls_poolMgr := m\<rparr>) = log_ok s" "log_ok_but k (s\<lparr>ls_poolMgr := m\<rparr>) = log_ok_but k s"
  by (simp_all add: log_ok_def log_ok_but_def log_ok_at_def cong: option.case_cong)

lemma log_ok_frame [simp]:
  "log_ok (snd (mgr_Stop E s j)) = log_ok s" "log_ok (snd (mark_and_drain s w now es)) = log_ok s"
  "log_ok_but k (snd (mgr_Stop E s j)) = log_ok_but k s"
  "log_ok_but k (snd (mgr_Spawn E s w)) = log_ok_but k s"
  "log_ok_but k (snd (mark_and_drain s w now es)) = log_ok_but k s"
  "log_ok (add_effect s (EffRestartLoop i)) = log_ok s"
  "log_ok_but k (add_effect s (EffRegister i)) = log_ok_but k s"
  "log_ok_but k (add_effect s (EffDeregister i)) = log_ok_but k s"
  "log_ok_but k (snd (snd (SpawnWorkers (mgr_Spawn E) s m prefix w now))) = log_ok_but k s"
  by (simp_all add: log_ok_def log_ok_but_def log_ok_at_def SpawnWorkers_frame cong: option.case_cong)

lemma log_ok_spawn_failed: "log_ok_but k s \<Longrightarrow> w_ID w = k \<Longrightarrow> log_ok (spawn_failed s w ty d now)"
  by (simp add: spawn_failed_def Let_def log_ok_save_publish)

definition drain_noted ::
  "lifecycle \<Rightarrow> worker \<Rightarrow> go_time \<Rightarrow> (go_time \<times> drain_event) list \<Rightarrow> lifecycle" where
  "drain_noted s w now es =
     (let (derr, s1) = mark_and_drain s w now es
      in if derr \<noteq> None then publish s1 EventStopped w ''drain timeout, proceeding to stop'' now else s1)"

lemma StopWorker_None: "ls_repo s i = None \<Longrightarrow> StopWorker E s i now es = (Some ErrNotFound, s)"
  by (simp add: StopWorker_def FindByID_def)

lemma StopWorker_Some:
  "ls_repo s i = Some w \<Longrightarrow> StopWorker E s i now es =
    (case mgr_Stop E (drain_noted s w now es) i of
       (Some err, s3) \<Rightarrow> (Some err, s3)
     | (None, s3) \<Rightarrow>
         (let w' = w\<lparr>w_State := StateStopped, w_UpdatedAt := now\<rparr>;
              s4 = publish (save s3 w') EventStopped w' ''graceful stop'' now
          in (None, s4\<lparr>ls_drainer := map_option (\<lambda>d. Cleanup d i) (ls_drainer s4)\<rparr>)))"
  by (simp add: StopWorker_def FindByID_def drain_noted_def Let_def split_beta)

lemma drain_noted_simps [simp]:
  "ls_repo (drain_noted s w now es) = ls_repo s"
  "ls_poolMgr (drain_noted s w now es) = ls_poolMgr s"
  "ls_drainer (drain_noted s w now es) = ls_drainer (snd (mark_and_drain s w now es))"
  by (simp_all add: drain_noted_def split_beta)

lemma StopWorker_log: "log_ok s \<Longrightarrow> log_ok (snd (StopWorker E s i now es))"
proof (cases "ls_repo s i")
  case None
  then show "log_ok s \<Longrightarrow> ?thesis" by (simp add: StopWorker_None)
next
  case (Some w)
  assume ok: "log_ok s"
  have i: "w_ID w = i" using log_ok_ID [OF ok Some] .
  let ?s2 = "drain_noted s w now es"
  have s2: "log_ok ?s2"
    using ok i Some log_ok_publish_same [of i "snd (mark_and_drain s w now es)" w] log_ok_butI [OF ok, of i]
    by (simp add: drain_noted_def split_beta)
  then have "log_ok (publish (save (snd (mgr_Stop E ?s2 i)) (w\<lparr>w_State := StateStopped, w_UpdatedAt := now\<rparr>))
      EventStopped (w\<lparr>w_State := StateStopped, w_UpdatedAt := now\<rparr>) ''graceful stop'' now)"
    using i log_ok_butI [of ?s2 i] by (intro log_ok_save_publish(1) [of i]) simp_all
  with s2 show ?thesis
    unfolding StopWorker_Some [OF Some] by (simp add: Let_def split_beta split: option.split)
qed

lemma RestartWorker_log: "log_ok s \<Longrightarrow> log_ok (snd (RestartWorker E s i now es))"
proof (cases "ls_repo s i")
  case None
  then show "log_ok s \<Longrightarrow> ?thesis" by (simp add: RestartWorker_def FindByID_def)
next
  case (Some w0)
  assume ok: "log_ok s"
  let ?w = "w0\<lparr>w_State := StateRestarting, w_RestartCount := w_RestartCount w0 + 1, w_UpdatedAt := now\<rparr>"
  have i: "w_ID ?w = i" using log_ok_ID [OF ok Some] by simp
  have s1: "log_ok (publish (save s ?w) EventRestarting ?w d now)" for d
    using log_ok_butI [OF ok, of i] i by (rule log_ok_save_publish)
  then have but: "log_ok_but i (publish (save s ?w) EventRestarting ?w d now)" for d
    by (rule log_ok_butI)
  show ?thesis
    using Some s1 but i
    by (auto simp: RestartWorker_def FindByID_def Let_def split_beta
        intro!: log_ok_spawn_failed [of i] log_ok_save_publish(1) [of i] split: option.split)
qed

lemma health_log:
  assumes "log_ok s"
  shows "log_ok (snd (RecordHeartbeat s i now))" "log_ok (snd (MarkUnhealthy s i now))"
    "log_ok (snd (MarkRunning s i now))"
  using assms log_ok_butI [OF assms, of i] log_ok_ID [OF assms]
  by (auto simp: RecordHeartbeat_def MarkUnhealthy_def MarkRunning_def FindByID_def Let_def
      intro!: log_ok_save_publish(2) [of i] split: option.split)

lemma spawn_log:
  assumes "log_ok_but (w_ID w) s" and "ls_repo s (w_ID w) = Some w"
  shows "log_ok (snd (spawn_pool E s m w n st now))" "log_ok (snd (spawn_single E s w now))"
proof -
  let ?r = "SpawnWorkers (mgr_Spawn E) s (RegisterPool m (w_ID w) \<lparr>mc_Replicas = n, mc_Strategy = st, mc_MaxPoolSize = 0\<rparr>)
    (w_ID w) w now"
  show "log_ok (snd (spawn_pool E s m w n st now))"
    using assms log_ok_publish_same [OF _ refl, of w "(snd (snd ?r))\<lparr>ls_poolMgr := Some (fst (snd ?r))\<rparr>"]
    by (cases "fst ?r") (simp_all add: spawn_pool_def Let_def split_beta log_ok_spawn_failed SpawnWorkers_frame)
  show "log_ok (snd (spawn_single E s w now))"
    using assms by (cases "fst (mgr_Spawn E s w)")
      (simp_all add: spawn_single_def Let_def split_beta log_ok_spawn_failed log_ok_save_publish(1) [of "w_ID w"])
qed

lemma SpawnWorkerWithReplicas_log: "log_ok s \<Longrightarrow> log_ok (snd (SpawnWorkerWithReplicas E s cfg n st now))"
proof -
  assume ok: "log_ok s"
  have but: "log_ok_but (w_ID w) (save s w)" for w
    using log_ok_but_save log_ok_butI [OF ok] .
  have sp: "log_ok (snd (spawn_pool E (save s w) m w n st now))" "log_ok (snd (spawn_single E (save s w) w now))"
    for w m using spawn_log [OF but] by simp_all
  show ?thesis
    using ok sp by (simp add: SpawnWorkerWithReplicas_def Let_def split: option.split sum.split)
qed

lemma life_step_log: "log_ok s \<Longrightarrow> log_ok (life_step E s x)"
proof -
  assume ok: "log_ok s"
  obtain now op where x: "x = (now, op)" by fastforce
  show ?thesis
    using ok StopWorker_log RestartWorker_log health_log SpawnWorkerWithReplicas_log
    by (cases op) (simp_all add: x StopAll_def RestartAll_def for_alive_preserves [where P = log_ok])
qed

lemma life_run_log: "log_ok s \<Longrightarrow> log_ok (life_run E s ops)"
  by (induction ops arbitrary: s) (simp_all add: life_step_log)

section \<open>Draining flags\<close>

lemma drain_wait_draining: "drain_wait d wid dl es = Some (e, d') \<Longrightarrow> dr_draining d' = dr_draining d"
proof (induction d wid dl es rule: drain_wait.induct)
  case (2 d wid deadline t ev es)
  then show ?case
    by (cases ev) (auto simp: dr_defs split: if_splits option.splits prod.splits)
qed (auto split: if_splits)

definition flagged :: "string \<Rightarrow> lifecycle \<Rightarrow> bool" where
  "flagged i s \<longleftrightarrow> (\<exists>d. ls_drainer s = Some d \<and> IsDraining d i)"

lemma Drain_draining: "Drain d wid tmo now es = Some (e, d') \<Longrightarrow> dr_draining d' = dr_draining d"
  using drain_wait_draining by (auto simp: Drain_def split: option.splits)

lemma mark_and_drain_flagged:
  "ls_drainer s \<noteq> None \<Longrightarrow> flagged (w_ID w) (snd (mark_and_drain s w now es))"
  "flagged i s \<Longrightarrow> flagged i (snd (mark_and_drain s w now es))"
  using Drain_draining
  by (fastforce simp: mark_and_drain_def flagged_def IsDraining_def MarkDraining_def Let_def split: option.splits)+

lemma flagged_cong: "ls_drainer s' = ls_drainer s \<Longrightarrow> flagged i s' = flagged i s"
  by (simp add: flagged_def)

lemma flagged_frame [simp]:
  "flagged i (publish s ty w d now) = flagged i s" "flagged i (save s w) = flagged i s"
  "flagged i (add_effect s e) = flagged i s" "flagged i (snd (mgr_Spawn E s w)) = flagged i s"
  "flagged i (snd (mgr_Stop E s j)) = flagged i s" "flagged i (s\<lparr>ls_poolMgr := m\<rparr>) = flagged i s"
  "flagged i (spawn_failed s w ty dt now) = flagged i s"
  "flagged i (snd (snd (SpawnWorkers (mgr_Spawn E) s pm prefix w now))) = flagged i s"
  by (simp_all add: flagged_def spawn_failed_def Let_def SpawnWorkers_frame)

lemma RestartWorker_flagged: "flagged i s \<Longrightarrow> flagged i (snd (RestartWorker E s j now es))"
  by (auto simp: RestartWorker_def Let_def split_beta mark_and_drain_flagged split: option.split)

lemma RestartWorker_flags:
  assumes "ls_drainer s \<noteq> None" and "ls_repo s i = Some w" and "w_ID w = i"
  shows "flagged i (snd (RestartWorker E s i now es))"
proof -
  let ?w = "w\<lparr>w_State := StateRestarting, w_RestartCount := w_RestartCount w + 1, w_UpdatedAt := now\<rparr>"
  have "flagged i (snd (mark_and_drain (publish (save s ?w) EventRestarting ?w ''automatic restart'' now) ?w now es))"
    using mark_and_drain_flagged(1) [of _ ?w] assms by simp
  with assms(2) show ?thesis
    by (auto simp: RestartWorker_def FindByID_def Let_def split_beta split: option.split)
qed

fun stops :: "life_op \<Rightarrow> string \<Rightarrow> bool" where
  "stops (LStop j es) i = (j = i)"
| "stops (LStopAll order es) i = True"
| "stops _ i = False"

lemma StopWorker_flagged_other: "j \<noteq> i \<Longrightarrow> flagged i s \<Longrightarrow> flagged i (snd (StopWorker E s j now es))"
proof (cases "ls_repo s j")
  case (Some w)
  assume j: "j \<noteq> i" and f: "flagged i s"
  have "flagged i (drain_noted s w now es)"
    using mark_and_drain_flagged(2) [OF f, of w now es] by (simp add: drain_noted_def split_beta)
  then have "flagged i (snd (mgr_Stop E (drain_noted s w now es) j))" by simp
  with j show ?thesis
    unfolding StopWorker_Some [OF Some]
    by (auto simp: Let_def split_beta flagged_def IsDraining_def Cleanup_def split: option.splits)
qed (simp add: StopWorker_None)

lemma spawn_flagged:
  "flagged i (snd (spawn_pool E s m w n st now)) = flagged i s" "flagged i (snd (spawn_single E s w now)) = flagged i s"
  by (simp_all add: spawn_pool_def spawn_single_def Let_def split_beta split: option.split)

lemma life_step_flagged: "flagged i s \<Longrightarrow> \<not> stops (snd x) i \<Longrightarrow> flagged i (life_step E s x)"
proof -
  assume f: "flagged i s" and n: "\<not> stops (snd x) i"
  obtain now op where x: "x = (now, op)" by fastforce
  show ?thesis
  proof (cases op)
    case (LSpawn cfg k st)
    with f spawn_flagged show ?thesis
      by (simp add: x SpawnWorkerWithReplicas_def Let_def split: option.split sum.split)
  next
    case (LRestartAll order es)
    with f show ?thesis
      by (simp add: x RestartAll_def for_alive_preserves [where P = "flagged i"] RestartWorker_flagged)
  qed (use f n x RestartWorker_flagged StopWorker_flagged_other in
      \<open>auto simp: RecordHeartbeat_def MarkUnhealthy_def MarkRunning_def Let_def split: option.split\<close>)
qed

lemma life_run_flagged:
  "flagged i s \<Longrightarrow> \<forall>x \<in> set ops. \<not> stops (snd x) i \<Longrightarrow> flagged i (life_run E s ops)"
  by (induction ops arbitrary: s) (simp_all add: life_step_flagged)

section \<open>Actions on the outside world\<close>

fun is_publish :: "effect \<Rightarrow> bool" where
  "is_publish (EffPublish ev) = True"
| "is_publish _ = False"

text \<open>The trace without the published events.\<close>

definition actions :: "lifecycle \<Rightarrow> effect list" where
  "actions s = filter (\<lambda>e. \<not> is_publish e) (ls_trace s)"

lemma actions_simps [simp]:
  "actions (publish s ty w d now) = actions s" "actions (save s w) = actions s"
  "actions (add_effect s e) = actions s @ (if is_publish e then [] else [e])"
  "actions (snd (mgr_Spawn E s w)) = actions s @ [EffSpawn w]"
  "actions (snd (mgr_Stop E s i)) = actions s @ [EffStop i]"
  "actions (spawn_failed s w ty dt now) = actions s"
  "actions (snd (mark_and_drain s w now es)) = actions s"
  "actions (drain_noted s w now es) = actions s"
  "actions (s\<lparr>ls_drainer := dr\<rparr>) = actions s"
  by (simp_all add: actions_def publish_def save_def add_effect_def mgr_Spawn_def mgr_Stop_def spawn_failed_def
      drain_noted_def Let_def split_beta)

lemma spawn_failed_repo [simp]:
  "ls_repo (spawn_failed s w ty dt now) = (ls_repo s)(w_ID w \<mapsto> w\<lparr>w_State := StateStopped, w_UpdatedAt := now\<rparr>)"
  by (simp add: spawn_failed_def Let_def)

section \<open>Pools only know starting workers\<close>

definition pools_starting :: "lifecycle \<Rightarrow> bool" where
  "pools_starting s \<longleftrightarrow>
     (\<forall>m prefix p i ws. ls_poolMgr s = Some m \<longrightarrow> pm_pools m prefix = Some p \<longrightarrow> pl_workers p i = Some ws \<longrightarrow>
        w_State (ws_worker ws) = StateStarting)"

definition pool_starting :: "pool \<Rightarrow> bool" where
  "pool_starting p \<longleftrightarrow> (\<forall>i ws. pl_workers p i = Some ws \<longrightarrow> w_State (ws_worker ws) = StateStarting)"

lemma pools_starting_alt:
  "pools_starting s \<longleftrightarrow> (\<forall>m prefix p. ls_poolMgr s = Some m \<longrightarrow> pm_pools m prefix = Some p \<longrightarrow> pool_starting p)"
  unfolding pools_starting_def pool_starting_def by blast

lemma pools_starting_cong: "ls_poolMgr s' = ls_poolMgr s \<Longrightarrow> pools_starting s' = pools_starting s"
  by (simp add: pools_starting_def)

lemma spawn_loop_starting:
  "pool_starting p \<Longrightarrow> w_State w = StateStarting \<Longrightarrow>
    pool_starting (fst (snd (spawn_loop spawn s p prefix w now i k)))"
proof (induction k arbitrary: s p i)
  case (Suc k)
  have "pool_starting (AddWorker p (w\<lparr>w_ID := instanceID prefix i\<rparr>) now)"
    using Suc.prems by (simp add: pool_starting_def AddWorker_def)
  from Suc.IH [OF this Suc.prems(2)] Suc.prems(1) show ?case
    by (simp add: Let_def split: prod.split option.split)
qed simp

lemma SpawnWorkers_starting:
  assumes "\<forall>prefix p. pm_pools m prefix = Some p \<longrightarrow> pool_starting p" and "w_State w = StateStarting"
    and "pm_pools (fst (snd (SpawnWorkers spawn s m k w now))) prefix = Some p"
  shows "pool_starting p"
  using assms
  by (auto simp: SpawnWorkers_def Let_def put_pool_def split_beta intro!: spawn_loop_starting
      split: option.splits if_splits)

lemma RegisterPool_starting:
  "\<forall>prefix p. pm_pools m prefix = Some p \<longrightarrow> pool_starting p \<Longrightarrow>
    pm_pools (RegisterPool m k cfg) prefix = Some p \<Longrightarrow> pool_starting p"
  by (auto simp: RegisterPool_def Let_def NewPool_def pool_starting_def split: if_splits)

lemma spawn_failed_poolMgr [simp]: "ls_poolMgr (spawn_failed s w ty dt now) = ls_poolMgr s"
  by (simp add: spawn_failed_def Let_def)

lemma spawn_single_poolMgr [simp]: "ls_poolMgr (snd (spawn_single E s w now)) = ls_poolMgr s"
  by (simp add: spawn_single_def Let_def split_beta split: option.split)

lemma spawn_pool_starting:
  assumes "\<forall>prefix p. pm_pools m prefix = Some p \<longrightarrow> pool_starting p" and "w_State w = StateStarting"
  shows "pools_starting (snd (spawn_pool E s m w n st now))"
proof -
  let ?m1 = "RegisterPool m (w_ID w) \<lparr>mc_Replicas = n, mc_Strategy = st, mc_MaxPoolSize = 0\<rparr>"
  let ?m2 = "fst (snd (SpawnWorkers (mgr_Spawn E) s ?m1 (w_ID w) w now))"
  have "\<forall>prefix p. pm_pools ?m1 prefix = Some p \<longrightarrow> pool_starting p"
    using RegisterPool_starting [OF assms(1)] by blast
  then have "\<forall>prefix p. pm_pools ?m2 prefix = Some p \<longrightarrow> pool_starting p"
    by (intro allI impI) (rule SpawnWorkers_starting [OF _ assms(2)])
  moreover have "ls_poolMgr (snd (spawn_pool E s m w n st now)) = Some ?m2"
    by (simp add: spawn_pool_def Let_def split_beta split: option.split)
  ultimately show ?thesis by (simp add: pools_starting_alt)
qed

lemma SpawnWorkerWithReplicas_starting:
  assumes "pools_starting s"
  shows "pools_starting (snd (SpawnWorkerWithReplicas E s cfg n st now))"
proof -
  have w: "w_State (new_worker cfg c now) = StateStarting" for c by (simp add: new_worker_def)
  have sg: "pools_starting (snd (spawn_single E (save s w) w now))" for w
    using assms pools_starting_cong [of "snd (spawn_single E (save s w) w now)" s] by simp
  have pl: "pools_starting (snd (spawn_pool E (save s (new_worker cfg c now)) m (new_worker cfg c now) n st now))"
    if "ls_poolMgr s = Some m" for m c
    using assms that w by (intro spawn_pool_starting) (simp_all add: pools_starting_alt)
  show ?thesis
    using assms sg pl by (simp add: SpawnWorkerWithReplicas_def Let_def split: option.split sum.split)
qed

lemma life_ops_poolMgr [simp]:
  "ls_poolMgr (snd (StopWorker E s i now es)) = ls_poolMgr s"
  "ls_poolMgr (snd (RestartWorker E s i now es)) = ls_poolMgr s"
  "ls_poolMgr (snd (RecordHeartbeat s i now)) = ls_poolMgr s"
  "ls_poolMgr (snd (MarkUnhealthy s i now)) = ls_poolMgr s"
  "ls_poolMgr (snd (MarkRunning s i now)) = ls_poolMgr s"
  by (simp_all add: StopWorker_def RestartWorker_def RecordHeartbeat_def MarkUnhealthy_def MarkRunning_def
      Let_def split_beta split: option.split)

lemma life_ops_starting [simp]:
  "pools_starting (snd (StopWorker E s i now es)) = pools_starting s"
  "pools_starting (snd (RestartWorker E s i now es)) = pools_starting s"
  "pools_starting (snd (RecordHeartbeat s i now)) = pools_starting s"
  "pools_starting (snd (MarkUnhealthy s i now)) = pools_starting s"
  "pools_starting (snd (MarkRunning s i now)) = pools_starting s"
  by (rule pools_starting_cong, simp)+

lemma life_run_starting: "pools_starting s \<Longrightarrow> pools_starting (life_run E s ops)"
proof (induction ops arbitrary: s)
  case (Cons x ops)
  obtain now op where x: "x = (now, op)" by fastforce
  have "pools_starting (life_step E s x)"
    using Cons.prems
    by (cases op) (simp_all add: x SpawnWorkerWithReplicas_starting
        StopAll_def RestartAll_def for_alive_preserves [where P = pools_starting])
  then show ?case using Cons.IH by simp
qed simp

lemma pool_starting_selects: "pool_starting p \<Longrightarrow> SelectWorker p = (NoWorker, p)"
proof -
  assume "pool_starting p"
  then have "HealthyWorkers p = []"
    by (auto simp: HealthyWorkers_def GetWorkers_def filter_empty_conv List.map_filter_def IsAlive_def
        pool_starting_def)
  then show ?thesis by (simp add: SelectWorker_def)
qed

section \<open>Stopping everything\<close>

lemma StopWorker_success:
  assumes "ls_repo s i = Some w" and "w_ID w = i" and "\<And>tr j. en_stop E tr j = None"
  shows "fst (StopWorker E s i now es) = None"
    and "ls_repo (snd (StopWorker E s i now es)) =
      (ls_repo s)(i \<mapsto> w\<lparr>w_State := StateStopped, w_UpdatedAt := now\<rparr>)"
    and "actions (snd (StopWorker E s i now es)) = actions s @ [EffStop i]"
proof -
  have m: "mgr_Stop E x i = (None, snd (mgr_Stop E x i))" for x
    using assms(3) by (simp add: mgr_Stop_def)
  have eq: "StopWorker E s i now es =
      (let w' = w\<lparr>w_State := StateStopped, w_UpdatedAt := now\<rparr>;
           s4 = publish (save (snd (mgr_Stop E (drain_noted s w now es) i)) w') EventStopped w' ''graceful stop'' now
       in (None, s4\<lparr>ls_drainer := map_option (\<lambda>d. Cleanup d i) (ls_drainer s4)\<rparr>))"
    unfolding StopWorker_Some [OF assms(1)] by (subst m) simp
  show "fst (StopWorker E s i now es) = None"
    and "ls_repo (snd (StopWorker E s i now es)) =
      (ls_repo s)(i \<mapsto> w\<lparr>w_State := StateStopped, w_UpdatedAt := now\<rparr>)"
    and "actions (snd (StopWorker E s i now es)) = actions s @ [EffStop i]"
    unfolding eq using assms(2) by (simp_all add: Let_def)
qed

lemma for_alive_stop:
  assumes "\<And>tr j. en_stop E tr j = None"
    and "distinct (map w_ID ws)" and "\<forall>w \<in> set ws. ls_repo s (w_ID w) = Some w"
  shows "fst (for_alive (\<lambda>s i. StopWorker E s i now (es i)) ws None s) = None \<and>
    ls_repo (snd (for_alive (\<lambda>s i. StopWorker E s i now (es i)) ws None s)) =
      (\<lambda>i. if i \<in> w_ID ` {w \<in> set ws. IsAlive w}
           then Some ((the (ls_repo s i))\<lparr>w_State := StateStopped, w_UpdatedAt := now\<rparr>) else ls_repo s i) \<and>
    actions (snd (for_alive (\<lambda>s i. StopWorker E s i now (es i)) ws None s)) =
      actions s @ map (\<lambda>w. EffStop (w_ID w)) (filter IsAlive ws)"
  using assms(2,3)
proof (induction ws arbitrary: s)
  case Nil
  then show ?case by simp
next
  case (Cons w ws)
  show ?case
  proof (cases "IsAlive w")
    case False
    then have "w_ID ` {v \<in> set (w # ws). IsAlive v} = w_ID ` {v \<in> set ws. IsAlive v}" by auto
    with Cons False show ?thesis by simp
  next
    case True
    let ?r = "StopWorker E s (w_ID w) now (es (w_ID w))"
    note st = StopWorker_success [of s "w_ID w" w E now "es (w_ID w)", OF _ refl assms(1)]
    have w: "ls_repo s (w_ID w) = Some w" using Cons.prems(2) by simp
    have r: "?r = (None, snd ?r)" using st(1) [OF w] by (metis prod.collapse)
    have "\<forall>v \<in> set ws. ls_repo (snd ?r) (w_ID v) = Some v"
    proof
      fix v assume v: "v \<in> set ws"
      then have "w_ID v \<noteq> w_ID w" using Cons.prems(1) by (metis distinct.simps(2) image_eqI list.simps(9) set_map)
      moreover have "ls_repo s (w_ID v) = Some v" using Cons.prems(2) v by simp
      ultimately show "ls_repo (snd ?r) (w_ID v) = Some v" using st(2) [OF w] by simp
    qed
    note IH = Cons.IH [OF _ this]
    have eq: "for_alive (\<lambda>s i. StopWorker E s i now (es i)) (w # ws) None s =
        for_alive (\<lambda>s i. StopWorker E s i now (es i)) ws None (snd ?r)"
      using True by (simp, subst r) simp
    have ids: "w_ID w \<notin> w_ID ` {v \<in> set ws. IsAlive v}" using Cons.prems(1) by auto
    have im: "w_ID ` {v \<in> set (w # ws). IsAlive v} = insert (w_ID w) (w_ID ` {v \<in> set ws. IsAlive v})"
      using True by auto
    have d: "distinct (map w_ID ws)" using Cons.prems(1) by simp
    have "ls_repo (snd (for_alive (\<lambda>s i. StopWorker E s i now (es i)) ws None (snd ?r))) i =
        (if i \<in> insert (w_ID w) (w_ID ` {v \<in> set ws. IsAlive v})
         then Some ((the (ls_repo s i))\<lparr>w_State := StateStopped, w_UpdatedAt := now\<rparr>) else ls_repo s i)" for i
      using IH [OF d] st(2) [OF w] w ids by (cases "i = w_ID w") simp_all
    then show ?thesis
      unfolding eq im using IH [OF d] st(3) [OF w] True by (simp del: for_alive.simps)
  qed
qed

section \<open>Restarting\<close>

lemma RestartWorker_cases:
  assumes "ls_repo s i = Some w" and "w_ID w = i"
  shows "case RestartWorker E s i now es of
      (None, s') \<Rightarrow>
        ls_repo s' = (ls_repo s)(i \<mapsto> w\<lparr>w_State := StateRunning, w_RestartCount := w_RestartCount w + 1,
                                          w_UpdatedAt := now\<rparr>) \<and>
        actions s' = actions s @ [EffStop i] @
          (if en_transport E then [EffDeregister i, EffRegister i] else []) @
          [EffSpawn (w\<lparr>w_State := StateRestarting, w_RestartCount := w_RestartCount w + 1, w_UpdatedAt := now\<rparr>)] @
          (if en_receiver E then [EffRestartLoop i] else [])
    | (Some err, s') \<Rightarrow>
        (\<exists>st \<in> {StateRestarting, StateStopped}.
          ls_repo s' = (ls_repo s)(i \<mapsto> w\<lparr>w_State := st, w_RestartCount := w_RestartCount w + 1,
                                            w_UpdatedAt := now\<rparr>)) \<and>
        (\<exists>xs. actions s' = actions s @ EffStop i # xs \<and> EffRestartLoop i \<notin> set xs)"
proof -
  let ?w = "w\<lparr>w_State := StateRestarting, w_RestartCount := w_RestartCount w + 1, w_UpdatedAt := now\<rparr>"
  define s2 where "s2 = snd (mark_and_drain (publish (save s ?w) EventRestarting ?w ''automatic restart'' now) ?w now es)"
  have s2: "ls_repo s2 = (ls_repo s)(i \<mapsto> ?w)" "actions s2 = actions s"
    using assms(2) by (simp_all add: s2_def)
  define s4 where "s4 = (let s3 = snd (mgr_Stop E s2 i) in
    if en_transport E then add_effect (add_effect s3 (EffDeregister i)) (EffRegister i) else s3)"
  have s4: "ls_repo s4 = (ls_repo s)(i \<mapsto> ?w)"
      "actions s4 = actions s @ [EffStop i] @ (if en_transport E then [EffDeregister i, EffRegister i] else [])"
    using s2 by (simp_all add: s4_def Let_def)
  show ?thesis
    using assms s2 s4
    by (auto simp: RestartWorker_def FindByID_def Let_def split_beta s4_def simp flip: s2_def
        split: option.split)
qed

section \<open>Properties\<close>


text \<open>
  Restarting a worker does the right things in the right order: on success the old process is stopped, the
  endpoint is closed and opened again, and only then the new process is started and the read loop re-armed; the
  worker is running, counted once more, and nobody else is touched. On failure the error is returned, the
  worker is left restarting or stopped, and no read loop is started.
\<close>
theorem restart_worker_spec:
  assumes "ls_repo s i = Some w" and "w_ID w = i"
  shows "case RestartWorker E s i now es of
      (None, s') \<Rightarrow>
        ls_repo s' = (ls_repo s)(i \<mapsto> w\<lparr>w_State := StateRunning, w_RestartCount := w_RestartCount w + 1,
                                          w_UpdatedAt := now\<rparr>) \<and>
        actions s' = actions s @ [EffStop i] @
          (if en_transport E then [EffDeregister i, EffRegister i] else []) @
          [EffSpawn (w\<lparr>w_State := StateRestarting, w_RestartCount := w_RestartCount w + 1, w_UpdatedAt := now\<rparr>)] @
          (if en_receiver E then [EffRestartLoop i] else [])
    | (Some err, s') \<Rightarrow>
        (\<exists>st \<in> {StateRestarting, StateStopped}.
          ls_repo s' = (ls_repo s)(i \<mapsto> w\<lparr>w_State := st, w_RestartCount := w_RestartCount w + 1,
                                            w_UpdatedAt := now\<rparr>)) \<and>
        (\<exists>xs. actions s' = actions s @ EffStop i # xs \<and> EffRestartLoop i \<notin> set xs)"
  using assms by (rule RestartWorker_cases)

definition ex_env :: env where
  "ex_env = \<lparr>en_spawn = \<lambda>_ _. None, en_stop = \<lambda>_ _. None, en_transport = True, en_register = \<lambda>_ _. None,
     en_receiver = True, en_skipRuntime = True, en_vyxDirEnv = [], en_ensure = \<lambda>_ _ _. None,
     en_resolve = \<lambda>_ _. Inr []\<rparr>"

definition ex_service :: lifecycle where
  "ex_service = NewService (NewMemoryWorkerRepository(''w'' \<mapsto> ex_worker ''w'' StateRunning, ''u'' \<mapsto> ex_worker ''u'' StateUnhealthy))
     (Some NewWorkerDrainer) None"

theorem restart_worker_spec_witness:
  "case RestartWorker ex_env ex_service ''w'' 7 [] of
     (None, s') \<Rightarrow> w_State (the (ls_repo s' ''w'')) = StateRunning \<and> w_RestartCount (the (ls_repo s' ''w'')) = 1
   | (Some err, s') \<Rightarrow> False"
proof -
  have r: "ls_repo ex_service ''w'' = Some (ex_worker ''w'' StateRunning)" "w_ID (ex_worker ''w'' StateRunning) = ''w''"
    by (simp_all add: ex_service_def NewService_def ex_worker_def)
  have "fst (RestartWorker ex_env ex_service ''w'' 7 []) = None"
    using r by (simp add: RestartWorker_def FindByID_def Let_def split_beta mgr_Stop_def mgr_Spawn_def ex_env_def)
  with restart_worker_spec [OF r, where E = ex_env and now = 7 and es = "[]"] show ?thesis
    by (auto simp: ex_worker_def split: prod.splits option.splits)
qed

text \<open>
  A restarted worker stays marked as draining: after a successful restart with a drainer the worker is
  running, yet \<open>IsDraining\<close> answers true for it from then on, through any further operations other than stopping it,
  so the dispatcher keeps refusing its requests.
\<close>
theorem restart_leaves_draining:
  assumes "ls_repo s i = Some w" and "w_ID w = i" and "ls_drainer s \<noteq> None"
    and "RestartWorker E s i now es = (None, s')" and "\<forall>x \<in> set ops. \<not> stops (snd x) i"
  shows "(\<exists>w'. ls_repo s' i = Some w' \<and> IsAlive w') \<and>
    (\<exists>d. ls_drainer (life_run E s' ops) = Some d \<and> IsDraining d i)"
proof -
  have "flagged i s'" using RestartWorker_flags [OF assms(3,1,2), of E now es] assms(4) by simp
  from life_run_flagged [OF this assms(5)] have "\<exists>d. ls_drainer (life_run E s' ops) = Some d \<and> IsDraining d i"
    by (simp add: flagged_def)
  moreover have "\<exists>w'. ls_repo s' i = Some w' \<and> IsAlive w'"
  proof -
    have "ls_repo s' i \<noteq> None \<and> w_State (the (ls_repo s' i)) = StateRunning"
      using assms(1,2,4)
      by (auto simp: RestartWorker_def FindByID_def Let_def split_beta split: option.splits if_splits)
    then show ?thesis by (auto simp: IsAlive_def)
  qed
  ultimately show ?thesis by blast
qed

theorem restart_leaves_draining_witness:
  "\<exists>s' d. RestartWorker ex_env ex_service ''w'' 7 [] = (None, s') \<and>
    ls_drainer (life_run ex_env s' [(8, LRunning ''w''), (9, LHeartbeat ''w'')]) = Some d \<and> IsDraining d ''w''"
proof -
  have r: "ls_repo ex_service ''w'' = Some (ex_worker ''w'' StateRunning)" "w_ID (ex_worker ''w'' StateRunning) = ''w''"
      "ls_drainer ex_service \<noteq> None"
    by (simp_all add: ex_service_def NewService_def ex_worker_def)
  have "fst (RestartWorker ex_env ex_service ''w'' 7 []) = None"
    using r by (simp add: RestartWorker_def FindByID_def Let_def split_beta mgr_Stop_def mgr_Spawn_def ex_env_def)
  then obtain s' where s': "RestartWorker ex_env ex_service ''w'' 7 [] = (None, s')" by (metis prod.collapse)
  have "\<forall>x \<in> set [(8, LRunning ''w''), (9, LHeartbeat ''w'')]. \<not> stops (snd x) ''w''" by simp
  from restart_leaves_draining [OF r s' this] s' show ?thesis by blast
qed

text \<open>
  \<open>StopAll\<close> stops exactly the workers that are running: if no stop fails it returns no error, every running
  worker is sent one stop and ends up stopped, and every worker in another state (starting, unhealthy, restarting) is
  left as it is and its process is not stopped.
\<close>
theorem stop_all_stops_running_only:
  assumes "enumerates order (ls_repo s)" and "\<forall>i w. ls_repo s i = Some w \<longrightarrow> w_ID w = i"
    and "\<And>tr j. en_stop E tr j = None" and "ls_repo s i = Some w"
  shows "fst (StopAll E s order now es) = None \<and>
    ls_repo (snd (StopAll E s order now es)) i =
      Some (if IsAlive w then w\<lparr>w_State := StateStopped, w_UpdatedAt := now\<rparr> else w) \<and>
    (\<exists>xs. actions (snd (StopAll E s order now es)) = actions s @ xs \<and> (EffStop i \<in> set xs \<longleftrightarrow> IsAlive w) \<and> distinct xs)"
proof -
  let ?ws = "FindAll (ls_repo s) order"
  note d = FindAll_keyed(1) [OF assms(1,2)]
  note r = FindAll_keyed(2) [OF assms(1,2)]
  note mem = FindAll_keyed(3) [OF assms(1,2)]
  note F = for_alive_stop [OF assms(3) d r, of now es, folded StopAll_def]
  have i: "w_ID w = i" using assms(2,4) by blast
  have al: "i \<in> w_ID ` {v \<in> set ?ws. IsAlive v} \<longleftrightarrow> IsAlive w"
  proof
    assume "i \<in> w_ID ` {v \<in> set ?ws. IsAlive v}"
    then obtain v where "v \<in> set ?ws" "IsAlive v" "w_ID v = i" by blast
    with r assms(4) show "IsAlive w" by (metis option.inject)
  next
    assume "IsAlive w"
    with mem [of w] assms(4) i show "i \<in> w_ID ` {v \<in> set ?ws. IsAlive v}" by blast
  qed
  have "EffStop i \<in> set (map (\<lambda>w. EffStop (w_ID w)) (filter IsAlive ?ws)) \<longleftrightarrow> IsAlive w"
    using al by auto
  moreover have "distinct (map (\<lambda>w. EffStop (w_ID w)) (filter IsAlive ?ws))"
    using d by (simp add: distinct_map inj_on_def)
  ultimately show ?thesis using F al assms(4) by auto
qed

theorem stop_all_stops_running_only_witness:
  "fst (StopAll ex_env ex_service [''w'', ''u''] 9 (\<lambda>_. [])) = None \<and>
    ls_repo (snd (StopAll ex_env ex_service [''w'', ''u''] 9 (\<lambda>_. []))) ''u'' = Some (ex_worker ''u'' StateUnhealthy)"
proof -
  have e: "enumerates [''w'', ''u''] (ls_repo ex_service)"
    by (auto simp: enumerates_def ex_service_def NewService_def NewMemoryWorkerRepository_def)
  have k: "\<forall>i w. ls_repo ex_service i = Some w \<longrightarrow> w_ID w = i"
    by (auto simp: ex_service_def NewService_def NewMemoryWorkerRepository_def ex_worker_def split: if_splits)
  have st: "en_stop ex_env tr j = None" for tr j by (simp add: ex_env_def)
  have u: "ls_repo ex_service ''u'' = Some (ex_worker ''u'' StateUnhealthy)"
    by (simp add: ex_service_def NewService_def)
  show ?thesis
    using stop_all_stops_running_only [OF e k st u, of 9 "\<lambda>_. []"] by (simp add: IsAlive_def ex_worker_def)
qed

text \<open>
  A pool created through the lifecycle service never hands out a worker: the pool keeps its own copies of the
  workers, in the starting state they were created with, and no operation of the service (not even \<open>MarkRunning\<close>)
  updates them, so \<open>SelectWorker\<close> returns nil for every pool at every time.
\<close>
theorem service_pools_select_nobody:
  assumes "ls_poolMgr (life_run E (NewService r d (Some NewManager)) ops) = Some m" and "pm_pools m prefix = Some p"
  shows "SelectWorker p = (NoWorker, p)"
proof -
  have "pools_starting (NewService r d (Some NewManager))"
    by (simp add: pools_starting_def NewService_def NewManager_def)
  from life_run_starting [OF this] assms have "pool_starting p" by (auto simp: pools_starting_alt)
  then show ?thesis by (rule pool_starting_selects)
qed

theorem service_pools_select_nobody_witness:
  "\<exists>m p. ls_poolMgr (life_run ex_env (NewService NewMemoryWorkerRepository None (Some NewManager))
      [(1, LSpawn \<lparr>sp_ID = ''a'', sp_Command = ''run'', sp_Args = [], sp_WorkDir = [], sp_ShutdownTimeout = 0,
         sp_RuntimeVersion = [], sp_VyxDir = []\<rparr> 2 ''round-robin''), (2, LRunning ''a''), (3, LRunning ''a-1'')]) = Some m \<and>
    pm_pools m ''a'' = Some p \<and> Size p = 2 \<and> SelectWorker p = (NoWorker, p)"
proof -
  let ?s = "life_run ex_env (NewService NewMemoryWorkerRepository None (Some NewManager))
      [(1, LSpawn \<lparr>sp_ID = ''a'', sp_Command = ''run'', sp_Args = [], sp_WorkDir = [], sp_ShutdownTimeout = 0,
         sp_RuntimeVersion = [], sp_VyxDir = []\<rparr> 2 ''round-robin''), (2, LRunning ''a''), (3, LRunning ''a-1'')]"
  have c: "provision ex_env \<lparr>sp_ID = ''a'', sp_Command = ''run'', sp_Args = [], sp_WorkDir = [], sp_ShutdownTimeout = 0,
         sp_RuntimeVersion = [], sp_VyxDir = []\<rparr> = Inr ''run''"
    by (simp add: provision_def NeedsProvisioning_def ex_env_def Let_def)
  obtain m p where m: "ls_poolMgr ?s = Some m" "pm_pools m ''a'' = Some p" "Size p = 2"
    using c by (simp add: SpawnWorkerWithReplicas_def Let_def spawn_pool_def split_beta NewService_def NewManager_def
        SpawnWorkers_def RegisterPool_def new_worker_def mgr_Spawn_def ex_env_def put_pool_def NewPool_def Size_def
        numeral_2_eq_2 AddWorker_def)
  with service_pools_select_nobody [OF m(1,2)] show ?thesis by blast
qed

end
