(* ===== verification/Health.thy ===== *)
theory Health
  imports Lifecycle Framing Routes
begin

text \<open>
  Keeping workers healthy: the monitor with its exponential backoff (\<open>core/application/monitor/monitor.go\<close>),
  the heartbeat read loop, its supervisor and the sender (\<open>core/application/heartbeat\<close>), and the registration
  handshake (\<open>core/application/handshake/handler.go\<close>). They all act on the state of the lifecycle service.
\<close>

section \<open>The monitor\<close>

record monitor =
  mo_interval :: duration
  mo_backoffs :: "string \<rightharpoonup> int"
  mo_backoffOrder :: "string list"

abbreviation (input) defaultHeartbeatInterval :: duration where "defaultHeartbeatInterval \<equiv> 5 * second"
abbreviation (input) backoffBase :: duration where "backoffBase \<equiv> 1 * second"
abbreviation (input) backoffMax :: duration where "backoffMax \<equiv> 30 * second"

definition backoffMapMaxSize :: nat where
  "backoffMapMaxSize = 1000"

definition NewMonitor :: monitor where
  "NewMonitor = \<lparr>mo_interval = defaultHeartbeatInterval, mo_backoffs = Map.empty, mo_backoffOrder = []\<rparr>"

text \<open>
  \<open>nextBackoff\<close>. The floating-point product \<open>1e9 * 2^attempt\<close> is exact. Its conversion to a 64-bit duration is
  defined by the language only while it is below \<open>2^63\<close>; \<open>ovf\<close> is what the processor gives otherwise.
\<close>

definition nextBackoff :: "duration \<Rightarrow> monitor \<Rightarrow> string \<Rightarrow> duration" where
  "nextBackoff ovf m i =
     (let attempt = (case mo_backoffs m i of None \<Rightarrow> 0 | Some n \<Rightarrow> n);
          product = backoffBase * 2 ^ nat attempt;
          duration = (if product < 2 ^ 63 then product else ovf)
      in if backoffMax < duration then backoffMax else duration)"

definition addBackoffEntry :: "monitor \<Rightarrow> string \<Rightarrow> monitor" where
  "addBackoffEntry m i =
     (case mo_backoffs m i of
        Some n \<Rightarrow> m\<lparr>mo_backoffs := (mo_backoffs m)(i \<mapsto> n + 1)\<rparr>
      | None \<Rightarrow>
          (let m1 = (if backoffMapMaxSize \<le> card (dom (mo_backoffs m)) \<and> mo_backoffOrder m \<noteq> []
                     then m\<lparr>mo_backoffs := (mo_backoffs m)(hd (mo_backoffOrder m) := None),
                            mo_backoffOrder := tl (mo_backoffOrder m)\<rparr>
                     else m)
           in m1\<lparr>mo_backoffOrder := mo_backoffOrder m1 @ [i],
                 mo_backoffs := (mo_backoffs m1)(i \<mapsto> 1)\<rparr>))"

definition removeBackoffEntry :: "monitor \<Rightarrow> string \<Rightarrow> monitor" where
  "removeBackoffEntry m i =
     m\<lparr>mo_backoffs := (mo_backoffs m)(i := None), mo_backoffOrder := remove_first i (mo_backoffOrder m)\<rparr>"

text \<open>The body of the loop of \<open>checkAll\<close>: the workers it marks, in order, and the new service state.\<close>

fun check_workers :: "monitor \<Rightarrow> lifecycle \<Rightarrow> worker list \<Rightarrow> go_time \<Rightarrow> string list \<times> lifecycle" where
  "check_workers m s [] now = ([], s)"
| "check_workers m s (w # ws) now =
     (if w_State w \<noteq> StateRunning \<or> w_LastHeartbeat w = zero_time then check_workers m s ws now
      else if w_LastHeartbeat w < now - mo_interval m * 2
      then (case check_workers m (snd (MarkUnhealthy s (w_ID w) now)) ws now of (ids, s') \<Rightarrow> (w_ID w # ids, s'))
      else check_workers m s ws now)"

text \<open>\<open>checkAll\<close>: the identifiers for which \<open>scheduleRestart\<close> is launched.\<close>

definition checkAll :: "monitor \<Rightarrow> lifecycle \<Rightarrow> string list \<Rightarrow> go_time \<Rightarrow> string list \<times> lifecycle" where
  "checkAll m s order now = check_workers m s (FindAll (ls_repo s) order) now"

text \<open>\<open>scheduleRestart\<close> after its delay, unless the context was cancelled meanwhile.\<close>

definition scheduleRestart ::
  "env \<Rightarrow> monitor \<Rightarrow> lifecycle \<Rightarrow> string \<Rightarrow> bool \<Rightarrow> go_time \<Rightarrow> (go_time \<times> drain_event) list \<Rightarrow> monitor \<times> lifecycle" where
  "scheduleRestart E m s i cancelled now es =
     (if cancelled then (m, s)
      else (case RestartWorker E s i now es of
              (Some err, s') \<Rightarrow> (addBackoffEntry m i, s')
            | (None, s') \<Rightarrow> (removeBackoffEntry m i, s')))"

section \<open>The heartbeat read loop\<close>

record hb_config =
  hc_Interval :: duration
  hc_ReadTimeout :: duration
  hc_MissedThreshold :: int
  hc_ConnectGrace :: duration
  hc_RetryInterval :: duration

definition DefaultConfig :: hb_config where
  "DefaultConfig = \<lparr>hc_Interval = 5 * second, hc_ReadTimeout = 10 * second, hc_MissedThreshold = 2,
     hc_ConnectGrace = 30 * second, hc_RetryInterval = 500000000\<rparr>"

definition isNotConnectedError :: "go_error option \<Rightarrow> bool" where
  "isNotConnectedError e = (case e of None \<Rightarrow> False | Some err \<Rightarrow> Contains (Error err) ''ipc: worker is not connected'')"

text \<open>The deadline given to one \<open>Receive\<close> call.\<close>

definition readTimeout :: "hb_config \<Rightarrow> duration" where
  "readTimeout cfg = (if hc_ReadTimeout cfg = 0 then hc_Interval cfg * 2 else hc_ReadTimeout cfg)"

text \<open>
  What one iteration sees: the result of \<open>Receive\<close> and the time it returns, and whether the loop's context is
  cancelled by then (\<open>ro_cancelled\<close>) or during the retry sleep (\<open>ro_sleepCancelled\<close>).
\<close>

record recv_outcome =
  ro_time :: go_time
  ro_result :: "go_error + message"
  ro_cancelled :: bool
  ro_sleepCancelled :: bool

text \<open>The new count of missed heartbeats, negative when the loop has to end.\<close>

definition handleReceiveError ::
  "hb_config \<Rightarrow> string \<Rightarrow> lifecycle \<Rightarrow> int \<Rightarrow> go_time \<Rightarrow> recv_outcome \<Rightarrow> go_error \<Rightarrow> int \<times> lifecycle" where
  "handleReceiveError cfg wid s missed startTime oc err =
     (if ro_cancelled oc then (-1, s)
      else if isNotConnectedError (Some err) \<and> ro_time oc - startTime < hc_ConnectGrace cfg
      then (if ro_sleepCancelled oc then (-1, s) else (missed, s))
      else if hc_MissedThreshold cfg \<le> missed + 1
      then (-1, snd (MarkUnhealthy s wid (ro_time oc)))
      else (missed + 1, s))"

definition handleMessage :: "string \<Rightarrow> lifecycle \<Rightarrow> go_time \<Rightarrow> message \<Rightarrow> lifecycle" where
  "handleMessage wid s now msg =
     (if m_Type msg = TypeHandshake then snd (MarkRunning s wid now)
      else if m_Type msg = TypeHeartbeat then snd (RecordHeartbeat s wid now)
      else s)"

text \<open>\<open>Run\<close> over a sequence of iterations; the flag says whether the loop has ended.\<close>

fun hb_loop ::
  "hb_config \<Rightarrow> string \<Rightarrow> lifecycle \<Rightarrow> int \<Rightarrow> go_time \<Rightarrow> recv_outcome list \<Rightarrow> bool \<times> int \<times> lifecycle" where
  "hb_loop cfg wid s missed startTime [] = (False, missed, s)"
| "hb_loop cfg wid s missed startTime (oc # ocs) =
     (case ro_result oc of
        Inl err \<Rightarrow>
          (case handleReceiveError cfg wid s missed startTime oc err of
             (missed', s') \<Rightarrow>
               if missed' < 0 then (True, missed', s') else hb_loop cfg wid s' missed' startTime ocs)
      | Inr msg \<Rightarrow> hb_loop cfg wid (handleMessage wid s (ro_time oc) msg) 0 startTime ocs)"

section \<open>The supervisor of the read loops\<close>

text \<open>
  Every launched loop gets a number, which stands for its cancel function. \<open>rc_loops\<close> are the goroutines that have
  not returned yet. A cancelled loop returns later, and its deferred function then deletes the map entry.
\<close>

record receiver =
  rc_running :: "string \<rightharpoonup> nat"
  rc_next :: nat
  rc_loops :: "(nat \<times> string) list"
  rc_cancelled :: "nat list"

definition NewReceiver :: receiver where
  "NewReceiver = \<lparr>rc_running = Map.empty, rc_next = 0, rc_loops = [], rc_cancelled = []\<rparr>"

definition launchLocked :: "receiver \<Rightarrow> string \<Rightarrow> receiver" where
  "launchLocked r wid =
     r\<lparr>rc_running := (rc_running r)(wid \<mapsto> rc_next r), rc_next := rc_next r + 1,
       rc_loops := rc_loops r @ [(rc_next r, wid)]\<rparr>"

definition cancel_entry :: "receiver \<Rightarrow> string \<Rightarrow> receiver" where
  "cancel_entry r wid =
     (case rc_running r wid of
        None \<Rightarrow> r
      | Some n \<Rightarrow> r\<lparr>rc_cancelled := n # rc_cancelled r, rc_running := (rc_running r)(wid := None)\<rparr>)"

definition StartLoop :: "receiver \<Rightarrow> string \<Rightarrow> receiver" where
  "StartLoop r wid = (if rc_running r wid \<noteq> None then r else launchLocked r wid)"

definition RestartLoop :: "receiver \<Rightarrow> string \<Rightarrow> receiver" where
  "RestartLoop r wid = launchLocked (cancel_entry r wid) wid"

text \<open>\<open>running\<close> enumerates the entries of the map, \<open>live\<close> the identifiers returned by the lister.\<close>

definition reconcile :: "receiver \<Rightarrow> string list \<Rightarrow> string list \<Rightarrow> receiver" where
  "reconcile r live running =
     foldl cancel_entry (foldl StartLoop r (remdups live)) (filter (\<lambda>i. i \<notin> set live) running)"

definition receiver_stopAll :: "receiver \<Rightarrow> string list \<Rightarrow> receiver" where
  "receiver_stopAll r running = foldl cancel_entry r running"

text \<open>The deferred function of the goroutine of loop \<open>n\<close>, run when the loop returns.\<close>

definition loop_exit :: "receiver \<Rightarrow> nat \<Rightarrow> receiver" where
  "loop_exit r n =
     (case map_of (rc_loops r) n of
        None \<Rightarrow> r
      | Some wid \<Rightarrow> r\<lparr>rc_running := (rc_running r)(wid := None), rc_loops := filter (\<lambda>l. fst l \<noteq> n) (rc_loops r)\<rparr>)"

section \<open>The sender\<close>

text \<open>\<open>sendAll\<close>: the messages sent, and for each the transport's answer; a failure does not stop the others.\<close>

definition sendAll :: "(string \<Rightarrow> message \<Rightarrow> go_error option) \<Rightarrow> string list \<Rightarrow> (string \<times> message \<times> go_error option) list" where
  "sendAll send ids = map (\<lambda>i. let msg = \<lparr>m_Type = TypeHeartbeat, m_Payload = []\<rparr> in (i, msg, send i msg)) ids"

section \<open>The handshake\<close>

record capability =
  cap_Path :: string
  cap_Method :: string

datatype handshake_result = HandshakeOk | HandshakeError go_error | HandshakePanic

text \<open>
  \<open>validateCapabilities\<close> only logs, but it calls \<open>Lookup\<close> on the handler's route map, which is a nil pointer (\<open>None\<close>)
  when the handler was built without one: the list of declared routes that are unknown, or the panic.
\<close>

definition validateCapabilities :: "route_map option \<Rightarrow> capability list \<Rightarrow> capability list option" where
  "validateCapabilities routes caps =
     (case routes of
        None \<Rightarrow> if caps = [] then Some [] else None
      | Some rm \<Rightarrow> Some (filter (\<lambda>c. Lookup rm (ToUpper (cap_Method c)) (cap_Path c) = None) caps))"

text \<open>\<open>ctxErr\<close> is the error of the context after \<open>Receive\<close>; \<open>unmarshal\<close> is \<open>json.Unmarshal\<close> into the payload.\<close>

definition Handle ::
  "(bytes \<Rightarrow> go_error + capability list) \<Rightarrow> route_map option \<Rightarrow> lifecycle \<Rightarrow> string \<Rightarrow> go_error + message \<Rightarrow>
    go_error option \<Rightarrow> go_time \<Rightarrow> handshake_result \<times> lifecycle" where
  "Handle unmarshal routes s wid received ctxErr now =
     (case received of
        Inl err \<Rightarrow>
          (case ctxErr of
             Some ce \<Rightarrow> (HandshakeError (ErrorfW (''handshake: worker '' @ wid @ '' did not send handshake within deadline: '') ce), s)
           | None \<Rightarrow> (HandshakeError (ErrorfW (''handshake: receive from worker '' @ wid @ '': '') err), s))
      | Inr msg \<Rightarrow>
          if m_Type msg \<noteq> TypeHandshake
          then (HandshakeError (Errorf (''handshake: worker '' @ wid @ '' sent unexpected message type ''
                  @ MessageType_String (m_Type msg) @ '' (want handshake)'')), s)
          else (case unmarshal (m_Payload msg) of
                  Inl err \<Rightarrow> (HandshakeError (ErrorfW (''handshake: worker '' @ wid @ '' sent malformed payload: '') err), s)
                | Inr caps \<Rightarrow>
                    (case validateCapabilities routes caps of
                       None \<Rightarrow> (HandshakePanic, s)
                     | Some _ \<Rightarrow>
                         (case MarkRunning s wid now of
                            (Some err, s') \<Rightarrow>
                              (HandshakeError (ErrorfW (''handshake: MarkRunning for worker '' @ wid @ '': '') err), s')
                          | (None, s') \<Rightarrow> (HandshakeOk, s')))))"

section \<open>Lemmas: backoff table\<close>

text \<open>The order list and the map agree, the table is bounded, and every counter is positive.\<close>

definition backoff_inv :: "monitor \<Rightarrow> bool" where
  "backoff_inv m \<longleftrightarrow>
     distinct (mo_backoffOrder m) \<and> set (mo_backoffOrder m) = dom (mo_backoffs m) \<and>
     length (mo_backoffOrder m) \<le> backoffMapMaxSize \<and> (\<forall>n \<in> ran (mo_backoffs m). 1 \<le> n)"

lemma backoff_inv_card: "backoff_inv m \<Longrightarrow> card (dom (mo_backoffs m)) = length (mo_backoffOrder m)"
  unfolding backoff_inv_def by (metis distinct_card)

lemma addBackoffEntry_inv:
  assumes "backoff_inv m"
  shows "backoff_inv (addBackoffEntry m i)"
proof (cases "mo_backoffs m i")
  case (Some n)
  then have "i \<in> set (mo_backoffOrder m)" "1 \<le> n"
    using assms by (auto simp: backoff_inv_def ran_def)
  with assms Some show ?thesis
    by (auto simp: backoff_inv_def addBackoffEntry_def ran_def split: if_splits)
next
  case None
  then have i: "i \<notin> set (mo_backoffOrder m)" using assms by (auto simp: backoff_inv_def)
  show ?thesis
  proof (cases "backoffMapMaxSize \<le> length (mo_backoffOrder m)")
    case True
    then obtain x xs where x: "mo_backoffOrder m = x # xs"
      by (cases "mo_backoffOrder m") (simp_all add: backoffMapMaxSize_def)
    with assms None i True backoff_inv_card [OF assms] show ?thesis
      by (auto simp: backoff_inv_def addBackoffEntry_def Let_def ran_def split: if_splits)
  next
    case False
    with assms None i backoff_inv_card [OF assms] show ?thesis
      by (auto simp: backoff_inv_def addBackoffEntry_def Let_def ran_def split: if_splits)
  qed
qed

lemma removeBackoffEntry_inv: "backoff_inv m \<Longrightarrow> backoff_inv (removeBackoffEntry m i)"
  by (auto simp: backoff_inv_def removeBackoffEntry_def remove_first_remove1 ran_def length_remove1 split: if_splits)

text \<open>A run of the monitor's table: \<open>True\<close> for a failed restart, \<open>False\<close> for a successful one.\<close>

fun backoff_run :: "monitor \<Rightarrow> (bool \<times> string) list \<Rightarrow> monitor" where
  "backoff_run m [] = m"
| "backoff_run m ((failed, i) # xs) =
     backoff_run (if failed then addBackoffEntry m i else removeBackoffEntry m i) xs"

lemma backoff_run_inv: "backoff_inv m \<Longrightarrow> backoff_inv (backoff_run m xs)"
  by (induction m xs rule: backoff_run.induct) (simp_all add: addBackoffEntry_inv removeBackoffEntry_inv)

section \<open>Lemmas: health checks\<close>

definition stale :: "monitor \<Rightarrow> go_time \<Rightarrow> worker \<Rightarrow> bool" where
  "stale m now w \<longleftrightarrow>
     w_State w = StateRunning \<and> w_LastHeartbeat w \<noteq> zero_time \<and> w_LastHeartbeat w < now - mo_interval m * 2"

lemma check_workers_ids: "fst (check_workers m s ws now) = map w_ID (filter (stale m now) ws)"
  by (induction m s ws now rule: check_workers.induct) (auto simp: stale_def split: prod.split)

lemma MarkUnhealthy_repo:
  "ls_repo s i = Some w \<Longrightarrow> w_ID w = i \<Longrightarrow>
    ls_repo (snd (MarkUnhealthy s i now)) = (ls_repo s)(i \<mapsto> w\<lparr>w_State := StateUnhealthy, w_UpdatedAt := now\<rparr>)"
  by (simp add: MarkUnhealthy_def FindByID_def Let_def)

lemma check_workers_repo:
  assumes "distinct (map w_ID ws)" and "\<forall>w \<in> set ws. ls_repo s (w_ID w) = Some w"
  shows "ls_repo (snd (check_workers m s ws now)) i =
    (if i \<in> w_ID ` {w \<in> set ws. stale m now w}
     then Some ((the (ls_repo s i))\<lparr>w_State := StateUnhealthy, w_UpdatedAt := now\<rparr>) else ls_repo s i)"
  using assms
proof (induction ws arbitrary: s)
  case Nil
  then show ?case by simp
next
  case (Cons w ws)
  show ?case
  proof (cases "stale m now w")
    case False
    then have eq: "check_workers m s (w # ws) now = check_workers m s ws now" by (auto simp: stale_def)
    have im: "w_ID ` {v \<in> set (w # ws). stale m now v} = w_ID ` {v \<in> set ws. stale m now v}" using False by auto
    show ?thesis unfolding eq im using Cons by simp
  next
    case True
    let ?s = "snd (MarkUnhealthy s (w_ID w) now)"
    have w: "ls_repo s (w_ID w) = Some w" using Cons.prems(2) by simp
    have eq: "snd (check_workers m s (w # ws) now) = snd (check_workers m ?s ws now)"
      using True by (auto simp: stale_def split: prod.split)
    have ne: "w_ID v \<noteq> w_ID w" if "v \<in> set ws" for v
      using Cons.prems(1) that by (metis distinct.simps(2) image_eqI list.simps(9) set_map)
    have "\<forall>v \<in> set ws. ls_repo ?s (w_ID v) = Some v"
      using Cons.prems(2) ne MarkUnhealthy_repo [OF w refl, of now] by simp
    note IH = Cons.IH [OF _ this]
    have im: "w_ID ` {v \<in> set (w # ws). stale m now v} = insert (w_ID w) (w_ID ` {v \<in> set ws. stale m now v})"
      using True by auto
    have "w_ID w \<notin> w_ID ` {v \<in> set ws. stale m now v}" using ne by force
    then show ?thesis
      unfolding eq im using IH Cons.prems(1) MarkUnhealthy_repo [OF w refl, of now] w
      by (cases "i = w_ID w") simp_all
  qed
qed

lemma checkAll_spec:
  assumes "enumerates order (ls_repo s)" and "\<forall>i w. ls_repo s i = Some w \<longrightarrow> w_ID w = i"
  shows "i \<in> set (fst (checkAll m s order now)) \<longleftrightarrow> (\<exists>w. ls_repo s i = Some w \<and> stale m now w)"
    and "ls_repo (snd (checkAll m s order now)) i =
      (case ls_repo s i of
         None \<Rightarrow> None
       | Some w \<Rightarrow> Some (if stale m now w then w\<lparr>w_State := StateUnhealthy, w_UpdatedAt := now\<rparr> else w))"
proof -
  note F = FindAll_keyed [OF assms]
  have mem: "i \<in> w_ID ` {w \<in> set (FindAll (ls_repo s) order). stale m now w} \<longleftrightarrow>
      (\<exists>w. ls_repo s i = Some w \<and> stale m now w)"
    using F(3) assms(2) by (auto simp: image_iff)
  then show "i \<in> set (fst (checkAll m s order now)) \<longleftrightarrow> (\<exists>w. ls_repo s i = Some w \<and> stale m now w)"
    by (auto simp: checkAll_def check_workers_ids)
  show "ls_repo (snd (checkAll m s order now)) i =
      (case ls_repo s i of
         None \<Rightarrow> None
       | Some w \<Rightarrow> Some (if stale m now w then w\<lparr>w_State := StateUnhealthy, w_UpdatedAt := now\<rparr> else w))"
    unfolding checkAll_def check_workers_repo [OF F(1,2)] mem by (auto split: option.split)
qed

section \<open>Lemmas: the read loop\<close>

definition counts_as_missed :: "hb_config \<Rightarrow> go_time \<Rightarrow> recv_outcome \<Rightarrow> bool" where
  "counts_as_missed cfg startTime oc \<longleftrightarrow>
     (\<exists>err. ro_result oc = Inl err \<and> \<not> ro_cancelled oc \<and>
        \<not> (isNotConnectedError (Some err) \<and> ro_time oc - startTime < hc_ConnectGrace cfg))"

lemma hb_loop_missed:
  assumes "\<forall>oc \<in> set ocs. counts_as_missed cfg st oc" and "0 \<le> missed"
    and "missed + int (length ocs) < hc_MissedThreshold cfg"
  shows "hb_loop cfg wid s missed st ocs = (False, missed + int (length ocs), s)"
  using assms
proof (induction ocs arbitrary: missed)
  case (Cons oc ocs)
  then obtain err where e: "ro_result oc = Inl err" "\<not> ro_cancelled oc"
      "\<not> (isNotConnectedError (Some err) \<and> ro_time oc - st < hc_ConnectGrace cfg)"
    by (auto simp: counts_as_missed_def)
  have "hb_loop cfg wid s (missed + 1) st ocs = (False, missed + 1 + int (length ocs), s)"
    using Cons.prems by (intro Cons.IH) auto
  with e Cons.prems show ?case
    by (auto simp: handleReceiveError_def)
qed simp

lemma hb_loop_append:
  "hb_loop cfg wid s missed st (xs @ ys) =
     (case hb_loop cfg wid s missed st xs of
        (True, r) \<Rightarrow> (True, r)
      | (False, missed', s') \<Rightarrow> hb_loop cfg wid s' missed' st ys)"
  by (induction xs arbitrary: s missed) (auto split: sum.split prod.split)

section \<open>Properties\<close>

text \<open>
  C39: The monitor's memory is bounded and consistent: after any history of failed and successful restarts of any
  workers, the eviction list holds exactly the workers with a backoff counter, each once, at most 1000 of them, and
  all counters are positive.
\<close>
theorem backoff_table_invariant:
  "backoff_inv (backoff_run NewMonitor xs)"
  by (rule backoff_run_inv) (simp add: backoff_inv_def NewMonitor_def)

text \<open>
  The delay before restart attempt \<open>n\<close> is \<open>2^n\<close> seconds, at most 30, as long as the product fits the 64-bit
  duration (\<open>n < 34\<close>); from the 34th consecutive failure on the delay is whatever the processor's overflowing conversion gives
  (capped at 30 seconds), which on amd64 is negative: no delay at all.
\<close>
theorem next_backoff_delay:
  assumes "backoff_inv m"
  shows "nextBackoff ovf m i =
    (let n = (case mo_backoffs m i of None \<Rightarrow> 0 | Some k \<Rightarrow> nat k)
     in if n < 34 then min (2 ^ n * second) (30 * second) else min ovf (30 * second))"
proof -
  define n where "n = (case mo_backoffs m i of None \<Rightarrow> 0 | Some k \<Rightarrow> nat k)"
  have n: "nat (case mo_backoffs m i of None \<Rightarrow> 0 | Some k \<Rightarrow> k) = n"
    by (simp add: n_def split: option.split)
  have lt: "(2::int) ^ n \<le> 2 ^ 33" if "n < 34" using that by (intro power_increasing) simp_all
  have ge: "(2::int) ^ 34 \<le> 2 ^ n" if "\<not> n < 34" using that by (intro power_increasing) simp_all
  have "second * 2 ^ n < 2 ^ 63 \<longleftrightarrow> n < 34"
    using lt ge by (cases "n < 34") (auto simp: second_def)
  then show ?thesis
    unfolding nextBackoff_def n Let_def n_def [symmetric] by (auto simp: min_def mult.commute)
qed

theorem next_backoff_delay_witness:
  "nextBackoff (- (2 ^ 63)) (backoff_run NewMonitor [(True, ''w''), (True, ''w'')]) ''w'' = 4 * second"
proof -
  have i: "backoff_inv (backoff_run NewMonitor [(True, ''w''), (True, ''w'')])"
    by (rule backoff_run_inv) (simp add: backoff_inv_def NewMonitor_def)
  have "mo_backoffs (backoff_run NewMonitor [(True, ''w''), (True, ''w'')]) ''w'' = Some 2"
    by (simp add: addBackoffEntry_def NewMonitor_def backoffMapMaxSize_def)
  with next_backoff_delay [OF i, of "- (2 ^ 63)" "''w''"] show ?thesis by (simp add: second_def)
qed

text \<open>
  A health check marks and schedules exactly the stale workers: those that are running, have sent at least one
  heartbeat, and whose last one is older than two intervals; each of them becomes unhealthy and every other worker is
  left as it is.
\<close>
theorem check_all_exact:
  assumes "enumerates order (ls_repo s)" and "\<forall>i w. ls_repo s i = Some w \<longrightarrow> w_ID w = i"
  shows "(i \<in> set (fst (checkAll m s order now)) \<longleftrightarrow>
      (\<exists>w. ls_repo s i = Some w \<and> w_State w = StateRunning \<and> w_LastHeartbeat w \<noteq> 0 \<and>
        w_LastHeartbeat w < now - mo_interval m * 2)) \<and>
    ls_repo (snd (checkAll m s order now)) i =
      (if i \<in> set (fst (checkAll m s order now))
       then Some ((the (ls_repo s i))\<lparr>w_State := StateUnhealthy, w_UpdatedAt := now\<rparr>) else ls_repo s i)"
  using checkAll_spec [OF assms, where i = i and m = m and now = now] by (auto simp: stale_def split: option.split)

theorem check_all_exact_witness:
  "fst (checkAll NewMonitor (NewService [''w'' \<mapsto> (ex_worker ''w'' StateRunning)\<lparr>w_LastHeartbeat := 1\<rparr>] None None) [''w'']
      (20 * second)) \<noteq> []"
proof -
  let ?s = "NewService [''w'' \<mapsto> (ex_worker ''w'' StateRunning)\<lparr>w_LastHeartbeat := 1\<rparr>] None None"
  have "enumerates [''w''] (ls_repo ?s)" "\<forall>i w. ls_repo ?s i = Some w \<longrightarrow> w_ID w = i"
    by (simp_all add: enumerates_def NewService_def ex_worker_def)
  from check_all_exact [OF this, of "''w''" NewMonitor "20 * second"] show ?thesis
    by (auto simp: NewService_def ex_worker_def NewMonitor_def second_def)
qed

text \<open>
  A restart that fails is final: the worker is left restarting or stopped, and no later health check schedules
  another attempt, so the exponential backoff never gets to a second try by itself.
\<close>
theorem failed_restart_not_retried:
  assumes "enumerates order (ls_repo s)" and "\<forall>i w. ls_repo s i = Some w \<longrightarrow> w_ID w = i"
    and "ls_repo s i = Some w" and "RestartWorker E s i now es = (Some err, s')"
  shows "i \<notin> set (fst (checkAll m s' order now'))"
proof -
  have "w_ID w = i" using assms(2,3) by blast
  from RestartWorker_cases [OF assms(3) this, where E = E and now = now and es = es] assms(4)
  obtain st where st: "st \<in> {StateRestarting, StateStopped}" and
    r: "ls_repo s' = (ls_repo s)(i \<mapsto> w\<lparr>w_State := st, w_RestartCount := w_RestartCount w + 1, w_UpdatedAt := now\<rparr>)"
    by auto
  have "enumerates order (ls_repo s')" using assms(1,3) r by (auto simp: enumerates_def)
  moreover have "\<forall>i w. ls_repo s' i = Some w \<longrightarrow> w_ID w = i"
    unfolding r by (rule keyed_upd [OF assms(2)]) (simp add: \<open>w_ID w = i\<close>)
  ultimately have "i \<in> set (fst (checkAll m s' order now')) \<longleftrightarrow> (\<exists>w. ls_repo s' i = Some w \<and> stale m now' w)"
    by (rule checkAll_spec(1))
  with st r show ?thesis by (auto simp: stale_def)
qed

theorem failed_restart_not_retried_witness:
  "\<exists>err s'. RestartWorker (ex_env\<lparr>en_spawn := \<lambda>_ _. Some ErrSpawnFailed\<rparr>) ex_service ''w'' 7 [] = (Some err, s') \<and>
    ''w'' \<notin> set (fst (checkAll NewMonitor s' [''w'', ''u''] (100 * second)))"
proof -
  let ?E = "ex_env\<lparr>en_spawn := \<lambda>_ _. Some ErrSpawnFailed\<rparr>"
  have e: "enumerates [''w'', ''u''] (ls_repo ex_service)"
    by (auto simp: enumerates_def ex_service_def NewService_def NewMemoryWorkerRepository_def)
  have k: "\<forall>i w. ls_repo ex_service i = Some w \<longrightarrow> w_ID w = i"
    by (auto simp: ex_service_def NewService_def NewMemoryWorkerRepository_def ex_worker_def split: if_splits)
  have w: "ls_repo ex_service ''w'' = Some (ex_worker ''w'' StateRunning)" by (simp add: ex_service_def NewService_def)
  have "fst (RestartWorker ?E ex_service ''w'' 7 []) \<noteq> None"
    using w by (simp add: RestartWorker_def FindByID_def Let_def split_beta mgr_Stop_def mgr_Spawn_def ex_env_def)
  then obtain err s' where r: "RestartWorker ?E ex_service ''w'' 7 [] = (Some err, s')"
    by (metis not_None_eq prod.collapse)
  from failed_restart_not_retried [OF e k w r] r show ?thesis by blast
qed

text \<open>
  A restarted worker is judged by the heartbeat of its predecessor: a restart triggered by a stale heartbeat
  succeeds, keeps that heartbeat, and the next health check that comes before the new process has sent one of its own
  marks the worker unhealthy and schedules another restart.
\<close>
theorem restart_keeps_stale_heartbeat:
  assumes "enumerates order (ls_repo s)" and "\<forall>i w. ls_repo s i = Some w \<longrightarrow> w_ID w = i"
    and "ls_repo s i = Some w" and "w_LastHeartbeat w \<noteq> 0" and "w_LastHeartbeat w < now' - mo_interval m * 2"
    and "RestartWorker E s i now es = (None, s')"
  shows "i \<in> set (fst (checkAll m s' order now'))"
proof -
  have "w_ID w = i" using assms(2,3) by blast
  from RestartWorker_cases [OF assms(3) this, where E = E and now = now and es = es] assms(6)
  have r: "ls_repo s' = (ls_repo s)(i \<mapsto> w\<lparr>w_State := StateRunning, w_RestartCount := w_RestartCount w + 1, w_UpdatedAt := now\<rparr>)"
    by simp
  have "enumerates order (ls_repo s')" using assms(1,3) r by (auto simp: enumerates_def)
  moreover have "\<forall>i w. ls_repo s' i = Some w \<longrightarrow> w_ID w = i"
    unfolding r by (rule keyed_upd [OF assms(2)]) (simp add: \<open>w_ID w = i\<close>)
  ultimately have "i \<in> set (fst (checkAll m s' order now')) \<longleftrightarrow> (\<exists>w. ls_repo s' i = Some w \<and> stale m now' w)"
    by (rule checkAll_spec(1))
  with assms(4,5) r show ?thesis by (simp add: stale_def)
qed

theorem restart_keeps_stale_heartbeat_witness:
  "\<exists>s'. RestartWorker ex_env (NewService [''w'' \<mapsto> (ex_worker ''w'' StateUnhealthy)\<lparr>w_LastHeartbeat := 1\<rparr>] None None) ''w''
      (20 * second) [] = (None, s') \<and> ''w'' \<in> set (fst (checkAll NewMonitor s' [''w''] (25 * second)))"
proof -
  let ?w = "(ex_worker ''w'' StateUnhealthy)\<lparr>w_LastHeartbeat := 1\<rparr>"
  let ?s = "NewService [''w'' \<mapsto> ?w] None None"
  have e: "enumerates [''w''] (ls_repo ?s)" "\<forall>i w. ls_repo ?s i = Some w \<longrightarrow> w_ID w = i" "ls_repo ?s ''w'' = Some ?w"
    by (simp_all add: enumerates_def NewService_def ex_worker_def)
  have hb: "w_LastHeartbeat ?w \<noteq> 0" "w_LastHeartbeat ?w < 25 * second - mo_interval NewMonitor * 2"
    by (simp_all add: NewMonitor_def second_def)
  have "fst (RestartWorker ex_env ?s ''w'' (20 * second) []) = None"
    using e(3) by (simp add: RestartWorker_def FindByID_def Let_def split_beta mgr_Stop_def mgr_Spawn_def ex_env_def)
  then obtain s' where r: "RestartWorker ex_env ?s ''w'' (20 * second) [] = (None, s')" by (metis prod.collapse)
  from restart_keeps_stale_heartbeat [OF e hb r] r show ?thesis by blast
qed

text \<open>
  The read loop gives a worker exactly \<open>MissedThreshold\<close> chances: any message resets the count, and the first
  run of \<open>MissedThreshold\<close> failed reads in a row (not counting those excused by the connection grace period) marks the worker
  unhealthy and ends the loop, not earlier.
\<close>
theorem read_loop_threshold:
  assumes "\<forall>oc \<in> set ocs. counts_as_missed cfg st oc" and "0 < hc_MissedThreshold cfg"
    and "ro_result oc = Inr msg"
  shows "fst (hb_loop cfg wid s 0 st (oc # ocs)) \<longleftrightarrow> hc_MissedThreshold cfg \<le> int (length ocs)"
    (is "?ended \<longleftrightarrow> _")
proof -
  let ?s = "handleMessage wid s (ro_time oc) msg"
  have start: "hb_loop cfg wid s 0 st (oc # ocs) = hb_loop cfg wid ?s 0 st ocs" using assms(3) by simp
  show ?thesis
  proof (cases "int (length ocs) < hc_MissedThreshold cfg")
    case True
    with hb_loop_missed [OF assms(1), of 0 wid ?s] start show ?thesis by simp
  next
    case False
    define k where "k = nat (hc_MissedThreshold cfg - 1)"
    have k: "k < length ocs" "int k + 1 = hc_MissedThreshold cfg" using False assms(2) by (simp_all add: k_def)
    have split: "ocs = take k ocs @ ocs ! k # drop (Suc k) ocs" using k(1) by (rule id_take_nth_drop)
    have t: "\<forall>oc \<in> set (take k ocs). counts_as_missed cfg st oc" using assms(1) by (meson in_set_takeD)
    have "counts_as_missed cfg st (ocs ! k)" using assms(1) k(1) by simp
    moreover have "hb_loop cfg wid ?s 0 st (take k ocs) = (False, int k, ?s)"
      using hb_loop_missed [OF t, of 0 wid ?s] k by simp
    ultimately have "fst (hb_loop cfg wid ?s 0 st (take k ocs @ ocs ! k # drop (Suc k) ocs))"
      using k(2) by (auto simp: hb_loop_append counts_as_missed_def handleReceiveError_def)
    with split start False show ?thesis by simp
  qed
qed

theorem read_loop_threshold_witness:
  "fst (hb_loop DefaultConfig ''w'' ex_service 0 0
     (\<lparr>ro_time = 1, ro_result = Inr \<lparr>m_Type = TypeHeartbeat, m_Payload = []\<rparr>, ro_cancelled = False, ro_sleepCancelled = False\<rparr>
      # replicate 2 \<lparr>ro_time = 2, ro_result = Inl DeadlineExceeded, ro_cancelled = False, ro_sleepCancelled = False\<rparr>))"
proof -
  let ?ocs = "replicate 2 \<lparr>ro_time = 2, ro_result = Inl DeadlineExceeded, ro_cancelled = False, ro_sleepCancelled = False\<rparr> :: recv_outcome list"
  have "\<forall>oc \<in> set ?ocs. counts_as_missed DefaultConfig 0 oc"
    by (simp add: counts_as_missed_def isNotConnectedError_def HasPrefix_def numeral_2_eq_2)
  from read_loop_threshold [OF this, where msg = "\<lparr>m_Type = TypeHeartbeat, m_Payload = []\<rparr>"] show ?thesis
    by (simp add: DefaultConfig_def del: hb_loop.simps)
qed

text \<open>
  After a restart a worker can end up with two read loops: when the goroutine of the cancelled loop returns, its
  deferred function deletes the map entry of the new loop, the next reconciliation sees no running loop and launches another
  one, and both are active and not cancelled.
\<close>
theorem restarted_worker_gets_two_loops:
  assumes "rc_running r wid = Some n" and "map_of (rc_loops r) n = Some wid"
    and "\<forall>l \<in> set (rc_loops r). fst l < rc_next r" and "\<forall>k \<in> set (rc_cancelled r). k < rc_next r" and "n < rc_next r"
    and "live = [wid]" and "\<And>i. i \<noteq> wid \<Longrightarrow> rc_running r i = None"
  shows "\<exists>a b. a \<noteq> b \<and> (let r' = reconcile (loop_exit (RestartLoop r wid) n) live [wid]
     in {(a, wid), (b, wid)} \<subseteq> set (rc_loops r') \<and> a \<notin> set (rc_cancelled r') \<and> b \<notin> set (rc_cancelled r'))"
proof -
  let ?r1 = "RestartLoop r wid"
  have r1: "rc_loops ?r1 = rc_loops r @ [(rc_next r, wid)]" "rc_cancelled ?r1 = n # rc_cancelled r"
      "rc_next ?r1 = Suc (rc_next r)" "rc_running ?r1 = (rc_running r)(wid \<mapsto> rc_next r)"
    using assms(1) by (simp_all add: RestartLoop_def cancel_entry_def launchLocked_def)
  have m: "map_of (rc_loops ?r1) n = Some wid" using assms(2) r1 by (simp add: map_add_Some_iff)
  let ?r2 = "loop_exit ?r1 n"
  have r2: "(rc_next r, wid) \<in> set (rc_loops ?r2)" "rc_running ?r2 wid = None"
      "rc_next ?r2 = Suc (rc_next r)" "rc_cancelled ?r2 = n # rc_cancelled r"
    using m r1 assms(5) by (simp_all add: loop_exit_def)
  have "reconcile ?r2 live [wid] = launchLocked ?r2 wid"
    using r2(2) assms(6) by (simp add: reconcile_def StartLoop_def)
  then show ?thesis
    using r2 assms(4,5)
    by (intro exI [of _ "rc_next r"] exI [of _ "Suc (rc_next r)"]) (auto simp: launchLocked_def)
qed

theorem restarted_worker_gets_two_loops_witness:
  "\<exists>a b. a \<noteq> b \<and> (let r' = reconcile (loop_exit (RestartLoop (StartLoop NewReceiver ''w'') ''w'') 0) [''w''] [''w'']
     in {(a, ''w''), (b, ''w'')} \<subseteq> set (rc_loops r') \<and> a \<notin> set (rc_cancelled r') \<and> b \<notin> set (rc_cancelled r'))"
  by (rule restarted_worker_gets_two_loops) (simp_all add: StartLoop_def NewReceiver_def launchLocked_def)

text \<open>
  The handshake admits a worker only on a proper registration: it succeeds exactly when a handshake frame with a
  readable payload arrives for a known worker and (with a route map present, or no capability declared) then the worker is
  running; in every other case, a panic on a missing route map included, the worker's state is not changed.
\<close>
theorem handshake_outcome:
  assumes "ls_repo s wid = Some w \<Longrightarrow> w_ID w = wid"
  shows "(fst (Handle unmarshal routes s wid received ctxErr now) = HandshakeOk \<longleftrightarrow>
      (\<exists>msg caps. received = Inr msg \<and> m_Type msg = TypeHandshake \<and> unmarshal (m_Payload msg) = Inr caps \<and>
         (routes = None \<longrightarrow> caps = []) \<and> ls_repo s wid \<noteq> None)) \<and>
    (case Handle unmarshal routes s wid received ctxErr now of
       (HandshakeOk, s') \<Rightarrow> ls_repo s wid = Some w \<longrightarrow> (\<exists>w'. ls_repo s' wid = Some w' \<and> IsAlive w')
     | (_, s') \<Rightarrow> s' = s)"
proof -
  have ok: "MarkRunning s wid now = (None, s') \<Longrightarrow> ls_repo s wid = Some w \<Longrightarrow>
      \<exists>w'. ls_repo s' wid = Some w' \<and> IsAlive w'" for s'
    using assms by (auto simp: MarkRunning_def FindByID_def IsAlive_def Let_def split: if_splits)
  show ?thesis
  proof (cases "ls_repo s wid")
    case None
    then have "MarkRunning s wid now = (Some ErrNotFound, s)" by (simp add: MarkRunning_def FindByID_def)
    with None show ?thesis
      by (simp add: Handle_def validateCapabilities_def split: sum.split option.split)
  next
    case (Some v)
    then obtain s' where s': "MarkRunning s wid now = (None, s')"
      by (cases "w_State v = StateRunning") (simp_all add: MarkRunning_def FindByID_def Let_def)
    with Some ok [OF s'] show ?thesis
      by (auto simp: Handle_def validateCapabilities_def split: sum.split option.split)
  qed
qed

theorem handshake_outcome_witness:
  "fst (Handle (\<lambda>_. Inr [\<lparr>cap_Path = ''/a'', cap_Method = ''GET''\<rparr>]) None ex_service ''w''
      (Inr \<lparr>m_Type = TypeHandshake, m_Payload = []\<rparr>) None 5) \<noteq> HandshakeOk"
proof -
  have "ls_repo ex_service ''w'' = Some (ex_worker ''w'' StateRunning) \<Longrightarrow> w_ID (ex_worker ''w'' StateRunning) = ''w''"
    by (simp add: ex_worker_def)
  from handshake_outcome [OF this, where routes = None] show ?thesis by auto
qed

end
