(* ===== verification/RateLimit.thy ===== *)
theory RateLimit
  imports Prelude
begin

text \<open>
  Request limits per client: the fixed-window buckets and the two bucket maps of
  \<open>core/application/gateway/ratelimiter.go\<close>, and the resolvers of the client address they are keyed by,
  \<open>core/application/gateway/clientip.go\<close>. The random jitter of a window is an argument of the operation. Parsing and
  matching of addresses (\<open>net.ParseIP\<close>, \<open>IPNet.Contains\<close>) are parameters.
\<close>

section \<open>Buckets\<close>

record bucket =
  bk_count :: int
  bk_windowEnd :: go_time

definition new_bucket :: bucket where
  "new_bucket = \<lparr>bk_count = 0, bk_windowEnd = zero_time\<rparr>"

text \<open>\<open>rnd\<close> is the value of \<open>rand.Int63n(jitter)\<close>.\<close>

definition bucket_allow ::
  "bucket \<Rightarrow> int \<Rightarrow> duration \<Rightarrow> duration \<Rightarrow> int \<Rightarrow> go_time \<Rightarrow> (bool \<times> duration) \<times> bucket" where
  "bucket_allow b limit window jitter rnd now =
     (let b1 = (if bk_windowEnd b < now
                then b\<lparr>bk_count := 0, bk_windowEnd := (if 0 < jitter then now + window + rnd else now + window)\<rparr>
                else b)
      in if limit \<le> bk_count b1
         then (let retryAfter = bk_windowEnd b1 - now in ((False, if retryAfter < 0 then 0 else retryAfter), b1))
         else ((True, 0), b1\<lparr>bk_count := bk_count b1 + 1\<rparr>))"

section \<open>The limiter\<close>

record rate_limiter =
  rl_perIP :: int
  rl_perToken :: int
  rl_window :: duration
  rl_jitter :: duration
  rl_ipBuckets :: "string \<rightharpoonup> bucket"
  rl_tokBuckets :: "string \<rightharpoonup> bucket"

definition NewRateLimiterWithJitter :: "int \<Rightarrow> int \<Rightarrow> duration \<Rightarrow> duration \<Rightarrow> rate_limiter" where
  "NewRateLimiterWithJitter perIP perToken window maxJitter =
     \<lparr>rl_perIP = perIP, rl_perToken = perToken, rl_window = window,
      rl_jitter = (if window div 2 < maxJitter then window div 2 else maxJitter),
      rl_ipBuckets = Map.empty, rl_tokBuckets = Map.empty\<rparr>"

definition NewRateLimiter :: "int \<Rightarrow> int \<Rightarrow> duration \<Rightarrow> rate_limiter" where
  "NewRateLimiter perIP perToken window = NewRateLimiterWithJitter perIP perToken window 0"

definition getBucket :: "(string \<rightharpoonup> bucket) \<Rightarrow> string \<Rightarrow> bucket \<times> (string \<rightharpoonup> bucket)" where
  "getBucket m key = (case m key of Some b \<Rightarrow> (b, m) | None \<Rightarrow> (new_bucket, m(key \<mapsto> new_bucket)))"

definition put_bucket :: "(string \<rightharpoonup> bucket) \<Rightarrow> string \<Rightarrow> bucket \<Rightarrow> (string \<rightharpoonup> bucket)" where
  "put_bucket m key b = m(key \<mapsto> b)"

interpretation buckets: lazy_store "\<lambda>m. m" getBucket "\<lambda>_ _. new_bucket" put_bucket
  by unfold_locales (simp_all add: getBucket_def put_bucket_def split: option.split)

text \<open>\<open>net.SplitHostPort\<close>: the host and the port, or \<open>None\<close> for its errors.\<close>

definition SplitHostPort :: "string \<Rightarrow> (string \<times> string) option" where
  "SplitHostPort hp =
     (case last_index (CHR '':'') hp of
        None \<Rightarrow> None
      | Some i \<Rightarrow>
          (if hd hp = CHR ''['' then
             (case first_index (CHR '']'') hp of
                None \<Rightarrow> None
              | Some e \<Rightarrow>
                  if Suc e \<noteq> i then None
                  else if CHR ''['' \<in> set (drop 1 hp) \<or> CHR '']'' \<in> set (drop (Suc e) hp) then None
                  else Some (drop 1 (take e hp), drop (Suc i) hp))
           else if CHR '':'' \<in> set (take i hp) then None
           else if CHR ''['' \<in> set hp \<or> CHR '']'' \<in> set hp then None
           else Some (take i hp, drop (Suc i) hp)))"

definition AllowIP :: "rate_limiter \<Rightarrow> string \<Rightarrow> int \<Rightarrow> go_time \<Rightarrow> (bool \<times> duration) \<times> rate_limiter" where
  "AllowIP r remoteAddr rnd now =
     (let ip = (case SplitHostPort remoteAddr of Some (host, _) \<Rightarrow> host | None \<Rightarrow> remoteAddr);
          (b, m) = getBucket (rl_ipBuckets r) ip;
          (res, b') = bucket_allow b (rl_perIP r) (rl_window r) (rl_jitter r) rnd now
      in (res, r\<lparr>rl_ipBuckets := put_bucket m ip b'\<rparr>))"

definition AllowToken :: "rate_limiter \<Rightarrow> string \<Rightarrow> int \<Rightarrow> go_time \<Rightarrow> (bool \<times> duration) \<times> rate_limiter" where
  "AllowToken r token rnd now =
     (if token = [] then ((True, 0), r)
      else (let (b, m) = getBucket (rl_tokBuckets r) token;
                (res, b') = bucket_allow b (rl_perToken r) (rl_window r) (rl_jitter r) rnd now
            in (res, r\<lparr>rl_tokBuckets := put_bucket m token b'\<rparr>)))"

section \<open>Resolving the client address\<close>

record http_peer =
  hp_RemoteAddr :: string
  hp_XForwardedFor :: string
  hp_XRealIP :: string

definition RemoteAddr_ClientIP :: "http_peer \<Rightarrow> string" where
  "RemoteAddr_ClientIP r = (case SplitHostPort (hp_RemoteAddr r) of Some (ip, _) \<Rightarrow> ip | None \<Rightarrow> hp_RemoteAddr r)"

text \<open>
  \<open>parse\<close> is \<open>net.ParseIP\<close>, a trusted network is the predicate \<open>Contains\<close> of its \<open>IPNet\<close>.
\<close>

definition isTrusted :: "('ip \<Rightarrow> bool) list \<Rightarrow> 'ip \<Rightarrow> bool" where
  "isTrusted trusted ip = (\<exists>net \<in> set trusted. net ip)"

fun rightmost_untrusted :: "(string \<Rightarrow> 'ip option) \<Rightarrow> ('ip \<Rightarrow> bool) list \<Rightarrow> string list \<Rightarrow> string option" where
  "rightmost_untrusted parse trusted [] = None"
| "rightmost_untrusted parse trusted (a # as) =
     (case parse a of
        None \<Rightarrow> rightmost_untrusted parse trusted as
      | Some ip \<Rightarrow> if \<not> isTrusted trusted ip then Some a else rightmost_untrusted parse trusted as)"

definition ForwardedFor_ClientIP :: "(string \<Rightarrow> 'ip option) \<Rightarrow> ('ip \<Rightarrow> bool) list \<Rightarrow> http_peer \<Rightarrow> string" where
  "ForwardedFor_ClientIP parse trusted req =
     (let xff = hp_XForwardedFor req
      in if xff = [] then RemoteAddr_ClientIP req
         else (let addrs = map TrimSpace (Split (CHR '','') xff)
               in if trusted = [] then hd addrs
                  else (case rightmost_untrusted parse trusted (rev addrs) of
                          Some a \<Rightarrow> a
                        | None \<Rightarrow> hd addrs)))"

definition RealIP_ClientIP :: "(string \<Rightarrow> 'ip option) \<Rightarrow> ('ip \<Rightarrow> bool) list \<Rightarrow> http_peer \<Rightarrow> string" where
  "RealIP_ClientIP parse trusted req =
     (let realIP = hp_XRealIP req
      in if realIP = [] then RemoteAddr_ClientIP req
         else if trusted = [] then realIP
         else (case SplitHostPort (hp_RemoteAddr req) of
                 None \<Rightarrow> RemoteAddr_ClientIP req
               | Some (peerIP, _) \<Rightarrow>
                   if peerIP = [] then RemoteAddr_ClientIP req
                   else (case parse peerIP of
                           None \<Rightarrow> RemoteAddr_ClientIP req
                         | Some ip \<Rightarrow> if isTrusted trusted ip then realIP else RemoteAddr_ClientIP req)))"

section \<open>Lemmas\<close>

text \<open>A sequence of requests to one bucket, each with its time and its random number: the answers.\<close>

fun bucket_run :: "bucket \<Rightarrow> int \<Rightarrow> duration \<Rightarrow> duration \<Rightarrow> (go_time \<times> int) list \<Rightarrow> bool list" where
  "bucket_run b limit window jitter [] = []"
| "bucket_run b limit window jitter ((t, rnd) # ts) =
     (case bucket_allow b limit window jitter rnd t of
        ((ok, _), b') \<Rightarrow> ok # bucket_run b' limit window jitter ts)"

definition admitted :: "bool list \<Rightarrow> int" where
  "admitted as = int (length (filter id as))"

lemma admitted_simps [simp]: "admitted [] = 0" "admitted (a # as) = (if a then 1 else 0) + admitted as"
  by (simp_all add: admitted_def)

lemma run_in_window:
  assumes "\<forall>(t, rnd) \<in> set ts. t \<le> bk_windowEnd b" and "0 \<le> bk_count b"
  shows "bucket_run b limit window jitter ts =
    (let k = min (length ts) (nat (limit - bk_count b))
     in replicate k True @ replicate (length ts - k) False)"
  using assms
proof (induction ts arbitrary: b)
  case Nil
  then show ?case by simp
next
  case (Cons x ts)
  obtain t rnd where x: "x = (t, rnd)" by fastforce
  show ?case
  proof (cases "limit \<le> bk_count b")
    case True
    then have "bucket_run b limit window jitter (x # ts) = False # bucket_run b limit window jitter ts"
      using Cons.prems(1) by (simp add: x bucket_allow_def)
    with True Cons.IH [of b] Cons.prems show ?thesis by simp
  next
    case False
    let ?b = "b\<lparr>bk_count := bk_count b + 1\<rparr>"
    have "bucket_run b limit window jitter (x # ts) = True # bucket_run ?b limit window jitter ts"
      using Cons.prems(1) False by (simp add: x bucket_allow_def)
    moreover have "nat (limit - bk_count b) = Suc (nat (limit - (bk_count b + 1)))" using False by simp
    ultimately show ?thesis using Cons.IH [of ?b] Cons.prems by (simp add: Let_def)
  qed
qed

lemma admitted_in_window:
  assumes "\<forall>(t, rnd) \<in> set ts. t \<le> bk_windowEnd b" and "0 \<le> bk_count b" and "0 \<le> limit"
  shows "admitted (bucket_run b limit window jitter ts) \<le> limit - min (bk_count b) limit"
  unfolding run_in_window [OF assms(1,2)] using assms(2,3) by (simp add: admitted_def Let_def)

lemma admitted_two_windows:
  assumes "0 \<le> bk_count b" and "0 \<le> limit" and "sorted (map fst ts)"
    and "\<forall>(t, rnd) \<in> set ts. a \<le> t \<and> t \<le> a + window \<and> 0 \<le> rnd"
  shows "admitted (bucket_run b limit window jitter ts) \<le> 2 * limit - min (bk_count b) limit"
  using assms
proof (induction ts arbitrary: b)
  case Nil
  then show ?case by simp
next
  case (Cons x ts)
  obtain t rnd where x: "x = (t, rnd)" by fastforce
  have ts: "sorted (map fst ts)" "\<forall>(t, rnd) \<in> set ts. a \<le> t \<and> t \<le> a + window \<and> 0 \<le> rnd"
    using Cons.prems(3,4) by auto
  show ?case
  proof (cases "bk_windowEnd b < t")
    case True
    define b1 where "b1 = b\<lparr>bk_count := 0, bk_windowEnd := (if 0 < jitter then t + window + rnd else t + window)\<rparr>"
    have eq: "bucket_run b limit window jitter (x # ts) = bucket_run b1 limit window jitter (x # ts)"
      using True Cons.prems(4) by (simp add: x bucket_allow_def b1_def Let_def)
    have "\<forall>(u, r) \<in> set (x # ts). u \<le> bk_windowEnd b1"
      using Cons.prems(4) x by (fastforce simp: b1_def)
    from admitted_in_window [OF this, of limit] Cons.prems(2)
    have "admitted (bucket_run b1 limit window jitter (x # ts)) \<le> limit" by (simp add: b1_def)
    with eq show ?thesis using Cons.prems(1,2) by simp
  next
    case False
    show ?thesis
    proof (cases "limit \<le> bk_count b")
      case True
      with False have "bucket_run b limit window jitter (x # ts) = False # bucket_run b limit window jitter ts"
        by (simp add: x bucket_allow_def)
      with Cons.IH [OF Cons.prems(1,2) ts] show ?thesis by simp
    next
      case below: False
      let ?b = "b\<lparr>bk_count := bk_count b + 1\<rparr>"
      have "bucket_run b limit window jitter (x # ts) = True # bucket_run ?b limit window jitter ts"
        using False below by (simp add: x bucket_allow_def)
      with Cons.IH [of ?b] Cons.prems(1,2) ts below show ?thesis by simp
    qed
  qed
qed

section \<open>Properties\<close>

text \<open>
  C38: No client gets more than twice its limit through in any stretch of time as long as a window: whatever the state of
  its bucket, of requests that arrive in order within \<open>window\<close> of each other at most \<open>2 * limit\<close> are admitted (a fixed window can
  end and a new one begin in between), minus what was already counted against the window in progress.
\<close>
theorem at_most_twice_the_limit:
  assumes "0 \<le> bk_count b" and "0 \<le> limit" and "sorted (map fst ts)"
    and "\<forall>(t, rnd) \<in> set ts. a \<le> t \<and> t \<le> a + window \<and> 0 \<le> rnd"
  shows "admitted (bucket_run b limit window jitter ts) \<le> 2 * limit - min (bk_count b) limit"
  using assms by (rule admitted_two_windows)

theorem at_most_twice_the_limit_witness:
  "admitted (bucket_run \<lparr>bk_count = 0, bk_windowEnd = 100\<rparr> 1 60 0 [(100, 0), (101, 0), (102, 0)]) = 2 \<and>
   admitted (bucket_run \<lparr>bk_count = 0, bk_windowEnd = 100\<rparr> 1 60 0 [(100, 0), (101, 0), (102, 0)]) \<le> 2 * 1 - min 0 1"
proof -
  have "admitted (bucket_run \<lparr>bk_count = 0, bk_windowEnd = 100\<rparr> 1 60 0 [(100, 0), (101, 0), (102, 0)]) \<le>
      2 * 1 - min (bk_count \<lparr>bk_count = 0, bk_windowEnd = 100\<rparr>) 1"
    by (rule at_most_twice_the_limit [where a = 100]) simp_all
  then show ?thesis by (simp add: bucket_allow_def)
qed

text \<open>
  Within one window the limit is exact: when a request opens a new window, then of it and the following requests up
  to the end of the window the first \<open>limit\<close> are admitted and all others are refused.
\<close>
theorem window_admits_exactly_limit:
  assumes "bk_windowEnd b < t" and "0 < limit" and "0 \<le> rnd"
    and "\<forall>(u, r) \<in> set ts. u \<le> t + window" and "0 \<le> window"
  shows "bucket_run b limit window jitter ((t, rnd) # ts) =
    (let k = min (length ts + 1) (nat limit) in replicate k True @ replicate (length ts + 1 - k) False)"
proof -
  define e where "e = (if 0 < jitter then t + window + rnd else t + window)"
  let ?b = "\<lparr>bk_count = 0, bk_windowEnd = e\<rparr>"
  have "\<forall>(u, r) \<in> set ((t, rnd) # ts). u \<le> bk_windowEnd ?b"
    using assms(3-5) by (auto simp: e_def)
  from run_in_window [OF this, of limit window jitter]
  have "bucket_run ?b limit window jitter ((t, rnd) # ts) =
      (let k = min (length ts + 1) (nat limit) in replicate k True @ replicate (length ts + 1 - k) False)"
    by simp
  moreover have "bucket_allow b limit window jitter rnd t = bucket_allow ?b limit window jitter rnd t"
    using assms(1,3,5) by (simp add: bucket_allow_def e_def Let_def)
  ultimately show ?thesis by simp
qed

theorem window_admits_exactly_limit_witness:
  "bucket_run new_bucket 2 60 10 [(5, 3), (6, 0), (7, 0)] = [True, True, False]"
proof -
  have "bk_windowEnd new_bucket < 5" "\<forall>(u, r) \<in> set [(6, 0), (7, 0) :: go_time \<times> int]. u \<le> 5 + 60"
    by (simp_all add: new_bucket_def)
  from window_admits_exactly_limit [OF this(1) _ _ this(2), of 2 3 10] show ?thesis
    by (simp add: numeral_eq_Suc)
qed

text \<open>
  The advertised retry time is honest: a refused client is told a non-negative time of at most the window plus the
  jitter, and once that time has passed its next request is admitted, however many it sent in vain meanwhile.
\<close>
theorem retry_after_suffices:
  assumes "bucket_allow b limit window jitter rnd now = ((False, ra), b')"
    and "0 < limit" and "now + ra < now'" and "bk_windowEnd b \<le> now + window + jitter"
    and "\<forall>(u, r) \<in> set ts. u \<le> now + ra"
  shows "0 \<le> ra \<and> ra \<le> window + jitter \<and>
    last (bucket_run b' limit window jitter (ts @ [(now', rnd')])) = True"
proof -
  have opened: "\<not> bk_windowEnd b < now"
    using assms(1,2) by (auto simp: bucket_allow_def Let_def split: if_splits)
  with assms(1) have b': "b' = b" "ra = bk_windowEnd b - now" "limit \<le> bk_count b"
    by (auto simp: bucket_allow_def Let_def split: if_splits)
  have "bucket_run b limit window jitter (us @ [(now', rnd')]) =
      bucket_run b limit window jitter us @ [True]" if "\<forall>(u, r) \<in> set us. u \<le> now + ra" for us
    using that
  proof (induction us)
    case Nil
    then show ?case using assms(2,3) b' by (simp add: bucket_allow_def)
  next
    case (Cons x us)
    obtain u r where x: "x = (u, r)" by fastforce
    have "bucket_allow b limit window jitter r u = ((False, if bk_windowEnd b - u < 0 then 0 else bk_windowEnd b - u), b)"
      using Cons.prems b' by (simp add: x bucket_allow_def)
    with Cons show ?case by (simp add: x)
  qed
  with assms(5) have "last (bucket_run b' limit window jitter (ts @ [(now', rnd')])) = True"
    using b'(1) by simp
  with b' opened assms(4) show ?thesis by simp
qed

theorem retry_after_suffices_witness:
  "last (bucket_run \<lparr>bk_count = 1, bk_windowEnd = 60\<rparr> 1 60 0 ([(50, 0)] @ [(61, 0)])) = True"
proof -
  have r: "bucket_allow \<lparr>bk_count = 1, bk_windowEnd = 60\<rparr> 1 60 0 0 10 = ((False, 50), \<lparr>bk_count = 1, bk_windowEnd = 60\<rparr>)"
    by (simp add: bucket_allow_def)
  show ?thesis
    using retry_after_suffices [OF r, where now' = 61 and ts = "[(50, 0)]" and rnd' = 0] by simp
qed

text \<open>
  Clients do not use up each other's allowance: over any interleaving of requests, the bucket of an address is what
  the requests of that address alone made of it.
\<close>
theorem limits_are_per_client:
  "fst (getBucket (store_run getBucket put_bucket
      (\<lambda>b (rnd, now). snd (bucket_allow b limit window jitter rnd now)) Map.empty reqs) ip) =
    foldl (\<lambda>b (rnd, now). snd (bucket_allow b limit window jitter rnd now)) new_bucket
      (map snd (filter (\<lambda>x. fst x = ip) reqs))"
  by (simp only: buckets.store_run_projection) (simp add: getBucket_def)

text \<open>
  With trusted proxies configured, what a client writes at the front of \<open>X-Forwarded-For\<close> is ignored: as soon as the part
  after it contains an address that is not a trusted proxy, the resolved address is the same as without the prefix.
\<close>
theorem forwarded_prefix_ignored:
  assumes "trusted \<noteq> []" and "rest \<noteq> []"
    and "\<exists>a \<in> set (map TrimSpace (Split (CHR '','') rest)). \<exists>ip. parse a = Some ip \<and> \<not> isTrusted trusted ip"
  shows "ForwardedFor_ClientIP parse trusted (req\<lparr>hp_XForwardedFor := forged @ '','' @ rest\<rparr>) =
    ForwardedFor_ClientIP parse trusted (req\<lparr>hp_XForwardedFor := rest\<rparr>)"
proof -
  have split: "Split (CHR '','') (forged @ CHR '','' # rest) = Split (CHR '','') forged @ Split (CHR '','') rest"
    by (induction forged) (auto split: list.split)
  have found: "rightmost_untrusted parse trusted (as @ bs) = rightmost_untrusted parse trusted as"
    if "\<exists>a \<in> set as. \<exists>ip. parse a = Some ip \<and> \<not> isTrusted trusted ip" for as bs
    using that by (induction as) (auto split: option.split)
  have some: "rightmost_untrusted parse trusted as \<noteq> None"
    if "\<exists>a \<in> set as. \<exists>ip. parse a = Some ip \<and> \<not> isTrusted trusted ip" for as
    using that by (induction as) (auto split: option.split)
  let ?as = "rev (map TrimSpace (Split (CHR '','') rest))"
  have ex: "\<exists>a \<in> set ?as. \<exists>ip. parse a = Some ip \<and> \<not> isTrusted trusted ip" using assms(3) by simp
  obtain v where v: "rightmost_untrusted parse trusted ?as = Some v" using some [OF ex] by blast
  with found [OF ex] show ?thesis
    using assms(1,2) by (simp add: ForwardedFor_ClientIP_def Let_def split rev_map)
qed

theorem forwarded_prefix_ignored_witness:
  "ForwardedFor_ClientIP Some [\<lambda>ip. ip = ''10.0.0.1'']
      (\<lparr>hp_RemoteAddr = [], hp_XForwardedFor = [], hp_XRealIP = []\<rparr>\<lparr>hp_XForwardedFor := ''6.6.6.6'' @ '','' @ ''1.2.3.4,10.0.0.1''\<rparr>) =
    ForwardedFor_ClientIP Some [\<lambda>ip. ip = ''10.0.0.1'']
      (\<lparr>hp_RemoteAddr = [], hp_XForwardedFor = [], hp_XRealIP = []\<rparr>\<lparr>hp_XForwardedFor := ''1.2.3.4,10.0.0.1''\<rparr>)"
  by (rule forwarded_prefix_ignored) (simp_all add: isTrusted_def TrimSpace_def is_space_def)

end
