(* ===== verification/Dispatcher.thy ===== *)
theory Dispatcher
  imports Circuit Routes Pools Framing
begin

text \<open>
  The request pipeline of \<open>core/application/gateway/dispatcher.go\<close>, with the listener context of
  \<open>proxylistener.go\<close> and the access log hook of \<open>access_log_lifecycle.go\<close>: route lookup, circuit breaker, listeners, drain
  check, JWT and roles, schema, hooks, then the exchange with the worker and the bookkeeping of its result. JWT and
  schema validation, JSON coding, extra listeners and hooks, and the transport are parameters of the model.

  The code passes pointers to one request and one route entry through the whole pipeline and into the
  \<open>LifecycleContext\<close>; the model keeps both in the context record, so a listener that changes them in place
  changes what the later checks see.
\<close>

section \<open>Requests and responses\<close>

type_synonym headers = "string \<rightharpoonup> string"

definition hget :: "headers \<Rightarrow> string \<Rightarrow> string" where
  "hget h k = (case h k of None \<Rightarrow> [] | Some v \<Rightarrow> v)"

record claims =
  cl_UserID :: string
  cl_Roles :: "string list"

record gateway_request =
  gq_Method :: string
  gq_Path :: string
  gq_Headers :: headers
  gq_Query :: headers
  gq_Params :: "params option"
  gq_Body :: bytes
  gq_Claims :: "claims option"
  gq_ClientIP :: string

record gateway_response =
  gr_StatusCode :: int
  gr_Headers :: headers
  gr_Body :: bytes
  gr_CorrelationID :: string

record worker_response =
  wr_StatusCode :: int
  wr_Headers :: headers
  wr_Body :: bytes
  wr_CorrelationID :: string

abbreviation ErrRouteNotFound :: go_error where "ErrRouteNotFound \<equiv> Sentinel ''route not found''"
abbreviation ErrUnauthorized :: go_error where "ErrUnauthorized \<equiv> Sentinel ''unauthorized''"
abbreviation ErrForbidden :: go_error where "ErrForbidden \<equiv> Sentinel ''forbidden''"
abbreviation ErrGatewayPayloadTooLarge :: go_error where
  "ErrGatewayPayloadTooLarge \<equiv> Sentinel ''payload too large''"
abbreviation ErrUpstreamTimeout :: go_error where "ErrUpstreamTimeout \<equiv> Sentinel ''upstream timeout''"

abbreviation (input) HeaderCorrelationID :: string where "HeaderCorrelationID \<equiv> ''X-Request-Id''"

section \<open>The lifecycle context and its listeners\<close>

datatype phase = PhaseNone | PhaseRouteMatch | PhasePreDispatch | PhasePostDispatch | PhaseError

record lifecycle_context =
  lc_Request :: gateway_request
  lc_Route :: "route_entry option"
  lc_CorrelationID :: string
  lc_Phase :: phase
  lc_RouteParams :: "params option"
  lc_WorkerID :: string
  lc_Err :: "go_error option"
  lc_StatusCode :: int
  lc_Metadata :: headers
  lc_respondEarly :: bool
  lc_earlyResp :: "gateway_response option"

definition NewLifecycleContext :: "gateway_request \<Rightarrow> lifecycle_context" where
  "NewLifecycleContext req =
     \<lparr>lc_Request = req, lc_Route = None, lc_CorrelationID = [], lc_Phase = PhaseNone, lc_RouteParams = None,
      lc_WorkerID = [], lc_Err = None, lc_StatusCode = 0, lc_Metadata = Map.empty, lc_respondEarly = False,
      lc_earlyResp = None\<rparr>"

definition string_bytes :: "string \<Rightarrow> bytes" where
  "string_bytes s = map (\<lambda>c. of_nat (of_char c)) s"

definition Abort :: "lifecycle_context \<Rightarrow> go_error \<Rightarrow> lifecycle_context" where
  "Abort lc err =
     lc\<lparr>lc_Err := Some err, lc_respondEarly := True,
        lc_earlyResp := Some \<lparr>gr_StatusCode = lc_StatusCode lc, gr_Headers = Map.empty,
                              gr_Body = string_bytes (Error err), gr_CorrelationID = []\<rparr>\<rparr>"

definition RespondBeforeDispatch :: "lifecycle_context \<Rightarrow> gateway_response \<Rightarrow> lifecycle_context" where
  "RespondBeforeDispatch lc resp =
     lc\<lparr>lc_respondEarly := True, lc_earlyResp := Some resp, lc_StatusCode := gr_StatusCode resp\<rparr>"

definition EarlyResponse :: "lifecycle_context \<Rightarrow> gateway_response option" where
  "EarlyResponse lc = (if lc_respondEarly lc then lc_earlyResp lc else None)"

record listener =
  li_OnRouteMatch :: "lifecycle_context \<Rightarrow> lifecycle_context"
  li_OnPreDispatch :: "lifecycle_context \<Rightarrow> lifecycle_context"
  li_OnPostDispatch :: "lifecycle_context \<Rightarrow> duration \<Rightarrow> lifecycle_context"
  li_OnError :: "lifecycle_context \<Rightarrow> phase \<Rightarrow> lifecycle_context"

text \<open>Extra hooks; the access log hook below always comes first.\<close>

record hook =
  ho_OnBeforeDispatch :: "gateway_request \<Rightarrow> route_entry \<Rightarrow> go_error option \<times> gateway_request"
  ho_OnAfterDispatch :: "gateway_request \<Rightarrow> gateway_response \<Rightarrow> gateway_response"

section \<open>The dispatcher\<close>

text \<open>
  \<open>dc_marshal\<close> and \<open>dc_unmarshal\<close> are the JSON coding of the request payload and of the worker's envelope.
\<close>

record dispatcher_config =
  dc_routes :: route_map
  dc_jwt :: "string \<Rightarrow> go_error + claims"
  dc_schema :: "string \<Rightarrow> bytes \<Rightarrow> go_error option"
  dc_timeout :: duration
  dc_listeners :: "listener list"
  dc_hooks :: "hook list"
  dc_marshal :: "gateway_request \<Rightarrow> string \<Rightarrow> duration \<Rightarrow> go_error + bytes"
  dc_unmarshal :: "bytes \<Rightarrow> go_error + worker_response"

datatype metric =
    InFlightInc string string
  | InFlightDec string string
  | HTTPRequest string string int
  | CBState string cb_state

text \<open>
  The state shared by all requests. \<open>ds_sent\<close> are the messages handed to the transport and \<open>ds_metrics\<close> the
  updates of the instruments, both oldest first.
\<close>

record dispatcher =
  ds_circuit :: registry
  ds_drainer :: "drainer option"
  ds_poolMgr :: "pool_manager option"
  ds_startTimes :: "string \<rightharpoonup> go_time"
  ds_sent :: "(string \<times> message) list"
  ds_metrics :: "metric list"

text \<open>
  What the outside world does to one request: the fresh identifier, the times of arrival and of the worker's result, the
  answers of the transport, and whether the dispatch deadline has passed when a receive fails.
\<close>

record request_env =
  rq_uuid :: string
  rq_start :: go_time
  rq_end :: go_time
  rq_send :: "string \<Rightarrow> go_error option"
  rq_receive :: "string \<Rightarrow> go_error + message"
  rq_timedOut :: bool

definition NewDispatcher :: "circuit_config \<Rightarrow> drainer option \<Rightarrow> pool_manager option \<Rightarrow> dispatcher" where
  "NewDispatcher circuitConfig drainer poolMgr =
     \<lparr>ds_circuit = NewRegistry circuitConfig True, ds_drainer = drainer, ds_poolMgr = poolMgr, ds_startTimes = Map.empty,
      ds_sent = [], ds_metrics = []\<rparr>"

text \<open>The local state of one call of \<open>Dispatch\<close>.\<close>

record pctx =
  px_lc :: lifecycle_context
  px_status :: int
  px_disp :: dispatcher

type_synonym check = "pctx \<Rightarrow> gateway_response option option \<times> pctx"

definition fail_with :: "pctx \<Rightarrow> int \<Rightarrow> go_error option \<Rightarrow> phase \<Rightarrow> pctx" where
  "fail_with x code err ph =
     x\<lparr>px_status := code, px_lc := (px_lc x)\<lparr>lc_StatusCode := code, lc_Err := err, lc_Phase := ph\<rparr>\<rparr>"

definition add_metric :: "pctx \<Rightarrow> metric \<Rightarrow> pctx" where
  "add_metric x m = x\<lparr>px_disp := (px_disp x)\<lparr>ds_metrics := ds_metrics (px_disp x) @ [m]\<rparr>\<rparr>"

definition initCorrelationID :: "gateway_request \<Rightarrow> string \<Rightarrow> string \<times> gateway_request" where
  "initCorrelationID req uuid =
     (let given = hget (gq_Headers req) HeaderCorrelationID;
          cid = (if given = [] then uuid else given)
      in (cid, req\<lparr>gq_Headers := (gq_Headers req)(HeaderCorrelationID \<mapsto> cid)\<rparr>))"

definition getCorrelationID :: "gateway_request \<Rightarrow> string" where
  "getCorrelationID req =
     (let cid = hget (gq_Headers req) ''X-Request-Id'' in if cid \<noteq> [] then cid else ''-'')"

definition lookupRoute :: "dispatcher_config \<Rightarrow> pctx \<Rightarrow> route_entry option \<times> pctx" where
  "lookupRoute cfg x =
     (let req = lc_Request (px_lc x)
      in case Lookup (dc_routes cfg) (gq_Method req) (gq_Path req) of
           None \<Rightarrow>
             (None, x\<lparr>px_lc := (px_lc x)\<lparr>lc_StatusCode := 404, lc_Err := Some ErrRouteNotFound, lc_Phase := PhaseRouteMatch\<rparr>\<rparr>)
         | Some r \<Rightarrow>
             (Some (lr_Entry r),
              x\<lparr>px_lc := (px_lc x)\<lparr>lc_Route := Some (lr_Entry r), lc_Phase := PhaseRouteMatch, lc_RouteParams := lr_Params r\<rparr>\<rparr>))"

text \<open>The route as the later checks see it.\<close>

definition cur_route :: "pctx \<Rightarrow> route_entry" where
  "cur_route x = the (lc_Route (px_lc x))"

abbreviation cur_req :: "pctx \<Rightarrow> gateway_request" where
  "cur_req x \<equiv> lc_Request (px_lc x)"

definition cid_of :: "pctx \<Rightarrow> string" where
  "cid_of x = hget (gq_Headers (cur_req x)) HeaderCorrelationID"

section \<open>Checks before the dispatch\<close>

definition checkCircuitBreaker :: "string \<Rightarrow> go_time \<Rightarrow> check" where
  "checkCircuitBreaker routeKey now x =
     (case Get (ds_circuit (px_disp x)) routeKey of
        (cb, reg) \<Rightarrow>
          (case Allow cb now of
             (ok, cb', _) \<Rightarrow>
               (let x1 = x\<lparr>px_disp := (px_disp x)\<lparr>ds_circuit := put_breaker reg routeKey cb'\<rparr>\<rparr>
                in if ok then (None, x1)
                   else (let st = cb_state_String (br_state cb');
                             x2 = fail_with x1 503 (Some (Errorf (''circuit breaker open for route '' @ routeKey @
                                    '' (state: '' @ st @ '')''))) PhasePreDispatch
                         in (Some (Some \<lparr>gr_StatusCode = 503, gr_Headers = [''Retry-After'' \<mapsto> ''30''],
                               gr_Body = string_bytes (''{\"error\":\"circuit breaker open\",\"state\":\"'' @ st @ ''\"}''),
                               gr_CorrelationID = cid_of x2\<rparr>), x2)))))"

text \<open>
  A listener answers early through \<open>Abort\<close> or \<open>RespondBeforeDispatch\<close>, both of which set a response; the fields are private
  to the package, so the flag without a response does not occur.
\<close>

fun runRouteMatchHooks :: "listener list \<Rightarrow> check" where
  "runRouteMatchHooks [] x = (None, x)"
| "runRouteMatchHooks (l # ls) x =
     (let x1 = x\<lparr>px_lc := li_OnRouteMatch l (px_lc x)\<rparr>
      in if lc_respondEarly (px_lc x1)
         then (case lc_earlyResp (px_lc x1) of
                 None \<Rightarrow> (Some None, x1)
               | Some resp \<Rightarrow>
                   (Some (Some (resp\<lparr>gr_CorrelationID := cid_of x1\<rparr>)), x1\<lparr>px_status := gr_StatusCode resp\<rparr>))
         else runRouteMatchHooks ls x1)"

definition checkDrainStatus :: check where
  "checkDrainStatus x =
     (case ds_drainer (px_disp x) of
        None \<Rightarrow> (None, x)
      | Some d \<Rightarrow>
          if IsDraining d (re_WorkerID (cur_route x))
          then (let x1 = x\<lparr>px_status := 503, px_lc := (px_lc x)\<lparr>lc_StatusCode := 503, lc_Phase := PhasePreDispatch\<rparr>\<rparr>
                in (Some (Some \<lparr>gr_StatusCode = 503, gr_Headers = [''Retry-After'' \<mapsto> ''1''],
                      gr_Body = string_bytes ''{\"error\":\"worker draining\"}'', gr_CorrelationID = cid_of x1\<rparr>), x1))
          else (None, x))"

definition hasRequiredRole :: "string list \<Rightarrow> string list \<Rightarrow> bool" where
  "hasRequiredRole callerRoles requiredRoles = (\<exists>r \<in> set requiredRoles. r \<in> set callerRoles)"

definition stripBearerPrefix :: "string \<Rightarrow> string" where
  "stripBearerPrefix token = (if 7 < length token \<and> take 7 token = ''Bearer '' then drop 7 token else token)"

definition validateJWT :: "dispatcher_config \<Rightarrow> check" where
  "validateJWT cfg x =
     (if re_AuthRoles (cur_route x) = [] then (None, x)
      else (let token = hget (gq_Headers (cur_req x)) ''Authorization''
            in if token = [] then (Some None, fail_with x 401 (Some ErrUnauthorized) PhasePreDispatch)
               else (case dc_jwt cfg (stripBearerPrefix token) of
                       Inl err \<Rightarrow> (Some None, fail_with x 401 (Some ErrUnauthorized) PhasePreDispatch)
                     | Inr cl \<Rightarrow>
                         (let x1 = x\<lparr>px_lc := (px_lc x)\<lparr>lc_Request := (cur_req x)\<lparr>gq_Claims := Some cl\<rparr>\<rparr>\<rparr>
                          in if \<not> hasRequiredRole (cl_Roles cl) (re_AuthRoles (cur_route x1))
                             then (Some None, fail_with x1 403 (Some ErrForbidden) PhasePreDispatch)
                             else (None, x1)))))"

definition validateSchema :: "dispatcher_config \<Rightarrow> check" where
  "validateSchema cfg x =
     (if re_Validate (cur_route x) \<noteq> [] \<and> gq_Body (cur_req x) \<noteq> []
      then (case dc_schema cfg (re_Validate (cur_route x)) (gq_Body (cur_req x)) of
              Some err \<Rightarrow>
                (Some None, fail_with x 400 (Some (WErrorf ErrSchemaValidation ('': '' @ Error err))) PhasePreDispatch)
            | None \<Rightarrow> (None, x))
      else (None, x))"

fun run_before_hooks :: "hook list \<Rightarrow> check" where
  "run_before_hooks [] x = (None, x)"
| "run_before_hooks (h # hs) x =
     (case ho_OnBeforeDispatch h (cur_req x) (cur_route x) of
        (err, req) \<Rightarrow>
          (let x1 = x\<lparr>px_lc := (px_lc x)\<lparr>lc_Request := req\<rparr>\<rparr>
           in if err \<noteq> None
              then (Some None, x1\<lparr>px_status := 400, px_lc := (px_lc x1)\<lparr>lc_StatusCode := 400, lc_Err := err\<rparr>\<rparr>)
              else run_before_hooks hs x1))"

text \<open>The access log hook stores the start time under the correlation identifier.\<close>

definition runPreDispatchHooks :: "dispatcher_config \<Rightarrow> go_time \<Rightarrow> check" where
  "runPreDispatchHooks cfg now x =
     (let x1 = x\<lparr>px_lc := (px_lc x)\<lparr>lc_Phase := PhasePreDispatch\<rparr>,
                 px_disp := (px_disp x)\<lparr>ds_startTimes := (ds_startTimes (px_disp x))(getCorrelationID (cur_req x) \<mapsto> now)\<rparr>\<rparr>
      in run_before_hooks (dc_hooks cfg) x1)"

text \<open>The checks of \<open>Dispatch\<close> run in order; the first one that answers ends the pipeline.\<close>

fun run_checks :: "check list \<Rightarrow> check" where
  "run_checks [] x = (None, x)"
| "run_checks (c # cs) x = (case c x of (Some r, x1) \<Rightarrow> (Some r, x1) | (None, x1) \<Rightarrow> run_checks cs x1)"

definition checks :: "dispatcher_config \<Rightarrow> request_env \<Rightarrow> string \<Rightarrow> check list" where
  "checks cfg q routeKey =
     [checkCircuitBreaker routeKey (rq_start q), runRouteMatchHooks (dc_listeners cfg), checkDrainStatus,
      validateJWT cfg, validateSchema cfg, runPreDispatchHooks cfg (rq_start q)]"

section \<open>The exchange with the worker\<close>

text \<open>\<open>None\<close> is the index panic of the round-robin selection.\<close>

definition selectWorker :: "dispatcher \<Rightarrow> route_entry \<Rightarrow> (string \<times> dispatcher) option" where
  "selectWorker d route =
     (case ds_poolMgr d of
        None \<Rightarrow> Some (re_WorkerID route, d)
      | Some m \<Rightarrow>
          (let prefix = extractPrefix (re_WorkerID route)
           in case GetPool m prefix of
                None \<Rightarrow> Some (re_WorkerID route, d)
              | Some p \<Rightarrow>
                  (case SelectWorker p of
                     (Selected w, p') \<Rightarrow> Some (w_ID w, d\<lparr>ds_poolMgr := Some (put_pool m prefix p')\<rparr>)
                   | (NoWorker, p') \<Rightarrow> Some (re_WorkerID route, d\<lparr>ds_poolMgr := Some (put_pool m prefix p')\<rparr>)
                   | (SelectPanic, p') \<Rightarrow> None)))"

datatype exchange = Answered worker_response | Ended "gateway_response option" | Panicked

text \<open>The active request count of a pool worker, changed on entry and restored by the deferred call.\<close>

definition track_pool :: "int \<Rightarrow> string \<Rightarrow> dispatcher \<Rightarrow> dispatcher" where
  "track_pool k wid d =
     (case ds_poolMgr d of
        None \<Rightarrow> d
      | Some m \<Rightarrow>
          (case GetPool m (extractPrefix wid) of
             None \<Rightarrow> d
           | Some p \<Rightarrow> d\<lparr>ds_poolMgr := Some (put_pool m (extractPrefix wid) (add_activeReqs k p wid))\<rparr>))"

text \<open>Recording a failure on the breaker of a route, and the access log's \<open>OnWorkerError\<close>.\<close>

definition record_failure :: "string \<Rightarrow> go_time \<Rightarrow> dispatcher \<Rightarrow> dispatcher" where
  "record_failure routeKey now d =
     (case Get (ds_circuit d) routeKey of
        (cb, reg) \<Rightarrow> d\<lparr>ds_circuit := put_breaker reg routeKey (fst (RecordFailure cb now))\<rparr>)"

definition drop_start :: "gateway_request \<Rightarrow> dispatcher \<Rightarrow> dispatcher" where
  "drop_start req d = d\<lparr>ds_startTimes := (ds_startTimes d)(getCorrelationID req := None)\<rparr>"

definition worker_failure :: "string \<Rightarrow> go_time \<Rightarrow> pctx \<Rightarrow> pctx" where
  "worker_failure routeKey now x =
     x\<lparr>px_disp := record_failure routeKey now (drop_start (cur_req x) (px_disp x))\<rparr>"

definition handleSendError :: "string \<Rightarrow> go_time \<Rightarrow> string \<Rightarrow> go_error \<Rightarrow> pctx \<Rightarrow> exchange \<times> pctx" where
  "handleSendError routeKey now wid err x =
     (Ended None,
      worker_failure routeKey now
        (fail_with x 502 (Some (ErrorfW (''gateway: send to worker '' @ wid @ '': '') err)) PhasePreDispatch))"

definition handleReceiveError :: "string \<Rightarrow> go_time \<Rightarrow> bool \<Rightarrow> string \<Rightarrow> go_error \<Rightarrow> pctx \<Rightarrow> exchange \<times> pctx" where
  "handleReceiveError routeKey now timedOut wid err x =
     (Ended None,
      worker_failure routeKey now
        (if timedOut then fail_with x 504 (Some ErrUpstreamTimeout) PhasePostDispatch
         else fail_with x 502 (Some (ErrorfW (''gateway: receive from worker '' @ wid @ '': '') err)) PhasePostDispatch))"

definition bytes_string :: "bytes \<Rightarrow> string" where
  "bytes_string b = map (\<lambda>w. char_of (unat w)) b"

definition handleWorkerError :: "string \<Rightarrow> go_time \<Rightarrow> message \<Rightarrow> pctx \<Rightarrow> exchange \<times> pctx" where
  "handleWorkerError routeKey now msg x =
     (let x1 = x\<lparr>px_status := 502, px_lc := (px_lc x)\<lparr>lc_StatusCode := 502,
                   lc_Err := Some (Errorf (''worker error: '' @ bytes_string (m_Payload msg)))\<rparr>\<rparr>
      in (Ended (Some \<lparr>gr_StatusCode = 502, gr_Headers = Map.empty, gr_Body = m_Payload msg, gr_CorrelationID = cid_of x1\<rparr>),
          worker_failure routeKey now x1))"

definition decodeWorkerResponse :: "dispatcher_config \<Rightarrow> message \<Rightarrow> string \<Rightarrow> exchange" where
  "decodeWorkerResponse cfg msg cid =
     (case dc_unmarshal cfg (m_Payload msg) of
        Inl err \<Rightarrow>
          Ended (Some \<lparr>gr_StatusCode = 200, gr_Headers = Map.empty, gr_Body = m_Payload msg, gr_CorrelationID = cid\<rparr>)
      | Inr wr \<Rightarrow> Answered (if wr_StatusCode wr = 0 then wr\<lparr>wr_StatusCode := 200\<rparr> else wr))"

text \<open>The part of \<open>sendAndReceive\<close> between the two tracking calls.\<close>

definition exchange_with :: "dispatcher_config \<Rightarrow> request_env \<Rightarrow> string \<Rightarrow> string \<Rightarrow> bytes \<Rightarrow> string \<Rightarrow> pctx \<Rightarrow> exchange \<times> pctx" where
  "exchange_with cfg q routeKey wid payload cid x =
     (let msg = \<lparr>m_Type = TypeRequest, m_Payload = payload\<rparr>;
          x1 = x\<lparr>px_disp := (px_disp x)\<lparr>ds_sent := ds_sent (px_disp x) @ [(wid, msg)]\<rparr>\<rparr>
      in case rq_send q wid of
           Some err \<Rightarrow> handleSendError routeKey (rq_end q) wid err x1
         | None \<Rightarrow>
             (case rq_receive q wid of
                Inl err \<Rightarrow> handleReceiveError routeKey (rq_end q) (rq_timedOut q) wid err x1
              | Inr respMsg \<Rightarrow>
                  if m_Type respMsg = TypeError then handleWorkerError routeKey (rq_end q) respMsg x1
                  else (decodeWorkerResponse cfg respMsg cid, x1)))"

text \<open>The drainer counts the request in and the context remembers for whom.\<close>

definition acquired :: "pctx \<Rightarrow> string \<Rightarrow> pctx" where
  "acquired x wid =
     (case ds_drainer (px_disp x) of
        None \<Rightarrow> x
      | Some dr \<Rightarrow> x\<lparr>px_disp := (px_disp x)\<lparr>ds_drainer := Some (Acquire dr wid)\<rparr>, px_lc := (px_lc x)\<lparr>lc_WorkerID := wid\<rparr>\<rparr>)"

definition sendAndReceive :: "dispatcher_config \<Rightarrow> request_env \<Rightarrow> string \<Rightarrow> pctx \<Rightarrow> exchange \<times> pctx" where
  "sendAndReceive cfg q routeKey x =
     (let cid = cid_of x
      in case selectWorker (px_disp x) (cur_route x) of
           None \<Rightarrow> (Panicked, x)
         | Some (wid0, d) \<Rightarrow>
             (let wid = (if wid0 = [] then re_WorkerID (cur_route x) else wid0); x1 = x\<lparr>px_disp := d\<rparr>
              in case dc_marshal cfg (cur_req x1) cid (dc_timeout cfg) of
                   Inl err \<Rightarrow> (Ended None, x1\<lparr>px_status := 500\<rparr>)
                 | Inr payload \<Rightarrow>
                     (let x2 = acquired x1 wid;
                          x3 = x2\<lparr>px_disp := track_pool 1 wid (px_disp x2)\<rparr>
                      in case exchange_with cfg q routeKey wid payload cid x3 of
                           (r, x4) \<Rightarrow> (r, x4\<lparr>px_disp := track_pool (- 1) wid (px_disp x4)\<rparr>))))"

text \<open>\<open>None\<close> is the panic of a wait group that would become negative.\<close>

definition releaseInFlight :: "pctx \<Rightarrow> pctx option" where
  "releaseInFlight x =
     (case ds_drainer (px_disp x) of
        None \<Rightarrow> Some x
      | Some dr \<Rightarrow>
          if lc_WorkerID (px_lc x) = [] then Some x
          else map_option (\<lambda>dr'. x\<lparr>px_disp := (px_disp x)\<lparr>ds_drainer := Some dr'\<rparr>\<rparr>) (Release dr (lc_WorkerID (px_lc x))))"

definition resolveCorrelationID :: "string \<Rightarrow> string \<Rightarrow> string" where
  "resolveCorrelationID workerCID requestCID = (if workerCID \<noteq> [] then workerCID else requestCID)"

definition recordCircuitBreakerResult :: "string \<Rightarrow> go_time \<Rightarrow> int \<Rightarrow> dispatcher \<Rightarrow> dispatcher" where
  "recordCircuitBreakerResult routeKey now statusCode d =
     (case Get (ds_circuit d) routeKey of
        (cb, reg) \<Rightarrow>
          d\<lparr>ds_circuit := put_breaker reg routeKey
               (if 500 \<le> statusCode then fst (RecordFailure cb now) else fst (RecordSuccess cb now))\<rparr>)"

definition processWorkerResponse ::
  "dispatcher_config \<Rightarrow> request_env \<Rightarrow> string \<Rightarrow> worker_response \<Rightarrow> pctx \<Rightarrow> gateway_response \<times> pctx" where
  "processWorkerResponse cfg q routeKey wr x =
     (let x1 = x\<lparr>px_status := wr_StatusCode wr,
                 px_lc := (px_lc x)\<lparr>lc_StatusCode := wr_StatusCode wr, lc_Phase := PhasePostDispatch\<rparr>\<rparr>;
          resp = \<lparr>gr_StatusCode = wr_StatusCode wr, gr_Headers = wr_Headers wr, gr_Body = wr_Body wr,
                  gr_CorrelationID = resolveCorrelationID (wr_CorrelationID wr) (lc_CorrelationID (px_lc x))\<rparr>;
          resp' = foldl (\<lambda>r h. ho_OnAfterDispatch h (cur_req x1) r) resp (dc_hooks cfg);
          d = recordCircuitBreakerResult routeKey (rq_end q) (wr_StatusCode wr) (drop_start (cur_req x1) (px_disp x1))
      in (resp', x1\<lparr>px_disp := d\<rparr>))"

section \<open>Dispatch\<close>

datatype dispatch_result = Returned "gateway_response option" "go_error option" | DispatchPanic

fun notifyListeners :: "listener list \<Rightarrow> int \<Rightarrow> duration \<Rightarrow> lifecycle_context \<Rightarrow> lifecycle_context" where
  "notifyListeners [] status latency lc = lc"
| "notifyListeners (l # ls) status latency lc =
     (let lc1 = (if 400 \<le> status \<or> lc_Err lc \<noteq> None then li_OnError l lc (lc_Phase lc) else lc)
      in notifyListeners ls status latency (li_OnPostDispatch l lc1 latency))"

text \<open>The deferred function: the listeners, then the metrics under the method and the route's template.\<close>

definition finish :: "dispatcher_config \<Rightarrow> request_env \<Rightarrow> string \<Rightarrow> string \<Rightarrow> pctx \<Rightarrow> pctx" where
  "finish cfg q routeMethod routePath x =
     (let x1 = x\<lparr>px_lc := notifyListeners (dc_listeners cfg) (px_status x) (rq_end q - rq_start q) (px_lc x)\<rparr>
      in add_metric (add_metric x1 (HTTPRequest routeMethod routePath (px_status x))) (InFlightDec routeMethod routePath))"

text \<open>The last part of \<open>Dispatch\<close>, after the checks: their answer, or the exchange with the worker.\<close>

definition complete :: "dispatcher_config \<Rightarrow> request_env \<Rightarrow> string \<Rightarrow> gateway_response option option \<times> pctx \<Rightarrow> dispatch_result \<times> pctx" where
  "complete cfg q routeKey c =
     (case c of
        (Some resp, x3) \<Rightarrow> (Returned resp (lc_Err (px_lc x3)), x3)
      | (None, x3) \<Rightarrow>
          (case sendAndReceive cfg q routeKey x3 of
             (Panicked, x4) \<Rightarrow> (DispatchPanic, x4)
           | (Ended resp, x4) \<Rightarrow>
               (case releaseInFlight x4 of
                  None \<Rightarrow> (DispatchPanic, x4)
                | Some x5 \<Rightarrow> (Returned resp (lc_Err (px_lc x5)), x5))
           | (Answered wr, x4) \<Rightarrow>
               (case processWorkerResponse cfg q routeKey wr x4 of
                  (resp, x5) \<Rightarrow>
                    (case releaseInFlight x5 of
                       None \<Rightarrow> (DispatchPanic, x5)
                     | Some x6 \<Rightarrow> (Returned (Some resp) None, x6)))))"

text \<open>The body of \<open>Dispatch\<close> once the route is known.\<close>

definition dispatch_route :: "dispatcher_config \<Rightarrow> request_env \<Rightarrow> route_entry \<Rightarrow> pctx \<Rightarrow> dispatch_result \<times> pctx" where
  "dispatch_route cfg q route x =
     (let x1 = x\<lparr>px_lc := (px_lc x)\<lparr>lc_Request := (cur_req x)\<lparr>gq_Params := lc_RouteParams (px_lc x)\<rparr>\<rparr>\<rparr>;
          routeKey = gq_Method (cur_req x1) @ '':'' @ re_Path route;
          (cb, reg) = Get (ds_circuit (px_disp x1)) routeKey;
          x2 = add_metric (x1\<lparr>px_disp := (px_disp x1)\<lparr>ds_circuit := reg\<rparr>\<rparr>) (CBState routeKey (fst (Stats cb)))
      in complete cfg q routeKey (run_checks (checks cfg q routeKey) x2))"

definition Dispatch ::
  "dispatcher_config \<Rightarrow> dispatcher \<Rightarrow> request_env \<Rightarrow> gateway_request \<Rightarrow> dispatch_result \<times> dispatcher" where
  "Dispatch cfg d q req0 =
     (let (cid, req) = initCorrelationID req0 (rq_uuid q);
          lc = (NewLifecycleContext req)\<lparr>lc_CorrelationID := cid\<rparr>;
          x0 = add_metric \<lparr>px_lc = lc, px_status = 0, px_disp = d\<rparr> (InFlightInc (gq_Method req) (gq_Path req))
      in case lookupRoute cfg x0 of
           (None, x1) \<Rightarrow> (Returned None (Some ErrRouteNotFound), px_disp (finish cfg q (gq_Method req) [] x1))
         | (Some route, x1) \<Rightarrow>
             (case dispatch_route cfg q route x1 of
                (r, x2) \<Rightarrow> (r, px_disp (finish cfg q (gq_Method req) (re_Path route) x2))))"

section \<open>What the checks leave alone\<close>

text \<open>The parts of the shared state only the exchange with the worker changes.\<close>

definition same_out :: "pctx \<Rightarrow> pctx \<Rightarrow> bool" where
  "same_out x x' \<longleftrightarrow>
     ds_sent (px_disp x') = ds_sent (px_disp x) \<and> ds_drainer (px_disp x') = ds_drainer (px_disp x) \<and>
     ds_poolMgr (px_disp x') = ds_poolMgr (px_disp x)"

lemma same_out_refl [simp]: "same_out x x"
  by (simp add: same_out_def)

lemma same_out_trans: "same_out x y \<Longrightarrow> same_out y z \<Longrightarrow> same_out x z"
  by (simp add: same_out_def)

lemma fail_with_simps [simp]:
  "px_disp (fail_with x c e ph) = px_disp x" "px_status (fail_with x c e ph) = c"
  "lc_Err (px_lc (fail_with x c e ph)) = e" "lc_Request (px_lc (fail_with x c e ph)) = lc_Request (px_lc x)"
  "lc_Route (px_lc (fail_with x c e ph)) = lc_Route (px_lc x)"
  "lc_WorkerID (px_lc (fail_with x c e ph)) = lc_WorkerID (px_lc x)"
  by (simp_all add: fail_with_def)

lemma checkCircuitBreaker_eq:
  "checkCircuitBreaker k now x =
     (let b = fst (Get (ds_circuit (px_disp x)) k);
          x1 = x\<lparr>px_disp := (px_disp x)\<lparr>ds_circuit := put_breaker (snd (Get (ds_circuit (px_disp x)) k)) k (fst (snd (Allow b now)))\<rparr>\<rparr>
      in if fst (Allow b now) then (None, x1)
         else (let st = cb_state_String (br_state (fst (snd (Allow b now))));
                   x2 = fail_with x1 503 (Some (Errorf (''circuit breaker open for route '' @ k @
                          '' (state: '' @ st @ '')''))) PhasePreDispatch
               in (Some (Some \<lparr>gr_StatusCode = 503, gr_Headers = [''Retry-After'' \<mapsto> ''30''],
                     gr_Body = string_bytes (''{\"error\":\"circuit breaker open\",\"state\":\"'' @ st @ ''\"}''),
                     gr_CorrelationID = cid_of x2\<rparr>), x2)))"
  by (simp add: checkCircuitBreaker_def Let_def split_beta)

lemma checkCircuitBreaker_out: "same_out x (snd (checkCircuitBreaker k now x))"
  by (simp add: checkCircuitBreaker_eq Let_def same_out_def)

lemma runRouteMatchHooks_disp: "px_disp (snd (runRouteMatchHooks ls x)) = px_disp x"
  by (induction ls arbitrary: x) (simp_all add: Let_def split: option.split)

lemma checkDrainStatus_disp: "px_disp (snd (checkDrainStatus x)) = px_disp x"
  by (simp add: checkDrainStatus_def Let_def split: option.split)

lemma validateJWT_disp: "px_disp (snd (validateJWT cfg x)) = px_disp x"
  by (simp add: validateJWT_def Let_def split: sum.split)

lemma validateSchema_disp: "px_disp (snd (validateSchema cfg x)) = px_disp x"
  by (simp add: validateSchema_def split: option.split)

lemma run_before_hooks_disp: "px_disp (snd (run_before_hooks hs x)) = px_disp x"
  by (induction hs arbitrary: x) (simp_all add: Let_def split: prod.split)

lemma runPreDispatchHooks_out: "same_out x (snd (runPreDispatchHooks cfg now x))"
  by (simp add: runPreDispatchHooks_def same_out_def run_before_hooks_disp)

lemma run_checks_out:
  assumes "\<And>c x. c \<in> set cs \<Longrightarrow> same_out x (snd (c x))"
  shows "same_out x (snd (run_checks cs x))"
  using assms
proof (induction cs arbitrary: x)
  case (Cons c cs)
  have "same_out x (snd (c x))" using Cons.prems [of c] by simp
  moreover have "same_out (snd (c x)) (snd (run_checks cs (snd (c x))))"
    using Cons.prems by (intro Cons.IH) simp
  ultimately show ?case
    by (cases "c x"; cases "fst (c x)") (auto intro: same_out_trans)
qed simp

lemma checks_out: "same_out x (snd (run_checks (checks cfg q k) x))"
proof (rule run_checks_out)
  fix c x assume "c \<in> set (checks cfg q k)"
  moreover have "same_out x (snd (runRouteMatchHooks (dc_listeners cfg) x))" "same_out x (snd (checkDrainStatus x))"
    "same_out x (snd (validateJWT cfg x))" "same_out x (snd (validateSchema cfg x))"
    by (simp_all add: same_out_def runRouteMatchHooks_disp checkDrainStatus_disp validateJWT_disp validateSchema_disp)
  ultimately show "same_out x (snd (c x))"
    using checkCircuitBreaker_out runPreDispatchHooks_out unfolding checks_def by fastforce
qed

section \<open>What passing the checks means\<close>

text \<open>Listeners that look at the request, the route and the tracked worker but do not change them.\<close>

definition inert :: "listener \<Rightarrow> bool" where
  "inert l \<longleftrightarrow>
     (\<forall>lc. lc_Route (li_OnRouteMatch l lc) = lc_Route lc \<and> lc_Request (li_OnRouteMatch l lc) = lc_Request lc \<and>
           lc_WorkerID (li_OnRouteMatch l lc) = lc_WorkerID lc)"

lemma route_hooks_inert:
  assumes "\<forall>l \<in> set ls. inert l"
  shows "lc_Route (px_lc (snd (runRouteMatchHooks ls x))) = lc_Route (px_lc x)"
    and "lc_Request (px_lc (snd (runRouteMatchHooks ls x))) = lc_Request (px_lc x)"
    and "lc_WorkerID (px_lc (snd (runRouteMatchHooks ls x))) = lc_WorkerID (px_lc x)"
  using assms
  by (induction ls arbitrary: x) (auto simp: inert_def Let_def split: option.split)

text \<open>The conditions under which a request may be sent to a worker.\<close>

definition admissible :: "dispatcher_config \<Rightarrow> dispatcher \<Rightarrow> go_time \<Rightarrow> gateway_request \<Rightarrow> route_entry \<Rightarrow> bool" where
  "admissible cfg d now req e \<longleftrightarrow>
     fst (Allow (fst (Get (ds_circuit d) (gq_Method req @ '':'' @ re_Path e))) now) \<and>
     (\<forall>dr. ds_drainer d = Some dr \<longrightarrow> \<not> IsDraining dr (re_WorkerID e)) \<and>
     (re_AuthRoles e \<noteq> [] \<longrightarrow>
        (\<exists>cl. hget (gq_Headers req) ''Authorization'' \<noteq> [] \<and>
              dc_jwt cfg (stripBearerPrefix (hget (gq_Headers req) ''Authorization'')) = Inr cl \<and>
              hasRequiredRole (cl_Roles cl) (re_AuthRoles e))) \<and>
     (re_Validate e \<noteq> [] \<and> gq_Body req \<noteq> [] \<longrightarrow> dc_schema cfg (re_Validate e) (gq_Body req) = None)"

lemma run_checks_Cons:
  "fst (run_checks (c # cs) x) = None \<longleftrightarrow> fst (c x) = None \<and> fst (run_checks cs (snd (c x))) = None"
  "fst (c x) = None \<Longrightarrow> snd (run_checks (c # cs) x) = snd (run_checks cs (snd (c x)))"
  by (cases "c x"; cases "fst (c x)"; simp)+

lemma validateJWT_pass:
  assumes "fst (validateJWT cfg x) = None"
  shows "lc_Route (px_lc (snd (validateJWT cfg x))) = lc_Route (px_lc x)"
    and "gq_Body (cur_req (snd (validateJWT cfg x))) = gq_Body (cur_req x)"
    and "re_AuthRoles (cur_route x) \<noteq> [] \<longrightarrow>
      (\<exists>cl. hget (gq_Headers (cur_req x)) ''Authorization'' \<noteq> [] \<and>
            dc_jwt cfg (stripBearerPrefix (hget (gq_Headers (cur_req x)) ''Authorization'')) = Inr cl \<and>
            hasRequiredRole (cl_Roles cl) (re_AuthRoles (cur_route x)))"
  using assms
  by (auto simp: validateJWT_def Let_def cur_route_def split: if_splits sum.splits)

lemma validateSchema_pass:
  "fst (validateSchema cfg x) = None \<Longrightarrow>
    snd (validateSchema cfg x) = x \<and>
    (re_Validate (cur_route x) \<noteq> [] \<and> gq_Body (cur_req x) \<noteq> [] \<longrightarrow>
       dc_schema cfg (re_Validate (cur_route x)) (gq_Body (cur_req x)) = None)"
  by (auto simp: validateSchema_def split: if_splits option.splits)

lemma checkDrainStatus_pass:
  "fst (checkDrainStatus x) = None \<Longrightarrow>
    snd (checkDrainStatus x) = x \<and>
    (\<forall>dr. ds_drainer (px_disp x) = Some dr \<longrightarrow> \<not> IsDraining dr (re_WorkerID (cur_route x)))"
  by (auto simp: checkDrainStatus_def Let_def split: if_splits option.splits)

lemma checks_pass:
  assumes "fst (run_checks (checks cfg q k) x) = None" and "\<forall>l \<in> set (dc_listeners cfg). inert l"
    and "lc_Route (px_lc x) = Some e" and "k = gq_Method (cur_req x) @ '':'' @ re_Path e"
  shows "admissible cfg (px_disp x) (rq_start q) (cur_req x) e"
proof -
  define x1 where "x1 = snd (checkCircuitBreaker k (rq_start q) x)"
  define x2 where "x2 = snd (runRouteMatchHooks (dc_listeners cfg) x1)"
  have p: "fst (checkCircuitBreaker k (rq_start q) x) = None" "fst (checkDrainStatus x2) = None"
      "fst (validateJWT cfg (snd (checkDrainStatus x2))) = None"
      "fst (validateSchema cfg (snd (validateJWT cfg (snd (checkDrainStatus x2))))) = None"
    using assms(1) unfolding checks_def run_checks_Cons x1_def x2_def by simp_all
  note drain = checkDrainStatus_pass [OF p(2)]
  have x1: "px_lc x1 = px_lc x" "fst (Allow (fst (Get (ds_circuit (px_disp x)) k)) (rq_start q))"
    using p(1) by (simp_all add: x1_def checkCircuitBreaker_eq Let_def split: if_splits)
  have d1: "ds_drainer (px_disp x1) = ds_drainer (px_disp x)"
    using checkCircuitBreaker_out [of x k "rq_start q"] by (simp add: x1_def same_out_def)
  have x2: "lc_Route (px_lc x2) = Some e" "cur_req x2 = cur_req x" "cur_route x2 = e"
      "ds_drainer (px_disp x2) = ds_drainer (px_disp x)"
    using route_hooks_inert [OF assms(2), of x1] x1(1) assms(3) d1
    by (simp_all add: x2_def cur_route_def runRouteMatchHooks_disp)
  note jwt = validateJWT_pass [OF p(3)[unfolded conjunct1 [OF drain]]]
  have x3: "cur_route (snd (validateJWT cfg x2)) = e" using jwt(1) x2(3) by (simp add: cur_route_def)
  note schema = validateSchema_pass [OF p(4)[unfolded conjunct1 [OF drain]]]
  show ?thesis
    unfolding admissible_def
    using x1(2) assms(4) drain x2 jwt schema x3 by simp
qed

lemma keeps_route_worker:
  "lc_Route (px_lc (snd (checkCircuitBreaker k now x))) = lc_Route (px_lc x)"
  "lc_WorkerID (px_lc (snd (checkCircuitBreaker k now x))) = lc_WorkerID (px_lc x)"
  "lc_Route (px_lc (snd (checkDrainStatus x))) = lc_Route (px_lc x)"
  "lc_WorkerID (px_lc (snd (checkDrainStatus x))) = lc_WorkerID (px_lc x)"
  "lc_Route (px_lc (snd (validateJWT cfg x))) = lc_Route (px_lc x)"
  "lc_WorkerID (px_lc (snd (validateJWT cfg x))) = lc_WorkerID (px_lc x)"
  "lc_Route (px_lc (snd (validateSchema cfg x))) = lc_Route (px_lc x)"
  "lc_WorkerID (px_lc (snd (validateSchema cfg x))) = lc_WorkerID (px_lc x)"
  by (simp_all add: checkCircuitBreaker_eq checkDrainStatus_def validateJWT_def validateSchema_def Let_def
      split: option.split sum.split)

lemma before_hooks_keep:
  "lc_Route (px_lc (snd (run_before_hooks hs x))) = lc_Route (px_lc x)"
  "lc_WorkerID (px_lc (snd (run_before_hooks hs x))) = lc_WorkerID (px_lc x)"
  by (induction hs arbitrary: x; simp add: Let_def split: prod.split)+

lemma runPreDispatchHooks_keeps:
  "lc_Route (px_lc (snd (runPreDispatchHooks cfg now x))) = lc_Route (px_lc x)"
  "lc_WorkerID (px_lc (snd (runPreDispatchHooks cfg now x))) = lc_WorkerID (px_lc x)"
  by (simp_all add: runPreDispatchHooks_def Let_def before_hooks_keep)

lemma run_checks_keep:
  assumes "\<And>c x. c \<in> set cs \<Longrightarrow> f (snd (c x)) = f x"
  shows "f (snd (run_checks cs x)) = f x"
  using assms
proof (induction cs arbitrary: x)
  case (Cons c cs)
  have "f (snd (c x)) = f x" "f (snd (run_checks cs (snd (c x)))) = f (snd (c x))"
    using Cons.prems [of c] Cons.IH Cons.prems by simp_all
  then show ?case by (cases "c x"; cases "fst (c x)") simp_all
qed simp

lemma checks_keep:
  assumes "\<forall>l \<in> set (dc_listeners cfg). inert l"
  shows "lc_Route (px_lc (snd (run_checks (checks cfg q k) x))) = lc_Route (px_lc x)"
    and "lc_WorkerID (px_lc (snd (run_checks (checks cfg q k) x))) = lc_WorkerID (px_lc x)"
proof -
  note keep = keeps_route_worker runPreDispatchHooks_keeps route_hooks_inert [OF assms]
  show "lc_Route (px_lc (snd (run_checks (checks cfg q k) x))) = lc_Route (px_lc x)"
    by (rule run_checks_keep [of _ "\<lambda>x. lc_Route (px_lc x)"]) (auto simp: checks_def keep)
  show "lc_WorkerID (px_lc (snd (run_checks (checks cfg q k) x))) = lc_WorkerID (px_lc x)"
    by (rule run_checks_keep [of _ "\<lambda>x. lc_WorkerID (px_lc x)"]) (auto simp: checks_def keep)
qed

section \<open>The exchange\<close>

lemma record_failure_frame [simp]:
  "ds_sent (record_failure k now d) = ds_sent d" "ds_drainer (record_failure k now d) = ds_drainer d"
  "ds_poolMgr (record_failure k now d) = ds_poolMgr d"
  by (simp_all add: record_failure_def split_beta)

lemma drop_start_frame [simp]:
  "ds_sent (drop_start req d) = ds_sent d" "ds_drainer (drop_start req d) = ds_drainer d"
  "ds_poolMgr (drop_start req d) = ds_poolMgr d" "ds_circuit (drop_start req d) = ds_circuit d"
  by (simp_all add: drop_start_def)

lemma recordCircuitBreakerResult_frame [simp]:
  "ds_sent (recordCircuitBreakerResult k now c d) = ds_sent d"
  "ds_drainer (recordCircuitBreakerResult k now c d) = ds_drainer d"
  "ds_poolMgr (recordCircuitBreakerResult k now c d) = ds_poolMgr d"
  by (simp_all add: recordCircuitBreakerResult_def split_beta)

lemma track_pool_frame [simp]:
  "ds_sent (track_pool n wid d) = ds_sent d" "ds_drainer (track_pool n wid d) = ds_drainer d"
  "ds_circuit (track_pool n wid d) = ds_circuit d"
  by (simp_all add: track_pool_def split: option.split)

lemma selectWorker_frame:
  assumes "selectWorker d route = Some (wid, d')"
  shows "ds_sent d' = ds_sent d" "ds_drainer d' = ds_drainer d" "ds_circuit d' = ds_circuit d"
  using assms
  by (auto simp: selectWorker_def Let_def split: option.splits prod.splits selection.splits)

lemma worker_failure_frame [simp]:
  "ds_sent (px_disp (worker_failure k now x)) = ds_sent (px_disp x)"
  "ds_drainer (px_disp (worker_failure k now x)) = ds_drainer (px_disp x)"
  "px_lc (worker_failure k now x) = px_lc x" "px_status (worker_failure k now x) = px_status x"
  by (simp_all add: worker_failure_def)

lemma exchange_with_frame:
  "ds_sent (px_disp (snd (exchange_with cfg q k wid payload cid x))) =
     ds_sent (px_disp x) @ [(wid, \<lparr>m_Type = TypeRequest, m_Payload = payload\<rparr>)]"
  "ds_drainer (px_disp (snd (exchange_with cfg q k wid payload cid x))) = ds_drainer (px_disp x)"
  "lc_WorkerID (px_lc (snd (exchange_with cfg q k wid payload cid x))) = lc_WorkerID (px_lc x)"
  by (simp_all add: exchange_with_def handleSendError_def handleReceiveError_def handleWorkerError_def Let_def
      split: option.split sum.split)

lemma exchange_not_panicked: "fst (exchange_with cfg q k wid payload cid x) \<noteq> Panicked"
  by (simp add: exchange_with_def handleSendError_def handleReceiveError_def handleWorkerError_def decodeWorkerResponse_def
      Let_def split: option.split sum.split)

lemma sendAndReceive_sent:
  "ds_sent (px_disp (snd (sendAndReceive cfg q k x))) = ds_sent (px_disp x) \<or>
   (\<exists>wid payload. ds_sent (px_disp (snd (sendAndReceive cfg q k x))) =
      ds_sent (px_disp x) @ [(wid, \<lparr>m_Type = TypeRequest, m_Payload = payload\<rparr>)])"
proof (cases "selectWorker (px_disp x) (cur_route x)")
  case (Some sel)
  then show ?thesis
    using selectWorker_frame(1) [of "px_disp x" "cur_route x" "fst sel" "snd sel"]
    by (auto simp: sendAndReceive_def acquired_def Let_def split_beta exchange_with_frame split: sum.split option.split)
qed (simp add: sendAndReceive_def)

text \<open>The in-flight count of a worker; a worker without a wait group has none.\<close>

definition inflight :: "drainer \<Rightarrow> string \<Rightarrow> int" where
  "inflight dr i = (case dr_inflight dr i of None \<Rightarrow> 0 | Some c \<Rightarrow> c)"

lemma sendAndReceive_drainer:
  assumes "re_WorkerID (cur_route x) \<noteq> []" and "lc_WorkerID (px_lc x) = []"
    and "ds_drainer (px_disp x) = Some dr"
  shows "(ds_drainer (px_disp (snd (sendAndReceive cfg q k x))) = Some dr \<and>
          lc_WorkerID (px_lc (snd (sendAndReceive cfg q k x))) = []) \<or>
    (\<exists>wid. wid \<noteq> [] \<and> fst (sendAndReceive cfg q k x) \<noteq> Panicked \<and>
          ds_drainer (px_disp (snd (sendAndReceive cfg q k x))) = Some (Acquire dr wid) \<and>
          lc_WorkerID (px_lc (snd (sendAndReceive cfg q k x))) = wid)"
proof (cases "selectWorker (px_disp x) (cur_route x)")
  case (Some sel)
  then have "ds_drainer (snd sel) = Some dr"
    using selectWorker_frame(2) [of "px_disp x" "cur_route x" "fst sel" "snd sel"] assms(3) by simp
  with Some assms show ?thesis
    by (auto simp: sendAndReceive_def acquired_def Let_def split_beta exchange_with_frame exchange_not_panicked split: sum.split)
qed (use assms in \<open>simp add: sendAndReceive_def\<close>)

lemma release_acquire:
  assumes "0 \<le> inflight dr wid"
  shows "\<exists>dr'. Release (Acquire dr wid) wid = Some dr' \<and> (\<forall>i. inflight dr' i = inflight dr i) \<and>
    dr_draining dr' = dr_draining dr"
  using assms by (auto simp: dr_defs inflight_def split: option.splits)

section \<open>The whole dispatch\<close>

lemma add_metric_frame [simp]:
  "ds_sent (px_disp (add_metric x m)) = ds_sent (px_disp x)" "ds_drainer (px_disp (add_metric x m)) = ds_drainer (px_disp x)"
  "ds_circuit (px_disp (add_metric x m)) = ds_circuit (px_disp x)" "ds_poolMgr (px_disp (add_metric x m)) = ds_poolMgr (px_disp x)"
  "px_lc (add_metric x m) = px_lc x" "px_status (add_metric x m) = px_status x"
  "ds_metrics (px_disp (add_metric x m)) = ds_metrics (px_disp x) @ [m]"
  by (simp_all add: add_metric_def)

lemma finish_frame [simp]:
  "ds_sent (px_disp (finish cfg q m p x)) = ds_sent (px_disp x)"
  "ds_drainer (px_disp (finish cfg q m p x)) = ds_drainer (px_disp x)"
  "ds_circuit (px_disp (finish cfg q m p x)) = ds_circuit (px_disp x)"
  "ds_metrics (px_disp (finish cfg q m p x)) = ds_metrics (px_disp x) @ [HTTPRequest m p (px_status x), InFlightDec m p]"
  by (simp_all add: finish_def Let_def)

text \<open>The request as the pipeline sees it, and the context with which the checks start.\<close>

definition tagged :: "request_env \<Rightarrow> gateway_request \<Rightarrow> lookup_result \<Rightarrow> gateway_request" where
  "tagged q req rt = (snd (initCorrelationID req (rq_uuid q)))\<lparr>gq_Params := lr_Params rt\<rparr>"

definition route_key :: "gateway_request \<Rightarrow> lookup_result \<Rightarrow> string" where
  "route_key req rt = gq_Method req @ '':'' @ re_Path (lr_Entry rt)"

definition check_ctx :: "dispatcher \<Rightarrow> request_env \<Rightarrow> gateway_request \<Rightarrow> lookup_result \<Rightarrow> pctx" where
  "check_ctx d q req rt =
     \<lparr>px_lc = (NewLifecycleContext (tagged q req rt))\<lparr>lc_CorrelationID := fst (initCorrelationID req (rq_uuid q)),
        lc_Route := Some (lr_Entry rt), lc_Phase := PhaseRouteMatch, lc_RouteParams := lr_Params rt\<rparr>,
      px_status = 0,
      px_disp = d\<lparr>ds_circuit := snd (Get (ds_circuit d) (route_key req rt)),
                  ds_metrics := ds_metrics d @ [InFlightInc (gq_Method req) (gq_Path req),
                    CBState (route_key req rt) (br_state (fst (Get (ds_circuit d) (route_key req rt))))]\<rparr>\<rparr>"

lemma init_req [simp]:
  "gq_Method (snd (initCorrelationID req u)) = gq_Method req" "gq_Path (snd (initCorrelationID req u)) = gq_Path req"
  "gq_Body (snd (initCorrelationID req u)) = gq_Body req"
  "hget (gq_Headers (snd (initCorrelationID req u))) ''Authorization'' = hget (gq_Headers req) ''Authorization''"
  by (simp_all add: initCorrelationID_def Let_def hget_def)

lemma Dispatch_found:
  assumes "Lookup (dc_routes cfg) (gq_Method req) (gq_Path req) = Some rt"
  shows "Dispatch cfg d q req =
    (case complete cfg q (route_key req rt) (run_checks (checks cfg q (route_key req rt)) (check_ctx d q req rt)) of
       (r, x) \<Rightarrow> (r, px_disp (finish cfg q (gq_Method req) (re_Path (lr_Entry rt)) x)))"
proof -
  obtain cid rq where i: "initCorrelationID req (rq_uuid q) = (cid, rq)" by fastforce
  then have rq: "gq_Method rq = gq_Method req" "gq_Path rq = gq_Path req"
    by (auto simp: initCorrelationID_def Let_def)
  show ?thesis
    using assms rq
    by (simp add: Dispatch_def i lookupRoute_def dispatch_route_def add_metric_def NewLifecycleContext_def
        Let_def split_beta check_ctx_def tagged_def route_key_def Stats_def)
qed

lemma Dispatch_missing:
  assumes "Lookup (dc_routes cfg) (gq_Method req) (gq_Path req) = None"
  shows "Dispatch cfg d q req = (Returned None (Some ErrRouteNotFound),
    d\<lparr>ds_metrics := ds_metrics d @ [InFlightInc (gq_Method req) (gq_Path req), HTTPRequest (gq_Method req) [] 0, InFlightDec (gq_Method req) []]\<rparr>)"
  using assms
  by (simp add: Dispatch_def lookupRoute_def NewLifecycleContext_def Let_def split_beta add_metric_def finish_def)

lemma check_ctx_simps [simp]:
  "lc_Route (px_lc (check_ctx d q req rt)) = Some (lr_Entry rt)" "lc_WorkerID (px_lc (check_ctx d q req rt)) = []"
  "cur_req (check_ctx d q req rt) = tagged q req rt" "ds_drainer (px_disp (check_ctx d q req rt)) = ds_drainer d"
  "ds_sent (px_disp (check_ctx d q req rt)) = ds_sent d" "cur_route (check_ctx d q req rt) = lr_Entry rt"
  "ds_poolMgr (px_disp (check_ctx d q req rt)) = ds_poolMgr d"
  "ds_circuit (px_disp (check_ctx d q req rt)) = snd (Get (ds_circuit d) (route_key req rt))"
  by (simp_all add: check_ctx_def NewLifecycleContext_def cur_route_def)

lemma tagged_simps [simp]:
  "gq_Method (tagged q req rt) = gq_Method req" "gq_Body (tagged q req rt) = gq_Body req"
  "hget (gq_Headers (tagged q req rt)) ''Authorization'' = hget (gq_Headers req) ''Authorization''"
  by (simp_all add: tagged_def)

lemma processWorkerResponse_frame [simp]:
  "ds_sent (px_disp (snd (processWorkerResponse cfg q k wr x))) = ds_sent (px_disp x)"
  "ds_drainer (px_disp (snd (processWorkerResponse cfg q k wr x))) = ds_drainer (px_disp x)"
  "lc_WorkerID (px_lc (snd (processWorkerResponse cfg q k wr x))) = lc_WorkerID (px_lc x)"
  by (simp_all add: processWorkerResponse_def Let_def)

lemma releaseInFlight_sent: "releaseInFlight x = Some x' \<Longrightarrow> ds_sent (px_disp x') = ds_sent (px_disp x)"
  by (auto simp: releaseInFlight_def split: option.splits if_splits)

lemma complete_sent:
  "ds_sent (px_disp (snd (complete cfg q k (None, x)))) = ds_sent (px_disp (snd (sendAndReceive cfg q k x)))"
  by (auto simp: complete_def split_beta releaseInFlight_sent split: exchange.split option.split)

lemma admissible_tagged:
  "admissible cfg (px_disp (check_ctx d q req rt)) now (tagged q req rt) e = admissible cfg d now req e"
  if "e = lr_Entry rt"
  using that cbreg.get_again [of "ds_circuit d" "route_key req rt"]
  by (simp add: admissible_def route_key_def)

lemma releaseInFlight_none:
  "lc_WorkerID (px_lc x) = [] \<Longrightarrow> releaseInFlight x = Some x"
  by (simp add: releaseInFlight_def split: option.split)

lemma releaseInFlight_some:
  "lc_WorkerID (px_lc x) = wid \<Longrightarrow> wid \<noteq> [] \<Longrightarrow> ds_drainer (px_disp x) = Some dr \<Longrightarrow> Release dr wid = Some dr' \<Longrightarrow>
    releaseInFlight x = Some (x\<lparr>px_disp := (px_disp x)\<lparr>ds_drainer := Some dr'\<rparr>\<rparr>)"
  by (simp add: releaseInFlight_def)

lemma complete_drainer:
  assumes "re_WorkerID (cur_route x) \<noteq> []" and "lc_WorkerID (px_lc x) = []"
    and "ds_drainer (px_disp x) = Some dr" and "\<forall>i. 0 \<le> inflight dr i"
  shows "\<exists>dr'. ds_drainer (px_disp (snd (complete cfg q k (None, x)))) = Some dr' \<and>
    (\<forall>i. inflight dr' i = inflight dr i) \<and> dr_draining dr' = dr_draining dr"
proof -
  let ?s = "sendAndReceive cfg q k x" and ?y = "snd (sendAndReceive cfg q k x)"
  consider "ds_drainer (px_disp ?y) = Some dr" "lc_WorkerID (px_lc ?y) = []"
    | wid where "wid \<noteq> []" "fst ?s \<noteq> Panicked" "ds_drainer (px_disp ?y) = Some (Acquire dr wid)" "lc_WorkerID (px_lc ?y) = wid"
    using sendAndReceive_drainer [OF assms(1-3), of cfg q k] by blast
  then show ?thesis
  proof cases
    case 1
    then show ?thesis
      by (auto simp: complete_def split_beta releaseInFlight_none split: exchange.split)
  next
    case 2
    obtain dr' where "Release (Acquire dr wid) wid = Some dr'" "\<forall>i. inflight dr' i = inflight dr i"
        "dr_draining dr' = dr_draining dr"
      using release_acquire [of dr wid] assms(4) by blast
    with 2 show ?thesis
      by (auto simp: complete_def split_beta releaseInFlight_some split: exchange.split)
  qed
qed

section \<open>Breakers of other routes and instruments\<close>

text \<open>The breaker of a key, created if the registry has none.\<close>

definition cb_of :: "dispatcher \<Rightarrow> string \<Rightarrow> breaker" where
  "cb_of d k = fst (Get (ds_circuit d) k)"

text \<open>What a request with another route key and the work between the two metric calls leave alone.\<close>

definition bystander :: "string \<Rightarrow> dispatcher \<Rightarrow> breaker \<times> metric list" where
  "bystander k d = (cb_of d k, ds_metrics d)"

lemma bystander_put:
  "k' \<noteq> k \<Longrightarrow>
    bystander k (d\<lparr>ds_circuit := put_breaker (snd (Get (ds_circuit d) k')) k' b\<rparr>) = bystander k d"
  by (simp add: bystander_def cb_of_def cbreg.get_put)

lemma bystander_same:
  "ds_circuit d' = ds_circuit d \<Longrightarrow> ds_metrics d' = ds_metrics d \<Longrightarrow> bystander k d' = bystander k d"
  by (simp add: bystander_def cb_of_def)

lemma bystander_upd [simp]:
  "bystander k (d\<lparr>ds_drainer := dr\<rparr>) = bystander k d" "bystander k (d\<lparr>ds_poolMgr := pm\<rparr>) = bystander k d"
  "bystander k (d\<lparr>ds_startTimes := st\<rparr>) = bystander k d" "bystander k (d\<lparr>ds_sent := ms\<rparr>) = bystander k d"
  by (rule bystander_same; simp)+

lemma checkCircuitBreaker_bystander:
  "k' \<noteq> k \<Longrightarrow> bystander k (px_disp (snd (checkCircuitBreaker k' now x))) = bystander k (px_disp x)"
  by (simp add: checkCircuitBreaker_eq Let_def bystander_put)

lemma runPreDispatchHooks_bystander:
  "bystander k (px_disp (snd (runPreDispatchHooks cfg now x))) = bystander k (px_disp x)"
  by (simp add: runPreDispatchHooks_def run_before_hooks_disp)

lemma checks_bystander:
  assumes "k' \<noteq> k"
  shows "bystander k (px_disp (snd (run_checks (checks cfg q k') x))) = bystander k (px_disp x)"
  by (rule run_checks_keep [of _ "\<lambda>x. bystander k (px_disp x)"])
    (auto simp: checks_def checkCircuitBreaker_bystander [OF assms] runPreDispatchHooks_bystander runRouteMatchHooks_disp
      checkDrainStatus_disp validateJWT_disp validateSchema_disp)

lemma worker_failure_bystander:
  "k' \<noteq> k \<Longrightarrow> bystander k (px_disp (worker_failure k' now x)) = bystander k (px_disp x)"
  using bystander_put [of k' k "drop_start (cur_req x) (px_disp x)"]
  by (simp add: worker_failure_def record_failure_def split_beta) (simp add: drop_start_def)

lemma exchange_bystander:
  "k' \<noteq> k \<Longrightarrow> bystander k (px_disp (snd (exchange_with cfg q k' wid payload cid x))) = bystander k (px_disp x)"
  by (simp add: exchange_with_def handleSendError_def handleReceiveError_def handleWorkerError_def Let_def
      worker_failure_bystander split: option.split sum.split)

lemma selectWorker_metrics: "selectWorker d route = Some (wid, d') \<Longrightarrow> ds_metrics d' = ds_metrics d"
  by (auto simp: selectWorker_def Let_def split: option.splits prod.splits selection.splits)

lemma track_pool_bystander [simp]: "bystander k (track_pool n wid d) = bystander k d"
  by (simp add: track_pool_def split: option.split)

lemma sendAndReceive_bystander:
  assumes "k' \<noteq> k"
  shows "bystander k (px_disp (snd (sendAndReceive cfg q k' x))) = bystander k (px_disp x)"
proof (cases "selectWorker (px_disp x) (cur_route x)")
  case (Some sel)
  obtain wid d where sel: "sel = (wid, d)" by fastforce
  have "bystander k d = bystander k (px_disp x)"
    using Some sel selectWorker_frame(3) selectWorker_metrics by (intro bystander_same) auto
  then show ?thesis
    using Some sel
    by (simp add: sendAndReceive_def acquired_def Let_def split_beta exchange_bystander [OF assms] split: sum.split option.split)
qed (simp add: sendAndReceive_def)

lemma processWorkerResponse_bystander:
  "k' \<noteq> k \<Longrightarrow> bystander k (px_disp (snd (processWorkerResponse cfg q k' wr x))) = bystander k (px_disp x)"
  using bystander_put [of k' k "drop_start (cur_req x) (px_disp x)"]
  by (simp add: processWorkerResponse_def recordCircuitBreakerResult_def Let_def split_beta)
    (simp add: drop_start_def)

lemma releaseInFlight_bystander: "releaseInFlight x = Some x' \<Longrightarrow> bystander k (px_disp x') = bystander k (px_disp x)"
  by (auto simp: releaseInFlight_def split: option.splits if_splits)

lemma complete_bystander:
  assumes "k' \<noteq> k"
  shows "bystander k (px_disp (snd (complete cfg q k' c))) = bystander k (px_disp (snd c))"
  using sendAndReceive_bystander [OF assms, of cfg q "snd c"] processWorkerResponse_bystander [OF assms, of cfg q]
  by (cases c) (auto simp: complete_def split_beta dest!: releaseInFlight_bystander [of _ _ k] split: option.split exchange.split)

section \<open>Requests that pass\<close>

text \<open>The state in which an admitted request reaches the worker: the breaker has been asked, nothing else was decided.\<close>

definition ready :: "dispatcher \<Rightarrow> string \<Rightarrow> string \<Rightarrow> route_entry \<Rightarrow> breaker \<Rightarrow> pctx \<Rightarrow> bool" where
  "ready d k cid e b x \<longleftrightarrow>
     lc_Route (px_lc x) = Some e \<and> lc_WorkerID (px_lc x) = [] \<and> lc_CorrelationID (px_lc x) = cid \<and>
     lc_Err (px_lc x) = None \<and> cid_of x = cid \<and> ds_drainer (px_disp x) = ds_drainer d \<and>
     ds_poolMgr (px_disp x) = ds_poolMgr d \<and> cb_of (px_disp x) k = b"

lemma init_cid: "hget (gq_Headers (snd (initCorrelationID req u))) HeaderCorrelationID = fst (initCorrelationID req u)"
  by (simp add: initCorrelationID_def Let_def hget_def)

lemma checkCircuitBreaker_ready:
  assumes "fst (Allow (cb_of d (route_key req rt)) now)"
  shows "\<exists>x1. checkCircuitBreaker (route_key req rt) now (check_ctx d q req rt) = (None, x1) \<and>
    cur_req x1 = tagged q req rt \<and>
    ready d (route_key req rt) (fst (initCorrelationID req (rq_uuid q))) (lr_Entry rt)
      (fst (snd (Allow (cb_of d (route_key req rt)) now))) x1"
proof -
  have b: "fst (Get (ds_circuit (px_disp (check_ctx d q req rt))) (route_key req rt)) = cb_of d (route_key req rt)"
    by (simp add: cbreg.get_again cb_of_def)
  show ?thesis
    using assms
    unfolding checkCircuitBreaker_eq b Let_def
    by (simp add: ready_def cid_of_def cbreg.get_put cb_of_def)
      (simp add: check_ctx_def NewLifecycleContext_def tagged_def init_cid)
qed

lemma validateJWT_ready:
  assumes "ready d k cid e b x" and "dc_jwt cfg (stripBearerPrefix (hget (gq_Headers (cur_req x)) ''Authorization'')) = Inr cl"
    and "re_AuthRoles e \<noteq> [] \<longrightarrow> hget (gq_Headers (cur_req x)) ''Authorization'' \<noteq> [] \<and> hasRequiredRole (cl_Roles cl) (re_AuthRoles e)"
  shows "\<exists>x1. validateJWT cfg x = (None, x1) \<and> gq_Body (cur_req x1) = gq_Body (cur_req x) \<and> ready d k cid e b x1"
  using assms by (auto simp: validateJWT_def ready_def cur_route_def cid_of_def Let_def)

lemma validateJWT_open: "re_AuthRoles (cur_route x) = [] \<Longrightarrow> validateJWT cfg x = (None, x)"
  by (simp add: validateJWT_def)

lemma runPreDispatchHooks_ready:
  assumes "ready d k cid e b x" and "dc_hooks cfg = []"
  shows "\<exists>x1. runPreDispatchHooks cfg now x = (None, x1) \<and> ready d k cid e b x1"
  using assms by (auto simp: runPreDispatchHooks_def ready_def cid_of_def cb_of_def)

lemma admissible_passes:
  assumes "admissible cfg d (rq_start q) req (lr_Entry rt)" and "dc_listeners cfg = []" and "dc_hooks cfg = []"
  shows "\<exists>y. run_checks (checks cfg q (route_key req rt)) (check_ctx d q req rt) = (None, y) \<and>
    ready d (route_key req rt) (fst (initCorrelationID req (rq_uuid q))) (lr_Entry rt)
      (fst (snd (Allow (cb_of d (route_key req rt)) (rq_start q)))) y"
proof -
  let ?e = "lr_Entry rt" and ?r = "ready d (route_key req rt) (fst (initCorrelationID req (rq_uuid q))) (lr_Entry rt)
      (fst (snd (Allow (cb_of d (route_key req rt)) (rq_start q))))"
  have adm: "fst (Allow (cb_of d (route_key req rt)) (rq_start q))"
      "\<And>dr. ds_drainer d = Some dr \<Longrightarrow> \<not> IsDraining dr (re_WorkerID ?e)"
      "re_Validate ?e \<noteq> [] \<Longrightarrow> gq_Body req \<noteq> [] \<Longrightarrow> dc_schema cfg (re_Validate ?e) (gq_Body req) = None"
    using assms(1) by (auto simp: admissible_def cb_of_def route_key_def)
  obtain x1 where 1: "checkCircuitBreaker (route_key req rt) (rq_start q) (check_ctx d q req rt) = (None, x1)"
      "cur_req x1 = tagged q req rt" "?r x1"
    using checkCircuitBreaker_ready [OF adm(1)] by blast
  have e: "cur_route x1 = ?e" using 1(3) by (simp add: ready_def cur_route_def)
  have 2: "runRouteMatchHooks (dc_listeners cfg) x1 = (None, x1)" by (simp add: assms(2))
  have 3: "checkDrainStatus x1 = (None, x1)"
    using adm(2) 1(3) e by (auto simp: checkDrainStatus_def ready_def split: option.split)
  obtain x2 where 4: "validateJWT cfg x1 = (None, x2)" "gq_Body (cur_req x2) = gq_Body req" "?r x2"
  proof (cases "re_AuthRoles ?e = []")
    case True
    then show ?thesis using that [of x1] validateJWT_open [of x1 cfg] 1 e by simp
  next
    case False
    then obtain cl where "hget (gq_Headers req) ''Authorization'' \<noteq> []" "hasRequiredRole (cl_Roles cl) (re_AuthRoles ?e)"
        "dc_jwt cfg (stripBearerPrefix (hget (gq_Headers req) ''Authorization'')) = Inr cl"
      using assms(1) by (auto simp: admissible_def)
    with validateJWT_ready [OF 1(3), of cfg cl] show ?thesis using that 1(2) by auto
  qed
  have 5: "validateSchema cfg x2 = (None, x2)"
    using adm(3) 4(2,3) by (auto simp: validateSchema_def ready_def cur_route_def)
  obtain x3 where 6: "runPreDispatchHooks cfg (rq_start q) x2 = (None, x3)" "?r x3"
    using runPreDispatchHooks_ready [OF 4(3) assms(3)] by blast
  show ?thesis
    unfolding checks_def
    using 6(2)
    by (simp add: 1(1) 2 3 4(1) 5 6(1))
qed

section \<open>What the worker's answer becomes\<close>

text \<open>
  The reference for the exchange: what the caller gets for each thing the worker can do, and what is recorded on the breaker
  (\<open>Some True\<close> a failure, \<open>Some False\<close> a success, \<open>None\<close> nothing).
\<close>

definition expected ::
  "dispatcher_config \<Rightarrow> request_env \<Rightarrow> string \<Rightarrow> string \<Rightarrow> dispatch_result \<times> bool option" where
  "expected cfg q wid cid =
     (case rq_send q wid of
        Some err \<Rightarrow> (Returned None (Some (ErrorfW (''gateway: send to worker '' @ wid @ '': '') err)), Some True)
      | None \<Rightarrow>
          (case rq_receive q wid of
             Inl err \<Rightarrow>
               (Returned None (Some (if rq_timedOut q then ErrUpstreamTimeout
                                     else ErrorfW (''gateway: receive from worker '' @ wid @ '': '') err)), Some True)
           | Inr msg \<Rightarrow>
               if m_Type msg = TypeError
               then (Returned (Some \<lparr>gr_StatusCode = 502, gr_Headers = Map.empty, gr_Body = m_Payload msg, gr_CorrelationID = cid\<rparr>)
                       (Some (Errorf (''worker error: '' @ bytes_string (m_Payload msg)))), Some True)
               else (case dc_unmarshal cfg (m_Payload msg) of
                       Inl err \<Rightarrow> (Returned (Some \<lparr>gr_StatusCode = 200, gr_Headers = Map.empty, gr_Body = m_Payload msg,
                                              gr_CorrelationID = cid\<rparr>) None, None)
                     | Inr wr \<Rightarrow>
                         (let code = (if wr_StatusCode wr = 0 then 200 else wr_StatusCode wr)
                          in (Returned (Some \<lparr>gr_StatusCode = code, gr_Headers = wr_Headers wr, gr_Body = wr_Body wr,
                                  gr_CorrelationID = (if wr_CorrelationID wr \<noteq> [] then wr_CorrelationID wr else cid)\<rparr>) None,
                              Some (500 \<le> code))))))"

definition recorded :: "bool option \<Rightarrow> go_time \<Rightarrow> breaker \<Rightarrow> breaker" where
  "recorded r now b =
     (case r of None \<Rightarrow> b | Some True \<Rightarrow> fst (RecordFailure b now) | Some False \<Rightarrow> fst (RecordSuccess b now))"

lemma cb_of_record:
  "cb_of (d\<lparr>ds_circuit := put_breaker (snd (Get (ds_circuit d) k)) k b\<rparr>) k = b"
  by (simp add: cb_of_def cbreg.get_put)

lemma cb_of_upd [simp]:
  "cb_of (d\<lparr>ds_drainer := dr\<rparr>) k = cb_of d k" "cb_of (d\<lparr>ds_poolMgr := pm\<rparr>) k = cb_of d k"
  "cb_of (d\<lparr>ds_startTimes := st\<rparr>) k = cb_of d k" "cb_of (d\<lparr>ds_sent := ms\<rparr>) k = cb_of d k"
  "cb_of (d\<lparr>ds_metrics := mt\<rparr>) k = cb_of d k"
  by (simp_all add: cb_of_def)

lemma cb_of_failure: "cb_of (px_disp (worker_failure k now x)) k = fst (RecordFailure (cb_of (px_disp x) k) now)"
  using cb_of_record [of "drop_start (cur_req x) (px_disp x)" k]
  by (simp add: worker_failure_def record_failure_def split_beta) (simp add: cb_of_def)

lemma cb_of_result:
  "cb_of (recordCircuitBreakerResult k now c d) k = recorded (Some (500 \<le> c)) now (cb_of d k)"
  by (simp add: recordCircuitBreakerResult_def recorded_def split_beta cb_of_record) (simp add: cb_of_def)

lemma cb_of_drop [simp]: "cb_of (drop_start r d) k = cb_of d k"
  by (simp add: drop_start_def)

text \<open>An exchange and what follows it agree with the reference; the release cannot panic while counts are not negative.\<close>

lemma exchange_expected:
  assumes "cid_of x = cid" and "lc_Err (px_lc x) = None" and "dc_hooks cfg = []" and "lc_CorrelationID (px_lc z) = cid"
  shows "case exchange_with cfg q k wid payload cid x of
      (Panicked, y) \<Rightarrow> False
    | (Ended resp, y) \<Rightarrow>
        fst (expected cfg q wid cid) = Returned resp (lc_Err (px_lc y)) \<and>
        cb_of (px_disp y) k = recorded (snd (expected cfg q wid cid)) (rq_end q) (cb_of (px_disp x) k)
    | (Answered wr, y) \<Rightarrow>
        fst (expected cfg q wid cid) = Returned (Some (fst (processWorkerResponse cfg q k wr z))) None \<and>
        recorded (Some (500 \<le> wr_StatusCode wr)) (rq_end q) (cb_of (px_disp y) k) =
          recorded (snd (expected cfg q wid cid)) (rq_end q) (cb_of (px_disp x) k)"
  using assms
  by (auto simp: exchange_with_def handleSendError_def handleReceiveError_def handleWorkerError_def decodeWorkerResponse_def
      expected_def cb_of_failure recorded_def cid_of_def processWorkerResponse_def resolveCorrelationID_def Let_def
      split: option.split sum.split)

lemma exchange_with_pool:
  "ds_poolMgr (px_disp (snd (exchange_with cfg q k wid payload cid x))) = ds_poolMgr (px_disp x)"
  "lc_CorrelationID (px_lc (snd (exchange_with cfg q k wid payload cid x))) = lc_CorrelationID (px_lc x)"
  by (simp_all add: exchange_with_def handleSendError_def handleReceiveError_def handleWorkerError_def worker_failure_def
      fail_with_def Let_def split: option.split sum.split)

lemma acquired_simps [simp]:
  "cb_of (px_disp (acquired x wid)) k = cb_of (px_disp x) k" "lc_Err (px_lc (acquired x wid)) = lc_Err (px_lc x)"
  "lc_CorrelationID (px_lc (acquired x wid)) = lc_CorrelationID (px_lc x)" "cid_of (acquired x wid) = cid_of x"
  "ds_poolMgr (px_disp (acquired x wid)) = ds_poolMgr (px_disp x)"
  by (simp_all add: acquired_def cid_of_def split: option.split)

lemma track_pool_none: "ds_poolMgr d = None \<Longrightarrow> track_pool n wid d = d"
  by (simp add: track_pool_def)

lemma sendAndReceive_no_pool:
  assumes "ds_poolMgr (px_disp x) = None" and "dc_marshal cfg (cur_req x) (cid_of x) (dc_timeout cfg) = Inr payload"
  shows "sendAndReceive cfg q k x =
    exchange_with cfg q k (re_WorkerID (cur_route x)) payload (cid_of x) (acquired x (re_WorkerID (cur_route x)))"
  using assms by (simp add: sendAndReceive_def selectWorker_def Let_def split_beta track_pool_none exchange_with_pool)

lemma release_after:
  assumes "ds_drainer (px_disp y) = ds_drainer (px_disp (acquired x wid))" "lc_WorkerID (px_lc y) = lc_WorkerID (px_lc (acquired x wid))"
    and "lc_WorkerID (px_lc x) = []" and "\<And>dr. ds_drainer (px_disp x) = Some dr \<Longrightarrow> \<forall>i. 0 \<le> inflight dr i"
  shows "\<exists>y'. releaseInFlight y = Some y' \<and> cb_of (px_disp y') k = cb_of (px_disp y) k \<and> lc_Err (px_lc y') = lc_Err (px_lc y)"
proof (cases "ds_drainer (px_disp x)")
  case None
  with assms(1-3) show ?thesis by (simp add: acquired_def releaseInFlight_def)
next
  case (Some dr)
  then obtain dr' where "Release (Acquire dr wid) wid = Some dr'" using release_acquire [of dr wid] assms(4) by blast
  with Some assms(1,2) show ?thesis by (simp add: acquired_def releaseInFlight_def)
qed

lemma complete_expected:
  assumes r: "ready d k cid e b x" and "ds_poolMgr d = None" and "dc_hooks cfg = []"
    and "\<And>dr. ds_drainer d = Some dr \<Longrightarrow> \<forall>i. 0 \<le> inflight dr i" and "\<And>r c t. \<exists>p. dc_marshal cfg r c t = Inr p"
  shows "fst (complete cfg q k (None, x)) = fst (expected cfg q (re_WorkerID e) cid) \<and>
    cb_of (px_disp (snd (complete cfg q k (None, x)))) k = recorded (snd (expected cfg q (re_WorkerID e) cid)) (rq_end q) b"
proof -
  obtain payload where p: "dc_marshal cfg (cur_req x) (cid_of x) (dc_timeout cfg) = Inr payload" using assms(5) by blast
  have e: "cur_route x = e" "cid_of x = cid" using r by (simp_all add: ready_def cur_route_def)
  let ?x = "acquired x (re_WorkerID e)"
  obtain r y where s: "exchange_with cfg q k (re_WorkerID e) payload cid ?x = (r, y)" by fastforce
  then have y: "ds_drainer (px_disp y) = ds_drainer (px_disp ?x)" "lc_WorkerID (px_lc y) = lc_WorkerID (px_lc ?x)"
      "lc_CorrelationID (px_lc y) = cid"
    using exchange_with_frame(2,3) [of cfg q k "re_WorkerID e" payload cid ?x] exchange_with_pool(2) [of cfg q k "re_WorkerID e" payload cid ?x] r
    by (simp_all add: ready_def)
  have s': "sendAndReceive cfg q k x = (r, y)"
    using sendAndReceive_no_pool [OF _ p, of q k] s e r assms(2) by (simp add: ready_def)
  have fin: "\<exists>y'. releaseInFlight y2 = Some y' \<and> cb_of (px_disp y') k = cb_of (px_disp y2) k \<and> lc_Err (px_lc y') = lc_Err (px_lc y2)"
    if "ds_drainer (px_disp y2) = ds_drainer (px_disp y)" "lc_WorkerID (px_lc y2) = lc_WorkerID (px_lc y)" for y2
    using release_after [of y2 x "re_WorkerID e" k] that y r assms(4) by (simp add: ready_def)
  have cb: "cb_of (px_disp (snd (processWorkerResponse cfg q k wr y))) k =
      recorded (Some (500 \<le> wr_StatusCode wr)) (rq_end q) (cb_of (px_disp y) k)" for wr
    by (simp add: processWorkerResponse_def Let_def cb_of_result)
  note ex = exchange_expected [where x = ?x and cid = cid and cfg = cfg and z = y and q = q and k = k and wid = "re_WorkerID e" and payload = payload,
      unfolded s]
  have b: "cid_of ?x = cid" "lc_Err (px_lc ?x) = None" "cb_of (px_disp ?x) k = b" using e r by (simp_all add: ready_def)
  note facts = ex [OF b(1,2) assms(3) y(3), unfolded b]
  show ?thesis
  proof (cases r)
    case (Answered wr)
    with facts fin [of "snd (processWorkerResponse cfg q k wr y)"] cb [of wr] show ?thesis
      by (auto simp: complete_def s' split_beta)
  next
    case (Ended resp)
    with facts fin [of y] show ?thesis by (auto simp: complete_def s')
  qed (use facts in simp)
qed

text \<open>The in-flight gauge under a method and path, as the recorded updates leave it.\<close>

definition gauge :: "metric list \<Rightarrow> string \<Rightarrow> string \<Rightarrow> int" where
  "gauge ms m p = int (count_list ms (InFlightInc m p)) - int (count_list ms (InFlightDec m p))"

text \<open>A sequence of requests, one after the other.\<close>

fun dispatch_all :: "dispatcher_config \<Rightarrow> dispatcher \<Rightarrow> (request_env \<times> gateway_request) list \<Rightarrow> dispatcher" where
  "dispatch_all cfg d [] = d"
| "dispatch_all cfg d ((q, req) # qs) = dispatch_all cfg (snd (Dispatch cfg d q req)) qs"

lemma exhausted_check:
  assumes "br_state (cb_of d k) = StateHalfOpen" and "cc_HalfOpenMax (br_config (cb_of d k)) \<le> br_halfOpenProbes (cb_of d k)"
    and "route_key req rt = k"
  shows "\<exists>resp x. run_checks (checks cfg q k) (check_ctx d q req rt) = (Some (Some resp), x) \<and> gr_StatusCode resp = 503 \<and>
    lc_Err (px_lc x) \<noteq> None \<and> cb_of (px_disp x) k = cb_of d k \<and> ds_sent (px_disp x) = ds_sent d"
proof -
  have b: "fst (Get (ds_circuit (px_disp (check_ctx d q req rt))) k) = cb_of d k"
    using assms(3) by (simp add: cbreg.get_again cb_of_def)
  have a: "Allow (cb_of d k) (rq_start q) = (False, cb_of d k, [])"
    using assms(1,2) by (simp add: Allow_def)
  have "\<exists>resp x. checkCircuitBreaker k (rq_start q) (check_ctx d q req rt) = (Some (Some resp), x) \<and> gr_StatusCode resp = 503 \<and>
      lc_Err (px_lc x) \<noteq> None \<and> cb_of (px_disp x) k = cb_of d k \<and> ds_sent (px_disp x) = ds_sent d"
    unfolding checkCircuitBreaker_eq b a Let_def using cb_of_record [of "px_disp (check_ctx d q req rt)" k] by simp
  then show ?thesis by (auto simp: checks_def)
qed

lemma exhausted_refused:
  assumes "br_state (cb_of d k) = StateHalfOpen" and "cc_HalfOpenMax (br_config (cb_of d k)) \<le> br_halfOpenProbes (cb_of d k)"
    and "Lookup (dc_routes cfg) (gq_Method req) (gq_Path req) = Some rt" and "route_key req rt = k"
  shows "\<exists>resp err. fst (Dispatch cfg d q req) = Returned (Some resp) (Some err) \<and> gr_StatusCode resp = 503 \<and>
    ds_sent (snd (Dispatch cfg d q req)) = ds_sent d \<and> cb_of (snd (Dispatch cfg d q req)) k = cb_of d k"
proof -
  obtain resp x where "run_checks (checks cfg q k) (check_ctx d q req rt) = (Some (Some resp), x)" "gr_StatusCode resp = 503"
      "lc_Err (px_lc x) \<noteq> None" "cb_of (px_disp x) k = cb_of d k" "ds_sent (px_disp x) = ds_sent d"
    using exhausted_check [OF assms(1,2,4)] by blast
  then show ?thesis
    by (auto simp: Dispatch_found [OF assms(3)] assms(4) complete_def cb_of_def)
qed

lemma dispatch_other:
  assumes "\<And>rt. Lookup (dc_routes cfg) (gq_Method req) (gq_Path req) = Some rt \<Longrightarrow> route_key req rt \<noteq> k"
  shows "cb_of (snd (Dispatch cfg d q req)) k = cb_of d k"
proof (cases "Lookup (dc_routes cfg) (gq_Method req) (gq_Path req)")
  case None
  then show ?thesis by (simp add: Dispatch_missing)
next
  case (Some rt)
  note k = assms [OF Some]
  have "cb_of (px_disp (check_ctx d q req rt)) k = cb_of d k"
    using cbreg.get_other [of k "route_key req rt" "ds_circuit d"] k
    by (simp add: cb_of_def cbreg.get_entry_value cbreg.fresh_get split: option.split)
  then show ?thesis
    using complete_bystander [OF k, of cfg q "run_checks (checks cfg q (route_key req rt)) (check_ctx d q req rt)"]
      checks_bystander [OF k, of cfg q "check_ctx d q req rt"]
    by (simp add: Dispatch_found [OF Some] split_beta bystander_def) (simp add: cb_of_def)
qed

lemma dispatch_all_exhausted:
  assumes "br_state (cb_of d k) = StateHalfOpen" and "cc_HalfOpenMax (br_config (cb_of d k)) \<le> br_halfOpenProbes (cb_of d k)"
  shows "cb_of (dispatch_all cfg d qs) k = cb_of d k"
  using assms
proof (induction qs arbitrary: d)
  case (Cons x qs)
  obtain q req where x: "x = (q, req)" by fastforce
  have "cb_of (snd (Dispatch cfg d q req)) k = cb_of d k"
    using dispatch_other [of cfg req k d q] exhausted_refused [OF Cons.prems, of cfg req _ q] by blast
  with Cons x show ?case by simp
qed simp

lemma Dispatch_sent_admissible:
  assumes "Dispatch cfg d q req = (r, d')" and "ds_sent d' \<noteq> ds_sent d"
    and "\<forall>l \<in> set (dc_listeners cfg). inert l"
  shows "(\<exists>rt. Lookup (dc_routes cfg) (gq_Method req) (gq_Path req) = Some rt \<and>
      admissible cfg d (rq_start q) req (lr_Entry rt)) \<and>
    (\<exists>wid payload. ds_sent d' = ds_sent d @ [(wid, \<lparr>m_Type = TypeRequest, m_Payload = payload\<rparr>)])"
proof (cases "Lookup (dc_routes cfg) (gq_Method req) (gq_Path req)")
  case None
  with assms(1,2) show ?thesis by (auto simp: Dispatch_missing)
next
  case (Some rt)
  let ?k = "route_key req rt" and ?x = "check_ctx d q req rt"
  let ?c = "run_checks (checks cfg q ?k) ?x"
  have out: "ds_sent (px_disp (snd ?c)) = ds_sent d"
    using checks_out [of ?x cfg q ?k] by (simp add: same_out_def)
  have d': "ds_sent d' = ds_sent (px_disp (snd (complete cfg q ?k ?c)))"
    using assms(1) Dispatch_found [OF Some, of d q] by (auto simp: split_beta)
  have pass: "fst ?c = None"
  proof (rule ccontr)
    assume "fst ?c \<noteq> None"
    then have "snd (complete cfg q ?k ?c) = snd ?c" by (cases ?c) (auto simp: complete_def)
    with d' out assms(2) show False by simp
  qed
  then have c: "?c = (None, snd ?c)" by (metis prod.collapse)
  have "ds_sent d' = ds_sent (px_disp (snd (sendAndReceive cfg q ?k (snd ?c))))"
    unfolding d' by (subst c) (rule complete_sent)
  moreover have "admissible cfg (px_disp ?x) (rq_start q) (cur_req ?x) (lr_Entry rt)"
    using pass assms(3) by (rule checks_pass) (simp_all add: route_key_def)
  ultimately show ?thesis
    using Some sendAndReceive_sent [of cfg q ?k "snd ?c"] out assms(2) by (auto simp: admissible_tagged)
qed

lemma Dispatch_expected:
  assumes "Lookup (dc_routes cfg) (gq_Method req) (gq_Path req) = Some rt" and "admissible cfg d (rq_start q) req (lr_Entry rt)"
    and "dc_listeners cfg = []" and "dc_hooks cfg = []" and "ds_poolMgr d = None"
    and "\<And>dr. ds_drainer d = Some dr \<Longrightarrow> \<forall>i. 0 \<le> inflight dr i" and "\<And>r c t. \<exists>p. dc_marshal cfg r c t = Inr p"
  shows "fst (Dispatch cfg d q req) = fst (expected cfg q (re_WorkerID (lr_Entry rt)) (fst (initCorrelationID req (rq_uuid q)))) \<and>
    cb_of (snd (Dispatch cfg d q req)) (route_key req rt) =
      recorded (snd (expected cfg q (re_WorkerID (lr_Entry rt)) (fst (initCorrelationID req (rq_uuid q))))) (rq_end q)
        (fst (snd (Allow (cb_of d (route_key req rt)) (rq_start q))))"
proof -
  obtain y where y: "run_checks (checks cfg q (route_key req rt)) (check_ctx d q req rt) = (None, y)"
      "ready d (route_key req rt) (fst (initCorrelationID req (rq_uuid q))) (lr_Entry rt)
         (fst (snd (Allow (cb_of d (route_key req rt)) (rq_start q)))) y"
    using admissible_passes [OF assms(2-4)] by blast
  show ?thesis
    using complete_expected [OF y(2) assms(5,4,6,7), of q]
    by (simp add: Dispatch_found [OF assms(1)] y(1) split_beta cb_of_def)
qed

lemma Dispatch_breaker_denies:
  assumes "Lookup (dc_routes cfg) (gq_Method req) (gq_Path req) = Some rt"
    and "\<not> fst (Allow (cb_of d (route_key req rt)) (rq_start q))"
  shows "\<exists>resp text. fst (Dispatch cfg d q req) = Returned (Some resp) (Some (Errorf text)) \<and> gr_StatusCode resp = 503 \<and>
    gr_Headers resp ''Retry-After'' = Some ''30''"
proof -
  let ?k = "route_key req rt" and ?x = "check_ctx d q req rt"
  have b: "fst (Get (ds_circuit (px_disp ?x)) ?k) = cb_of d ?k"
    by (simp add: cbreg.get_again cb_of_def)
  have "\<exists>resp x text. checkCircuitBreaker ?k (rq_start q) ?x = (Some (Some resp), x) \<and> gr_StatusCode resp = 503 \<and>
      gr_Headers resp ''Retry-After'' = Some ''30'' \<and> lc_Err (px_lc x) = Some (Errorf text)"
    unfolding checkCircuitBreaker_eq b Let_def using assms(2) by simp
  then show ?thesis
    by (auto simp: Dispatch_found [OF assms(1)] checks_def complete_def)
qed

section \<open>A concrete gateway\<close>

definition ex_entry :: route_entry where
  "ex_entry = \<lparr>re_Path = ''/a/:id'', re_Method = ''GET'', re_WorkerID = ''w1'', re_AuthRoles = [''admin''], re_Validate = [],
     re_Type = ''api''\<rparr>"

definition ex_cfg :: dispatcher_config where
  "ex_cfg = \<lparr>dc_routes = NewRouteMap [ex_entry],
     dc_jwt = \<lambda>s. if s = ''t'' then Inr \<lparr>cl_UserID = ''u1'', cl_Roles = [''admin'']\<rparr> else Inl (Errorf ''bad token''),
     dc_schema = \<lambda>_ _. None, dc_timeout = 5, dc_listeners = [], dc_hooks = [], dc_marshal = \<lambda>_ _ _. Inr [1],
     dc_unmarshal = \<lambda>b. Inr \<lparr>wr_StatusCode = 0, wr_Headers = Map.empty, wr_Body = b, wr_CorrelationID = []\<rparr>\<rparr>"

definition ex_disp :: dispatcher where
  "ex_disp = NewDispatcher \<lparr>cc_Failures = 5, cc_Cooldown = 30, cc_HalfOpenMax = 1\<rparr> (Some NewWorkerDrainer) None"

text \<open>The same gateway after its breaker has tripped and cooled down.\<close>

definition ex_half_open :: dispatcher where
  "ex_half_open = ex_disp\<lparr>ds_circuit := put_breaker (ds_circuit ex_disp) ''GET:/a/:id''
     ((cb_of ex_disp ''GET:/a/:id'')\<lparr>br_state := StateHalfOpen\<rparr>)\<rparr>"

definition ex_q :: request_env where
  "ex_q = \<lparr>rq_uuid = ''c1'', rq_start = 0, rq_end = 1, rq_send = \<lambda>_. None,
     rq_receive = \<lambda>_. Inr \<lparr>m_Type = TypeResponse, m_Payload = [7]\<rparr>, rq_timedOut = False\<rparr>"

definition ex_req :: "headers \<Rightarrow> gateway_request" where
  "ex_req h = \<lparr>gq_Method = ''GET'', gq_Path = ''/a/42'', gq_Headers = h, gq_Query = Map.empty, gq_Params = None, gq_Body = [],
     gq_Claims = None, gq_ClientIP = ''10.0.0.1''\<rparr>"

abbreviation (input) ex_auth :: headers where
  "ex_auth \<equiv> [''Authorization'' \<mapsto> ''Bearer t'']"

abbreviation (input) ex_rt :: lookup_result where
  "ex_rt \<equiv> \<lparr>lr_Entry = ex_entry, lr_Params = Some [''id'' \<mapsto> ''42'']\<rparr>"

lemma ex_lookup: "Lookup (dc_routes ex_cfg) (gq_Method (ex_req h)) (gq_Path (ex_req h)) = Some ex_rt"
  by (simp add: ex_cfg_def ex_req_def ex_entry_def ex_eval)

lemma ex_key: "route_key (ex_req h) ex_rt = ''GET:/a/:id''"
  by (simp add: route_key_def ex_req_def ex_entry_def)

lemmas ex_gateway = ex_cfg_def ex_disp_def NewDispatcher_def ex_req_def ex_entry_def ex_q_def hget_def stripBearerPrefix_def
  hasRequiredRole_def dr_defs NewWorkerDrainer_def IsDraining_def

lemmas ex_breaker = Allow_def RecordSuccess_def Get_def put_breaker_def NewRegistry_def fresh_breaker_def New_def New_config_def
  SetRouteID_def cb_of_def Let_def

lemma ex_admissible: "admissible ex_cfg ex_disp (rq_start ex_q) (ex_req ex_auth) ex_entry"
  by (simp add: admissible_def ex_gateway ex_breaker)

lemma Dispatch_sends:
  assumes "Lookup (dc_routes cfg) (gq_Method req) (gq_Path req) = Some rt" and "admissible cfg d (rq_start q) req (lr_Entry rt)"
    and "dc_listeners cfg = []" and "dc_hooks cfg = []" and "ds_poolMgr d = None" and "\<And>r c t. dc_marshal cfg r c t = Inr payload"
  shows "ds_sent (snd (Dispatch cfg d q req)) \<noteq> []"
proof -
  obtain y where y: "run_checks (checks cfg q (route_key req rt)) (check_ctx d q req rt) = (None, y)"
      "ready d (route_key req rt) (fst (initCorrelationID req (rq_uuid q))) (lr_Entry rt)
         (fst (snd (Allow (cb_of d (route_key req rt)) (rq_start q)))) y"
    using admissible_passes [OF assms(2-4)] by blast
  then have "ds_poolMgr (px_disp y) = None" using assms(5) by (simp add: ready_def)
  from sendAndReceive_no_pool [OF this assms(6), of q] show ?thesis
    by (simp add: Dispatch_found [OF assms(1)] y(1) split_beta complete_sent) (simp add: exchange_with_frame)
qed

lemma ex_sent: "ds_sent (snd (Dispatch ex_cfg ex_disp ex_q (ex_req ex_auth))) \<noteq> []"
  using Dispatch_sends [OF ex_lookup, of ex_disp ex_q ex_auth "[1]"] ex_admissible by (simp add: ex_cfg_def ex_disp_def NewDispatcher_def)

lemma ex_inflight: "\<forall>i. 0 \<le> inflight NewWorkerDrainer i"
  by (simp add: inflight_def NewWorkerDrainer_def)

lemma ex_no_token: "hget (gq_Headers (ex_req Map.empty)) a = []"
  by (simp add: ex_req_def hget_def)

text \<open>A probe without a token is refused by the JWT check, after the breaker has counted it.\<close>

lemma ex_exhausted:
  "cb_of (snd (Dispatch ex_cfg ex_half_open ex_q (ex_req Map.empty))) ''GET:/a/:id'' =
     (cb_of ex_half_open ''GET:/a/:id'')\<lparr>br_halfOpenProbes := 1\<rparr>"
proof -
  let ?x = "check_ctx ex_half_open ex_q (ex_req Map.empty) ex_rt"
  have b: "cb_of ex_half_open ''GET:/a/:id'' = (cb_of ex_disp ''GET:/a/:id'')\<lparr>br_state := StateHalfOpen\<rparr>"
    by (simp add: ex_half_open_def ex_gateway ex_breaker)
  then have a: "fst (Allow (cb_of ex_half_open ''GET:/a/:id'') (rq_start ex_q))"
      "fst (snd (Allow (cb_of ex_half_open ''GET:/a/:id'') (rq_start ex_q))) =
         (cb_of ex_half_open ''GET:/a/:id'')\<lparr>br_halfOpenProbes := 1\<rparr>"
    by (simp_all add: ex_gateway ex_breaker)
  obtain x1 where x1: "checkCircuitBreaker ''GET:/a/:id'' (rq_start ex_q) ?x = (None, x1)"
      "cur_req x1 = tagged ex_q (ex_req Map.empty) ex_rt"
      "ready ex_half_open ''GET:/a/:id'' (fst (initCorrelationID (ex_req Map.empty) (rq_uuid ex_q))) ex_entry
         ((cb_of ex_half_open ''GET:/a/:id'')\<lparr>br_halfOpenProbes := 1\<rparr>) x1"
    using checkCircuitBreaker_ready [of ex_half_open "ex_req Map.empty" ex_rt "rq_start ex_q" ex_q] a by (auto simp: ex_key)
  have s: "ds_drainer (px_disp x1) = Some NewWorkerDrainer" "cur_route x1 = ex_entry"
      "hget (gq_Headers (cur_req x1)) ''Authorization'' = []"
    using x1(2,3) by (simp_all add: ready_def cur_route_def ex_half_open_def ex_disp_def NewDispatcher_def ex_no_token)
  have "checkDrainStatus x1 = (None, x1)" using s(1) by (simp add: checkDrainStatus_def IsDraining_def NewWorkerDrainer_def)
  moreover have "validateJWT ex_cfg x1 = (Some None, fail_with x1 401 (Some ErrUnauthorized) PhasePreDispatch)"
    using s(2,3) by (simp add: validateJWT_def ex_entry_def)
  moreover have "dc_listeners ex_cfg = []" by (simp add: ex_cfg_def)
  ultimately have "\<exists>x2. run_checks (checks ex_cfg ex_q ''GET:/a/:id'') ?x = (Some None, x2) \<and> px_disp x2 = px_disp x1"
    using x1(1) by (simp add: checks_def)
  with x1(3) show ?thesis
    by (auto simp: Dispatch_found [OF ex_lookup] ex_key complete_def ready_def cb_of_def)
qed

section \<open>Properties\<close>

text \<open>
  Nothing reaches a worker unchecked: if a dispatch hands a message to the transport, then the route exists, the
  circuit breaker of the route let the request through, the worker is not draining, a protected route was given a valid token whose
  claims hold one of the required roles, and a body with a declared schema passed validation; and exactly one
  request message is sent. Listeners may observe but not replace the request and the route.
\<close>
theorem dispatch_only_admissible:
  assumes "Dispatch cfg d q req = (r, d')" and "ds_sent d' \<noteq> ds_sent d"
    and "\<forall>l \<in> set (dc_listeners cfg). inert l"
  shows "(\<exists>rt. Lookup (dc_routes cfg) (gq_Method req) (gq_Path req) = Some rt \<and>
      admissible cfg d (rq_start q) req (lr_Entry rt)) \<and>
    (\<exists>wid payload. ds_sent d' = ds_sent d @ [(wid, \<lparr>m_Type = TypeRequest, m_Payload = payload\<rparr>)])"
  using assms by (rule Dispatch_sent_admissible)

theorem dispatch_only_admissible_witness:
  "\<exists>wid payload. ds_sent (snd (Dispatch ex_cfg ex_disp ex_q (ex_req ex_auth))) = [(wid, \<lparr>m_Type = TypeRequest, m_Payload = payload\<rparr>)]"
proof -
  have s: "ds_sent (snd (Dispatch ex_cfg ex_disp ex_q (ex_req ex_auth))) \<noteq> ds_sent ex_disp"
    using ex_sent by (simp add: ex_gateway)
  have l: "\<forall>l \<in> set (dc_listeners ex_cfg). inert l" by (simp add: ex_cfg_def)
  show ?thesis
    using dispatch_only_admissible [OF prod.collapse [symmetric] s l] by (simp add: ex_disp_def NewDispatcher_def)
qed



text \<open>
  C4: The outcome of an admitted request, without pools, extra listeners or hooks: the caller gets exactly what the reference
  prescribes for what the worker did (answer, error message, failed send, failed receive, timeout, undecodable answer), and the
  breaker of the route, after letting the request through, records a failure for everything but an answer below 500, which
  it records as a success, and an undecodable answer, of which it hears nothing.
\<close>
theorem dispatch_outcome:
  assumes "Lookup (dc_routes cfg) (gq_Method req) (gq_Path req) = Some rt" and "admissible cfg d (rq_start q) req (lr_Entry rt)"
    and "dc_listeners cfg = []" and "dc_hooks cfg = []" and "ds_poolMgr d = None"
    and "\<And>dr. ds_drainer d = Some dr \<Longrightarrow> \<forall>i. 0 \<le> inflight dr i" and "\<And>r c t. \<exists>p. dc_marshal cfg r c t = Inr p"
  shows "fst (Dispatch cfg d q req) = fst (expected cfg q (re_WorkerID (lr_Entry rt)) (fst (initCorrelationID req (rq_uuid q)))) \<and>
    cb_of (snd (Dispatch cfg d q req)) (route_key req rt) =
      recorded (snd (expected cfg q (re_WorkerID (lr_Entry rt)) (fst (initCorrelationID req (rq_uuid q))))) (rq_end q)
        (fst (snd (Allow (cb_of d (route_key req rt)) (rq_start q))))"
  using assms by (rule Dispatch_expected)

theorem dispatch_outcome_witness:
  "fst (Dispatch ex_cfg ex_disp ex_q (ex_req ex_auth)) =
     Returned (Some \<lparr>gr_StatusCode = 200, gr_Headers = Map.empty, gr_Body = [7], gr_CorrelationID = ''c1''\<rparr>) None \<and>
   br_state (cb_of (snd (Dispatch ex_cfg ex_disp ex_q (ex_req ex_auth))) ''GET:/a/:id'') = StateClosed"
proof -
  note o = dispatch_outcome [OF ex_lookup, of ex_disp ex_q ex_auth, unfolded ex_key]
  have cid: "fst (initCorrelationID (ex_req ex_auth) (rq_uuid ex_q)) = ''c1''"
    by (simp add: initCorrelationID_def ex_gateway Let_def)
  have e: "expected ex_cfg ex_q ''w1'' ''c1'' =
      (Returned (Some \<lparr>gr_StatusCode = 200, gr_Headers = Map.empty, gr_Body = [7], gr_CorrelationID = ''c1''\<rparr>) None, Some False)"
    by (simp add: expected_def ex_q_def ex_cfg_def)
  have "fst (Dispatch ex_cfg ex_disp ex_q (ex_req ex_auth)) = fst (expected ex_cfg ex_q ''w1'' ''c1'') \<and>
    cb_of (snd (Dispatch ex_cfg ex_disp ex_q (ex_req ex_auth))) ''GET:/a/:id'' =
      recorded (snd (expected ex_cfg ex_q ''w1'' ''c1'')) (rq_end ex_q)
        (fst (snd (Allow (cb_of ex_disp ''GET:/a/:id'') (rq_start ex_q))))"
    using o ex_admissible ex_inflight cid
    by (auto simp: ex_cfg_def ex_disp_def NewDispatcher_def ex_entry_def)
  moreover have "br_state (fst (RecordSuccess (fst (snd (Allow (cb_of ex_disp ''GET:/a/:id'') (rq_start ex_q)))) (rq_end ex_q))) = StateClosed"
    by (simp add: ex_gateway ex_breaker)
  ultimately show ?thesis by (simp add: e recorded_def)
qed

text \<open>
  The in-flight gauge is raised under the path of the request and lowered under the template of the route (or the empty
  path when no route matches): a dispatch leaves the gauge balanced only when the two are the same, so every request to a
  parameterised route and every unknown path leaves one unit behind.
\<close>
theorem inflight_gauge_drifts:
  "gauge (ds_metrics (snd (Dispatch cfg d q req))) (gq_Method req) p =
     gauge (ds_metrics d) (gq_Method req) p + (if p = gq_Path req then 1 else 0) -
     (if p = (case Lookup (dc_routes cfg) (gq_Method req) (gq_Path req) of None \<Rightarrow> [] | Some rt \<Rightarrow> re_Path (lr_Entry rt)) then 1 else 0)"
proof (cases "Lookup (dc_routes cfg) (gq_Method req) (gq_Path req)")
  case None
  then show ?thesis by (simp add: Dispatch_missing gauge_def)
next
  case (Some rt)
  let ?k = "route_key req rt" and ?x = "check_ctx d q req rt"
  let ?c = "complete cfg q ?k (run_checks (checks cfg q ?k) ?x)"
  have "ds_metrics (px_disp (snd ?c)) = ds_metrics (px_disp ?x)"
    using complete_bystander [of ?k "CHR ''x'' # ?k" cfg q "run_checks (checks cfg q ?k) ?x"]
      checks_bystander [of ?k "CHR ''x'' # ?k" cfg q ?x]
    by (simp add: bystander_def)
  then show ?thesis
    by (simp add: Dispatch_found [OF Some] split_beta Some gauge_def) (simp add: check_ctx_def)
qed

text \<open>
  C30: A route whose half-open probes are used up is lost: once the breaker of a key is half-open with no probe left and no probe
  outstanding, every later request for that key is answered 503 without reaching a worker, whatever other requests are dispatched
  in between and however much time passes; no cooldown applies in this state.
\<close>
theorem exhausted_route_refuses_forever:
  assumes "br_state (cb_of d k) = StateHalfOpen" and "cc_HalfOpenMax (br_config (cb_of d k)) \<le> br_halfOpenProbes (cb_of d k)"
    and "Lookup (dc_routes cfg) (gq_Method req) (gq_Path req) = Some rt" and "route_key req rt = k"
  shows "case Dispatch cfg (dispatch_all cfg d qs) q req of
      (Returned (Some resp) (Some err), d') \<Rightarrow> gr_StatusCode resp = 503 \<and> ds_sent d' = ds_sent (dispatch_all cfg d qs)
    | _ \<Rightarrow> False"
proof -
  have same: "cb_of (dispatch_all cfg d qs) k = cb_of d k"
    using assms(1,2) by (rule dispatch_all_exhausted)
  show ?thesis
    using exhausted_refused [of "dispatch_all cfg d qs" k cfg req rt q] same assms
    by (cases "Dispatch cfg (dispatch_all cfg d qs) q req") auto
qed

theorem exhausted_route_refuses_forever_witness:
  "case Dispatch ex_cfg (dispatch_all ex_cfg ex_half_open [(ex_q, ex_req Map.empty)]) (ex_q\<lparr>rq_start := 1000000000000\<rparr>) (ex_req ex_auth) of
     (Returned (Some resp) (Some err), d') \<Rightarrow>
       gr_StatusCode resp = 503 \<and> ds_sent d' = ds_sent (dispatch_all ex_cfg ex_half_open [(ex_q, ex_req Map.empty)])
   | _ \<Rightarrow> False"
proof -
  let ?d = "snd (Dispatch ex_cfg ex_half_open ex_q (ex_req Map.empty))"
  have "br_state (cb_of ?d ''GET:/a/:id'') = StateHalfOpen"
      "cc_HalfOpenMax (br_config (cb_of ?d ''GET:/a/:id'')) \<le> br_halfOpenProbes (cb_of ?d ''GET:/a/:id'')"
    unfolding ex_exhausted by (simp_all add: ex_half_open_def ex_gateway ex_breaker)
  from exhausted_route_refuses_forever [OF this ex_lookup [of ex_auth] ex_key, where qs = "[]" and q = "ex_q\<lparr>rq_start := 1000000000000\<rparr>"] show ?thesis
    unfolding dispatch_all.simps .
qed

end
