(* ===== verification/Http.thy ===== *)
theory Http
  imports Dispatcher RateLimit
begin

text \<open>
  The parts of Go's standard library the HTTP side of the gateway is written against: requests and their headers, the response
  writer of \<open>net/http\<close>, the media type parser of \<open>mime\<close>, decimal integers and the JSON strings the error answers are made of. Header
  keys of incoming requests are canonical, as the server of \<open>net/http\<close> delivers them.
\<close>

section \<open>Requests\<close>

text \<open>\<open>hr_bodyFails\<close> says that reading the body fails on the connection before the limit is reached.\<close>

record http_request =
  hr_Method :: string
  hr_Path :: string
  hr_Header :: "string \<rightharpoonup> string list"
  hr_Query :: "string \<rightharpoonup> string list"
  hr_RemoteAddr :: string
  hr_Body :: bytes
  hr_bodyFails :: bool

text \<open>\<open>r.Header.Get\<close> for a canonical key: the first value or the empty string.\<close>

definition header_Get :: "http_request \<Rightarrow> string \<Rightarrow> string" where
  "header_Get r k = (case hr_Header r k of Some (v # _) \<Rightarrow> v | _ \<Rightarrow> [])"

definition peer_of :: "http_request \<Rightarrow> http_peer" where
  "peer_of r = \<lparr>hp_RemoteAddr = hr_RemoteAddr r, hp_XForwardedFor = header_Get r ''X-Forwarded-For'',
     hp_XRealIP = header_Get r ''X-Real-Ip''\<rparr>"

section \<open>Header keys\<close>

text \<open>The token characters of RFC 7230.\<close>

definition is_token_char :: "char \<Rightarrow> bool" where
  "is_token_char c =
     (let n = of_char c :: nat
      in (48 \<le> n \<and> n \<le> 57) \<or> (65 \<le> n \<and> n \<le> 90) \<or> (97 \<le> n \<and> n \<le> 122) \<or> c \<in> set ''!#$%&*+-.^_`|~'' \<or> n = 39)"

fun canonical_from :: "bool \<Rightarrow> string \<Rightarrow> string" where
  "canonical_from up [] = []"
| "canonical_from up (c # s) = (if up then upper_char c else lower_char c) # canonical_from (c = CHR ''-'') s"

text \<open>\<open>textproto.CanonicalMIMEHeaderKey\<close>: a key with a byte that is no token character is left as it is.\<close>

definition CanonicalMIMEHeaderKey :: "string \<Rightarrow> string" where
  "CanonicalMIMEHeaderKey s = (if \<forall>c \<in> set s. is_token_char c then canonical_from True s else s)"

section \<open>Responses\<close>

record http_response =
  rs_Header :: headers
  rs_Status :: "int option"
  rs_Body :: bytes

definition new_response :: http_response where
  "new_response = \<lparr>rs_Header = Map.empty, rs_Status = None, rs_Body = []\<rparr>"

definition Header_Set :: "http_response \<Rightarrow> string \<Rightarrow> string \<Rightarrow> http_response" where
  "Header_Set w k v = w\<lparr>rs_Header := (rs_Header w)(CanonicalMIMEHeaderKey k \<mapsto> v)\<rparr>"

text \<open>
  \<open>WriteHeader\<close>: the first status wins, a status outside 100..999 panics (\<open>None\<close>), an informational one other than 101 is not
  the final status. \<open>Write\<close> fixes the status at 200 when there is none and drops the body where the status allows none.
\<close>

definition WriteHeader :: "http_response \<Rightarrow> int \<Rightarrow> http_response option" where
  "WriteHeader w code =
     (if rs_Status w \<noteq> None then Some w
      else if code < 100 \<or> 999 < code then None
      else if code \<le> 199 \<and> code \<noteq> 101 then Some w
      else Some (w\<lparr>rs_Status := Some code\<rparr>))"

definition bodyAllowedForStatus :: "int \<Rightarrow> bool" where
  "bodyAllowedForStatus code = (\<not> (100 \<le> code \<and> code \<le> 199) \<and> code \<noteq> 204 \<and> code \<noteq> 304)"

definition Write_body :: "http_response \<Rightarrow> bytes \<Rightarrow> http_response" where
  "Write_body w b =
     (let w1 = (if rs_Status w = None then w\<lparr>rs_Status := Some 200\<rparr> else w)
      in if bodyAllowedForStatus (the (rs_Status w1)) then w1\<lparr>rs_Body := rs_Body w1 @ b\<rparr> else w1)"

text \<open>A fixed status followed by a body, the way every refusal is written.\<close>

definition answer :: "http_response \<Rightarrow> int \<Rightarrow> bytes \<Rightarrow> http_response" where
  "answer w code body = Write_body (case WriteHeader w code of None \<Rightarrow> w | Some w1 \<Rightarrow> w1) body"

lemma answer_simps:
  assumes "rs_Status w = None" and "200 \<le> code" and "code \<le> 999"
  shows "rs_Status (answer w code b) = Some code" and "rs_Header (answer w code b) = rs_Header w"
    and "bodyAllowedForStatus code \<Longrightarrow> rs_Body (answer w code b) = rs_Body w @ b"
  using assms by (simp_all add: answer_def WriteHeader_def Write_body_def Let_def)

text \<open>\<open>http.Error\<close>.\<close>

definition http_Error :: "http_response \<Rightarrow> string \<Rightarrow> int \<Rightarrow> http_response" where
  "http_Error w text code =
     answer (Header_Set (Header_Set (w\<lparr>rs_Header := (rs_Header w)(''Content-Length'' := None)\<rparr>)
        ''Content-Type'' ''text/plain; charset=utf-8'') ''X-Content-Type-Options'' ''nosniff'') code
       (string_bytes (text @ [CHR 0x0A]))"

section \<open>Integers and JSON\<close>

text \<open>The JSON encoder's string escapes; bytes above ASCII are copied.\<close>

definition json_char :: "char \<Rightarrow> string" where
  "json_char c =
     (let n = of_char c :: nat
      in if n = 34 then [CHR 0x5C, CHR 0x22] else if n = 92 then [CHR 0x5C, CHR 0x5C]
         else if n = 8 then [CHR 0x5C, CHR ''b''] else if n = 12 then [CHR 0x5C, CHR ''f'']
         else if n = 10 then [CHR 0x5C, CHR ''n''] else if n = 13 then [CHR 0x5C, CHR ''r'']
         else if n = 9 then [CHR 0x5C, CHR ''t'']
         else if n < 32 \<or> n = 60 \<or> n = 62 \<or> n = 38
         then [CHR 0x5C, CHR ''u'', CHR ''0'', CHR ''0'', hex_digit (n div 16), hex_digit (n mod 16)]
         else [c])"

definition json_string :: "string \<Rightarrow> string" where
  "json_string s = CHR 0x22 # concat (map json_char s) @ [CHR 0x22]"

definition json_error :: "string \<Rightarrow> string" where
  "json_error message = ''{'' @ json_string ''error'' @ '':'' @ json_string message @ ''}''"

section \<open>Media types\<close>

definition TrimLeftSpace :: "string \<Rightarrow> string" where
  "TrimLeftSpace s = dropWhile is_space s"

text \<open>\<open>consumeToken\<close>, \<open>consumeValue\<close> and \<open>consumeMediaParam\<close> of \<open>mime/mediatype.go\<close>.\<close>

definition is_tspecial :: "char \<Rightarrow> bool" where
  "is_tspecial c = (c \<in> set ''()<>@,;:/[]?='' \<or> c = CHR 0x22 \<or> c = CHR 0x5C)"

definition mime_token_char :: "char \<Rightarrow> bool" where
  "mime_token_char c = (let n = of_char c :: nat in 32 < n \<and> n < 127 \<and> \<not> is_tspecial c)"

definition consumeToken :: "string \<Rightarrow> string \<times> string" where
  "consumeToken s = (takeWhile mime_token_char s, dropWhile mime_token_char s)"

fun quoted :: "string \<Rightarrow> string \<Rightarrow> (string \<times> string) option" where
  "quoted acc [] = None"
| "quoted acc (c # s) =
     (if c = CHR 0x22 then Some (acc, s)
      else if c = CHR 0x5C
      then (case s of
              d # s' \<Rightarrow> if is_tspecial d then quoted (acc @ [d]) s' else quoted (acc @ [c]) s
            | [] \<Rightarrow> quoted (acc @ [c]) s)
      else if c = CHR 0x0D \<or> c = CHR 0x0A then None
      else quoted (acc @ [c]) s)"

definition consumeValue :: "string \<Rightarrow> string \<times> string" where
  "consumeValue v =
     (case v of
        [] \<Rightarrow> ([], [])
      | c # s \<Rightarrow> if c \<noteq> CHR 0x22 then consumeToken v
                else (case quoted [] s of None \<Rightarrow> ([], v) | Some (val, rest) \<Rightarrow> (val, rest)))"

text \<open>\<open>None\<close> when no parameter could be read.\<close>

definition consumeMediaParam :: "string \<Rightarrow> ((string \<times> string) \<times> string) option" where
  "consumeMediaParam v =
     (case TrimLeftSpace v of
        [] \<Rightarrow> None
      | c # rest \<Rightarrow>
          if c \<noteq> CHR '';'' then None
          else (case consumeToken (TrimLeftSpace rest) of
                  (param, rest1) \<Rightarrow>
                    if param = [] then None
                    else (case TrimLeftSpace rest1 of
                            [] \<Rightarrow> None
                          | e # rest2 \<Rightarrow>
                              if e \<noteq> CHR ''='' then None
                              else (let rest3 = TrimLeftSpace rest2
                                    in case consumeValue rest3 of
                                         (val, rest4) \<Rightarrow>
                                           if val = [] \<and> rest4 = rest3 then None
                                           else Some ((ToLower param, val), rest4)))))"

lemma dropWhile_length: "length (dropWhile P s) \<le> length s"
  by (induction s) auto

lemma quoted_length: "quoted acc s = Some (val, rest) \<Longrightarrow> length rest < length s"
  by (induction acc s rule: quoted.induct) (auto split: if_splits list.splits)

lemma consumeValue_length: "length (snd (consumeValue v)) \<le> length v"
proof (cases v)
  case (Cons c s)
  then show ?thesis
    using dropWhile_length [of mime_token_char v] quoted_length [of "[]" s]
    by (auto simp: consumeValue_def consumeToken_def split: option.split dest: less_imp_le_nat intro: le_SucI)
qed (simp add: consumeValue_def)

lemma consumeMediaParam_length:
  assumes "consumeMediaParam v = Some (kv, rest)"
  shows "length rest < length v"
proof -
  obtain c r where v: "TrimLeftSpace v = c # r" using assms by (auto simp: consumeMediaParam_def split: list.splits)
  obtain r1 where r1: "r1 = snd (consumeToken (TrimLeftSpace r))" by simp
  obtain e r2 where r2: "TrimLeftSpace r1 = e # r2" and r3: "rest = snd (consumeValue (TrimLeftSpace r2))"
    using assms v r1 by (auto simp: consumeMediaParam_def Let_def split: list.splits prod.splits if_splits)
  have "length rest \<le> length r2"
    using consumeValue_length [of "TrimLeftSpace r2"] r3
      dropWhile_length [of is_space r2] by (simp add: TrimLeftSpace_def)
  also have "length r2 < length r1" using r2 dropWhile_length [of is_space r1] by (simp add: TrimLeftSpace_def)
  also have "length r1 \<le> length r"
    using r1 dropWhile_length [of mime_token_char "TrimLeftSpace r"] dropWhile_length [of is_space r]
    by (simp add: consumeToken_def TrimLeftSpace_def)
  also have "length r < length v" using v dropWhile_length [of is_space v] by (simp add: TrimLeftSpace_def)
  finally show ?thesis .
qed

lemma media_rest_length:
  assumes "consumeMediaParam (TrimLeftSpace v) = Some (kv, rest)"
  shows "length rest < length v"
  using consumeMediaParam_length [OF assms] dropWhile_length [of is_space v] by (simp add: TrimLeftSpace_def)

text \<open>
  The parameter loop of \<open>ParseMediaType\<close>; \<open>True\<close> when it ends without an error. Continued parameters (with a star) go to maps of
  their own in Go; their full names differ from all others, so one map answers the duplicate check the same way.
\<close>

function media_params :: "(string \<rightharpoonup> string) \<Rightarrow> string \<Rightarrow> bool" where
  "media_params m v =
     (if TrimLeftSpace v = [] then True
      else (case consumeMediaParam (TrimLeftSpace v) of
              None \<Rightarrow> TrimSpace v = '';''
            | Some ((k, val), rest) \<Rightarrow>
                (case m k of
                   Some old \<Rightarrow> if old \<noteq> val then False else media_params (m(k \<mapsto> val)) rest
                 | None \<Rightarrow> media_params (m(k \<mapsto> val)) rest)))"
  by pat_completeness auto

termination
  by (relation "measure (\<lambda>(m, v). length v)") (auto dest: media_rest_length)

declare media_params.simps [simp del]

definition checkMediaTypeDisposition :: "string \<Rightarrow> bool" where
  "checkMediaTypeDisposition s =
     (case consumeToken s of
        (typ, rest) \<Rightarrow>
          if typ = [] then False
          else (case rest of
                  [] \<Rightarrow> True
                | c # rest1 \<Rightarrow>
                    c = CHR ''/'' \<and>
                    (case consumeToken rest1 of (subtype, rest2) \<Rightarrow> subtype \<noteq> [] \<and> rest2 = [])))"

text \<open>\<open>mime.ParseMediaType\<close>: the media type, or \<open>None\<close> for an error.\<close>

definition ParseMediaType :: "string \<Rightarrow> string option" where
  "ParseMediaType v =
     (let base = takeWhile (\<lambda>c. c \<noteq> CHR '';'') v; mediatype = TrimSpace (ToLower base)
      in if \<not> checkMediaTypeDisposition mediatype then None
         else if media_params Map.empty (drop (length base) v) then Some mediatype else None)"

end
