(* ===== verification/WebSocket.thy ===== *)
theory WebSocket
  imports Http
begin

text \<open>
  The WebSocket proxy of \<open>core/infrastructure/gateway/websocket.go\<close>: the checks before the upgrade, the frame that tells the worker of a
  new session, and the two pumps. A pump is a function of what its two sides do: the list of receive results paired with the
  result of the send that may follow, oldest first; the end of the list is a pump that is still running. The JSON coding of the
  payloads is a parameter.
\<close>

section \<open>Before the upgrade\<close>

definition isWebSocketUpgrade :: "http_request \<Rightarrow> bool" where
  "isWebSocketUpgrade r = EqualFold (header_Get r ''Upgrade'') ''websocket''"

definition hasWSRole :: "string list \<Rightarrow> string list \<Rightarrow> bool" where
  "hasWSRole callerRoles required = (\<exists>r \<in> set required. r \<in> set callerRoles)"

datatype ws_decision =
    WSRefused http_response
  | WSUpgrade route_entry "params option" "claims option"

definition ws_ServeHTTP ::
  "route_map \<Rightarrow> (string \<Rightarrow> go_error + claims) \<Rightarrow> http_response \<Rightarrow> http_request \<Rightarrow> ws_decision" where
  "ws_ServeHTTP routes jwt w r =
     (case Lookup routes ''WS'' (hr_Path r) of
        None \<Rightarrow> WSRefused (http_Error w (json_error ''route not found'') 404)
      | Some result \<Rightarrow>
          (let route = lr_Entry result
           in if re_AuthRoles route = [] then WSUpgrade route (lr_Params result) None
              else (let t = header_Get r ''Authorization'';
                        token = (if 7 < length t \<and> EqualFold (take 7 t) ''bearer '' then drop 7 t else t)
                    in case jwt token of
                         Inl err \<Rightarrow> WSRefused (http_Error w (json_error ''unauthorized'') 401)
                       | Inr c \<Rightarrow>
                           if \<not> hasWSRole (cl_Roles c) (re_AuthRoles route)
                           then WSRefused (http_Error w (json_error ''forbidden'') 403)
                           else WSUpgrade route (lr_Params result) (Some c))))"

section \<open>The session\<close>

record ws_open_payload =
  wo_SessionID :: string
  wo_Path :: string
  wo_Headers :: headers
  wo_Claims :: "claims option"

record ws_message_payload =
  wm_SessionID :: string
  wm_Data :: bytes
  wm_IsBinary :: bool

definition buildHeadersSnapshot :: "http_request \<Rightarrow> headers" where
  "buildHeadersSnapshot r = (\<lambda>k. case hr_Header r k of Some (v # _) \<Rightarrow> Some v | _ \<Rightarrow> None)"

definition open_message ::
  "(ws_open_payload \<Rightarrow> bytes) \<Rightarrow> string \<Rightarrow> http_request \<Rightarrow> claims option \<Rightarrow> message" where
  "open_message enc sessionID r cl =
     \<lparr>m_Type = TypeWSOpen,
      m_Payload = enc \<lparr>wo_SessionID = sessionID, wo_Path = hr_Path r, wo_Headers = buildHeadersSnapshot r, wo_Claims = cl\<rparr>\<rparr>"

text \<open>The frames handed to the transport, and the error that ended the pump, if it ended.\<close>

fun pumpClientToWorker ::
  "(ws_message_payload \<Rightarrow> bytes) \<Rightarrow> string \<Rightarrow> ((go_error + bytes) \<times> go_error option) list \<Rightarrow> message list \<times> go_error option" where
  "pumpClientToWorker enc sid [] = ([], None)"
| "pumpClientToWorker enc sid ((Inl err, _) # ins) = ([], Some err)"
| "pumpClientToWorker enc sid ((Inr data, sent) # ins) =
     (let msg = \<lparr>m_Type = TypeWSMessage, m_Payload = enc \<lparr>wm_SessionID = sid, wm_Data = data, wm_IsBinary = False\<rparr>\<rparr>
      in case sent of
           Some err \<Rightarrow> ([msg], Some err)
         | None \<Rightarrow> (case pumpClientToWorker enc sid ins of (ms, e) \<Rightarrow> (msg # ms, e)))"

text \<open>The data handed to the client's connection; messages that are not this session's are read and dropped.\<close>

fun pumpWorkerToClient ::
  "(bytes \<Rightarrow> ws_message_payload option) \<Rightarrow> string \<Rightarrow> ((go_error + message) \<times> go_error option) list \<Rightarrow>
     bytes list \<times> go_error option" where
  "pumpWorkerToClient dec sid [] = ([], None)"
| "pumpWorkerToClient dec sid ((Inl err, _) # ins) = ([], Some err)"
| "pumpWorkerToClient dec sid ((Inr msg, sent) # ins) =
     (if m_Type msg \<noteq> TypeWSMessage then pumpWorkerToClient dec sid ins
      else (case dec (m_Payload msg) of
              None \<Rightarrow> pumpWorkerToClient dec sid ins
            | Some p \<Rightarrow>
                if wm_SessionID p \<noteq> sid then pumpWorkerToClient dec sid ins
                else (case sent of
                        Some err \<Rightarrow> ([wm_Data p], Some err)
                      | None \<Rightarrow> (case pumpWorkerToClient dec sid ins of (ds, e) \<Rightarrow> (wm_Data p # ds, e)))))"

text \<open>
  The frames a session sends its worker: nothing after a failed notification; otherwise the opening frame and what the client pump
  sends. The worker is not told of the end of the session.
\<close>

definition ws_proxy ::
  "(ws_open_payload \<Rightarrow> bytes) \<Rightarrow> (ws_message_payload \<Rightarrow> bytes) \<Rightarrow> string \<Rightarrow> http_request \<Rightarrow> claims option \<Rightarrow>
     go_error option \<Rightarrow> ((go_error + bytes) \<times> go_error option) list \<Rightarrow> message list" where
  "ws_proxy enc_open enc_msg sid r cl opened client =
     open_message enc_open sid r cl #
     (case opened of Some err \<Rightarrow> [] | None \<Rightarrow> fst (pumpClientToWorker enc_msg sid client))"

section \<open>Lemmas\<close>

text \<open>The data of the messages addressed to a session, as the pump decodes them.\<close>

definition addressed :: "(bytes \<Rightarrow> ws_message_payload option) \<Rightarrow> string \<Rightarrow> message \<Rightarrow> bytes option" where
  "addressed dec sid msg =
     (if m_Type msg \<noteq> TypeWSMessage then None
      else (case dec (m_Payload msg) of Some p \<Rightarrow> if wm_SessionID p = sid then Some (wm_Data p) else None | None \<Rightarrow> None))"

lemma addressed_unique: "addressed dec s msg = Some d \<Longrightarrow> s' \<noteq> s \<Longrightarrow> addressed dec s' msg = None"
  by (auto simp: addressed_def split: if_splits option.splits)

lemma pump_delivers:
  "pumpWorkerToClient dec sid (map (\<lambda>m. (Inr m, None)) ms) = (List.map_filter (addressed dec sid) ms, None)"
  by (induction ms) (simp_all add: addressed_def map_filter_simps split: option.split)

lemma client_pump_types:
  "m \<in> set (fst (pumpClientToWorker enc sid ins)) \<Longrightarrow> m_Type m = TypeWSMessage"
  by (induction enc sid ins rule: pumpClientToWorker.induct) (auto simp: Let_def split: option.splits prod.splits)

lemma client_pump_sends:
  "pumpClientToWorker enc sid (map (\<lambda>d. (Inr d, None)) ds) =
     (map (\<lambda>d. \<lparr>m_Type = TypeWSMessage, m_Payload = enc \<lparr>wm_SessionID = sid, wm_Data = d, wm_IsBinary = False\<rparr>\<rparr>) ds, None)"
  by (induction ds) (simp_all add: Let_def)

section \<open>Properties\<close>


definition ex_ws_routes :: route_map where
  "ex_ws_routes = NewRouteMap [\<lparr>re_Path = ''/ws/chat'', re_Method = ''WS'', re_WorkerID = ''w1'', re_AuthRoles = [''user''],
     re_Validate = [], re_Type = ''ws''\<rparr>]"

definition ex_ws_request :: http_request where
  "ex_ws_request = \<lparr>hr_Method = ''GET'', hr_Path = ''/ws/chat'', hr_Header = [''Authorization'' \<mapsto> [''BEARER t'']], hr_Query = Map.empty,
     hr_RemoteAddr = ''10.0.0.1:5000'', hr_Body = [], hr_bodyFails = False\<rparr>"


text \<open>
  A session is faithful both ways: what the client sends reaches the worker in order, each frame tagged with the
  session, and sending it back unchanged delivers the same data in the same order, for any coding that can be decoded; frames
  of other sessions and other types are never shown to this client.
\<close>
theorem session_echo_round_trip:
  assumes "\<And>p. dec (enc p) = Some p"
  shows "pumpWorkerToClient dec sid'
      (map (\<lambda>m. (Inr m, None)) (fst (pumpClientToWorker enc sid (map (\<lambda>d. (Inr d, None)) ds)))) =
    (if sid' = sid then ds else [], None)"
  unfolding client_pump_sends pump_delivers fst_conv
  by (induction ds) (simp_all add: addressed_def assms map_filter_simps)

text \<open>A coding for concrete sessions: the session's length, the session, the data.\<close>

definition ex_enc :: "ws_message_payload \<Rightarrow> bytes" where
  "ex_enc p = (if wm_IsBinary p then 1 else 0) # replicate (length (wm_SessionID p)) 1 @ 0 # string_bytes (wm_SessionID p) @ wm_Data p"

definition ex_dec :: "bytes \<Rightarrow> ws_message_payload option" where
  "ex_dec b = (let n = length (takeWhile (\<lambda>x. x = 1) (tl b)); rest = drop (Suc n) (tl b)
     in Some \<lparr>wm_SessionID = bytes_string (take n rest), wm_Data = drop n rest, wm_IsBinary = (hd b = 1)\<rparr>)"

lemma bytes_string_bytes: "bytes_string (string_bytes s) = s"
  by (induction s) (simp_all add: bytes_string_def string_bytes_def unat_of_nat)

lemma length_string_bytes: "length (string_bytes s) = length s"
  by (simp add: string_bytes_def)

lemma ex_dec_enc: "ex_dec (ex_enc p) = Some p"
proof -
  have "takeWhile (\<lambda>x. x = 1) (replicate n 1 @ 0 # bs) = replicate n (1 :: 8 word)" for n bs
    by (induction n) simp_all
  then show ?thesis
    by (cases p) (simp add: ex_enc_def ex_dec_def Let_def bytes_string_bytes length_string_bytes)
qed

theorem session_echo_round_trip_witness:
  "pumpWorkerToClient ex_dec ''s1''
     (map (\<lambda>m. (Inr m, None)) (fst (pumpClientToWorker ex_enc ''s1'' (map (\<lambda>d. (Inr d, None)) [[1], [2, 3]])))) = ([[1], [2, 3]], None)"
  using session_echo_round_trip [of ex_dec ex_enc, OF ex_dec_enc, of "''s1''" "''s1''" "[[1], [2, 3]]"] by simp

text \<open>
  Sessions of one worker take each other's messages: the pumps of two sessions read from the one response queue, so when the queue's
  messages are divided between them, a session gets exactly those of its own messages that its own pump read. A message
  read by the other pump, and any HTTP answer read by either, is lost.
\<close>
theorem sessions_steal_messages:
  "fst (pumpWorkerToClient dec sid (map (\<lambda>(s, m). (Inr m, None)) (filter (\<lambda>(s, m). s = sid) reads))) =
     List.map_filter (\<lambda>(s, m). if s = sid then addressed dec sid m else None) reads"
  by (induction reads) (auto simp: addressed_def map_filter_simps split_beta split: option.splits if_splits)

text \<open>
  The worker never hears that a session ended: whatever the client and the connection do, the frames sent are one opening frame
  and data frames, never a close frame.
\<close>
theorem no_close_frame:
  "map m_Type (ws_proxy enc_open enc_msg sid r cl opened client) =
     TypeWSOpen # replicate (length (ws_proxy enc_open enc_msg sid r cl opened client) - 1) TypeWSMessage \<and>
   TypeWSClose \<notin> set (map m_Type (ws_proxy enc_open enc_msg sid r cl opened client))"
proof -
  let ?ms = "case opened of Some err \<Rightarrow> [] | None \<Rightarrow> fst (pumpClientToWorker enc_msg sid client)"
  have "map m_Type ?ms = replicate (length ?ms) TypeWSMessage"
    using client_pump_types [of _ enc_msg sid client]
    by (intro replicate_eqI) (auto split: option.splits)
  then show ?thesis by (simp add: ws_proxy_def open_message_def)
qed

end
