(* ===== verification/Server.thy ===== *)
theory Server
  imports WebSocket
begin

text \<open>
  The HTTP front end: \<open>core/infrastructure/gateway/server.go\<close>, \<open>cors.go\<close> and \<open>jwt.go\<close>, with
  \<open>core/application/gateway/security_headers.go\<close>. A handler maps the response written so far and the request to what it leaves behind;
  \<open>HandlerPanic\<close> is a Go panic inside it. Verifying and parsing a token (\<open>golang-jwt\<close>) is a parameter.
\<close>

section \<open>Header values\<close>

definition maxHeaderValueLen :: nat where
  "maxHeaderValueLen = 4096"

definition printable :: "char \<Rightarrow> bool" where
  "printable b = (b = CHR 0x09 \<or> 0x20 \<le> (of_char b :: nat))"

definition sanitizeHeaderValue :: "string \<Rightarrow> string" where
  "sanitizeHeaderValue v =
     filter printable (if maxHeaderValueLen < length v then take maxHeaderValueLen v else v)"

definition SecurityHeaders :: "(string \<times> string) list" where
  "SecurityHeaders =
     [(''X-Content-Type-Options'', ''nosniff''), (''X-Frame-Options'', ''DENY''), (''X-XSS-Protection'', ''1; mode=block''),
      (''Strict-Transport-Security'', ''max-age=63072000; includeSubDomains''),
      (''Referrer-Policy'', ''strict-origin-when-cross-origin''), (''Content-Security-Policy'', ''default-src '' @ [CHR 0x27] @ ''self'' @ [CHR 0x27]),
      (''Permissions-Policy'', ''geolocation=(), camera=(), microphone=(), payment=(), usb=()'')]"

section \<open>Tokens\<close>

text \<open>A parsed token: its signing method's family, its claims, and the verdict of the library.\<close>

record registered_claims =
  rc_Subject :: string
  rc_Roles :: "string list"
  rc_Issuer :: string
  rc_Audience :: "string list"
  rc_NotBefore :: "go_time option"

record jwt_token =
  tk_HMAC :: bool
  tk_Alg :: string
  tk_Claims :: registered_claims
  tk_Valid :: bool

record jwt_validator =
  jv_secret :: bytes
  jv_issuer :: string
  jv_audience :: string

definition NewJWTValidatorWithClaims :: "bytes \<Rightarrow> string \<Rightarrow> string \<Rightarrow> jwt_validator" where
  "NewJWTValidatorWithClaims secret issuer audience = \<lparr>jv_secret = secret, jv_issuer = issuer, jv_audience = audience\<rparr>"

definition NewJWTValidator :: "bytes \<Rightarrow> jwt_validator" where
  "NewJWTValidator secret = NewJWTValidatorWithClaims secret [] []"

text \<open>The key function handed to the library.\<close>

definition keyfunc :: "jwt_validator \<Rightarrow> jwt_token \<Rightarrow> go_error + bytes" where
  "keyfunc v t = (if \<not> tk_HMAC t then Inl (Errorf (''unexpected signing method: '' @ tk_Alg t)) else Inr (jv_secret v))"

fun contains :: "string list \<Rightarrow> string \<Rightarrow> bool" where
  "contains [] target = False"
| "contains (s # ss) target = (s = target \<or> contains ss target)"

text \<open>\<open>parse\<close> is \<open>jwt.ParseWithClaims\<close> with the library's clock fixed.\<close>

definition Validate ::
  "(string \<Rightarrow> (jwt_token \<Rightarrow> go_error + bytes) \<Rightarrow> go_error + jwt_token) \<Rightarrow> jwt_validator \<Rightarrow> go_time \<Rightarrow> string \<Rightarrow> go_error + claims" where
  "Validate parse v now tokenStr =
     (case parse tokenStr (keyfunc v) of
        Inl err \<Rightarrow> Inl err
      | Inr token \<Rightarrow>
          (let c = tk_Claims token
           in if \<not> tk_Valid token then Inl (Sentinel ''jwt: invalid token claims'')
              else if jv_issuer v \<noteq> [] \<and> rc_Issuer c \<noteq> jv_issuer v then Inl ErrUnauthorized
              else if jv_audience v \<noteq> [] \<and> \<not> contains (rc_Audience c) (jv_audience v) then Inl ErrUnauthorized
              else if (case rc_NotBefore c of Some nbf \<Rightarrow> now < nbf | None \<Rightarrow> False) then Inl ErrUnauthorized
              else Inr \<lparr>cl_UserID = rc_Subject c, cl_Roles = rc_Roles c\<rparr>))"

section \<open>The server\<close>

record server_config =
  sc_dispatch :: dispatcher_config
  sc_maxBodyBytes :: int
  sc_ipResolver :: "http_peer \<Rightarrow> string"

record server =
  sv_dispatcher :: dispatcher
  sv_rateLimiter :: rate_limiter

text \<open>The random numbers of the two buckets, the world of the dispatch, and the iteration order of the answer's headers.\<close>

record http_env =
  he_rndIP :: int
  he_rndToken :: int
  he_request :: request_env
  he_order :: "string list"

datatype handled =
    Response http_response
  | Upgraded route_entry "params option" "claims option"
  | HandlerPanic

definition contentTypeErrorBody :: bytes where
  "contentTypeErrorBody = string_bytes (json_error ''unsupported media type, only application/json is accepted'')"

definition methodNotAllowedBody :: bytes where
  "methodNotAllowedBody = string_bytes (json_error ''method not allowed'')"

definition rateLimitBody :: "int \<Rightarrow> bytes" where
  "rateLimitBody retryAfter =
     string_bytes (''{'' @ json_string ''error'' @ '':'' @ json_string ''too many requests'' @ '','' @
       json_string ''retry_after'' @ '':'' @ Itoa retryAfter @ ''}'')"

definition allowedMethods :: "string list" where
  "allowedMethods = [''GET'', ''POST'', ''PUT'', ''PATCH'', ''DELETE'', ''HEAD'', ''OPTIONS'']"

text \<open>A check answers \<open>None\<close> to go on and \<open>Some w\<close> when it has written the refusal \<open>w\<close>.\<close>

definition checkMethod :: "http_response \<Rightarrow> http_request \<Rightarrow> http_response option" where
  "checkMethod w r =
     (if hr_Method r \<notin> set allowedMethods
      then Some (answer (Header_Set w ''Content-Type'' ''application/json'') 405 methodNotAllowedBody)
      else None)"

definition checkContentType :: "http_response \<Rightarrow> http_request \<Rightarrow> http_response option" where
  "checkContentType w r =
     (if hr_Method r \<in> {''POST'', ''PUT'', ''PATCH''} \<and> ParseMediaType (header_Get r ''Content-Type'') \<noteq> Some ''application/json''
      then Some (answer (Header_Set w ''Content-Type'' ''application/json'') 415 contentTypeErrorBody)
      else None)"

text \<open>\<open>int(math.Ceil(d.Seconds()))\<close>; the durations here are far below the point where a float64 loses nanoseconds.\<close>

definition ceil_seconds :: "duration \<Rightarrow> int" where
  "ceil_seconds d = (d + (second - 1)) div second"

definition tooManyRequests :: "http_response \<Rightarrow> duration \<Rightarrow> http_response" where
  "tooManyRequests w retryAfter =
     (let secs = ceil_seconds retryAfter
      in answer (Header_Set (Header_Set w ''Retry-After'' (Itoa secs)) ''Content-Type'' ''application/json'') 429
           (rateLimitBody secs))"

definition checkRateLimit ::
  "server_config \<Rightarrow> http_env \<Rightarrow> rate_limiter \<Rightarrow> http_response \<Rightarrow> http_request \<Rightarrow> http_response option \<times> rate_limiter" where
  "checkRateLimit cfg e rl w r =
     (let now = rq_start (he_request e); clientIP = sc_ipResolver cfg (peer_of r)
      in case AllowIP rl clientIP (he_rndIP e) now of
           ((ok, retryAfter), rl1) \<Rightarrow>
             if \<not> ok then (Some (tooManyRequests w retryAfter), rl1)
             else (case AllowToken rl1 (header_Get r ''Authorization'') (he_rndToken e) now of
                     ((ok, retryAfter), rl2) \<Rightarrow>
                       if \<not> ok then (Some (tooManyRequests w retryAfter), rl2) else (None, rl2)))"

text \<open>\<open>http.MaxBytesReader\<close> fails on the first byte past the limit.\<close>

definition readBody :: "server_config \<Rightarrow> http_response \<Rightarrow> http_request \<Rightarrow> http_response + bytes" where
  "readBody cfg w r =
     (if hr_bodyFails r \<or> max 0 (sc_maxBodyBytes cfg) < int (length (hr_Body r))
      then Inl (http_Error w ''payload too large'' 413)
      else Inr (hr_Body r))"

definition buildGatewayRequest :: "server_config \<Rightarrow> http_request \<Rightarrow> bytes \<Rightarrow> gateway_request" where
  "buildGatewayRequest cfg r body =
     \<lparr>gq_Method = hr_Method r, gq_Path = hr_Path r,
      gq_Headers = (\<lambda>k. case hr_Header r k of Some (v # _) \<Rightarrow> Some (sanitizeHeaderValue v) | _ \<Rightarrow> None),
      gq_Query = (\<lambda>k. case hr_Query r k of Some (v # _) \<Rightarrow> Some v | _ \<Rightarrow> None),
      gq_Params = None, gq_Body = body, gq_Claims = None, gq_ClientIP = sc_ipResolver cfg (peer_of r)\<rparr>"

definition set_all :: "http_response \<Rightarrow> (string \<times> string) list \<Rightarrow> http_response" where
  "set_all w kvs = foldl (\<lambda>w (k, v). Header_Set w k v) w kvs"

text \<open>\<open>None\<close> is the panic of a nil response or of an impossible status code.\<close>

definition writeResponse :: "string list \<Rightarrow> http_response \<Rightarrow> gateway_response option \<Rightarrow> http_response option" where
  "writeResponse order w resp =
     (case resp of
        None \<Rightarrow> None
      | Some rsp \<Rightarrow>
          (let w1 = set_all w SecurityHeaders;
               w2 = set_all w1 (map (\<lambda>k. (k, sanitizeHeaderValue (hget (gr_Headers rsp) k))) order);
               w3 = Header_Set w2 ''Content-Type'' ''application/json'';
               w4 = (if gr_CorrelationID rsp \<noteq> [] then Header_Set w3 ''X-Request-Id'' (gr_CorrelationID rsp) else w3)
           in map_option (\<lambda>w5. Write_body w5 (gr_Body rsp)) (WriteHeader w4 (gr_StatusCode rsp))))"

definition validation_json :: "(string \<times> string) list \<Rightarrow> string" where
  "validation_json ds =
     ''{'' @ json_string ''error'' @ '':'' @ json_string ''validation_failed'' @ '','' @ json_string ''details'' @ '':['' @
     Join (map (\<lambda>(f, m). ''{'' @ json_string ''field'' @ '':'' @ json_string f @ '','' @ json_string ''message'' @ '':'' @
       json_string m @ ''}'') ds) '','' @ '']}''"

text \<open>The status and the body of an error answer.\<close>

definition error_answer :: "go_error \<Rightarrow> int \<times> string" where
  "error_answer err =
     (if errors_Is err ErrRouteNotFound then (404, json_error ''route not found'')
      else if errors_Is err ErrUnauthorized then (401, json_error ''unauthorized'')
      else if errors_Is err ErrForbidden then (403, json_error ''forbidden'')
      else if errors_Is err ErrSchemaValidation
      then (400, case errors_As_ValidationError err of Some ds \<Rightarrow> validation_json ds | None \<Rightarrow> json_error ''validation failed'')
      else if errors_Is err ErrGatewayPayloadTooLarge then (413, json_error ''payload too large'')
      else if errors_Is err ErrUpstreamTimeout then (504, json_error ''upstream timeout'')
      else (500, json_error ''internal server error''))"

definition writeError :: "http_response \<Rightarrow> go_error \<Rightarrow> http_response" where
  "writeError w err =
     (let w1 = Header_Set (set_all w SecurityHeaders) ''Content-Type'' ''application/json''
      in answer w1 (fst (error_answer err)) (string_bytes (snd (error_answer err) @ [CHR 0x0A])))"

definition handleDispatchError :: "http_response \<Rightarrow> http_request \<Rightarrow> go_error \<Rightarrow> http_response" where
  "handleDispatchError w r err =
     (let corrID = header_Get r ''X-Request-Id''
      in writeError (if corrID \<noteq> [] then Header_Set w ''X-Request-Id'' corrID else w) err)"

definition handle :: "server_config \<Rightarrow> server \<Rightarrow> http_env \<Rightarrow> http_response \<Rightarrow> http_request \<Rightarrow> handled \<times> server" where
  "handle cfg s e w r =
     (if isWebSocketUpgrade r
      then (case ws_ServeHTTP (dc_routes (sc_dispatch cfg)) (dc_jwt (sc_dispatch cfg)) w r of
              WSRefused w1 \<Rightarrow> (Response w1, s)
            | WSUpgrade route ps cl \<Rightarrow> (Upgraded route ps cl, s))
      else (case checkMethod w r of
              Some w1 \<Rightarrow> (Response w1, s)
            | None \<Rightarrow>
                (case checkRateLimit cfg e (sv_rateLimiter s) w r of
                   (Some w1, rl) \<Rightarrow> (Response w1, s\<lparr>sv_rateLimiter := rl\<rparr>)
                 | (None, rl) \<Rightarrow>
                     (let s1 = s\<lparr>sv_rateLimiter := rl\<rparr>
                      in case checkContentType w r of
                           Some w1 \<Rightarrow> (Response w1, s1)
                         | None \<Rightarrow>
                             (case readBody cfg w r of
                                Inl w1 \<Rightarrow> (Response w1, s1)
                              | Inr body \<Rightarrow>
                                  (case Dispatch (sc_dispatch cfg) (sv_dispatcher s1) (he_request e)
                                          (buildGatewayRequest cfg r body) of
                                     (DispatchPanic, d) \<Rightarrow> (HandlerPanic, s1\<lparr>sv_dispatcher := d\<rparr>)
                                   | (Returned resp (Some err), d) \<Rightarrow>
                                       (Response (handleDispatchError w r err), s1\<lparr>sv_dispatcher := d\<rparr>)
                                   | (Returned resp None, d) \<Rightarrow>
                                       (case writeResponse (he_order e) w resp of
                                          None \<Rightarrow> (HandlerPanic, s1\<lparr>sv_dispatcher := d\<rparr>)
                                        | Some w1 \<Rightarrow> (Response w1, s1\<lparr>sv_dispatcher := d\<rparr>))))))))"

section \<open>Cross-origin requests\<close>

record cors_config =
  co_AllowedOrigins :: "string list"
  co_AllowedMethods :: "string list"
  co_AllowedHeaders :: "string list"
  co_ExposeHeaders :: "string list"
  co_MaxAge :: int
  co_AllowCredentials :: bool

definition DefaultCORSConfig :: cors_config where
  "DefaultCORSConfig =
     \<lparr>co_AllowedOrigins = [], co_AllowedMethods = [''GET'', ''POST'', ''PUT'', ''PATCH'', ''DELETE'', ''OPTIONS''],
      co_AllowedHeaders = [''Content-Type'', ''Authorization'', ''X-Request-Id'', ''X-Correlation-Id''],
      co_ExposeHeaders = [''X-Request-Id'', ''X-Correlation-Id'', ''X-RateLimit-Remaining'', ''X-RateLimit-Reset''],
      co_MaxAge = 86400, co_AllowCredentials = True\<rparr>"

fun isOriginAllowed :: "string \<Rightarrow> string list \<Rightarrow> bool" where
  "isOriginAllowed origin [] = False"
| "isOriginAllowed origin (allowed # as) = (allowed = ''*'' \<or> allowed = origin \<or> isOriginAllowed origin as)"

definition cors_headers :: "cors_config \<Rightarrow> string \<Rightarrow> http_response \<Rightarrow> http_response" where
  "cors_headers cfg origin w =
     (let w1 = Header_Set (Header_Set w ''Access-Control-Allow-Origin'' origin) ''Vary'' ''Origin'';
          w2 = (if co_AllowCredentials cfg then Header_Set w1 ''Access-Control-Allow-Credentials'' ''true'' else w1);
          w3 = (if co_AllowedMethods cfg \<noteq> [] then Header_Set w2 ''Access-Control-Allow-Methods'' (Join (co_AllowedMethods cfg) '', '') else w2);
          w4 = (if co_AllowedHeaders cfg \<noteq> [] then Header_Set w3 ''Access-Control-Allow-Headers'' (Join (co_AllowedHeaders cfg) '', '') else w3);
          w5 = (if co_ExposeHeaders cfg \<noteq> [] then Header_Set w4 ''Access-Control-Expose-Headers'' (Join (co_ExposeHeaders cfg) '', '') else w4)
      in if 0 < co_MaxAge cfg then Header_Set w5 ''Access-Control-Max-Age'' (Itoa (co_MaxAge cfg)) else w5)"

text \<open>\<open>next\<close> is the wrapped handler, a function of the response and the request on some state.\<close>

definition CORSMiddleware ::
  "cors_config \<Rightarrow> ('s \<Rightarrow> http_response \<Rightarrow> http_request \<Rightarrow> handled \<times> 's) \<Rightarrow> 's \<Rightarrow> http_response \<Rightarrow> http_request \<Rightarrow> handled \<times> 's" where
  "CORSMiddleware cfg next s w r =
     (let origin = header_Get r ''Origin''
      in if origin = [] \<or> \<not> isOriginAllowed origin (co_AllowedOrigins cfg) then next s w r
         else (let w1 = cors_headers cfg origin w
               in if hr_Method r = ''OPTIONS''
                  then (case WriteHeader w1 204 of None \<Rightarrow> (HandlerPanic, s) | Some w2 \<Rightarrow> (Response w2, s))
                  else next s w1 r))"

text \<open>The handler the server installs, for paths outside \<open>/ws/\<close> and \<open>/metrics\<close>.\<close>

definition serve :: "server_config \<Rightarrow> http_env \<Rightarrow> server \<Rightarrow> http_request \<Rightarrow> handled \<times> server" where
  "serve cfg e s r = CORSMiddleware DefaultCORSConfig (\<lambda>s w r. handle cfg s e w r) s new_response r"

section \<open>Lemmas\<close>

lemma Header_Set_simps [simp]:
  "rs_Status (Header_Set w k v) = rs_Status w" "rs_Body (Header_Set w k v) = rs_Body w"
  "rs_Header (Header_Set w k v) = (rs_Header w)(CanonicalMIMEHeaderKey k \<mapsto> v)"
  by (simp_all add: Header_Set_def)

lemma set_all_simps [simp]:
  "set_all w [] = w" "set_all w ((k, v) # kvs) = set_all (Header_Set w k v) kvs"
  by (simp_all add: set_all_def)

lemma set_all_status [simp]: "rs_Status (set_all w kvs) = rs_Status w" "rs_Body (set_all w kvs) = rs_Body w"
  by (induction kvs arbitrary: w; auto)+

lemma set_all_absent:
  "k \<notin> CanonicalMIMEHeaderKey ` fst ` set kvs \<Longrightarrow> rs_Header (set_all w kvs) k = rs_Header w k"
  by (induction kvs arbitrary: w) auto

text \<open>Values that cannot end a header line.\<close>

definition clean :: "string \<Rightarrow> bool" where
  "clean v \<longleftrightarrow> list_all printable v \<and> length v \<le> maxHeaderValueLen"

lemma sanitize_clean: "clean (sanitizeHeaderValue v)"
  using length_filter_le [of printable "take maxHeaderValueLen v"] length_filter_le [of printable v]
  by (auto simp: clean_def sanitizeHeaderValue_def list_all_iff intro: le_trans)

lemma sanitize_id: "sanitizeHeaderValue v = v \<longleftrightarrow> clean v"
proof
  assume "clean v"
  then show "sanitizeHeaderValue v = v"
    by (simp add: clean_def sanitizeHeaderValue_def list_all_iff filter_id_conv)
qed (metis sanitize_clean)

lemma sanitize_Nil: "sanitizeHeaderValue [] = []"
  by (simp add: sanitizeHeaderValue_def)

definition clean_headers :: "headers \<Rightarrow> bool" where
  "clean_headers h \<longleftrightarrow> (\<forall>k v. h k = Some v \<longrightarrow> clean v)"

lemma clean_upd: "clean_headers h \<Longrightarrow> clean v \<Longrightarrow> clean_headers (h(k \<mapsto> v))"
  by (simp add: clean_headers_def)

lemma set_all_clean:
  "clean_headers (rs_Header w) \<Longrightarrow> list_all (\<lambda>(k, v). clean v) kvs \<Longrightarrow> clean_headers (rs_Header (set_all w kvs))"
  by (induction kvs arbitrary: w) (auto simp: clean_upd)

lemma security_clean: "list_all (\<lambda>(k, v). clean v) SecurityHeaders"
  by (simp add: SecurityHeaders_def clean_def printable_def maxHeaderValueLen_def)

lemma WriteHeader_header: "WriteHeader w c = Some w' \<Longrightarrow> rs_Header w' = rs_Header w"
  by (auto simp: WriteHeader_def split: if_splits)

lemma Write_body_header [simp]: "rs_Header (Write_body w b) = rs_Header w"
  by (simp add: Write_body_def Let_def)

lemma canonical_literals [simp]:
  "CanonicalMIMEHeaderKey ''Content-Type'' = ''Content-Type''" "CanonicalMIMEHeaderKey ''X-Request-Id'' = ''X-Request-Id''"
  "CanonicalMIMEHeaderKey ''Retry-After'' = ''Retry-After''"
  by (simp_all add: CanonicalMIMEHeaderKey_def is_token_char_def upper_char_def lower_char_def)

lemma error_answer_code: "400 \<le> fst (error_answer err)" "fst (error_answer err) \<le> 599"
  by (simp_all add: error_answer_def)

lemma writeError_simps:
  assumes "rs_Status w = None"
  shows "rs_Status (writeError w err) = Some (fst (error_answer err))"
    and "rs_Header (writeError w err) = (rs_Header (set_all w SecurityHeaders))(''Content-Type'' \<mapsto> ''application/json'')"
  using error_answer_code [of err] assms by (simp_all add: writeError_def Let_def answer_simps)

text \<open>The four gates before the dispatch.\<close>

definition passes_gates :: "server_config \<Rightarrow> server \<Rightarrow> http_env \<Rightarrow> http_request \<Rightarrow> bool" where
  "passes_gates cfg s e r \<longleftrightarrow>
     \<not> isWebSocketUpgrade r \<and> hr_Method r \<in> set allowedMethods \<and>
     fst (fst (AllowIP (sv_rateLimiter s) (sc_ipResolver cfg (peer_of r)) (he_rndIP e) (rq_start (he_request e)))) \<and>
     fst (fst (AllowToken (snd (AllowIP (sv_rateLimiter s) (sc_ipResolver cfg (peer_of r)) (he_rndIP e) (rq_start (he_request e))))
       (header_Get r ''Authorization'') (he_rndToken e) (rq_start (he_request e)))) \<and>
     (hr_Method r \<in> {''POST'', ''PUT'', ''PATCH''} \<longrightarrow> ParseMediaType (header_Get r ''Content-Type'') = Some ''application/json'') \<and>
     \<not> hr_bodyFails r \<and> int (length (hr_Body r)) \<le> max 0 (sc_maxBodyBytes cfg)"

definition dispatched :: "server_config \<Rightarrow> server \<Rightarrow> http_env \<Rightarrow> http_request \<Rightarrow> dispatch_result \<times> dispatcher" where
  "dispatched cfg s e r =
     Dispatch (sc_dispatch cfg) (sv_dispatcher s) (he_request e) (buildGatewayRequest cfg r (hr_Body r))"

lemma rate_limit_pass:
  "fst (checkRateLimit cfg e rl w r) = None \<longleftrightarrow>
     fst (fst (AllowIP rl (sc_ipResolver cfg (peer_of r)) (he_rndIP e) (rq_start (he_request e)))) \<and>
     fst (fst (AllowToken (snd (AllowIP rl (sc_ipResolver cfg (peer_of r)) (he_rndIP e) (rq_start (he_request e))))
       (header_Get r ''Authorization'') (he_rndToken e) (rq_start (he_request e))))"
  by (simp add: checkRateLimit_def Let_def split_beta)

lemma gate_facts:
  "checkMethod w r = None \<longleftrightarrow> hr_Method r \<in> set allowedMethods"
  "checkContentType w r = None \<longleftrightarrow>
     (hr_Method r \<in> {''POST'', ''PUT'', ''PATCH''} \<longrightarrow> ParseMediaType (header_Get r ''Content-Type'') = Some ''application/json'')"
  "(\<exists>b. readBody cfg w r = Inr b) \<longleftrightarrow> \<not> hr_bodyFails r \<and> int (length (hr_Body r)) \<le> max 0 (sc_maxBodyBytes cfg)"
  "readBody cfg w r = Inr b \<Longrightarrow> b = hr_Body r"
  by (auto simp: checkMethod_def checkContentType_def readBody_def max_def split: if_splits)

lemma passes_gates_alt:
  "passes_gates cfg s e r \<longleftrightarrow>
     \<not> isWebSocketUpgrade r \<and> checkMethod w r = None \<and> fst (checkRateLimit cfg e (sv_rateLimiter s) w r) = None \<and>
     checkContentType w r = None \<and> (\<exists>b. readBody cfg w r = Inr b)"
  unfolding passes_gates_def gate_facts rate_limit_pass by blast

lemma handle_refused:
  assumes "\<not> passes_gates cfg s e r"
  shows "sv_dispatcher (snd (handle cfg s e w r)) = sv_dispatcher s"
  using assms unfolding passes_gates_alt [of _ _ _ _ w] handle_def
  by (cases "checkRateLimit cfg e (sv_rateLimiter s) w r"; cases "checkMethod w r"; cases "checkContentType w r";
      cases "readBody cfg w r"; auto simp: Let_def split: ws_decision.split option.split)

lemma handle_dispatched:
  assumes "passes_gates cfg s e r"
  shows "sv_dispatcher (snd (handle cfg s e w r)) = snd (dispatched cfg s e r)"
    and "fst (handle cfg s e w r) =
      (case fst (dispatched cfg s e r) of
         DispatchPanic \<Rightarrow> HandlerPanic
       | Returned resp (Some err) \<Rightarrow> Response (handleDispatchError w r err)
       | Returned resp None \<Rightarrow> (case writeResponse (he_order e) w resp of None \<Rightarrow> HandlerPanic | Some w1 \<Rightarrow> Response w1))"
proof -
  obtain rl b where g: "\<not> isWebSocketUpgrade r" "checkMethod w r = None"
      "checkRateLimit cfg e (sv_rateLimiter s) w r = (None, rl)" "checkContentType w r = None" "readBody cfg w r = Inr b"
    using assms unfolding passes_gates_alt [of _ _ _ _ w] by (metis prod.collapse)
  have b: "b = hr_Body r" using g(5) by (rule gate_facts(4))
  obtain res d where d: "dispatched cfg s e r = (res, d)" by fastforce
  have h: "handle cfg s e w r =
      (case (res, d) of
         (DispatchPanic, d) \<Rightarrow> (HandlerPanic, s\<lparr>sv_rateLimiter := rl, sv_dispatcher := d\<rparr>)
       | (Returned resp (Some err), d) \<Rightarrow> (Response (handleDispatchError w r err), s\<lparr>sv_rateLimiter := rl, sv_dispatcher := d\<rparr>)
       | (Returned resp None, d) \<Rightarrow>
           (case writeResponse (he_order e) w resp of
              None \<Rightarrow> (HandlerPanic, s\<lparr>sv_rateLimiter := rl, sv_dispatcher := d\<rparr>)
            | Some w1 \<Rightarrow> (Response w1, s\<lparr>sv_rateLimiter := rl, sv_dispatcher := d\<rparr>)))"
    using d unfolding handle_def dispatched_def by (simp add: g b Let_def)
  show "sv_dispatcher (snd (handle cfg s e w r)) = snd (dispatched cfg s e r)"
    unfolding h d by (auto split: dispatch_result.split option.split)
  show "fst (handle cfg s e w r) =
      (case fst (dispatched cfg s e r) of
         DispatchPanic \<Rightarrow> HandlerPanic
       | Returned resp (Some err) \<Rightarrow> Response (handleDispatchError w r err)
       | Returned resp None \<Rightarrow> (case writeResponse (he_order e) w resp of None \<Rightarrow> HandlerPanic | Some w1 \<Rightarrow> Response w1))"
    unfolding h d by (auto split: dispatch_result.split option.split)
qed

lemma security_keys:
  "''Retry-After'' \<notin> CanonicalMIMEHeaderKey ` fst ` set SecurityHeaders"
  by (simp add: SecurityHeaders_def CanonicalMIMEHeaderKey_def is_token_char_def upper_char_def lower_char_def)

lemma ceil_seconds_bounds: "d \<le> ceil_seconds d * second" "ceil_seconds d * second < d + second"
proof -
  have "(d + 999999999) div 1000000000 * 1000000000 = d + 999999999 - (d + 999999999) mod 1000000000"
    by (simp add: minus_mod_eq_div_mult)
  moreover have "0 \<le> (d + 999999999) mod 1000000000" "(d + 999999999) mod 1000000000 < 1000000000" by simp_all
  ultimately show "d \<le> ceil_seconds d * second" "ceil_seconds d * second < d + second"
    by (simp_all add: ceil_seconds_def second_def)
qed

section \<open>A concrete server\<close>

definition ex_scfg :: server_config where
  "ex_scfg = \<lparr>sc_dispatch = ex_cfg, sc_maxBodyBytes = 1048576, sc_ipResolver = RemoteAddr_ClientIP\<rparr>"

definition ex_server :: "dispatcher \<Rightarrow> int \<Rightarrow> server" where
  "ex_server d limit = \<lparr>sv_dispatcher = d, sv_rateLimiter = NewRateLimiter limit 10 second\<rparr>"

definition ex_henv :: http_env where
  "ex_henv = \<lparr>he_rndIP = 0, he_rndToken = 0, he_request = ex_q\<lparr>rq_start := 5\<rparr>, he_order = []\<rparr>"

definition ex_get :: http_request where
  "ex_get = \<lparr>hr_Method = ''GET'', hr_Path = ''/a/42'', hr_Header = [''Authorization'' \<mapsto> [''Bearer t'']], hr_Query = Map.empty,
     hr_RemoteAddr = ''10.0.0.1:5000'', hr_Body = [], hr_bodyFails = False\<rparr>"

text \<open>The gateway of the dispatcher's examples with an open breaker.\<close>

definition ex_open :: dispatcher where
  "ex_open = ex_disp\<lparr>ds_circuit := put_breaker (ds_circuit ex_disp) ''GET:/a/:id''
     ((cb_of ex_disp ''GET:/a/:id'')\<lparr>br_state := StateOpen, br_openedAt := 1\<rparr>)\<rparr>"

lemmas ex_limiter = ex_scfg_def ex_server_def ex_henv_def ex_get_def AllowIP_def AllowToken_def RemoteAddr_ClientIP_def SplitHostPort_def
  NewRateLimiter_def NewRateLimiterWithJitter_def getBucket_def new_bucket_def bucket_allow_def put_bucket_def peer_of_def header_Get_def
  second_def Let_def

lemma ex_not_upgrade: "\<not> isWebSocketUpgrade ex_get"
  by (simp add: isWebSocketUpgrade_def header_Get_def ex_get_def EqualFold_def ToLower_def)

lemma ex_gates: "passes_gates ex_scfg (ex_server d 10) ex_henv ex_get"
  using ex_not_upgrade by (simp add: passes_gates_def ex_limiter allowedMethods_def)

section \<open>Properties\<close>

text \<open>
  C31: An answer cannot be split: starting from clean headers, every header value of a written response is free of control characters (no
  carriage return, no line feed) and at most 4096 bytes long, whatever headers the worker sent, provided the correlation
  identifier is clean; and the content type is JSON whatever the worker said.
\<close>
theorem response_headers_clean:
  assumes "writeResponse order w (Some rsp) = Some w'" and "clean_headers (rs_Header w)" and "clean (gr_CorrelationID rsp)"
  shows "clean_headers (rs_Header w') \<and> rs_Header w' ''Content-Type'' = Some ''application/json''"
proof -
  let ?w2 = "set_all (set_all w SecurityHeaders) (map (\<lambda>k. (k, sanitizeHeaderValue (hget (gr_Headers rsp) k))) order)"
  have "clean_headers (rs_Header ?w2)"
    using assms(2) by (intro set_all_clean security_clean) (auto simp: list_all_iff sanitize_clean)
  moreover have "clean ''application/json''" by (simp add: clean_def printable_def maxHeaderValueLen_def)
  ultimately show ?thesis
    using assms(1,3) by (auto simp: writeResponse_def Let_def clean_upd dest!: WriteHeader_header split: if_splits)
qed

theorem response_headers_clean_witness:
  "\<exists>w'. writeResponse [''X-A''] new_response (Some \<lparr>gr_StatusCode = 200, gr_Headers = [''X-A'' \<mapsto> [CHR ''a'', CHR 0x0D, CHR 0x0A, CHR ''b'']],
     gr_Body = [], gr_CorrelationID = ''c''\<rparr>) = Some w' \<and> clean_headers (rs_Header w')"
proof -
  let ?r = "\<lparr>gr_StatusCode = 200, gr_Headers = [''X-A'' \<mapsto> [CHR ''a'', CHR 0x0D, CHR 0x0A, CHR ''b'']], gr_Body = [],
     gr_CorrelationID = ''c''\<rparr>"
  obtain w' where w': "writeResponse [''X-A''] new_response (Some ?r) = Some w'"
    by (simp add: writeResponse_def WriteHeader_def new_response_def Let_def)
  have "clean_headers (rs_Header new_response)" by (simp add: new_response_def clean_headers_def)
  with response_headers_clean [OF w'] w' show ?thesis by (auto simp: clean_def printable_def maxHeaderValueLen_def)
qed

text \<open>
  What the pipeline sees is clean: every header of the request handed to the dispatcher is the sanitised first value of a header of
  the HTTP request, and a value passes unchanged exactly when it has no control character and at most 4096 bytes.
\<close>
theorem forwarded_headers_clean:
  "clean_headers (gq_Headers (buildGatewayRequest cfg r body)) \<and>
   hget (gq_Headers (buildGatewayRequest cfg r body)) k = sanitizeHeaderValue (header_Get r k) \<and>
   (sanitizeHeaderValue v = v) = clean v"
  by (auto simp: buildGatewayRequest_def clean_headers_def sanitize_clean sanitize_id hget_def header_Get_def sanitize_Nil
      split: option.splits list.splits)

text \<open>
  The answer to an error says nothing of its cause: unless the error carries a structured validation result, the body is one of
  seven fixed texts, chosen by the sentinel the error wraps.
\<close>
theorem errors_do_not_leak:
  assumes "errors_As_ValidationError err = None"
  shows "error_answer err \<in>
    {(404, json_error ''route not found''), (401, json_error ''unauthorized''), (403, json_error ''forbidden''),
     (400, json_error ''validation failed''), (413, json_error ''payload too large''), (504, json_error ''upstream timeout''),
     (500, json_error ''internal server error'')}"
  using assms by (simp add: error_answer_def)

theorem errors_do_not_leak_witness:
  "error_answer (ErrorfW ''gateway: send to worker w1: '' (Errorf ''dial /tmp/vyx/w1.sock'')) \<in>
    {(404, json_error ''route not found''), (401, json_error ''unauthorized''), (403, json_error ''forbidden''),
     (400, json_error ''validation failed''), (413, json_error ''payload too large''), (504, json_error ''upstream timeout''),
     (500, json_error ''internal server error'')}"
  by (rule errors_do_not_leak) simp

text \<open>
  A tripped breaker looks like a crash: a request that passes the gates and is denied by the breaker of its route is answered 500
  with no \<open>Retry-After\<close>, although the dispatcher prepared a 503 with \<open>Retry-After: 30\<close>.
\<close>
theorem breaker_refusal_becomes_500:
  assumes "passes_gates cfg s e r"
    and "Lookup (dc_routes (sc_dispatch cfg)) (hr_Method r) (hr_Path r) = Some rt"
    and "\<not> fst (Allow (cb_of (sv_dispatcher s) (hr_Method r @ '':'' @ re_Path (lr_Entry rt))) (rq_start (he_request e)))"
  shows "\<exists>w'. fst (handle cfg s e new_response r) = Response w' \<and> rs_Status w' = Some 500 \<and> rs_Header w' ''Retry-After'' = None"
proof -
  let ?req = "buildGatewayRequest cfg r (hr_Body r)"
  have k: "gq_Method ?req = hr_Method r" "gq_Path ?req = hr_Path r" "route_key ?req rt = hr_Method r @ '':'' @ re_Path (lr_Entry rt)"
    by (simp_all add: buildGatewayRequest_def route_key_def)
  obtain resp msg where d: "fst (dispatched cfg s e r) = Returned (Some resp) (Some (Errorf msg))"
    using Dispatch_breaker_denies [of "sc_dispatch cfg" ?req rt "sv_dispatcher s" "he_request e"] assms(2,3)
    unfolding dispatched_def k by blast
  let ?w = "if header_Get r ''X-Request-Id'' \<noteq> [] then Header_Set new_response ''X-Request-Id'' (header_Get r ''X-Request-Id'') else new_response"
  have w: "rs_Status ?w = None" "rs_Header ?w ''Retry-After'' = None" by (simp_all add: new_response_def)
  have "fst (error_answer (Errorf msg)) = 500" by (simp add: error_answer_def)
  then show ?thesis
    using handle_dispatched(2) [OF assms(1), of new_response] d writeError_simps [OF w(1), of "Errorf msg"]
      set_all_absent [OF security_keys, of ?w] w(2)
    by (simp add: handleDispatchError_def Let_def)
qed

theorem breaker_refusal_becomes_500_witness:
  "\<exists>w'. fst (handle ex_scfg (ex_server ex_open 10) ex_henv new_response ex_get) = Response w' \<and> rs_Status w' = Some 500 \<and>
    rs_Header w' ''Retry-After'' = None"
proof (rule breaker_refusal_becomes_500 [OF ex_gates])
  show "Lookup (dc_routes (sc_dispatch ex_scfg)) (hr_Method ex_get) (hr_Path ex_get) = Some ex_rt"
    using ex_lookup [of Map.empty] by (simp add: ex_scfg_def ex_get_def ex_req_def)
  show "\<not> fst (Allow (cb_of (sv_dispatcher (ex_server ex_open 10)) (hr_Method ex_get @ '':'' @ re_Path (lr_Entry ex_rt)))
      (rq_start (he_request ex_henv)))"
    by (simp add: ex_server_def ex_henv_def ex_get_def ex_open_def ex_gateway ex_breaker)
qed

text \<open>
  A limited client learns when to come back: when the client's bucket is empty, the answer is 429 with a \<open>Retry-After\<close> of whole
  seconds that covers the rest of the window and exceeds it by less than a second, and the dispatcher is not touched.
\<close>
theorem rate_limited_answer:
  assumes "\<not> isWebSocketUpgrade r" and "hr_Method r \<in> set allowedMethods"
    and "AllowIP (sv_rateLimiter s) (sc_ipResolver cfg (peer_of r)) (he_rndIP e) (rq_start (he_request e)) = ((False, d), rl)"
  shows "\<exists>w'. handle cfg s e new_response r = (Response w', s\<lparr>sv_rateLimiter := rl\<rparr>) \<and> rs_Status w' = Some 429 \<and>
    rs_Header w' ''Retry-After'' = Some (Itoa (ceil_seconds d)) \<and>
    d \<le> ceil_seconds d * second \<and> ceil_seconds d * second < d + second"
proof -
  have "checkRateLimit cfg e (sv_rateLimiter s) new_response r = (Some (tooManyRequests new_response d), rl)"
    using assms(3) by (simp add: checkRateLimit_def Let_def)
  then have h: "handle cfg s e new_response r = (Response (tooManyRequests new_response d), s\<lparr>sv_rateLimiter := rl\<rparr>)"
    using assms(1) gate_facts(1) [THEN iffD2, OF assms(2), of new_response] by (simp add: handle_def)
  have "rs_Status (tooManyRequests new_response d) = Some 429"
      "rs_Header (tooManyRequests new_response d) ''Retry-After'' = Some (Itoa (ceil_seconds d))"
    by (simp_all add: tooManyRequests_def Let_def answer_simps new_response_def)
  with h ceil_seconds_bounds [of d] show ?thesis by blast
qed

theorem rate_limited_answer_witness:
  "\<exists>w'. handle ex_scfg (ex_server ex_disp 0) ex_henv new_response ex_get =
      (Response w', (ex_server ex_disp 0)\<lparr>sv_rateLimiter := snd (AllowIP (sv_rateLimiter (ex_server ex_disp 0)) ''10.0.0.1'' 0 5)\<rparr>) \<and>
    rs_Status w' = Some 429"
proof -
  have a: "AllowIP (sv_rateLimiter (ex_server ex_disp 0)) (sc_ipResolver ex_scfg (peer_of ex_get)) (he_rndIP ex_henv) (rq_start (he_request ex_henv)) =
      ((False, 1000000000), snd (AllowIP (sv_rateLimiter (ex_server ex_disp 0)) ''10.0.0.1'' 0 5))"
    by (simp add: ex_limiter)
  have "hr_Method ex_get \<in> set allowedMethods" by (simp add: ex_get_def allowedMethods_def)
  from rate_limited_answer [OF ex_not_upgrade this a] show ?thesis by blast
qed

text \<open>
  C32: Only proper tokens give claims: provided the library returns a token only if the key function accepted it, accepted claims come from a
  valid token with an HMAC signature, with the configured issuer and audience where these are configured, and not before its
  own start.
\<close>
theorem accepted_tokens:
  assumes "\<And>str f token. parse str f = Inr token \<Longrightarrow> \<exists>key. f token = Inr key"
    and "Validate parse v now tokenStr = Inr cl"
  shows "\<exists>token. parse tokenStr (keyfunc v) = Inr token \<and> tk_HMAC token \<and> tk_Valid token \<and>
    (jv_issuer v = [] \<or> rc_Issuer (tk_Claims token) = jv_issuer v) \<and>
    (jv_audience v = [] \<or> jv_audience v \<in> set (rc_Audience (tk_Claims token))) \<and>
    (rc_NotBefore (tk_Claims token) = None \<or> the (rc_NotBefore (tk_Claims token)) \<le> now) \<and>
    cl = \<lparr>cl_UserID = rc_Subject (tk_Claims token), cl_Roles = rc_Roles (tk_Claims token)\<rparr>"
proof -
  have c: "contains xs t \<longleftrightarrow> t \<in> set xs" for xs t by (induction xs) auto
  obtain token where t: "parse tokenStr (keyfunc v) = Inr token"
    using assms(2) by (auto simp: Validate_def split: sum.splits)
  have "tk_HMAC token" using assms(1) [OF t] by (auto simp: keyfunc_def split: if_splits)
  with t assms(2) show ?thesis
    by (auto simp: Validate_def Let_def c split: if_splits option.splits)
qed

definition ex_token :: jwt_token where
  "ex_token = \<lparr>tk_HMAC = True, tk_Alg = ''HS256'', tk_Claims = \<lparr>rc_Subject = ''u'', rc_Roles = [''admin''], rc_Issuer = ''iss'',
     rc_Audience = [], rc_NotBefore = Some 3\<rparr>, tk_Valid = True\<rparr>"

definition ex_parse :: "string \<Rightarrow> (jwt_token \<Rightarrow> go_error + bytes) \<Rightarrow> go_error + jwt_token" where
  "ex_parse str f = (case f ex_token of Inl err \<Rightarrow> Inl err | Inr key \<Rightarrow> Inr ex_token)"

lemma ex_parse_law: "ex_parse str f = Inr token \<Longrightarrow> \<exists>key. f token = Inr key"
  by (auto simp: ex_parse_def split: sum.splits)

theorem accepted_tokens_witness:
  "\<exists>token. ex_parse ''t'' (keyfunc (NewJWTValidatorWithClaims [1] ''iss'' [])) = Inr token \<and> rc_Issuer (tk_Claims token) = ''iss''"
proof -
  have v: "Validate ex_parse (NewJWTValidatorWithClaims [1] ''iss'' []) 5 ''t'' = Inr \<lparr>cl_UserID = ''u'', cl_Roles = [''admin'']\<rparr>"
    by (simp add: Validate_def ex_parse_def ex_token_def keyfunc_def NewJWTValidatorWithClaims_def Let_def)
  have law: "\<And>str f token. ex_parse str f = Inr token \<Longrightarrow> \<exists>key. f token = Inr key" by (rule ex_parse_law)
  show ?thesis
    using accepted_tokens [where parse = ex_parse, OF _ v] law by (auto simp: NewJWTValidatorWithClaims_def)
qed

text \<open>
  The default configuration allows no origin: the CORS layer the server installs never adds a header and never answers a preflight
  request itself; every request goes to the handler as it came.
\<close>
theorem default_cors_inert: "serve cfg e s r = handle cfg s e new_response r"
proof -
  have "\<not> isOriginAllowed o' (co_AllowedOrigins DefaultCORSConfig)" for o'
    by (simp add: DefaultCORSConfig_def)
  then show ?thesis by (simp add: serve_def CORSMiddleware_def Let_def)
qed

end
