(* ===== verification/Transport.thy ===== *)
theory Transport
  imports Framing
begin

text \<open>
  The Unix socket transport of \<open>core/infrastructure/ipc/uds/listener.go\<close>: one connection per worker, a read pump that sorts incoming
  frames into two buffered channels, and the operations the dispatcher, the heartbeat loops and the handshake use. The bytes a worker
  will write before it disconnects are part of the connection's state; a step of the pump reads one frame of them. Socket
  files and accepting connections are I/O; what they do to the tables is modelled.
\<close>

section \<open>Connections\<close>

definition demuxChanSize :: nat where
  "demuxChanSize = 16"

text \<open>\<open>cn_in\<close> is unread input, \<open>cn_out\<close> what was written; the channels are closed exactly when \<open>cn_pumpErr\<close> is set.\<close>

record conn =
  cn_in :: bytes
  cn_out :: bytes
  cn_heartbeatCh :: "message list"
  cn_responseCh :: "message list"
  cn_pumpErr :: "go_error option"

definition new_conn :: "bytes \<Rightarrow> conn" where
  "new_conn input = \<lparr>cn_in = input, cn_out = [], cn_heartbeatCh = [], cn_responseCh = [], cn_pumpErr = None\<rparr>"

interpretation demux: bounded_fifo "\<lambda>ch :: message list. ch" "chan_offer demuxChanSize" chan_poll demuxChanSize
  by unfold_locales (auto simp: chan_offer_def)

definition sendToResponse :: "conn \<Rightarrow> message \<Rightarrow> conn" where
  "sendToResponse c msg = c\<lparr>cn_responseCh := chan_offer demuxChanSize (cn_responseCh c) msg\<rparr>"

definition demultiplex :: "conn \<Rightarrow> message \<Rightarrow> conn" where
  "demultiplex c msg =
     (if m_Type msg \<in> {TypeHeartbeat, TypeHandshake}
      then c\<lparr>cn_heartbeatCh := chan_offer demuxChanSize (cn_heartbeatCh c) msg\<rparr>
      else if m_Type msg \<in> {TypeResponse, TypeError, TypeWSOpen, TypeWSMessage, TypeWSClose} then sendToResponse c msg
      else c)"

text \<open>One round of the pump's loop; after an error the pump has ended.\<close>

definition pump_step :: "conn \<Rightarrow> conn" where
  "pump_step c =
     (if cn_pumpErr c \<noteq> None then c
      else (case Read (cn_in c) of
              Inl err \<Rightarrow> c\<lparr>cn_pumpErr := Some err\<rparr>
            | Inr (msg, rest) \<Rightarrow> demultiplex (c\<lparr>cn_in := rest\<rparr>) msg))"

section \<open>The transport\<close>

record transport =
  tp_listeners :: "string \<rightharpoonup> unit"
  tp_connections :: "string \<rightharpoonup> conn"

definition NewTransport :: transport where
  "NewTransport = \<lparr>tp_listeners = Map.empty, tp_connections = Map.empty\<rparr>"

text \<open>\<open>listen\<close> is the outcome of creating the directory, the socket and its mode.\<close>

definition Register :: "transport \<Rightarrow> string \<Rightarrow> go_error option \<Rightarrow> go_error option \<times> transport" where
  "Register t workerID listen =
     (case listen of
        Some err \<Rightarrow> (Some err, t)
      | None \<Rightarrow> (None, t\<lparr>tp_listeners := (tp_listeners t)(workerID \<mapsto> ())\<rparr>))"

text \<open>The goroutine of \<open>Register\<close>, when a worker connects that will send \<open>input\<close>.\<close>

definition accept_conn :: "transport \<Rightarrow> string \<Rightarrow> bytes \<Rightarrow> transport" where
  "accept_conn t workerID input = t\<lparr>tp_connections := (tp_connections t)(workerID \<mapsto> new_conn input)\<rparr>"

definition Deregister :: "transport \<Rightarrow> string \<Rightarrow> transport" where
  "Deregister t workerID =
     t\<lparr>tp_connections := (tp_connections t)(workerID := None), tp_listeners := (tp_listeners t)(workerID := None)\<rparr>"

definition Close :: "transport \<Rightarrow> transport" where
  "Close t = t\<lparr>tp_connections := Map.empty, tp_listeners := Map.empty\<rparr>"

definition getConn :: "transport \<Rightarrow> string \<Rightarrow> go_error + conn" where
  "getConn t workerID =
     (case tp_connections t workerID of
        None \<Rightarrow> Inl (WErrorf ErrWorkerNotConnected ('': '' @ workerID))
      | Some c \<Rightarrow> Inr c)"

definition put_conn :: "transport \<Rightarrow> string \<Rightarrow> conn \<Rightarrow> transport" where
  "put_conn t workerID c = t\<lparr>tp_connections := (tp_connections t)(workerID \<mapsto> c)\<rparr>"

text \<open>\<open>fails\<close> is the socket's error for this write, if any.\<close>

definition Send :: "transport \<Rightarrow> string \<Rightarrow> message \<Rightarrow> go_error option \<Rightarrow> go_error option \<times> transport" where
  "Send t workerID msg fails =
     (case getConn t workerID of
        Inl err \<Rightarrow> (Some err, t)
      | Inr c \<Rightarrow>
          (case Write (\<lambda>c bs. case fails of Some err \<Rightarrow> (c, Some err) | None \<Rightarrow> (c\<lparr>cn_out := cn_out c @ bs\<rparr>, None)) c msg of
             (c', err) \<Rightarrow> (err, put_conn t workerID c')))"

text \<open>
  A receive waits for the context or for the channel; when both are ready either may win (\<open>ctxFirst\<close>). \<open>None\<close> means that it still
  waits. A closed channel gives out what it holds before it reports its end.
\<close>

definition receiveFrom ::
  "go_error option \<Rightarrow> bool \<Rightarrow> message list \<Rightarrow> conn \<Rightarrow> string \<Rightarrow> ((go_error + message) \<times> message list) option" where
  "receiveFrom ctxErr ctxFirst ch c workerID =
     (case (ctxErr, chan_poll ch) of
        (Some err, None) \<Rightarrow> if ctxFirst \<or> cn_pumpErr c = None then Some (Inl err, ch)
                            else Some (Inl (ErrorfW ''framing: read header: '' (the (cn_pumpErr c))), ch)
      | (Some err, Some (msg, ch')) \<Rightarrow> if ctxFirst then Some (Inl err, ch) else Some (Inr msg, ch')
      | (None, Some (msg, ch')) \<Rightarrow> Some (Inr msg, ch')
      | (None, None) \<Rightarrow>
          (case cn_pumpErr c of
             None \<Rightarrow> None
           | Some pErr \<Rightarrow> Some (Inl (ErrorfW ''framing: read header: '' pErr), ch)))"

definition Receive :: "transport \<Rightarrow> string \<Rightarrow> go_error option \<Rightarrow> bool \<Rightarrow> ((go_error + message) \<times> transport) option" where
  "Receive t workerID ctxErr ctxFirst =
     (case getConn t workerID of
        Inl err \<Rightarrow> Some (Inl err, t)
      | Inr c \<Rightarrow> map_option (\<lambda>(r, ch). (r, put_conn t workerID (c\<lparr>cn_heartbeatCh := ch\<rparr>)))
                   (receiveFrom ctxErr ctxFirst (cn_heartbeatCh c) c workerID))"

definition ReceiveResponse :: "transport \<Rightarrow> string \<Rightarrow> go_error option \<Rightarrow> bool \<Rightarrow> ((go_error + message) \<times> transport) option" where
  "ReceiveResponse t workerID ctxErr ctxFirst =
     (case getConn t workerID of
        Inl err \<Rightarrow> Some (Inl err, t)
      | Inr c \<Rightarrow> map_option (\<lambda>(r, ch). (r, put_conn t workerID (c\<lparr>cn_responseCh := ch\<rparr>)))
                   (receiveFrom ctxErr ctxFirst (cn_responseCh c) c workerID))"

section \<open>Lemmas\<close>

definition for_heartbeat :: "message \<Rightarrow> bool" where
  "for_heartbeat m \<longleftrightarrow> m_Type m \<in> {TypeHeartbeat, TypeHandshake}"

definition for_response :: "message \<Rightarrow> bool" where
  "for_response m \<longleftrightarrow> m_Type m \<in> {TypeResponse, TypeError, TypeWSOpen, TypeWSMessage, TypeWSClose}"

definition pump :: "nat \<Rightarrow> conn \<Rightarrow> conn" where
  "pump n c = (pump_step ^^ n) c"

lemma pump_frame:
  assumes "wire_ok m" and "cn_in c = frame m @ rest" and "cn_pumpErr c = None"
  shows "pump_step c = demultiplex (c\<lparr>cn_in := rest\<rparr>) m"
  using assms by (simp add: pump_step_def Read_frame)

lemma demultiplex_channels:
  "cn_heartbeatCh (demultiplex c m) = (if for_heartbeat m then chan_offer demuxChanSize (cn_heartbeatCh c) m else cn_heartbeatCh c)"
  "cn_responseCh (demultiplex c m) = (if for_response m then chan_offer demuxChanSize (cn_responseCh c) m else cn_responseCh c)"
  "cn_in (demultiplex c m) = cn_in c" "cn_pumpErr (demultiplex c m) = cn_pumpErr c"
  by (auto simp: demultiplex_def sendToResponse_def for_heartbeat_def for_response_def)

lemma pump_frames:
  assumes "\<forall>m \<in> set ms. wire_ok m" and "cn_in c = concat (map frame ms) @ rest" and "cn_pumpErr c = None"
  shows "cn_heartbeatCh (pump (length ms) c) = foldl (chan_offer demuxChanSize) (cn_heartbeatCh c) (filter for_heartbeat ms) \<and>
    cn_responseCh (pump (length ms) c) = foldl (chan_offer demuxChanSize) (cn_responseCh c) (filter for_response ms) \<and>
    cn_in (pump (length ms) c) = rest \<and> cn_pumpErr (pump (length ms) c) = None"
  using assms
proof (induction ms arbitrary: c)
  case (Cons m ms)
  have p: "pump_step c = demultiplex (c\<lparr>cn_in := concat (map frame ms) @ rest\<rparr>) m"
    using Cons.prems by (intro pump_frame) simp_all
  have "cn_in (pump_step c) = concat (map frame ms) @ rest" "cn_pumpErr (pump_step c) = None"
    using Cons.prems(3) by (simp_all add: p demultiplex_channels)
  from Cons.IH [OF _ this] Cons.prems(1) show ?case
    by (simp add: pump_def funpow_Suc_right del: funpow.simps) (simp add: p demultiplex_channels)
qed (simp add: pump_def)

lemma pump_end: "cn_in c = [] \<Longrightarrow> cn_pumpErr c = None \<Longrightarrow> cn_pumpErr (pump_step c) \<noteq> None"
  by (simp add: pump_step_def Read_short)

section \<open>Properties\<close>

text \<open>
  The pump sorts without mixing: after a worker has written any sequence of frames and the pump has read them, with nobody
  receiving meanwhile, each channel holds the messages of its own kinds in the order they were written, cut to its first 16; later ones
  are lost, and so are messages of the other kinds.
\<close>
theorem pump_sorts_frames:
  assumes "\<forall>m \<in> set ms. wire_ok m"
  shows "cn_heartbeatCh (pump (length ms) (new_conn (concat (map frame ms)))) = take 16 (filter for_heartbeat ms) \<and>
    cn_responseCh (pump (length ms) (new_conn (concat (map frame ms)))) = take 16 (filter for_response ms)"
  using pump_frames [OF assms, of "new_conn (concat (map frame ms))" "[]"]
    demux.offers_contents [of "[]" "filter for_heartbeat ms"] demux.offers_contents [of "[]" "filter for_response ms"]
  by (simp add: new_conn_def demuxChanSize_def)

theorem pump_sorts_frames_witness:
  "cn_responseCh (pump (Suc (Suc 0)) (new_conn (concat (map frame
      [\<lparr>m_Type = TypeHeartbeat, m_Payload = []\<rparr>, \<lparr>m_Type = TypeResponse, m_Payload = [7]\<rparr>])))) =
    [\<lparr>m_Type = TypeResponse, m_Payload = [7]\<rparr>]"
proof -
  let ?ms = "[\<lparr>m_Type = TypeHeartbeat, m_Payload = []\<rparr>, \<lparr>m_Type = TypeResponse, m_Payload = [7]\<rparr>]"
  have "\<forall>m \<in> set ?ms. wire_ok m" by (simp add: wire_ok_def validateType_def MaxPayloadSize_def)
  from pump_sorts_frames [OF this] show ?thesis by (simp add: for_response_def)
qed

text \<open>
  Nothing that arrived is lost by a disconnect: when the pump has ended, receivers still get every buffered answer, in order, and
  only then the pump's error.
\<close>
theorem buffered_answers_survive:
  assumes "tp_connections t w = Some c" and "cn_pumpErr c = Some e"
  shows "ReceiveResponse t w None b =
    (case cn_responseCh c of
       [] \<Rightarrow> Some (Inl (ErrorfW ''framing: read header: '' e), t)
     | m # ms \<Rightarrow> Some (Inr m, put_conn t w (c\<lparr>cn_responseCh := ms\<rparr>)))"
proof -
  have "put_conn t w (c\<lparr>cn_responseCh := []\<rparr>) = t" if "cn_responseCh c = []"
    using assms(1) that by (cases t; cases c) (simp add: put_conn_def fun_upd_idem)
  then show ?thesis
    using assms by (simp add: ReceiveResponse_def getConn_def receiveFrom_def split: list.split)
qed

theorem buffered_answers_survive_witness:
  "ReceiveResponse (accept_conn NewTransport ''w'' []\<lparr>tp_connections := [''w'' \<mapsto> pump_step (new_conn [])]\<rparr>) ''w'' None True =
     Some (Inl (ErrorfW ''framing: read header: '' (ErrorfW ''framing: read header: '' EOF)),
       accept_conn NewTransport ''w'' []\<lparr>tp_connections := [''w'' \<mapsto> pump_step (new_conn [])]\<rparr>)"
proof -
  let ?c = "pump_step (new_conn [])"
  have "?c = (new_conn [])\<lparr>cn_pumpErr := Some (ErrorfW ''framing: read header: '' EOF)\<rparr>"
    by (simp add: pump_step_def new_conn_def Read_short)
  then have c: "cn_pumpErr ?c = Some (ErrorfW ''framing: read header: '' EOF)" "cn_responseCh ?c = []"
    by (simp_all add: new_conn_def)
  show ?thesis
    using buffered_answers_survive [OF _ c(1), of "accept_conn NewTransport ''w'' []\<lparr>tp_connections := [''w'' \<mapsto> ?c]\<rparr>" "''w''" True] c(2)
    by simp
qed

end
