(* ===== verification/ConnPool.thy ===== *)
theory ConnPool
  imports Prelude
begin

text \<open>
  The connection pool of \<open>core/infrastructure/ipc/uds/pool.go\<close> under concurrency. Each critical section of the code (the code between a
  \<open>Lock\<close> and the next \<open>Unlock\<close>) is one operation on the pool's fields; dialling happens between sections. A state of the
  system adds what is going on outside the lock: which connections callers hold, and how many goroutines are dialling on behalf
  of \<open>Acquire\<close>, dialling on behalf of \<open>dialAndAdd\<close>, or about to re-enter \<open>Acquire\<close>'s loop. The step relation interleaves
  all of them. Connections are identified by numbers; whether a connection is alive is decided by the environment.
\<close>

section \<open>The pool and its critical sections\<close>

record pool_config =
  pc_SocketPath :: string
  pc_MinSize :: int
  pc_MaxSize :: int
  pc_IdleTimeout :: duration
  pc_DialTimeout :: duration

type_synonym pooled = "nat \<times> go_time"

record conn_pool =
  cp_cfg :: pool_config
  cp_idle :: "pooled list"
  cp_total :: int
  cp_inUse :: int
  cp_closed :: bool

abbreviation ErrPoolClosed :: go_error where "ErrPoolClosed \<equiv> Sentinel ''uds pool: closed''"
abbreviation ErrPoolExhausted :: go_error where "ErrPoolExhausted \<equiv> Sentinel ''uds pool: exhausted''"

definition with_defaults :: "pool_config \<Rightarrow> pool_config" where
  "with_defaults cfg =
     (let mn = (if pc_MinSize cfg \<le> 0 then 2 else pc_MinSize cfg);
          mx = (if pc_MaxSize cfg \<le> 0 then 16 else pc_MaxSize cfg)
      in cfg\<lparr>pc_MinSize := mn, pc_MaxSize := (if mx < mn then mn else mx),
             pc_IdleTimeout := (if pc_IdleTimeout cfg \<le> 0 then 30 * second else pc_IdleTimeout cfg),
             pc_DialTimeout := (if pc_DialTimeout cfg \<le> 0 then 5 * second else pc_DialTimeout cfg)\<rparr>)"

text \<open>The locked part of \<open>dialAndAdd\<close>, after a successful dial of \<open>c\<close>.\<close>

definition add_dialled :: "conn_pool \<Rightarrow> nat \<Rightarrow> go_time \<Rightarrow> go_error option \<times> conn_pool" where
  "add_dialled p c now =
     (if cp_closed p then (Some ErrPoolClosed, p)
      else (None, p\<lparr>cp_idle := cp_idle p @ [(c, now)], cp_total := cp_total p + 1\<rparr>))"

text \<open>\<open>Close\<close>.\<close>

definition pool_Close :: "conn_pool \<Rightarrow> conn_pool" where
  "pool_Close p = (if cp_closed p then p
     else p\<lparr>cp_closed := True, cp_idle := [], cp_total := cp_total p - cp_inUse p\<rparr>)"

text \<open>The warm-up of \<open>NewPool\<close>; \<open>dial i\<close> is the result of the \<open>i\<close>-th dial and the time after it.\<close>

fun prewarm :: "(nat \<Rightarrow> (go_error + nat) \<times> go_time) \<Rightarrow> nat \<Rightarrow> conn_pool \<Rightarrow> go_error + conn_pool" where
  "prewarm dial 0 p = Inr p"
| "prewarm dial (Suc n) p =
     (case dial n of
        (Inl err, _) \<Rightarrow> Inl (ErrorfW ''uds pool: pre-warm: '' err)
      | (Inr c, now) \<Rightarrow> (case add_dialled p c now of
                          (Some err, _) \<Rightarrow> Inl (ErrorfW ''uds pool: pre-warm: '' err)
                        | (None, p') \<Rightarrow> prewarm dial n p'))"

definition uds_NewPool :: "pool_config \<Rightarrow> (nat \<Rightarrow> (go_error + nat) \<times> go_time) \<Rightarrow> go_error + conn_pool" where
  "uds_NewPool cfg dial =
     (if pc_SocketPath cfg = [] then Inl (Sentinel ''uds pool: SocketPath is required'')
      else (let cfg' = with_defaults cfg
            in prewarm dial (nat (pc_MinSize cfg'))
                 \<lparr>cp_cfg = cfg', cp_idle = [], cp_total = 0, cp_inUse = 0, cp_closed = False\<rparr>))"

datatype acquired_as =
    AcqClosed
  | AcqIdle nat
  | AcqDead nat
  | AcqExhausted
  | AcqDial

text \<open>
  One round of \<open>Acquire\<close>'s loop, with what follows it: the newest idle connection if it is alive; a dead one is taken out and closed
  outside the lock before the next round; without idle connections a place is reserved and the caller dials.
\<close>

definition acquire_round :: "(nat \<Rightarrow> bool) \<Rightarrow> conn_pool \<Rightarrow> acquired_as \<times> conn_pool" where
  "acquire_round alive p =
     (if cp_idle p \<noteq> []
      then (let c = fst (last (cp_idle p)); p1 = p\<lparr>cp_idle := butlast (cp_idle p)\<rparr>
            in if \<not> alive c then (AcqDead c, p1\<lparr>cp_total := cp_total p1 - 1\<rparr>)
               else (AcqIdle c, p1\<lparr>cp_inUse := cp_inUse p1 + 1\<rparr>))
      else if pc_MaxSize (cp_cfg p) \<le> cp_total p then (AcqExhausted, p)
      else (AcqDial, p\<lparr>cp_total := cp_total p + 1, cp_inUse := cp_inUse p + 1\<rparr>))"

definition acquire_start :: "(nat \<Rightarrow> bool) \<Rightarrow> conn_pool \<Rightarrow> acquired_as \<times> conn_pool" where
  "acquire_start alive p = (if cp_closed p then (AcqClosed, p) else acquire_round alive p)"

definition dial_failed :: "conn_pool \<Rightarrow> conn_pool" where
  "dial_failed p = p\<lparr>cp_total := cp_total p - 1, cp_inUse := cp_inUse p - 1\<rparr>"

text \<open>\<open>Release\<close> of a pooled connection; \<open>True\<close> when the connection is closed instead of kept.\<close>

definition pool_Release :: "conn_pool \<Rightarrow> nat \<Rightarrow> go_time \<Rightarrow> bool \<times> conn_pool" where
  "pool_Release p c now =
     (if cp_closed p \<or> pc_MaxSize (cp_cfg p) \<le> int (length (cp_idle p))
      then (True, p\<lparr>cp_total := cp_total p - 1, cp_inUse := cp_inUse p - 1\<rparr>)
      else (False, p\<lparr>cp_idle := cp_idle p @ [(c, now)], cp_inUse := cp_inUse p - 1\<rparr>))"

definition expired :: "conn_pool \<Rightarrow> go_time \<Rightarrow> pooled \<Rightarrow> bool" where
  "expired p now c = (pc_IdleTimeout (cp_cfg p) < now - snd c)"

text \<open>\<open>reap\<close>: the number of dialling goroutines it starts, and the pool.\<close>

definition pool_reap :: "conn_pool \<Rightarrow> go_time \<Rightarrow> nat \<times> conn_pool" where
  "pool_reap p now =
     (if cp_closed p then (0, p)
      else (let keep = filter (\<lambda>c. \<not> expired p now c) (cp_idle p);
                total = cp_total p - int (length (filter (expired p now) (cp_idle p)));
                need = pc_MinSize (cp_cfg p) - int (length keep)
            in (if 0 < need \<and> total + need \<le> pc_MaxSize (cp_cfg p) then nat need else 0,
                p\<lparr>cp_idle := keep, cp_total := total\<rparr>)))"

definition pool_Stats :: "conn_pool \<Rightarrow> int \<times> int \<times> int" where
  "pool_Stats p = (int (length (cp_idle p)), cp_inUse p, cp_total p)"

section \<open>The interleaved system\<close>

text \<open>
  \<open>sy_added\<close> counts the connections added by replenishment and \<open>sy_offset\<close> is the difference \<open>Close\<close> leaves between the counters;
  neither exists in the code.
\<close>

record pool_system =
  sy_pool :: conn_pool
  sy_held :: "nat list"
  sy_dialling :: nat
  sy_adding :: nat
  sy_retrying :: nat
  sy_added :: nat
  sy_offset :: int

definition idle_system :: "conn_pool \<Rightarrow> pool_system" where
  "idle_system p = \<lparr>sy_pool = p, sy_held = [], sy_dialling = 0, sy_adding = 0, sy_retrying = 0, sy_added = 0, sy_offset = 0\<rparr>"

text \<open>What a caller of \<open>Acquire\<close> does after a critical section.\<close>

definition after_acquire :: "pool_system \<Rightarrow> acquired_as \<times> conn_pool \<Rightarrow> pool_system" where
  "after_acquire s r =
     (case r of
        (AcqIdle c, p) \<Rightarrow> s\<lparr>sy_pool := p, sy_held := c # sy_held s\<rparr>
      | (AcqDead c, p) \<Rightarrow> s\<lparr>sy_pool := p, sy_retrying := Suc (sy_retrying s)\<rparr>
      | (AcqDial, p) \<Rightarrow> s\<lparr>sy_pool := p, sy_dialling := Suc (sy_dialling s)\<rparr>
      | (_, p) \<Rightarrow> s\<lparr>sy_pool := p\<rparr>)"

inductive pool_step :: "pool_system \<Rightarrow> pool_system \<Rightarrow> bool" where
  acquire: "pool_step s (after_acquire s (acquire_start alive (sy_pool s)))"
| retry: "sy_retrying s = Suc n \<Longrightarrow>
    pool_step s (after_acquire (s\<lparr>sy_retrying := n\<rparr>) (acquire_round alive (sy_pool s)))"
| dialled: "sy_dialling s = Suc n \<Longrightarrow> pool_step s (s\<lparr>sy_dialling := n, sy_held := c # sy_held s\<rparr>)"
| dial_fails: "sy_dialling s = Suc n \<Longrightarrow> pool_step s (s\<lparr>sy_dialling := n, sy_pool := dial_failed (sy_pool s)\<rparr>)"
| release: "c \<in> set (sy_held s) \<Longrightarrow>
    pool_step s (s\<lparr>sy_held := remove1 c (sy_held s), sy_pool := snd (pool_Release (sy_pool s) c now)\<rparr>)"
| reap: "pool_step s (s\<lparr>sy_pool := snd (pool_reap (sy_pool s) now), sy_adding := sy_adding s + fst (pool_reap (sy_pool s) now)\<rparr>)"
| added: "sy_adding s = Suc n \<Longrightarrow> add_dialled (sy_pool s) c now = (err, p) \<Longrightarrow>
    pool_step s (s\<lparr>sy_adding := n, sy_pool := p, sy_added := (if err = None then Suc (sy_added s) else sy_added s)\<rparr>)"
| add_fails: "sy_adding s = Suc n \<Longrightarrow> pool_step s (s\<lparr>sy_adding := n\<rparr>)"
| close: "\<not> cp_closed (sy_pool s) \<Longrightarrow>
    pool_step s (s\<lparr>sy_pool := pool_Close (sy_pool s),
      sy_offset := int (length (cp_idle (sy_pool s))) - cp_inUse (sy_pool s)\<rparr>)"

inductive_cases pool_stepE: "pool_step s s'"

inductive pool_reach :: "pool_system \<Rightarrow> pool_system \<Rightarrow> bool" for s0 where
  start: "pool_reach s0 s0"
| step: "pool_reach s0 s \<Longrightarrow> pool_step s s' \<Longrightarrow> pool_reach s0 s'"

section \<open>The invariant\<close>

definition pool_ok :: "pool_system \<Rightarrow> bool" where
  "pool_ok s \<longleftrightarrow>
     (let p = sy_pool s
      in cp_inUse p = int (length (sy_held s)) + int (sy_dialling s) \<and>
         cp_total p = int (length (cp_idle p)) + cp_inUse p + sy_offset s \<and>
         (\<not> cp_closed p \<longrightarrow> sy_offset s = 0 \<and> cp_total p \<le> pc_MaxSize (cp_cfg p) + int (sy_added s)) \<and>
         (cp_closed p \<longrightarrow> cp_idle p = []))"

lemma acquire_round_ok:
  assumes "pool_ok s"
  shows "pool_ok (after_acquire (s\<lparr>sy_retrying := n\<rparr>) (acquire_round alive (sy_pool s)))"
  using assms
  by (auto simp: pool_ok_def acquire_round_def after_acquire_def Let_def of_nat_diff Suc_le_eq)

lemma acquire_start_ok:
  assumes "pool_ok s"
  shows "pool_ok (after_acquire s (acquire_start alive (sy_pool s)))"
proof (cases "cp_closed (sy_pool s)")
  case True
  with assms show ?thesis by (simp add: acquire_start_def after_acquire_def pool_ok_def)
next
  case False
  with acquire_round_ok [OF assms, of "sy_retrying s" alive] show ?thesis by (simp add: acquire_start_def)
qed

lemma release_ok:
  assumes "pool_ok s" and "c \<in> set (sy_held s)"
  shows "pool_ok (s\<lparr>sy_held := remove1 c (sy_held s), sy_pool := snd (pool_Release (sy_pool s) c now)\<rparr>)"
proof -
  have "0 < length (sy_held s)" using assms(2) by (cases "sy_held s") simp_all
  moreover have "length (remove1 c (sy_held s)) = length (sy_held s) - 1" using assms(2) by (simp add: length_remove1)
  ultimately have "int (length (remove1 c (sy_held s))) = int (length (sy_held s)) - 1" by linarith
  with assms(1) show ?thesis by (auto simp: pool_ok_def pool_Release_def Let_def)
qed

lemma reap_ok:
  assumes "pool_ok s"
  shows "pool_ok (s\<lparr>sy_pool := snd (pool_reap (sy_pool s) now), sy_adding := m\<rparr>)"
proof -
  have "length (filter (\<lambda>c. \<not> expired (sy_pool s) now c) (cp_idle (sy_pool s))) +
      length (filter (expired (sy_pool s) now) (cp_idle (sy_pool s))) = length (cp_idle (sy_pool s))"
    using sum_length_filter_compl [of "expired (sy_pool s) now" "cp_idle (sy_pool s)"] by simp
  with assms show ?thesis by (auto simp: pool_ok_def pool_reap_def Let_def)
qed

lemma pool_step_ok: "pool_step s s' \<Longrightarrow> pool_ok s \<Longrightarrow> pool_ok s'"
proof (induction rule: pool_step.induct)
  case (acquire s alive)
  then show ?case by (rule acquire_start_ok)
next
  case (retry s n alive)
  then show ?case by (intro acquire_round_ok)
next
  case (release c s now)
  then show ?case by (intro release_ok)
next
  case (reap s now)
  then show ?case by (rule reap_ok)
next
  case (added s n c now err p)
  then show ?case by (auto simp: add_dialled_def pool_ok_def Let_def split: if_splits)
qed (auto simp: pool_ok_def dial_failed_def pool_Close_def Let_def)

lemma pool_reach_ok: "pool_reach s0 s \<Longrightarrow> pool_ok s0 \<Longrightarrow> pool_ok s"
  by (induction rule: pool_reach.induct) (auto intro: pool_step_ok)

lemma pool_reach_trans: "pool_reach s1 s2 \<Longrightarrow> pool_reach s0 s1 \<Longrightarrow> pool_reach s0 s2"
  by (induction rule: pool_reach.induct) (auto intro: pool_reach.step)

text \<open>A new pool: open, nothing in use, as many idle connections as the minimum, which the maximum covers.\<close>

definition fresh_pool :: "conn_pool \<Rightarrow> bool" where
  "fresh_pool p \<longleftrightarrow> \<not> cp_closed p \<and> cp_inUse p = 0 \<and> cp_total p = int (length (cp_idle p)) \<and>
     cp_total p = pc_MinSize (cp_cfg p) \<and> 0 < pc_MinSize (cp_cfg p) \<and> pc_MinSize (cp_cfg p) \<le> pc_MaxSize (cp_cfg p)"

lemma prewarm_fields:
  "prewarm dial n p = Inr p' \<Longrightarrow> \<not> cp_closed p \<Longrightarrow>
    \<not> cp_closed p' \<and> cp_cfg p' = cp_cfg p \<and> cp_inUse p' = cp_inUse p \<and> cp_total p' = cp_total p + int n \<and>
    length (cp_idle p') = length (cp_idle p) + n"
  by (induction dial n p rule: prewarm.induct) (auto simp: add_dialled_def split: prod.splits sum.splits option.splits if_splits)

lemma new_pool_fresh: "uds_NewPool cfg dial = Inr p \<Longrightarrow> fresh_pool p"
  by (auto simp: uds_NewPool_def with_defaults_def Let_def fresh_pool_def dest!: prewarm_fields split: if_splits)

lemma fresh_ok: "fresh_pool p \<Longrightarrow> pool_ok (idle_system p)"
  by (simp add: fresh_pool_def pool_ok_def idle_system_def Let_def)

section \<open>After closing\<close>

lemma closed_step:
  "pool_step s s' \<Longrightarrow> cp_closed (sy_pool s) \<Longrightarrow> cp_closed (sy_pool s') \<and> sy_offset s' = sy_offset s"
  by (induction rule: pool_step.induct)
    (auto simp: after_acquire_def acquire_start_def acquire_round_def Let_def pool_Release_def pool_reap_def dial_failed_def
      add_dialled_def split: if_splits)

lemma closed_reach:
  "pool_reach s s' \<Longrightarrow> cp_closed (sy_pool s) \<Longrightarrow> cp_closed (sy_pool s') \<and> sy_offset s' = sy_offset s"
  by (induction rule: pool_reach.induct) (auto dest: closed_step)

section \<open>Growing past the maximum\<close>

text \<open>An open pool in which nothing is idle, with a number of replenishing goroutines on their way.\<close>

definition drained :: "pool_config \<Rightarrow> int \<Rightarrow> nat \<Rightarrow> pool_system \<Rightarrow> bool" where
  "drained cfg n a s \<longleftrightarrow>
     \<not> cp_closed (sy_pool s) \<and> cp_cfg (sy_pool s) = cfg \<and> cp_idle (sy_pool s) = [] \<and> cp_total (sy_pool s) = n \<and> sy_adding s = a"

lemma acquire_drained:
  assumes "drained cfg n a s" and "n < pc_MaxSize cfg"
  shows "\<exists>s'. pool_step s s' \<and> drained cfg (n + 1) a s'"
proof -
  have "drained cfg (n + 1) a (after_acquire s (acquire_start (\<lambda>_. True) (sy_pool s)))"
    using assms by (simp add: drained_def acquire_start_def acquire_round_def after_acquire_def)
  then show ?thesis using pool_step.acquire by blast
qed

lemma acquires_drained:
  assumes "drained cfg n a s" and "n + int k \<le> pc_MaxSize cfg"
  shows "\<exists>s'. pool_reach s s' \<and> drained cfg (n + int k) a s'"
  using assms
proof (induction k)
  case (Suc k)
  then obtain s1 where "pool_reach s s1" "drained cfg (n + int k) a s1" by auto
  moreover obtain s2 where "pool_step s1 s2" "drained cfg (n + int (Suc k)) a s2"
    using acquire_drained [of cfg "n + int k" a s1] calculation(2) Suc.prems(2) by (auto simp: add_ac)
  ultimately show ?case using pool_reach.step by blast
qed (auto intro: pool_reach.start)

lemma adds_total:
  assumes "\<not> cp_closed (sy_pool s)" and "sy_adding s = a"
  shows "\<exists>s'. pool_reach s s' \<and> \<not> cp_closed (sy_pool s') \<and> cp_total (sy_pool s') = cp_total (sy_pool s) + int a"
  using assms
proof (induction a arbitrary: s)
  case (Suc a)
  let ?p = "(sy_pool s)\<lparr>cp_idle := cp_idle (sy_pool s) @ [(0, 0)], cp_total := cp_total (sy_pool s) + 1\<rparr>"
  let ?s = "s\<lparr>sy_adding := a, sy_pool := ?p, sy_added := (if (None :: go_error option) = None then Suc (sy_added s) else sy_added s)\<rparr>"
  have "pool_step s ?s"
    using Suc.prems by (intro pool_step.added [where c = 0 and now = 0]) (simp_all add: add_dialled_def)
  then have "pool_reach s ?s" by (rule pool_reach.step [OF pool_reach.start])
  moreover obtain s' where "pool_reach ?s s'" "\<not> cp_closed (sy_pool s')" "cp_total (sy_pool s') = cp_total (sy_pool ?s) + int a"
    using Suc.IH [of ?s] Suc.prems(1) by auto
  ultimately show ?case using pool_reach_trans by fastforce
qed (auto intro: pool_reach.start)

lemma reap_drains:
  assumes "fresh_pool p"
  shows "\<exists>s. pool_reach (idle_system p) s \<and> drained (cp_cfg p) 0 (nat (pc_MinSize (cp_cfg p))) s"
proof -
  let ?now = "Max (insert 0 (snd ` set (cp_idle p))) + pc_IdleTimeout (cp_cfg p) + 1"
  have m: "snd c \<le> Max (insert 0 (snd ` set (cp_idle p)))" if "c \<in> set (cp_idle p)" for c
    using that by (intro Max_ge) auto
  have "expired p ?now c" if "c \<in> set (cp_idle p)" for c using m [OF that] by (simp add: expired_def)
  then have f: "filter (expired p ?now) (cp_idle p) = cp_idle p" "filter (\<lambda>c. \<not> expired p ?now c) (cp_idle p) = []"
    by (auto simp: filter_id_conv filter_empty_conv)
  let ?s = "(idle_system p)\<lparr>sy_pool := snd (pool_reap p ?now), sy_adding := sy_adding (idle_system p) + fst (pool_reap p ?now)\<rparr>"
  have "pool_step (idle_system p) ?s"
    using pool_step.reap [of "idle_system p" ?now] by (simp add: idle_system_def)
  then have "pool_reach (idle_system p) ?s" by (rule pool_reach.step [OF pool_reach.start])
  moreover have "drained (cp_cfg p) 0 (nat (pc_MinSize (cp_cfg p))) ?s"
    using assms f by (simp add: drained_def pool_reap_def idle_system_def fresh_pool_def Let_def)
  ultimately show ?thesis by blast
qed

section \<open>A concrete pool\<close>

definition ex_pool_config :: pool_config where
  "ex_pool_config = \<lparr>pc_SocketPath = ''/tmp/vyx/w.sock'', pc_MinSize = 0, pc_MaxSize = 4, pc_IdleTimeout = 0, pc_DialTimeout = 0\<rparr>"

definition ex_conn_pool :: conn_pool where
  "ex_conn_pool = \<lparr>cp_cfg = with_defaults ex_pool_config, cp_idle = [(1, 7), (0, 7)], cp_total = 2, cp_inUse = 0, cp_closed = False\<rparr>"

lemma ex_new_pool: "uds_NewPool ex_pool_config (\<lambda>i. (Inr i, 7)) = Inr ex_conn_pool"
  by (simp add: uds_NewPool_def ex_pool_config_def with_defaults_def ex_conn_pool_def Let_def numeral_2_eq_2 add_dialled_def)

section \<open>Properties\<close>

text \<open>
  C8: The counters are right under every interleaving while the pool is open: the connections in use are those callers hold and those being
  dialled for them, the total is the idle ones and those in use, and the total stays within the maximum as long as no replenishing
  goroutine has added a connection; each one that has can exceed it by one.
\<close>
theorem pool_counters_exact:
  assumes "uds_NewPool cfg dial = Inr p" and "pool_reach (idle_system p) s" and "\<not> cp_closed (sy_pool s)"
  shows "cp_inUse (sy_pool s) = int (length (sy_held s)) + int (sy_dialling s) \<and>
    cp_total (sy_pool s) = int (length (cp_idle (sy_pool s))) + cp_inUse (sy_pool s) \<and>
    cp_total (sy_pool s) \<le> pc_MaxSize (cp_cfg (sy_pool s)) + int (sy_added s)"
  using pool_reach_ok [OF assms(2) fresh_ok [OF new_pool_fresh [OF assms(1)]]] assms(3)
  by (simp add: pool_ok_def Let_def)

theorem pool_counters_exact_witness:
  "cp_total ex_conn_pool = int (length (cp_idle ex_conn_pool)) + cp_inUse ex_conn_pool"
  using pool_counters_exact [OF ex_new_pool pool_reach.start] by (simp add: idle_system_def ex_conn_pool_def)

text \<open>
  The maximum is not a maximum: from every new pool an interleaving leads to an open pool with the minimum more connections than
  its maximum. Idle connections expire, the reaper starts the minimum number of dials, callers take the places meanwhile, and the
  dials are added without looking at the maximum again.
\<close>
theorem pool_exceeds_maximum:
  assumes "uds_NewPool cfg dial = Inr p"
  shows "\<exists>s. pool_reach (idle_system p) s \<and> \<not> cp_closed (sy_pool s) \<and>
    cp_total (sy_pool s) = pc_MaxSize (cp_cfg p) + pc_MinSize (cp_cfg p)"
proof -
  let ?mx = "pc_MaxSize (cp_cfg p)" and ?mn = "pc_MinSize (cp_cfg p)"
  note fresh = new_pool_fresh [OF assms]
  then have b: "0 < ?mn" "?mn \<le> ?mx" by (simp_all add: fresh_pool_def)
  obtain s1 where s1: "pool_reach (idle_system p) s1" "drained (cp_cfg p) 0 (nat ?mn) s1" using reap_drains [OF fresh] by blast
  obtain s2 where s2: "pool_reach s1 s2" "drained (cp_cfg p) (0 + int (nat ?mx)) (nat ?mn) s2"
    using acquires_drained [OF s1(2), of "nat ?mx"] b by auto
  obtain s3 where s3: "pool_reach s2 s3" "\<not> cp_closed (sy_pool s3)" "cp_total (sy_pool s3) = cp_total (sy_pool s2) + int (nat ?mn)"
    using adds_total [of s2 "nat ?mn"] s2(2) by (auto simp: drained_def)
  have "pool_reach (idle_system p) s3" using pool_reach_trans [OF s3(1) pool_reach_trans [OF s2(1) s1(1)]] .
  moreover have "cp_total (sy_pool s3) = ?mx + ?mn" using s2(2) s3(3) b by (simp add: drained_def)
  ultimately show ?thesis using s3(2) by blast
qed

theorem pool_exceeds_maximum_witness:
  "\<exists>s. pool_reach (idle_system ex_conn_pool) s \<and> \<not> cp_closed (sy_pool s) \<and> cp_total (sy_pool s) = 6 \<and> pc_MaxSize (cp_cfg ex_conn_pool) = 4"
  using pool_exceeds_maximum [OF ex_new_pool] by (simp add: ex_conn_pool_def ex_pool_config_def with_defaults_def Let_def)

text \<open>
  Closing leaves the total wrong: once a pool is closed and every caller has given its connection back, the reported total is the
  number of idle connections at the time of closing minus the number that were in use, not zero, and negative when more were
  in use.
\<close>
theorem closed_pool_total:
  assumes "uds_NewPool cfg dial = Inr p" and "pool_reach (idle_system p) s" and "\<not> cp_closed (sy_pool s)"
    and "s1 = s\<lparr>sy_pool := pool_Close (sy_pool s), sy_offset := int (length (cp_idle (sy_pool s))) - cp_inUse (sy_pool s)\<rparr>"
    and "pool_reach s1 s2" and "sy_held s2 = []" and "sy_dialling s2 = 0"
  shows "pool_Stats (sy_pool s2) = (0, 0, int (length (cp_idle (sy_pool s))) - cp_inUse (sy_pool s))"
proof -
  have s1: "pool_step s s1" unfolding assms(4) using assms(3) by (rule pool_step.close)
  have "pool_ok s1"
    using pool_step_ok [OF s1] pool_reach_ok [OF assms(2) fresh_ok [OF new_pool_fresh [OF assms(1)]]] by blast
  then have ok: "pool_ok s2" using pool_reach_ok [OF assms(5)] by blast
  have "cp_closed (sy_pool s1)" by (simp add: assms(4) pool_Close_def)
  with closed_reach [OF assms(5)] have "cp_closed (sy_pool s2)" "sy_offset s2 = sy_offset s1" by simp_all
  with ok assms(4,6,7) show ?thesis by (simp add: pool_ok_def pool_Stats_def Let_def)
qed

theorem closed_pool_total_witness: "pool_Stats (pool_Close ex_conn_pool) = (0, 0, 2)"
proof -
  let ?s = "idle_system ex_conn_pool"
  have "\<not> cp_closed (sy_pool ?s)" by (simp add: idle_system_def ex_conn_pool_def)
  from closed_pool_total [OF ex_new_pool pool_reach.start this refl pool_reach.start] show ?thesis
    by (simp add: idle_system_def ex_conn_pool_def)
qed

end
