(* ===== verification/Logs.thy ===== *)
theory Logs
  imports Prelude
begin

text \<open>
  Log collection: the ring buffer and subscriptions of \<open>core/infrastructure/log/multiplexer.go\<close>, the entries and sources of
  \<open>core/domain/log\<close>, and the redaction of \<open>core/infrastructure/log/redact.go\<close>. Decoding a JSON line is a parameter. Text is
  lower-cased byte by byte: the redaction is modelled for ASCII input.
\<close>

section \<open>Entries\<close>

record entry =
  en_Timestamp :: go_time
  en_Source :: string
  en_Level :: string
  en_Message :: string
  en_CorrelationID :: string
  en_Fields :: "(string \<times> string) list"
  en_Raw :: string

definition ParseEntry :: "(string \<Rightarrow> entry option) \<Rightarrow> go_time \<Rightarrow> string \<Rightarrow> string \<Rightarrow> entry" where
  "ParseEntry unmarshal now workerID line =
     (case unmarshal line of
        Some e \<Rightarrow> if en_Timestamp e \<noteq> zero_time then e
                  else \<lparr>en_Timestamp = now, en_Source = workerID, en_Level = ''INFO'', en_Message = [], en_CorrelationID = [],
                        en_Fields = [], en_Raw = line\<rparr>
      | None \<Rightarrow> \<lparr>en_Timestamp = now, en_Source = workerID, en_Level = ''INFO'', en_Message = [], en_CorrelationID = [],
                 en_Fields = [], en_Raw = line\<rparr>)"

datatype log_source = SourceCore | SourceGo | SourceNode | SourcePython

definition ParseSource :: "string \<Rightarrow> log_source" where
  "ParseSource workerID =
     (if workerID = [] then SourceCore
      else if 5 \<le> length workerID \<and> take 5 workerID = ''node:'' then SourceNode
      else if 3 \<le> length workerID \<and> take 3 workerID = ''go:'' then SourceGo
      else if 7 \<le> length workerID \<and> take 7 workerID = ''python:'' then SourcePython
      else SourceGo)"

definition Tag :: "log_source \<Rightarrow> string \<Rightarrow> string" where
  "Tag s workerID = (if s = SourceCore then ''CORE'' else workerID)"

section \<open>The multiplexer\<close>

text \<open>A subscription is an identifier of its channel with the channel's buffer.\<close>

record multiplexer =
  mx_entries :: "entry list"
  mx_size :: nat
  mx_head :: nat
  mx_count :: nat
  mx_subs :: "(nat \<times> entry list) list"

definition subscriptionSize :: nat where
  "subscriptionSize = 256"

interpretation sub: bounded_fifo "\<lambda>ch :: entry list. ch" "chan_offer subscriptionSize" chan_poll subscriptionSize
  by unfold_locales (auto simp: chan_offer_def)

definition zero_entry :: entry where
  "zero_entry = \<lparr>en_Timestamp = 0, en_Source = [], en_Level = [], en_Message = [], en_CorrelationID = [], en_Fields = [], en_Raw = []\<rparr>"

definition NewMultiplexer :: "int list \<Rightarrow> multiplexer" where
  "NewMultiplexer capacity =
     (let cap = (case capacity of c # _ \<Rightarrow> if 0 < c then nat c else 5000 | [] \<Rightarrow> 5000)
      in \<lparr>mx_entries = replicate cap zero_entry, mx_size = cap, mx_head = 0, mx_count = 0, mx_subs = []\<rparr>)"

definition notify :: "multiplexer \<Rightarrow> entry \<Rightarrow> multiplexer" where
  "notify m e = m\<lparr>mx_subs := map (\<lambda>(i, ch). (i, chan_offer subscriptionSize ch e)) (mx_subs m)\<rparr>"

definition Push :: "multiplexer \<Rightarrow> entry \<Rightarrow> multiplexer" where
  "Push m e =
     notify (m\<lparr>mx_entries := (mx_entries m)[mx_head m := e], mx_head := (mx_head m + 1) mod mx_size m,
               mx_count := (if mx_count m < mx_size m then mx_count m + 1 else mx_count m)\<rparr>) e"

definition Entries :: "multiplexer \<Rightarrow> entry list" where
  "Entries m =
     (let start = (mx_head m + mx_size m - mx_count m) mod mx_size m
      in map (\<lambda>i. mx_entries m ! ((start + i) mod mx_size m)) [0..<mx_count m])"

definition processScannerLine :: "(string \<Rightarrow> string \<Rightarrow> entry) \<Rightarrow> multiplexer \<Rightarrow> string \<Rightarrow> string \<Rightarrow> multiplexer" where
  "processScannerLine parseFn m workerID line =
     (if line = [] then m
      else (let e = parseFn workerID line; e' = (if en_Source e = [] then e\<lparr>en_Source := workerID\<rparr> else e) in Push m e'))"

definition Subscribe :: "multiplexer \<Rightarrow> nat \<Rightarrow> multiplexer" where
  "Subscribe m ch = m\<lparr>mx_subs := mx_subs m @ [(ch, [])]\<rparr>"

fun remove_sub :: "nat \<Rightarrow> (nat \<times> entry list) list \<Rightarrow> (nat \<times> entry list) list" where
  "remove_sub ch [] = []"
| "remove_sub ch (s # ss) = (if fst s = ch then ss else s # remove_sub ch ss)"

definition Unsubscribe :: "multiplexer \<Rightarrow> nat \<Rightarrow> multiplexer" where
  "Unsubscribe m ch = m\<lparr>mx_subs := remove_sub ch (mx_subs m)\<rparr>"

definition FilterBySource :: "entry list \<Rightarrow> string \<Rightarrow> entry list" where
  "FilterBySource es tag = (if tag = [] \<or> tag = ''ALL'' then es else filter (\<lambda>e. en_Source e = tag) es)"

definition levelOrder :: "string \<Rightarrow> nat option" where
  "levelOrder l = map_of [(''DEBUG'', 0), (''INFO'', 1), (''WARN'', 2), (''ERROR'', 3)] l"

definition levelGreaterOrEqual :: "string \<Rightarrow> string \<Rightarrow> bool" where
  "levelGreaterOrEqual level minLevel =
     (case levelOrder (ToUpper level) of
        None \<Rightarrow> True
      | Some l \<Rightarrow> (case levelOrder (ToUpper minLevel) of None \<Rightarrow> True | Some m \<Rightarrow> m \<le> l))"

definition FilterByLevel :: "entry list \<Rightarrow> string \<Rightarrow> entry list" where
  "FilterByLevel es minLevel =
     (if minLevel = [] \<or> minLevel = ''ALL'' then es else filter (\<lambda>e. levelGreaterOrEqual (en_Level e) minLevel) es)"

definition containsField :: "entry \<Rightarrow> string \<Rightarrow> bool" where
  "containsField e sub =
     (Contains (en_Message e) sub \<or> Contains (en_Raw e) sub \<or> (\<exists>(k, v) \<in> set (en_Fields e). Contains v sub))"

definition FilterByCorrelationID :: "entry list \<Rightarrow> string \<Rightarrow> entry list" where
  "FilterByCorrelationID es corrID =
     (if corrID = [] then es else filter (\<lambda>e. en_CorrelationID e = corrID \<or> containsField e corrID) es)"

section \<open>Redaction\<close>

definition DefaultSensitiveFields :: "string list" where
  "DefaultSensitiveFields =
     [''password'', ''passwd'', ''secret'', ''token'', ''api_key'', ''apikey'', ''access_token'', ''refresh_token'', ''credit_card'',
      ''cc_number'', ''card_number'', ''ssn'', ''cpf'', ''authorization'', ''jwt'', ''private_key'']"

text \<open>\<open>strings.IndexAny\<close>.\<close>

fun IndexAny :: "string \<Rightarrow> string \<Rightarrow> nat option" where
  "IndexAny [] chars = None"
| "IndexAny (c # s) chars = (if c \<in> set chars then Some 0 else map_option Suc (IndexAny s chars))"

definition overwrite :: "string \<Rightarrow> nat \<Rightarrow> nat \<Rightarrow> string" where
  "overwrite s from n = take from s @ replicate n (CHR ''*'') @ drop (from + n) s"

text \<open>
  What one round of the loop does after the field name was found at \<open>pos\<close>: the new text and the new search position, or \<open>None\<close>
  for a \<open>break\<close>.
\<close>

definition redact_at :: "string \<Rightarrow> string \<Rightarrow> nat \<Rightarrow> (string \<times> nat) option" where
  "redact_at field result pos =
     (let v0 = pos + length field
      in if length result \<le> v0 then None
         else (let valueStart = (if result ! v0 = CHR 0x22 then v0 + 1 else v0)
               in if length result \<le> valueStart then None
                  else if result ! valueStart \<in> {CHR ''='', CHR '':''}
                  then (let rest0 = drop (valueStart + 1) result;
                            quoted = (rest0 \<noteq> [] \<and> hd rest0 = CHR 0x22);
                            valueRest = (if quoted then tl rest0 else rest0)
                        in case (if quoted then first_index (CHR 0x22) valueRest else None) of
                             Some end' \<Rightarrow> Some (overwrite result (valueStart + 2) end', valueStart + 2 + end')
                           | None \<Rightarrow>
                               (let end' = (case IndexAny valueRest ('' ,}'' @ [CHR 0x0A, CHR 0x09] @ ''&'') of
                                              Some i \<Rightarrow> i | None \<Rightarrow> length valueRest)
                                in Some (overwrite result (valueStart + 1) end', pos + length field)))
                  else Some (result, pos + length field)))"

lemma overwrite_length: "from + n \<le> length s \<Longrightarrow> length (overwrite s from n) = length s"
  by (simp add: overwrite_def)

lemma IndexAny_bound: "IndexAny s cs = Some i \<Longrightarrow> i < length s"
  by (induction s arbitrary: i) (auto split: if_splits)

lemma redact_at_bounds:
  assumes "redact_at field result pos = Some (result', idx')"
  shows "length result' = length result \<and> pos + length field \<le> idx' \<and> idx' \<le> length result \<and>
    (\<exists>from n. from + n \<le> length result \<and> result' = overwrite result from n)"
proof -
  define v0 where "v0 = pos + length field"
  define vs where "vs = (if result ! v0 = CHR 0x22 then v0 + 1 else v0)"
  define rest0 where "rest0 = drop (vs + 1) result"
  define qd where "qd = (rest0 \<noteq> [] \<and> hd rest0 = CHR 0x22)"
  define vr where "vr = (if qd then tl rest0 else rest0)"
  define en where "en = (case IndexAny vr ('' ,}'' @ [CHR 0x0A, CHR 0x09] @ ''&'') of Some i \<Rightarrow> i | None \<Rightarrow> length vr)"
  have vs: "v0 \<le> vs" "v0 < length result" "vs < length result"
    using assms by (auto simp: redact_at_def v0_def vs_def Let_def split: if_splits)
  have len: "length rest0 = length result - (vs + 1)" by (simp add: rest0_def)
  have en: "en \<le> length vr" using IndexAny_bound [of vr] by (auto simp: en_def dest!: less_imp_le split: option.splits)
  have vr: "length vr \<le> length rest0" by (simp add: vr_def)
  consider (quoted) e where "qd" "first_index (CHR 0x22) vr = Some e" "result' = overwrite result (vs + 2) e" "idx' = vs + 2 + e"
    | (plain) "result' = overwrite result (vs + 1) en" "idx' = v0"
    | (none) "result' = result" "idx' = v0"
    using assms
    unfolding redact_at_def Let_def v0_def [symmetric] vs_def [symmetric] rest0_def [symmetric] qd_def [symmetric] vr_def [symmetric]
      en_def [symmetric]
    by (auto split: if_splits option.splits)
  then show ?thesis
  proof cases
    case quoted
    then have "e < length vr" by (intro first_index_bound)
    moreover have "length vr = length rest0 - 1" using quoted(1) by (simp add: vr_def)
    ultimately have "vs + 2 + e \<le> length result" using len vs by linarith
    moreover from this have "\<exists>from n. from + n \<le> length result \<and> result' = overwrite result from n" using quoted(3) by blast
    ultimately show ?thesis using quoted vs by (simp add: overwrite_length v0_def)
  next
    case plain
    have "vs + 1 + en \<le> length result" using en vr len vs by linarith
    moreover from this have "\<exists>from n. from + n \<le> length result \<and> result' = overwrite result from n" using plain(1) by blast
    ultimately show ?thesis using plain vs by (simp add: overwrite_length v0_def)
  next
    case none
    have "result = overwrite result 0 0" by (simp add: overwrite_def)
    with none vs show ?thesis by (metis add.right_neutral le_refl less_imp_le_nat v0_def zero_le)
  qed
qed

lemma Index_drop_bound: "Index (ToLower (drop idx s)) f = Some p \<Longrightarrow> idx \<le> length s \<Longrightarrow> idx + p + length f \<le> length s"
  using Index_bound [of "ToLower (drop idx s)" f p] by (simp add: ToLower_def)

text \<open>
  The inner loop for one field, from the search position \<open>idx\<close>. The fields are constants and none is empty; the guard only makes the
  function total.
\<close>

function redact_field :: "string \<Rightarrow> string \<Rightarrow> nat \<Rightarrow> string" where
  "redact_field field result idx =
     (if field = [] \<or> length result < idx then result
      else (case Index (ToLower (drop idx result)) field of
              None \<Rightarrow> result
            | Some p \<Rightarrow>
                (case redact_at field result (idx + p) of
                   None \<Rightarrow> result
                 | Some (result', idx') \<Rightarrow> redact_field field result' idx')))"
  by pat_completeness auto

termination
proof (relation "measure (\<lambda>(f, s, i). Suc (length s) - i)")
  fix field result :: string and idx p x result' idx'
  assume "\<not> (field = [] \<or> length result < idx)" and "redact_at field result (idx + p) = Some x" and "(result', idx') = x"
  then have "length result' = length result" "idx + p + length field \<le> idx'" "idx \<le> length result" "0 < length field"
    using redact_at_bounds [of field result "idx + p" result' idx'] by auto
  then have "idx < idx'" "length result' = length result" "idx \<le> length result" by linarith+
  then show "((field, result', idx'), (field, result, idx)) \<in> measure (\<lambda>(f, s, i). Suc (length s) - i)" by simp
qed simp

declare redact_field.simps [simp del]

definition Redact :: "string \<Rightarrow> string" where
  "Redact input = foldl (\<lambda>result field. redact_field field result 0) input DefaultSensitiveFields"

definition IsSensitiveField :: "string \<Rightarrow> bool" where
  "IsSensitiveField name = (\<exists>f \<in> set DefaultSensitiveFields. ToLower name = f \<or> Contains (ToLower name) f)"

text \<open>Arguments of a log call that are strings are redacted, others pass.\<close>

definition RedactFields :: "(string + 'a) list \<Rightarrow> (string + 'a) list" where
  "RedactFields args = map (\<lambda>f. case f of Inl s \<Rightarrow> Inl (Redact s) | Inr x \<Rightarrow> Inr x) args"

section \<open>Lemmas\<close>

definition mux_inv :: "multiplexer \<Rightarrow> bool" where
  "mux_inv m \<longleftrightarrow> 0 < mx_size m \<and> length (mx_entries m) = mx_size m \<and> mx_head m < mx_size m \<and> mx_count m \<le> mx_size m \<and>
     (mx_count m < mx_size m \<longrightarrow> mx_head m = mx_count m)"

lemma NewMultiplexer_inv: "mux_inv (NewMultiplexer capacity)"
  by (auto simp: NewMultiplexer_def mux_inv_def Let_def split: list.split)

lemma Push_inv: "mux_inv m \<Longrightarrow> mux_inv (Push m e) \<and> mx_size (Push m e) = mx_size m"
  by (cases "Suc (mx_count m) = mx_size m") (auto simp: mux_inv_def Push_def notify_def)

lemma Entries_filling:
  assumes "mux_inv m" and "mx_count m < mx_size m"
  shows "Entries (Push m e) = Entries m @ [e]"
proof -
  let ?c = "mx_count m" and ?n = "mx_size m"
  have h: "mx_head m = ?c" "length (mx_entries m) = ?n" using assms by (simp_all add: mux_inv_def)
  have s: "((?c + 1) mod ?n + ?n - (?c + 1)) mod ?n = 0"
    using assms(2) by (cases "Suc ?c = ?n") simp_all
  show ?thesis
    using assms(2) h s by (auto simp: Entries_def Push_def notify_def Let_def)
qed

lemma Entries_full:
  assumes "mux_inv m" and "mx_count m = mx_size m"
  shows "Entries (Push m e) = tl (Entries m) @ [e]"
proof -
  let ?h = "mx_head m" and ?n = "mx_size m"
  have h: "?h < ?n" "length (mx_entries m) = ?n" "0 < ?n" using assms by (simp_all add: mux_inv_def)
  have old: "Entries m = map (\<lambda>i. mx_entries m ! ((?h + i) mod ?n)) [0..<?n]"
    using assms(2) h by (simp add: Entries_def Let_def)
  have new: "Entries (Push m e) = map (\<lambda>i. (mx_entries m)[?h := e] ! ((?h + 1 + i) mod ?n)) [0..<?n]"
    using assms(2) h by (simp add: Entries_def Push_def notify_def Let_def mod_add_left_eq mod_Suc_eq flip: add_Suc)
  show ?thesis
  proof (rule nth_equalityI)
    show "length (Entries (Push m e)) = length (tl (Entries m) @ [e])" using h by (simp add: old new)
    fix i assume "i < length (Entries (Push m e))"
    then have i: "i < ?n" by (simp add: new)
    show "Entries (Push m e) ! i = (tl (Entries m) @ [e]) ! i"
    proof (cases "Suc i = ?n")
      case True
      then have "(?h + 1 + i) mod ?n = ?h" using h by (metis add.assoc mod_add_self2 mod_less plus_1_eq_Suc)
      with True i h show ?thesis by (simp add: old new nth_append)
    next
      case False
      then have lt: "Suc i < ?n" using i by simp
      have "(?h + 1 + i) mod ?n \<noteq> ?h"
        using h lt by (cases "?h + 1 + i < ?n") (simp_all add: le_mod_geq)
      with lt i h show ?thesis by (simp add: old new nth_append nth_tl)
    qed
  qed
qed

lemma Entries_Push:
  assumes "mux_inv m"
  shows "Entries (Push m e) = drop (Suc (length (Entries m)) - mx_size m) (Entries m @ [e])"
proof -
  have len: "length (Entries m) = mx_count m" by (simp add: Entries_def Let_def)
  consider "mx_count m < mx_size m" | "mx_count m = mx_size m" using assms by (fastforce simp: mux_inv_def)
  then show ?thesis
  proof cases
    case 1
    then show ?thesis using Entries_filling [OF assms] len by simp
  next
    case 2
    moreover have "Suc 0 - mx_size m = 0" "Entries m \<noteq> []" using 2 len assms by (auto simp: mux_inv_def)
    ultimately show ?thesis using Entries_full [OF assms] len by (simp add: drop_Suc)
  qed
qed

lemma Entries_pushes:
  assumes "mux_inv m"
  shows "Entries (foldl Push m es) = drop (length (Entries m) + length es - mx_size m) (Entries m @ es)"
  using assms
proof (induction es arbitrary: m)
  case Nil
  have "length (Entries m) \<le> mx_size m" using Nil by (simp add: Entries_def Let_def mux_inv_def)
  then show ?case by simp
next
  case (Cons e es)
  have len: "length (Entries m) \<le> mx_size m" using Cons.prems by (simp add: Entries_def Let_def mux_inv_def)
  have step: "mux_inv (Push m e)" "mx_size (Push m e) = mx_size m" using Push_inv [OF Cons.prems] by simp_all
  let ?X = "Entries m @ [e]" and ?k = "Suc (length (Entries m)) - mx_size m"
  have pos: "0 < mx_size m" using Cons.prems by (simp add: mux_inv_def)
  have "Entries (foldl Push m (e # es)) = drop (length (drop ?k ?X) + length es - mx_size m) (drop ?k ?X @ es)"
    using Cons.IH [OF step(1)] step(2) Entries_Push [OF Cons.prems, of e] by simp
  also have "drop ?k ?X @ es = drop ?k (?X @ es)" using pos by simp
  also have "drop (length (drop ?k ?X) + length es - mx_size m) (drop ?k (?X @ es)) =
      drop (length (Entries m) + length (e # es) - mx_size m) (?X @ es)"
    unfolding drop_drop using len pos by (intro arg_cong2 [where f = drop]) auto
  finally show ?case by simp
qed

text \<open>A text in which some bytes have become asterisks.\<close>

definition masks :: "string \<Rightarrow> string \<Rightarrow> bool" where
  "masks s t = list_all2 (\<lambda>a b. b = a \<or> b = CHR ''*'') s t"

lemma masks_refl: "masks s s"
  by (simp add: masks_def list_all2_refl)

lemma masks_trans: "masks s t \<Longrightarrow> masks t u \<Longrightarrow> masks s u"
  unfolding masks_def by (erule (1) list_all2_trans [rotated]) auto

lemma masks_overwrite: "from + n \<le> length s \<Longrightarrow> masks s (overwrite s from n)"
  by (auto simp: masks_def overwrite_def list_all2_conv_all_nth nth_append)

lemma redact_field_masks: "masks result (redact_field field result idx)"
proof (induction field result idx rule: redact_field.induct)
  case (1 field result idx)
  show ?case
  proof (cases "field = [] \<or> length result < idx")
    case False
    then show ?thesis
      using 1 redact_at_bounds [of field result]
      by (subst redact_field.simps) (fastforce simp: masks_refl intro: masks_trans masks_overwrite split: option.splits)
  qed (simp add: redact_field.simps masks_refl)
qed

lemma redact_fields_mask: "masks s (foldl (\<lambda>result field. redact_field field result 0) s fs)"
  by (induction fs arbitrary: s) (auto simp: masks_refl intro: masks_trans redact_field_masks)

lemma notify_subs: "mx_subs (foldl Push m es) = map (\<lambda>(i, ch). (i, foldl (chan_offer subscriptionSize) ch es)) (mx_subs m)"
  by (induction es arbitrary: m) (simp_all add: Push_def notify_def split_beta comp_def)

section \<open>Properties\<close>

text \<open>
  C27: The ring buffer keeps the newest entries: after any sequence of pushes into a new multiplexer of a given capacity, the entries are
  the last of the sequence, as many as the capacity, oldest first.
\<close>
theorem ring_buffer_keeps_newest:
  assumes "0 < cap"
  shows "Entries (foldl Push (NewMultiplexer [int cap]) es) = drop (length es - cap) es"
  using Entries_pushes [OF NewMultiplexer_inv, of "[int cap]" es] assms
  by (simp add: NewMultiplexer_def Entries_def [of "\<lparr>mx_entries = _, mx_size = _, mx_head = _, mx_count = 0, mx_subs = _\<rparr>"])

theorem ring_buffer_keeps_newest_witness:
  "map en_Raw (Entries (foldl Push (NewMultiplexer [2])
     [zero_entry\<lparr>en_Raw := ''a''\<rparr>, zero_entry\<lparr>en_Raw := ''b''\<rparr>, zero_entry\<lparr>en_Raw := ''c''\<rparr>])) = [''b'', ''c'']"
  using ring_buffer_keeps_newest [of 2 "[zero_entry\<lparr>en_Raw := ''a''\<rparr>, zero_entry\<lparr>en_Raw := ''b''\<rparr>, zero_entry\<lparr>en_Raw := ''c''\<rparr>]"]
  by simp

text \<open>
  A subscriber sees no gaps, only an early end: of the entries pushed since it subscribed, its channel holds the first 256 in
  order; every other subscription is unaffected by it.
\<close>
theorem subscriber_gets_prefix:
  "mx_subs (foldl Push (Subscribe m ch) es) =
     mx_subs (foldl Push m es) @ [(ch, take 256 es)]"
  using sub.offers_contents [of "[]" es]
  by (simp add: notify_subs Subscribe_def subscriptionSize_def)

text \<open>
  Redaction keeps the shape of a line: it never changes the length, and a byte that changes becomes an asterisk.
\<close>
theorem redact_only_masks:
  "length (Redact s) = length s \<and> list_all2 (\<lambda>a b. b = a \<or> b = CHR ''*'') s (Redact s)"
  using redact_fields_mask [of s DefaultSensitiveFields] by (auto simp: Redact_def masks_def dest: list_all2_lengthD)

text \<open>
  Redaction stops at white space and trusts quotes: a value directly after the separator is masked, but after \<open>password: \<close> with a space,
  as in a header or in indented JSON, it stays readable, and a quoted value without its closing quote keeps its last byte.
\<close>
theorem redact_misses_values:
  "Redact ''password=hunter2'' = ''password=*******'' \<and>
   Redact ''Authorization: abc'' = ''Authorization: abc'' \<and>
   Redact (''token='' @ [CHR 0x22] @ ''abc'') = ''token=***c''"
  by (intro conjI; code_simp)

end
