(* ===== verification/Scanner.thy ===== *)
theory Scanner
  imports Routes
begin

text \<open>
  The annotation scanner of \<open>scanner/\<close>: the four parsers that collect \<open>@Route\<close>, \<open>@Page\<close>, \<open>@Validate\<close> and \<open>@Auth\<close>
  comments from source files (\<open>go_parser.go\<close>, \<open>ts_parser.go\<close>, \<open>py_parser.go\<close>, \<open>tsx_parser.go\<close>), the semantic checks of
  \<open>validator.go\<close> and \<open>generator.go\<close>, which writes \<open>route_map.json\<close> when there are no errors.

  A directory tree is the list of what \<open>filepath.Walk\<close> visits, in its order, with the outcome of opening each file. The
  JSON encoder and the file writer are arguments. A parser result \<open>None\<close> is the panic of indexing a nil match.
\<close>

section \<open>Regular expressions\<close>

text \<open>
  The expressions of the parsers are sequences of literals and of repeated character classes, some of them captured. Go prefers
  the leftmost match and, among those, the one a backtracking matcher with greedy repetition finds first; \<open>match_here\<close> is that matcher.
  It returns the captured texts.
\<close>

datatype rx = Lit string | Rep nat "char \<Rightarrow> bool" | Cap nat "char \<Rightarrow> bool"

fun first_some :: "'a option list \<Rightarrow> 'a option" where
  "first_some [] = None"
| "first_some (None # xs) = first_some xs"
| "first_some (Some x # xs) = Some x"

definition greedy :: "nat \<Rightarrow> (char \<Rightarrow> bool) \<Rightarrow> string \<Rightarrow> nat list" where
  "greedy k P s = rev [k ..< Suc (length (takeWhile P s))]"

fun match_here :: "rx list \<Rightarrow> string \<Rightarrow> string list option" where
  "match_here [] s = Some []"
| "match_here (Lit p # r) s = (if HasPrefix s p then match_here r (drop (length p) s) else None)"
| "match_here (Rep k P # r) s = first_some (map (\<lambda>n. match_here r (drop n s)) (greedy k P s))"
| "match_here (Cap k P # r) s =
     first_some (map (\<lambda>n. map_option ((#) (take n s)) (match_here r (drop n s))) (greedy k P s))"

fun FindStringSubmatch :: "rx list \<Rightarrow> string \<Rightarrow> string list option" where
  "FindStringSubmatch r [] = match_here r []"
| "FindStringSubmatch r (c # s) =
     (case match_here r (c # s) of Some m \<Rightarrow> Some m | None \<Rightarrow> FindStringSubmatch r s)"

definition MatchString :: "rx list \<Rightarrow> string \<Rightarrow> bool" where
  "MatchString r s = (FindStringSubmatch r s \<noteq> None)"

definition rx_space :: "char \<Rightarrow> bool" where
  "rx_space c = (c \<in> {CHR 0x09, CHR 0x0A, CHR 0x0C, CHR 0x0D, CHR '' ''})"

definition rx_word :: "char \<Rightarrow> bool" where
  "rx_word c = (let n = of_char c :: nat in 48 \<le> n \<and> n \<le> 57 \<or> 65 \<le> n \<and> n \<le> 90 \<or> n = 95 \<or> 97 \<le> n \<and> n \<le> 122)"

definition goRouteRe :: "rx list" where
  "goRouteRe = [Lit ''@Route('', Rep 0 rx_space, Cap 1 rx_word, Rep 1 rx_space, Cap 1 (\<lambda>c. c \<noteq> CHR '')''), Lit '')'']"

definition goValidateRe :: "rx list" where
  "goValidateRe = [Lit ''@Validate('', Rep 0 rx_space, Cap 1 (\<lambda>c. c \<noteq> CHR '')''), Rep 0 rx_space, Lit '')'']"

definition goAuthRe :: "rx list" where
  "goAuthRe = [Lit ''@Auth(roles:'', Rep 0 rx_space, Lit ''['', Cap 1 (\<lambda>c. c \<noteq> CHR '']''), Lit ''])'']"

definition tsPageRe :: "rx list" where
  "tsPageRe = [Lit ''@Page('', Cap 1 (\<lambda>c. c \<noteq> CHR '')''), Lit '')'']"

text \<open>The expressions of \<open>tsx_parser.go\<close> are anchored at the start of the line and used with \<^const>\<open>match_here\<close>.\<close>

definition tsxPageRe :: "rx list" where
  "tsxPageRe = [Rep 0 rx_space, Lit ''//'', Rep 0 rx_space, Lit ''@Page('', Rep 0 rx_space, Cap 0 (\<lambda>c. c \<noteq> CHR '')''),
     Rep 0 rx_space, Lit '')'']"

definition tsxAuthRe :: "rx list" where
  "tsxAuthRe = [Rep 0 rx_space, Lit ''//'', Rep 0 rx_space, Lit ''@Auth(roles:'', Rep 0 rx_space, Lit ''['',
     Cap 1 (\<lambda>c. c \<noteq> CHR '']''), Lit '']'', Rep 0 rx_space, Lit '')'']"

section \<open>Lines of a file\<close>

text \<open>
  \<open>bufio.Scanner\<close> with its default split function: lines without the line feed and one carriage return before it. A line that
  does not fit the buffer of 64 KiB ends the scan.
\<close>

definition maxScanTokenSize :: nat where
  "maxScanTokenSize = 65536"

definition drop_cr :: "string \<Rightarrow> string" where
  "drop_cr l = (if l \<noteq> [] \<and> last l = CHR 0x0D then butlast l else l)"

definition scan_lines :: "string \<Rightarrow> string list" where
  "scan_lines content =
     (let ls = Split (CHR 0x0A) content; ls' = (if last ls = [] then butlast ls else ls)
      in map drop_cr (takeWhile (\<lambda>l. length l < maxScanTokenSize) ls'))"

definition TrimPrefix :: "string \<Rightarrow> string \<Rightarrow> string" where
  "TrimPrefix s p = (if HasPrefix s p then drop (length p) s else s)"

definition HasSuffix :: "string \<Rightarrow> string \<Rightarrow> bool" where
  "HasSuffix s p = HasPrefix (rev s) (rev p)"

section \<open>Routes and errors\<close>

record route =
  rt_Path :: string
  rt_Method :: string
  rt_WorkerID :: string
  rt_AuthRoles :: "string list"
  rt_Validate :: string
  rt_Type :: string
  rt_File :: string
  rt_Line :: int

record annotation_error =
  ae_File :: string
  ae_Line :: int
  ae_Message :: string

record file_entry =
  fe_path :: string
  fe_name :: string
  fe_skip :: bool \<comment> \<open>the walk reports an error or a directory\<close>
  fe_open :: "go_error + string"

type_synonym parsed = "route list \<times> annotation_error list"

definition cannot_open :: "string \<Rightarrow> go_error \<Rightarrow> annotation_error" where
  "cannot_open path err = \<lparr>ae_File = path, ae_Line = 0, ae_Message = ''cannot open file: '' @ Error err\<rparr>"

definition annot_roles :: "string \<Rightarrow> string list" where
  "annot_roles raw = filter (\<lambda>r. r \<noteq> []) (map (\<lambda>r. Trim (CHR 0x22) (TrimSpace r)) (Split (CHR '','') raw))"

text \<open>The last two thirds of the three \<open>build\<close> functions: schema name and roles from the pending annotations.\<close>

definition validate_of :: "string \<Rightarrow> string" where
  "validate_of annot =
     (if annot = [] then []
      else (case FindStringSubmatch goValidateRe annot of Some (v # _) \<Rightarrow> TrimSpace v | _ \<Rightarrow> []))"

definition roles_of :: "string \<Rightarrow> string list" where
  "roles_of annot =
     (if annot = [] then []
      else (case FindStringSubmatch goAuthRe annot of Some (a # _) \<Rightarrow> annot_roles a | _ \<Rightarrow> []))"

definition buildRoute :: "string \<Rightarrow> int \<Rightarrow> string \<Rightarrow> string \<Rightarrow> string \<Rightarrow> string \<Rightarrow> route option" where
  "buildRoute file line routeAnnot validateAnnot authAnnot workerID =
     (case FindStringSubmatch goRouteRe routeAnnot of
        Some (m1 # m2 # _) \<Rightarrow>
          Some \<lparr>rt_Path = TrimSpace m2, rt_Method = ToUpper (TrimSpace m1), rt_WorkerID = workerID, rt_AuthRoles = roles_of authAnnot,
                rt_Validate = validate_of validateAnnot, rt_Type = ''api'', rt_File = file, rt_Line = line\<rparr>
      | _ \<Rightarrow> None)"

section \<open>Go and Python files\<close>

record scan_state =
  ss_route :: string
  ss_validate :: string
  ss_auth :: string
  ss_page :: string
  ss_routeLine :: int
  ss_lineNum :: int
  ss_routes :: "route list"
  ss_errs :: "annotation_error list"

definition scan_init :: scan_state where
  "scan_init = \<lparr>ss_route = [], ss_validate = [], ss_auth = [], ss_page = [], ss_routeLine = 0, ss_lineNum = 0, ss_routes = [], ss_errs = []\<rparr>"

definition reset_pending :: "scan_state \<Rightarrow> scan_state" where
  "reset_pending s = s\<lparr>ss_route := [], ss_validate := [], ss_auth := [], ss_page := []\<rparr>"

definition add_pending :: "string \<Rightarrow> string \<Rightarrow> scan_state \<Rightarrow> scan_state option" where
  "add_pending path workerID s =
     (if ss_route s = [] then Some s
      else map_option (\<lambda>r. s\<lparr>ss_routes := ss_routes s @ [r]\<rparr>)
             (buildRoute path (ss_routeLine s) (ss_route s) (ss_validate s) (ss_auth s) workerID))"

definition note_comment :: "string \<Rightarrow> scan_state \<Rightarrow> scan_state" where
  "note_comment comment s =
     (if MatchString goRouteRe comment then s\<lparr>ss_route := comment, ss_routeLine := ss_lineNum s\<rparr>
      else if MatchString goValidateRe comment then s\<lparr>ss_validate := comment\<rparr>
      else if MatchString goAuthRe comment then s\<lparr>ss_auth := comment\<rparr>
      else s)"

definition go_line :: "string \<Rightarrow> string \<Rightarrow> string \<Rightarrow> scan_state \<Rightarrow> scan_state option" where
  "go_line path workerID text0 s0 =
     (let s = s0\<lparr>ss_lineNum := ss_lineNum s0 + 1\<rparr>; line = TrimSpace text0
      in if \<not> HasPrefix line ''//''
         then (if ss_route s \<noteq> [] then map_option reset_pending (add_pending path workerID s) else Some s)
         else Some (note_comment (TrimSpace (TrimPrefix line ''//'')) s))"

definition py_line :: "string \<Rightarrow> string \<Rightarrow> string \<Rightarrow> scan_state \<Rightarrow> scan_state option" where
  "py_line path workerID text0 s0 =
     (let s = s0\<lparr>ss_lineNum := ss_lineNum s0 + 1\<rparr>; line = TrimSpace text0
      in if HasPrefix line ''class '' then Some s
         else if \<not> HasPrefix line ''#''
         then (if ss_route s \<noteq> [] then map_option reset_pending (add_pending path workerID s) else Some s)
         else Some (note_comment (TrimSpace (TrimPrefix line ''#'')) s))"

fun scan_all :: "(string \<Rightarrow> 's \<Rightarrow> 's option) \<Rightarrow> string list \<Rightarrow> 's \<Rightarrow> 's option" where
  "scan_all f [] s = Some s"
| "scan_all f (l # ls) s = (case f l s of None \<Rightarrow> None | Some s' \<Rightarrow> scan_all f ls s')"

definition result_of :: "scan_state \<Rightarrow> parsed" where
  "result_of s = (ss_routes s, ss_errs s)"

definition parseGoFile :: "go_error + string \<Rightarrow> string \<Rightarrow> string \<Rightarrow> parsed option" where
  "parseGoFile opened path workerID =
     (case opened of
        Inl err \<Rightarrow> Some ([], [cannot_open path err])
      | Inr content \<Rightarrow>
          (case scan_all (go_line path workerID) (scan_lines content) scan_init of
             None \<Rightarrow> None
           | Some s \<Rightarrow> map_option result_of (add_pending path workerID s)))"

definition parsePyFile :: "go_error + string \<Rightarrow> string \<Rightarrow> string \<Rightarrow> parsed option" where
  "parsePyFile opened path workerID =
     (case opened of
        Inl err \<Rightarrow> Some ([], [cannot_open path err])
      | Inr content \<Rightarrow>
          (case scan_all (py_line path workerID) (scan_lines content) scan_init of
             None \<Rightarrow> None
           | Some s \<Rightarrow> map_option result_of (add_pending path workerID s)))"

section \<open>TypeScript files\<close>

definition buildTSRoute ::
  "string \<Rightarrow> int \<Rightarrow> string \<Rightarrow> string \<Rightarrow> string \<Rightarrow> string \<Rightarrow> string \<Rightarrow> (annotation_error + route) option" where
  "buildTSRoute file line routeAnnot pageAnnot validateAnnot authAnnot workerID =
     (let route = (\<lambda>meth path kind.
            Some (Inr \<lparr>rt_Path = path, rt_Method = meth, rt_WorkerID = workerID, rt_AuthRoles = roles_of authAnnot,
                       rt_Validate = validate_of validateAnnot, rt_Type = kind, rt_File = file, rt_Line = line\<rparr>))
      in if routeAnnot \<noteq> []
         then (case FindStringSubmatch goRouteRe routeAnnot of
                 Some (m1 # m2 # _) \<Rightarrow> route (ToUpper (TrimSpace m1)) (TrimSpace m2) ''api''
               | _ \<Rightarrow> None)
         else if pageAnnot \<noteq> []
         then (case FindStringSubmatch tsPageRe pageAnnot of
                 Some (m1 # _) \<Rightarrow> route ''GET'' (TrimSpace m1) ''page''
               | _ \<Rightarrow> None)
         else Some (Inl \<lparr>ae_File = file, ae_Line = line, ae_Message = ''no @Route or @Page annotation found''\<rparr>))"

definition ts_add_pending :: "string \<Rightarrow> string \<Rightarrow> scan_state \<Rightarrow> scan_state option" where
  "ts_add_pending path workerID s =
     (if ss_route s = [] \<and> ss_page s = [] then Some s
      else (case buildTSRoute path (ss_routeLine s) (ss_route s) (ss_page s) (ss_validate s) (ss_auth s) workerID of
              None \<Rightarrow> None
            | Some (Inl e) \<Rightarrow> Some (s\<lparr>ss_errs := ss_errs s @ [e]\<rparr>)
            | Some (Inr r) \<Rightarrow> Some (s\<lparr>ss_routes := ss_routes s @ [r]\<rparr>)))"

definition ts_note_comment :: "string \<Rightarrow> scan_state \<Rightarrow> scan_state" where
  "ts_note_comment comment s =
     (if MatchString goRouteRe comment then s\<lparr>ss_route := comment, ss_routeLine := ss_lineNum s\<rparr>
      else if MatchString tsPageRe comment then s\<lparr>ss_page := comment, ss_routeLine := ss_lineNum s\<rparr>
      else if MatchString goValidateRe comment then s\<lparr>ss_validate := comment\<rparr>
      else if MatchString goAuthRe comment then s\<lparr>ss_auth := comment\<rparr>
      else s)"

definition ts_line :: "string \<Rightarrow> string \<Rightarrow> string \<Rightarrow> scan_state \<Rightarrow> scan_state option" where
  "ts_line path workerID text0 s0 =
     (let s = s0\<lparr>ss_lineNum := ss_lineNum s0 + 1\<rparr>; line = TrimSpace text0
      in if \<not> HasPrefix line ''//''
         then (if ss_route s \<noteq> [] \<or> ss_page s \<noteq> [] then map_option reset_pending (ts_add_pending path workerID s) else Some s)
         else Some (ts_note_comment (TrimSpace (TrimPrefix line ''//'')) s))"

definition parseTSFile :: "go_error + string \<Rightarrow> string \<Rightarrow> string \<Rightarrow> parsed option" where
  "parseTSFile opened path workerID =
     (case opened of
        Inl err \<Rightarrow> Some ([], [cannot_open path err])
      | Inr content \<Rightarrow>
          (case scan_all (ts_line path workerID) (scan_lines content) scan_init of
             None \<Rightarrow> None
           | Some s \<Rightarrow> map_option result_of (ts_add_pending path workerID s)))"

section \<open>Quoted strings\<close>

text \<open>
  \<open>strconv.Unquote\<close>, used on the roles of pages: double-quoted, back-quoted and single-quoted (one character) literals.
  \<open>UnquoteChar\<close> decodes the first character or escape sequence; bytes above 127 are copied.
\<close>

definition hex_value :: "char \<Rightarrow> nat option" where
  "hex_value c =
     (let n = of_char c :: nat
      in if 48 \<le> n \<and> n \<le> 57 then Some (n - 48)
         else if 97 \<le> n \<and> n \<le> 102 then Some (n - 87)
         else if 65 \<le> n \<and> n \<le> 70 then Some (n - 55)
         else None)"

definition octal_value :: "char \<Rightarrow> nat option" where
  "octal_value c = (let n = of_char c :: nat in if 48 \<le> n \<and> n \<le> 55 then Some (n - 48) else None)"

fun number_of :: "(char \<Rightarrow> nat option) \<Rightarrow> nat \<Rightarrow> string \<Rightarrow> nat \<Rightarrow> nat option" where
  "number_of val base [] acc = Some acc"
| "number_of val base (c # cs) acc = (case val c of None \<Rightarrow> None | Some d \<Rightarrow> number_of val base cs (acc * base + d))"

definition digits :: "(char \<Rightarrow> nat option) \<Rightarrow> nat \<Rightarrow> nat \<Rightarrow> string \<Rightarrow> (nat \<times> string) option" where
  "digits val base k s = (if length s < k then None else map_option (\<lambda>v. (v, drop k s)) (number_of val base (take k s) 0))"

definition utf8_encode :: "nat \<Rightarrow> string" where
  "utf8_encode v =
     map char_of
       (if v < 128 then [v]
        else if v < 2048 then [192 + v div 64, 128 + v mod 64]
        else if v < 65536 then [224 + v div 4096, 128 + v div 64 mod 64, 128 + v mod 64]
        else [240 + v div 262144, 128 + v div 4096 mod 64, 128 + v div 64 mod 64, 128 + v mod 64])"

definition valid_rune :: "nat \<Rightarrow> bool" where
  "valid_rune v = (v < 55296 \<or> 57344 \<le> v \<and> v < 1114112)"

definition simple_escapes :: "(char \<times> nat) list" where
  "simple_escapes = [(CHR ''a'', 7), (CHR ''b'', 8), (CHR ''f'', 12), (CHR ''n'', 10), (CHR ''r'', 13), (CHR ''t'', 9), (CHR ''v'', 11), (CHR 0x5C, 92)]"

definition UnquoteChar :: "string \<Rightarrow> char \<Rightarrow> (string \<times> string) option" where
  "UnquoteChar s quote =
     (case s of
        [] \<Rightarrow> None
      | c # s1 \<Rightarrow>
          if c = quote then None
          else if c \<noteq> CHR 0x5C then Some ([c], s1)
          else (case s1 of
                  [] \<Rightarrow> None
                | e # s2 \<Rightarrow>
                    (case map_of simple_escapes e of
                       Some n \<Rightarrow> Some ([char_of n], s2)
                     | None \<Rightarrow>
                         if e = CHR ''x'' then map_option (\<lambda>(v, r). ([char_of v], r)) (digits hex_value 16 2 s2)
                         else if e = CHR ''u'' \<or> e = CHR ''U''
                         then (case digits hex_value 16 (if e = CHR ''u'' then 4 else 8) s2 of
                                 None \<Rightarrow> None
                               | Some (v, r) \<Rightarrow> if valid_rune v then Some (utf8_encode v, r) else None)
                         else if octal_value e \<noteq> None
                         then (case digits octal_value 8 3 s1 of
                                 None \<Rightarrow> None
                               | Some (v, r) \<Rightarrow> if 255 < v then None else Some ([char_of v], r))
                         else if (e = CHR 0x27 \<or> e = CHR 0x22) \<and> e = quote then Some ([e], s2)
                         else None)))"

lemma digits_shorter: "digits val base k s = Some (v, r) \<Longrightarrow> length r \<le> length s"
  by (auto simp: digits_def split: if_splits)

lemma UnquoteChar_shorter: "UnquoteChar s q = Some (out, r) \<Longrightarrow> length r < length s"
  by (auto simp: UnquoteChar_def split: list.splits if_splits option.splits dest!: digits_shorter)

text \<open>The loop over a double-quoted literal, after the opening quote: the decoded text and what follows the closing quote.\<close>

function unquote_loop :: "string \<Rightarrow> (string \<times> string) option" where
  "unquote_loop s =
     (case s of
        [] \<Rightarrow> None
      | c # r \<Rightarrow>
          if c = CHR 0x22 then Some ([], r)
          else if c = CHR 0x0A then None
          else (case UnquoteChar s (CHR 0x22) of
                  None \<Rightarrow> None
                | Some (out, rest) \<Rightarrow> map_option (\<lambda>(b, t). (out @ b, t)) (unquote_loop rest)))"
  by pat_completeness auto
termination
  by (relation "measure length") (auto dest: UnquoteChar_shorter)

declare unquote_loop.simps [simp del]

definition Unquote :: "string \<Rightarrow> string option" where
  "Unquote s =
     (case s of
        [] \<Rightarrow> None
      | [_] \<Rightarrow> None
      | q # s1 \<Rightarrow>
          (case first_index q s1 of
             None \<Rightarrow> None
           | Some i \<Rightarrow>
               if q = CHR 0x60
               then (if drop (Suc i) s1 = [] then Some (filter (\<lambda>c. c \<noteq> CHR 0x0D) (take i s1)) else None)
               else if q = CHR 0x22
               then (case unquote_loop s1 of Some (b, []) \<Rightarrow> Some b | _ \<Rightarrow> None)
               else if q = CHR 0x27
               then (if s1 = [q] then Some []
                     else if hd s1 = CHR 0x0A then None
                     else (case UnquoteChar s1 q of Some (b, r) \<Rightarrow> if r = [q] then Some b else None | None \<Rightarrow> None))
               else None))"

section \<open>Pages\<close>

record tsx_state =
  tx_pending :: "route option"
  tx_lineNum :: int
  tx_routes :: "route list"
  tx_errs :: "annotation_error list"

definition tsx_init :: tsx_state where
  "tsx_init = \<lparr>tx_pending = None, tx_lineNum = 0, tx_routes = [], tx_errs = []\<rparr>"

definition parseRoleList :: "string \<Rightarrow> string list" where
  "parseRoleList raw =
     concat (map (\<lambda>p. let p' = TrimSpace p
                      in case Unquote p' of Some u \<Rightarrow> [u] | None \<Rightarrow> if p' \<noteq> [] then [p'] else [])
       (Split (CHR '','') raw))"

definition flush_page :: "tsx_state \<Rightarrow> tsx_state" where
  "flush_page s = (case tx_pending s of None \<Rightarrow> s | Some r \<Rightarrow> s\<lparr>tx_routes := tx_routes s @ [r], tx_pending := None\<rparr>)"

definition tsx_line :: "string \<Rightarrow> string \<Rightarrow> string \<Rightarrow> tsx_state \<Rightarrow> tsx_state option" where
  "tsx_line path workerID line s0 =
     (let s = s0\<lparr>tx_lineNum := tx_lineNum s0 + 1\<rparr>
      in case match_here tsxPageRe line of
           Some m \<Rightarrow>
             (case m of
                [] \<Rightarrow> None
              | m1 # _ \<Rightarrow>
                  (let s' = flush_page s; pagePath = TrimSpace m1
                   in if pagePath = []
                      then Some (s'\<lparr>tx_errs := tx_errs s' @ [\<lparr>ae_File = path, ae_Line = tx_lineNum s', ae_Message = ''@Page requires a non-empty path''\<rparr>]\<rparr>)
                      else Some (s'\<lparr>tx_pending := Some \<lparr>rt_Path = pagePath, rt_Method = ''GET'', rt_WorkerID = workerID, rt_AuthRoles = [],
                             rt_Validate = [], rt_Type = ''page'', rt_File = path, rt_Line = tx_lineNum s'\<rparr>\<rparr>)))
         | None \<Rightarrow>
             (case (match_here tsxAuthRe line, tx_pending s) of
                (Some m, Some p) \<Rightarrow>
                  (case m of [] \<Rightarrow> None | m1 # _ \<Rightarrow> Some (s\<lparr>tx_pending := Some (p\<lparr>rt_AuthRoles := parseRoleList m1\<rparr>)\<rparr>))
              | _ \<Rightarrow>
                  if TrimSpace line \<noteq> [] \<and> \<not> HasPrefix (TrimSpace line) ''//'' then Some (flush_page s) else Some s))"

definition parseTSXFile :: "go_error + string \<Rightarrow> string \<Rightarrow> string \<Rightarrow> parsed option" where
  "parseTSXFile opened path workerID =
     (case opened of
        Inl err \<Rightarrow> Some ([], [cannot_open path err])
      | Inr content \<Rightarrow>
          map_option (\<lambda>s. (tx_routes (flush_page s), tx_errs s)) (scan_all (tsx_line path workerID) (scan_lines content) tsx_init))"

section \<open>Directory walks\<close>

fun parse_files ::
  "(file_entry \<Rightarrow> bool) \<Rightarrow> (go_error + string \<Rightarrow> string \<Rightarrow> string \<Rightarrow> parsed option) \<Rightarrow> file_entry list \<Rightarrow> string \<Rightarrow> parsed option" where
  "parse_files wanted parse [] workerID = Some ([], [])"
| "parse_files wanted parse (f # fs) workerID =
     (if fe_skip f \<or> \<not> wanted f then parse_files wanted parse fs workerID
      else (case parse (fe_open f) (fe_path f) workerID of
              None \<Rightarrow> None
            | Some (r, e) \<Rightarrow> map_option (\<lambda>(rs, es). (r @ rs, e @ es)) (parse_files wanted parse fs workerID)))"

definition ParseGoFiles :: "file_entry list \<Rightarrow> string \<Rightarrow> parsed option" where
  "ParseGoFiles = parse_files (\<lambda>f. HasSuffix (fe_path f) ''.go'') parseGoFile"

definition ParseTSFiles :: "file_entry list \<Rightarrow> string \<Rightarrow> parsed option" where
  "ParseTSFiles = parse_files (\<lambda>f. HasSuffix (fe_path f) ''.ts'' \<or> HasSuffix (fe_path f) ''.tsx'') parseTSFile"

definition ParsePyFiles :: "file_entry list \<Rightarrow> string \<Rightarrow> parsed option" where
  "ParsePyFiles = parse_files (\<lambda>f. HasSuffix (fe_path f) ''.py'') parsePyFile"

definition ParseTSXFiles :: "file_entry list \<Rightarrow> string \<Rightarrow> parsed option" where
  "ParseTSXFiles = parse_files (\<lambda>f. HasSuffix (fe_name f) ''.tsx'') parseTSXFile"

section \<open>Validation\<close>

text \<open>\<open>%q\<close> of a text, \<open>strconv.Quote\<close>; printable characters above 127 are kept.\<close>

definition quote_char :: "char \<Rightarrow> string" where
  "quote_char c =
     (let n = of_char c :: nat
      in if n = 0x22 \<or> n = 0x5C then [CHR 0x5C, c]
         else (case find (\<lambda>p. snd p = n) simple_escapes of
                 Some (e, _) \<Rightarrow> [CHR 0x5C, e]
               | None \<Rightarrow> if n < 32 \<or> n = 127 then [CHR 0x5C, CHR ''x'', hex_digit (n div 16), hex_digit (n mod 16)] else [c]))"

definition Quote :: "string \<Rightarrow> string" where
  "Quote s = [CHR 0x22] @ concat (map quote_char s) @ [CHR 0x22]"

definition validMethods :: "string list" where
  "validMethods = [''GET'', ''POST'', ''PUT'', ''PATCH'', ''DELETE'', ''HEAD'', ''OPTIONS'']"

definition validateRoute :: "route \<Rightarrow> string list" where
  "validateRoute r =
     (if rt_Method r \<in> {''POST'', ''PUT'', ''PATCH''} \<and> rt_Validate r = []
      then [''route '' @ rt_Method r @ '' '' @ rt_Path r @ '': POST/PUT/PATCH routes must have @Validate annotation''] else []) @
     (if rt_AuthRoles r = [] \<and> rt_Type r \<noteq> ''page''
      then [''route '' @ rt_Method r @ '' '' @ rt_Path r @ '': all routes must have @Auth annotation with roles''] else [])"

definition route_key_of :: "route \<Rightarrow> string" where
  "route_key_of r = rt_Method r @ '' '' @ rt_Path r"

text \<open>The messages of one round of the loop; \<open>seen\<close> are the keys of the routes before.\<close>

definition route_messages :: "string list \<Rightarrow> route \<Rightarrow> string list" where
  "route_messages seen r =
     (if rt_Method r \<notin> set validMethods then [''unknown HTTP method '' @ Quote (rt_Method r) @ '' on route '' @ rt_Path r] else []) @
     (if \<not> HasPrefix (rt_Path r) ''/'' then [''route path '' @ Quote (rt_Path r) @ '' must start with /''] else []) @
     (if route_key_of r \<in> set seen then [''duplicate route '' @ rt_Method r @ '' '' @ rt_Path r] else []) @
     validateRoute r"

fun validate_loop :: "string list \<Rightarrow> route list \<Rightarrow> annotation_error list" where
  "validate_loop seen [] = []"
| "validate_loop seen (r # rs) =
     map (\<lambda>m. \<lparr>ae_File = rt_File r, ae_Line = rt_Line r, ae_Message = m\<rparr>) (route_messages seen r) @
     validate_loop (seen @ [route_key_of r]) rs"

text \<open>The second component are the warnings; the loop that would collect them is empty.\<close>

definition Validate_routes :: "route list \<Rightarrow> annotation_error list \<times> string list" where
  "Validate_routes rs = (validate_loop [] rs, [])"

section \<open>Generation\<close>

text \<open>\<open>filepath.Base\<close> on Unix.\<close>

definition filepath_Base :: "string \<Rightarrow> string" where
  "filepath_Base p =
     (if p = [] then ''.''
      else (let q = rev (dropWhile (\<lambda>c. c = CHR ''/'') (rev p))
            in if q = [] then ''/'' else last (Split (CHR ''/'') q)))"

record source_dirs =
  sd_goDir :: string
  sd_tsDir :: string
  sd_pyDir :: string
  sd_frontendDir :: string

text \<open>\<open>walk\<close> gives what a walk of a directory visits.\<close>

definition scan_dir :: "(string \<Rightarrow> file_entry list) \<Rightarrow> (file_entry list \<Rightarrow> string \<Rightarrow> parsed option) \<Rightarrow> string \<Rightarrow> string \<Rightarrow> parsed option" where
  "scan_dir walk parse dir workerID = (if dir = [] then Some ([], []) else parse (walk dir) workerID)"

definition join_parsed :: "parsed option \<Rightarrow> parsed option \<Rightarrow> parsed option" where
  "join_parsed a b =
     (case a of None \<Rightarrow> None
      | Some (r, e) \<Rightarrow> (case b of None \<Rightarrow> None | Some (r', e') \<Rightarrow> Some (r @ r', e @ e')))"

definition collect :: "(string \<Rightarrow> file_entry list) \<Rightarrow> source_dirs \<Rightarrow> parsed option" where
  "collect walk d =
     join_parsed (scan_dir walk ParseGoFiles (sd_goDir d) (''go:'' @ filepath_Base (sd_goDir d)))
     (join_parsed (scan_dir walk ParseTSFiles (sd_tsDir d) (''node:'' @ filepath_Base (sd_tsDir d)))
     (join_parsed (scan_dir walk ParsePyFiles (sd_pyDir d) (''python:'' @ filepath_Base (sd_pyDir d)))
                  (scan_dir walk ParseTSXFiles (sd_frontendDir d) ''node:ssr'')))"

text \<open>What \<open>Generate\<close> returns, and the bytes it has \<open>WriteFile\<close> write, if it gets there.\<close>

record generated =
  ge_errs :: "annotation_error list"
  ge_err :: "go_error option"
  ge_written :: "string option"

definition Generate ::
  "(string \<Rightarrow> file_entry list) \<Rightarrow> (route list \<Rightarrow> go_error + string) \<Rightarrow> go_error option \<Rightarrow> (string \<Rightarrow> go_error option) \<Rightarrow> source_dirs \<Rightarrow> generated option" where
  "Generate walk marshal mkdir writeFile d =
     (case collect walk d of
        None \<Rightarrow> None
      | Some (allRoutes, errs) \<Rightarrow>
          (let allErrs = errs @ fst (Validate_routes allRoutes)
           in if allErrs \<noteq> [] then Some \<lparr>ge_errs = allErrs, ge_err = None, ge_written = None\<rparr>
              else (case marshal allRoutes of
                      Inl err \<Rightarrow> Some \<lparr>ge_errs = [], ge_err = Some err, ge_written = None\<rparr>
                    | Inr data \<Rightarrow>
                        (case mkdir of
                           Some err \<Rightarrow> Some \<lparr>ge_errs = [], ge_err = Some err, ge_written = None\<rparr>
                         | None \<Rightarrow> Some \<lparr>ge_errs = [], ge_err = writeFile data, ge_written = Some data\<rparr>))))"

section \<open>What the matcher finds\<close>

text \<open>
  The language of an expression with its captures, without a preference among the matches. The matcher finds a derivation, and only
  fails when there is none.
\<close>

inductive derives :: "rx list \<Rightarrow> string \<Rightarrow> string list \<Rightarrow> bool" where
  Nil: "derives [] s []"
| Lit: "derives r s m \<Longrightarrow> derives (Lit p # r) (p @ s) m"
| Rep: "k \<le> length u \<Longrightarrow> \<forall>c \<in> set u. P c \<Longrightarrow> derives r s m \<Longrightarrow> derives (Rep k P # r) (u @ s) m"
| Cap: "k \<le> length u \<Longrightarrow> \<forall>c \<in> set u. P c \<Longrightarrow> derives r s m \<Longrightarrow> derives (Cap k P # r) (u @ s) (u # m)"

inductive_cases derives_LitE: "derives (Lit p # r) s m"
inductive_cases derives_RepE: "derives (Rep k P # r) s m"
inductive_cases derives_CapE: "derives (Cap k P # r) s m"
inductive_cases derives_NilE: "derives [] s m"

lemmas derives_elims = derives_LitE derives_RepE derives_CapE derives_NilE

lemma first_some_SomeD: "first_some xs = Some x \<Longrightarrow> Some x \<in> set xs"
  by (induction xs rule: first_some.induct) auto

lemma first_some_None: "first_some xs = None \<longleftrightarrow> set xs \<subseteq> {None}"
  by (induction xs rule: first_some.induct) auto

lemma greedy_mem: "n \<in> set (greedy k P s) \<longleftrightarrow> k \<le> n \<and> n \<le> length s \<and> (\<forall>c \<in> set (take n s). P c)"
proof -
  have "n \<le> length (takeWhile P s) \<longleftrightarrow> n \<le> length s \<and> (\<forall>c \<in> set (take n s). P c)"
  proof (induction s arbitrary: n)
    case (Cons a s)
    then show ?case by (cases n) auto
  qed simp
  then show ?thesis by (auto simp: greedy_def)
qed

lemma greedyD: "n \<in> set (greedy k P s) \<Longrightarrow> k \<le> length (take n s) \<and> (\<forall>c \<in> set (take n s). P c)"
  by (simp add: greedy_mem)

lemma match_here_sound: "match_here r s = Some m \<Longrightarrow> derives r s m"
proof (induction r s arbitrary: m rule: match_here.induct)
  case (1 s)
  then show ?case by (simp add: derives.Nil)
next
  case (2 p r s)
  then obtain t where t: "s = p @ t" using HasPrefixE by (auto split: if_splits)
  then show ?case using 2 by (auto intro: derives.Lit)
next
  case (3 k P r s)
  then obtain n where n: "n \<in> set (greedy k P s)" "match_here r (drop n s) = Some m"
    by (auto dest!: first_some_SomeD)
  have "derives (Rep k P # r) (take n s @ drop n s) m"
    using 3(1) [OF n] greedyD [OF n(1)] by (intro derives.Rep) auto
  then show ?case by simp
next
  case (4 k P r s)
  then obtain n m' where n: "n \<in> set (greedy k P s)" "match_here r (drop n s) = Some m'" "m = take n s # m'"
    by (auto dest!: first_some_SomeD simp: eq_commute [of "Some _"])
  have "derives (Cap k P # r) (take n s @ drop n s) (take n s # m')"
    using 4(1) [OF n(1,2)] greedyD [OF n(1)] by (intro derives.Cap) auto
  then show ?case using n(3) by simp
qed

lemma first_some_mem: "x \<in> set xs \<Longrightarrow> x \<noteq> None \<Longrightarrow> first_some xs \<noteq> None"
  by (auto simp: first_some_None)

lemma match_here_complete: "derives r s m \<Longrightarrow> match_here r s \<noteq> None"
proof (induction rule: derives.induct)
  case (Rep k u P r s m)
  then have "length u \<in> set (greedy k P (u @ s))" by (simp add: greedy_mem)
  then have "match_here r (drop (length u) (u @ s)) \<in> set (map (\<lambda>n. match_here r (drop n (u @ s))) (greedy k P (u @ s)))"
    unfolding set_map by (rule imageI)
  from first_some_mem [OF this] Rep.IH show ?case by simp
next
  case (Cap k u P r s m)
  then have "length u \<in> set (greedy k P (u @ s))" by (simp add: greedy_mem)
  then have "map_option ((#) (take (length u) (u @ s))) (match_here r (drop (length u) (u @ s))) \<in>
      set (map (\<lambda>n. map_option ((#) (take n (u @ s))) (match_here r (drop n (u @ s)))) (greedy k P (u @ s)))"
    unfolding set_map by (rule imageI)
  from first_some_mem [OF this] Cap.IH show ?case by simp
qed simp_all

lemma FindStringSubmatch_sound: "FindStringSubmatch r s = Some m \<Longrightarrow> \<exists>i. derives r (drop i s) m"
proof (induction r s rule: FindStringSubmatch.induct)
  case (1 r)
  then show ?case by (auto dest: match_here_sound)
next
  case (2 r c s)
  then show ?case
    by (auto split: option.splits dest: match_here_sound intro: exI [of _ 0] exI [of _ "Suc _"])
       (metis drop0 drop_Suc_Cons match_here_sound)+
qed

lemma FindStringSubmatch_complete: "derives r (drop i s) m \<Longrightarrow> FindStringSubmatch r s \<noteq> None"
proof (induction r s arbitrary: i rule: FindStringSubmatch.induct)
  case (1 r)
  then show ?case by (simp add: match_here_complete)
next
  case (2 r c s)
  then show ?case by (cases i) (auto dest: match_here_complete split: option.splits)
qed

text \<open>A repetition that takes everything it can and lets the rest match is the first choice.\<close>

lemma greedy_first:
  assumes "takeWhile P s = u" and "k \<le> length u"
  shows "\<exists>ns. greedy k P s = length u # ns"
  using assms by (simp add: greedy_def)

lemma match_Rep:
  assumes "\<forall>c \<in> set u. P c" and "s = [] \<or> \<not> P (hd s)" and "k \<le> length u" and "match_here r s = Some m"
  shows "match_here (Rep k P # r) (u @ s) = Some m"
proof -
  have "takeWhile P (u @ s) = u" using assms(1,2) by (cases s) (simp_all add: takeWhile_append)
  from greedy_first [OF this assms(3)] assms(4) show ?thesis by auto
qed

lemma match_Cap:
  assumes "\<forall>c \<in> set u. P c" and "s = [] \<or> \<not> P (hd s)" and "k \<le> length u" and "match_here r s = Some m"
  shows "match_here (Cap k P # r) (u @ s) = Some (u # m)"
proof -
  have "takeWhile P (u @ s) = u" using assms(1,2) by (cases s) (simp_all add: takeWhile_append)
  from greedy_first [OF this assms(3)] assms(4) show ?thesis by auto
qed

lemma match_Lit: "match_here r s = Some m \<Longrightarrow> match_here (Lit p # r) (p @ s) = Some m"
  by simp

declare match_here.simps [simp del]

lemma FindStringSubmatch_here: "match_here r s = Some m \<Longrightarrow> FindStringSubmatch r s = Some m"
  by (cases s) simp_all

lemma FindStringSubmatch_no_start: "c \<notin> set s \<Longrightarrow> FindStringSubmatch (Lit (c # p) # r) s = None"
  by (induction s) (auto simp: HasPrefix_def match_here.simps)

lemma MatchString_here: "match_here r s = Some m \<Longrightarrow> MatchString r s"
  by (simp add: MatchString_def FindStringSubmatch_here)

lemma MatchString_other:
  "c \<notin> set s \<Longrightarrow> \<not> HasPrefix (a # s) (c # p) \<Longrightarrow> \<not> MatchString (Lit (c # p) # r) (a # s)"
  by (simp add: MatchString_def FindStringSubmatch_no_start match_here.simps)

section \<open>Captured texts\<close>

lemma set_TrimSpace: "set (TrimSpace s) \<subseteq> set s"
  unfolding TrimSpace_def by (auto dest!: set_dropWhileD)

lemma TrimSpace_id: "s \<noteq> [] \<Longrightarrow> \<not> is_space (hd s) \<Longrightarrow> \<not> is_space (last s) \<Longrightarrow> TrimSpace s = s"
proof -
  assume s: "s \<noteq> []" "\<not> is_space (hd s)" "\<not> is_space (last s)"
  have "dropWhile is_space s = s" using s(1,2) by (cases s) simp_all
  moreover have "dropWhile is_space (rev s) = rev s" using s(1,3) by (cases s rule: rev_cases) simp_all
  ultimately show ?thesis by (simp add: TrimSpace_def)
qed

lemma rx_word_not_space: "rx_word c \<Longrightarrow> \<not> is_space c"
  by (auto simp: rx_word_def is_space_def Let_def)

lemma TrimSpace_word: "\<forall>c \<in> set s. rx_word c \<Longrightarrow> TrimSpace s = s"
  by (cases "s = []") (simp_all add: TrimSpace_id rx_word_not_space, simp add: TrimSpace_def)

lemma goRoute_captures:
  assumes "FindStringSubmatch goRouteRe s = Some m"
  shows "\<exists>m1 m2. m = [m1, m2] \<and> m1 \<noteq> [] \<and> (\<forall>c \<in> set m1. rx_word c) \<and> CHR '')'' \<notin> set m2"
  using FindStringSubmatch_sound [OF assms] unfolding goRouteRe_def
  by (auto elim!: derives_elims)

lemma tsPage_captures:
  assumes "FindStringSubmatch tsPageRe s = Some m"
  shows "\<exists>m1. m = [m1] \<and> CHR '')'' \<notin> set m1"
  using FindStringSubmatch_sound [OF assms] unfolding tsPageRe_def
  by (auto elim!: derives_elims)

lemma tsxPage_captures: "match_here tsxPageRe s = Some m \<Longrightarrow> \<exists>m1. m = [m1] \<and> CHR '')'' \<notin> set m1"
  unfolding tsxPageRe_def by (drule match_here_sound) (auto elim!: derives_elims)

lemma tsxAuth_captures: "match_here tsxAuthRe s = Some m \<Longrightarrow> \<exists>m1. m = [m1]"
  unfolding tsxAuthRe_def by (drule match_here_sound) (auto elim!: derives_elims)

lemma roles_of_nonempty: "[] \<notin> set (roles_of a)"
  by (auto simp: roles_of_def annot_roles_def split: option.split list.split)

section \<open>Parsers are total\<close>

text \<open>
  A scanner works line by line. \<open>line_scanner\<close> is what the parsers need of the treatment of a line: from a state in order it does not
  panic, leaves the state in order and counts the line.
\<close>

locale line_scanner =
  fixes step :: "string \<Rightarrow> 's \<Rightarrow> 's option"
    and lineNum :: "'s \<Rightarrow> int"
    and ok :: "'s \<Rightarrow> bool"
  assumes step_ok: "ok s \<Longrightarrow> \<exists>s'. step l s = Some s' \<and> ok s' \<and> lineNum s' = lineNum s + 1"
begin

lemma scan_total:
  "ok s \<Longrightarrow> \<exists>s'. scan_all step ls s = Some s' \<and> ok s' \<and> lineNum s' = lineNum s + int (length ls)"
proof (induction ls arbitrary: s)
  case (Cons l ls)
  obtain t where t: "step l s = Some t" "ok t" "lineNum t = lineNum s + 1" using step_ok [OF Cons.prems] by blast
  then show ?case using Cons.IH [OF t(2)] by auto
qed simp

end

text \<open>What a scanned route looks like: where it comes from, an upper case method, no bracket in the path, no empty role.\<close>

definition scanned :: "string \<Rightarrow> string \<Rightarrow> int \<Rightarrow> route \<Rightarrow> bool" where
  "scanned path workerID n r \<longleftrightarrow>
     rt_File r = path \<and> rt_WorkerID r = workerID \<and> 1 \<le> rt_Line r \<and> rt_Line r \<le> n \<and> rt_Type r \<in> {''api'', ''page''} \<and>
     rt_Method r \<noteq> [] \<and> ToUpper (rt_Method r) = rt_Method r \<and> CHR '')'' \<notin> set (rt_Path r) \<and> [] \<notin> set (rt_AuthRoles r)"

definition scan_ok :: "string \<Rightarrow> string \<Rightarrow> scan_state \<Rightarrow> bool" where
  "scan_ok path workerID s \<longleftrightarrow>
     0 \<le> ss_lineNum s \<and> ss_errs s = [] \<and>
     (ss_route s \<noteq> [] \<longrightarrow> MatchString goRouteRe (ss_route s)) \<and> (ss_page s \<noteq> [] \<longrightarrow> MatchString tsPageRe (ss_page s)) \<and>
     (ss_route s \<noteq> [] \<or> ss_page s \<noteq> [] \<longrightarrow> 1 \<le> ss_routeLine s \<and> ss_routeLine s \<le> ss_lineNum s) \<and>
     set (ss_routes s) \<subseteq> Collect (scanned path workerID (ss_lineNum s))"

lemma scanned_mono: "scanned path w n r \<Longrightarrow> n \<le> n' \<Longrightarrow> scanned path w n' r"
  by (simp add: scanned_def)

lemma scan_ok_init: "scan_ok path w scan_init"
  by (simp add: scan_ok_def scan_init_def)

lemma scan_ok_next: "scan_ok path w s \<Longrightarrow> scan_ok path w (s\<lparr>ss_lineNum := ss_lineNum s + 1\<rparr>)"
  by (auto simp: scan_ok_def intro: scanned_mono)

lemma scan_ok_reset: "scan_ok path w s \<Longrightarrow> scan_ok path w (reset_pending s) \<and> ss_lineNum (reset_pending s) = ss_lineNum s"
  by (simp add: scan_ok_def reset_pending_def)

lemma buildRoute_scanned:
  assumes "MatchString goRouteRe a" and "1 \<le> l" and "l \<le> n"
  shows "\<exists>r. buildRoute path l a v au w = Some r \<and> scanned path w n r"
proof -
  obtain m where m: "FindStringSubmatch goRouteRe a = Some m" using assms(1) by (auto simp: MatchString_def)
  obtain m1 m2 where c: "m = [m1, m2]" "m1 \<noteq> []" "\<forall>c \<in> set m1. rx_word c" "CHR '')'' \<notin> set m2"
    using goRoute_captures [OF m] by blast
  have "CHR '')'' \<notin> set (TrimSpace m2)" using c(4) set_TrimSpace by blast
  then show ?thesis
    using m c assms(2,3) roles_of_nonempty [of au]
    by (simp add: buildRoute_def scanned_def TrimSpace_word) (simp add: ToUpper_def)
qed

lemma buildTSRoute_scanned:
  assumes "scan_ok path w s" and "ss_route s \<noteq> [] \<or> ss_page s \<noteq> []"
  shows "\<exists>r. buildTSRoute path (ss_routeLine s) (ss_route s) (ss_page s) v au w = Some (Inr r) \<and> scanned path w (ss_lineNum s) r"
proof (cases "ss_route s = []")
  case True
  then obtain m where m: "FindStringSubmatch tsPageRe (ss_page s) = Some m"
    using assms by (auto simp: scan_ok_def MatchString_def)
  obtain m1 where c: "m = [m1]" "CHR '')'' \<notin> set m1" using tsPage_captures [OF m] by blast
  have "CHR '')'' \<notin> set (TrimSpace m1)" using c(2) set_TrimSpace by blast
  then show ?thesis
    using True assms m c roles_of_nonempty [of au]
    by (simp add: buildTSRoute_def scanned_def scan_ok_def) (simp add: ToUpper_def upper_char_def)
next
  case False
  then have f: "MatchString goRouteRe (ss_route s)" "1 \<le> ss_routeLine s" "ss_routeLine s \<le> ss_lineNum s"
    using assms by (simp_all add: scan_ok_def)
  obtain r where "buildRoute path (ss_routeLine s) (ss_route s) v au w = Some r" "scanned path w (ss_lineNum s) r"
    using buildRoute_scanned [OF f] by blast
  then show ?thesis
    using False by (auto simp: buildTSRoute_def buildRoute_def split: option.splits list.splits)
qed

lemma add_pending_ok:
  assumes "scan_ok path w s"
  shows "\<exists>s'. add_pending path w s = Some s' \<and> scan_ok path w s' \<and> ss_lineNum s' = ss_lineNum s"
proof (cases "ss_route s = []")
  case False
  then have f: "MatchString goRouteRe (ss_route s)" "1 \<le> ss_routeLine s" "ss_routeLine s \<le> ss_lineNum s"
    using assms by (simp_all add: scan_ok_def)
  obtain r where "buildRoute path (ss_routeLine s) (ss_route s) (ss_validate s) (ss_auth s) w = Some r" "scanned path w (ss_lineNum s) r"
    using buildRoute_scanned [OF f] by blast
  then show ?thesis using False assms by (auto simp: add_pending_def scan_ok_def)
qed (use assms in \<open>simp add: add_pending_def\<close>)

lemma ts_add_pending_ok:
  assumes "scan_ok path w s"
  shows "\<exists>s'. ts_add_pending path w s = Some s' \<and> scan_ok path w s' \<and> ss_lineNum s' = ss_lineNum s"
proof (cases "ss_route s = [] \<and> ss_page s = []")
  case False
  then obtain r where "buildTSRoute path (ss_routeLine s) (ss_route s) (ss_page s) (ss_validate s) (ss_auth s) w = Some (Inr r)"
      "scanned path w (ss_lineNum s) r"
    using buildTSRoute_scanned [OF assms] by blast
  then show ?thesis using False assms by (auto simp: ts_add_pending_def scan_ok_def)
qed (use assms in \<open>simp add: ts_add_pending_def\<close>)

lemma note_comment_ok:
  "scan_ok path w s \<Longrightarrow> 1 \<le> ss_lineNum s \<Longrightarrow> scan_ok path w (note_comment c s) \<and> ss_lineNum (note_comment c s) = ss_lineNum s"
  "scan_ok path w s \<Longrightarrow> 1 \<le> ss_lineNum s \<Longrightarrow> scan_ok path w (ts_note_comment c s) \<and> ss_lineNum (ts_note_comment c s) = ss_lineNum s"
  by (simp_all add: scan_ok_def note_comment_def ts_note_comment_def)

lemma pending_flushed:
  assumes "scan_ok path w s"
  shows "\<exists>s'. map_option reset_pending (add_pending path w s) = Some s' \<and> scan_ok path w s' \<and> ss_lineNum s' = ss_lineNum s"
    and "\<exists>s'. map_option reset_pending (ts_add_pending path w s) = Some s' \<and> scan_ok path w s' \<and> ss_lineNum s' = ss_lineNum s"
  using add_pending_ok [OF assms] ts_add_pending_ok [OF assms] scan_ok_reset by fastforce+

lemma line_ok:
  assumes "scan_ok path w s"
  shows "\<exists>s'. go_line path w l s = Some s' \<and> scan_ok path w s' \<and> ss_lineNum s' = ss_lineNum s + 1"
    and "\<exists>s'. py_line path w l s = Some s' \<and> scan_ok path w s' \<and> ss_lineNum s' = ss_lineNum s + 1"
    and "\<exists>s'. ts_line path w l s = Some s' \<and> scan_ok path w s' \<and> ss_lineNum s' = ss_lineNum s + 1"
proof -
  let ?s = "s\<lparr>ss_lineNum := ss_lineNum s + 1\<rparr>"
  have ok: "scan_ok path w ?s" "1 \<le> ss_lineNum ?s" using scan_ok_next [OF assms] assms by (simp_all add: scan_ok_def)
  note facts = pending_flushed [OF ok(1)] note_comment_ok [OF ok] ok(1)
  show "\<exists>s'. go_line path w l s = Some s' \<and> scan_ok path w s' \<and> ss_lineNum s' = ss_lineNum s + 1"
    using facts by (simp add: go_line_def Let_def)
  show "\<exists>s'. py_line path w l s = Some s' \<and> scan_ok path w s' \<and> ss_lineNum s' = ss_lineNum s + 1"
    using facts by (simp add: py_line_def Let_def)
  show "\<exists>s'. ts_line path w l s = Some s' \<and> scan_ok path w s' \<and> ss_lineNum s' = ss_lineNum s + 1"
    using facts by (simp add: ts_line_def Let_def)
qed

interpretation go: line_scanner "go_line path w" ss_lineNum "scan_ok path w" for path w
  by unfold_locales (rule line_ok(1))

interpretation py: line_scanner "py_line path w" ss_lineNum "scan_ok path w" for path w
  by unfold_locales (rule line_ok(2))

interpretation ts: line_scanner "ts_line path w" ss_lineNum "scan_ok path w" for path w
  by unfold_locales (rule line_ok(3))

definition page :: "string \<Rightarrow> string \<Rightarrow> int \<Rightarrow> route \<Rightarrow> bool" where
  "page path workerID n r \<longleftrightarrow>
     rt_File r = path \<and> rt_WorkerID r = workerID \<and> 1 \<le> rt_Line r \<and> rt_Line r \<le> n \<and> rt_Type r = ''page'' \<and> rt_Method r = ''GET'' \<and>
     rt_Validate r = [] \<and> rt_Path r \<noteq> [] \<and> CHR '')'' \<notin> set (rt_Path r)"

definition tsx_ok :: "string \<Rightarrow> string \<Rightarrow> tsx_state \<Rightarrow> bool" where
  "tsx_ok path workerID s \<longleftrightarrow>
     0 \<le> tx_lineNum s \<and> set_option (tx_pending s) \<subseteq> Collect (page path workerID (tx_lineNum s)) \<and>
     set (tx_routes s) \<subseteq> Collect (page path workerID (tx_lineNum s))"

lemma tsx_ok_flush: "tsx_ok path w s \<Longrightarrow> tsx_ok path w (flush_page s) \<and> tx_lineNum (flush_page s) = tx_lineNum s \<and> tx_pending (flush_page s) = None"
  by (auto simp: tsx_ok_def flush_page_def split: option.splits)

lemma tsx_line_ok:
  assumes "tsx_ok path w s"
  shows "\<exists>s'. tsx_line path w l s = Some s' \<and> tsx_ok path w s' \<and> tx_lineNum s' = tx_lineNum s + 1"
proof -
  let ?s = "s\<lparr>tx_lineNum := tx_lineNum s + 1\<rparr>"
  have ok: "tsx_ok path w ?s" using assms by (auto simp: tsx_ok_def page_def)
  have pos: "0 \<le> tx_lineNum s" using assms by (simp add: tsx_ok_def)
  note fl = tsx_ok_flush [OF ok]
  show ?thesis
  proof (cases "match_here tsxPageRe l")
    case (Some m)
    obtain m1 where m1: "m = [m1]" "CHR '')'' \<notin> set m1" using tsxPage_captures [OF Some] by blast
    have "CHR '')'' \<notin> set (TrimSpace m1)" using m1(2) set_TrimSpace by blast
    then show ?thesis using Some m1(1) fl pos by (auto simp: tsx_line_def Let_def tsx_ok_def page_def)
  next
    case None
    show ?thesis
    proof (cases "match_here tsxAuthRe l = None \<or> tx_pending s = None")
      case True
      then show ?thesis using None ok fl by (auto simp: tsx_line_def Let_def split: option.split)
    next
      case False
      then obtain m p where m: "match_here tsxAuthRe l = Some m" "tx_pending s = Some p" by auto
      obtain m1 where "m = [m1]" using tsxAuth_captures [OF m(1)] by blast
      then show ?thesis using None ok m by (auto simp: tsx_line_def Let_def tsx_ok_def page_def)
    qed
  qed
qed

interpretation tsx: line_scanner "tsx_line path w" tx_lineNum "tsx_ok path w" for path w
  by unfold_locales (rule tsx_line_ok)

lemma scan_finish:
  assumes "\<exists>s. scan_all f ls scan_init = Some s \<and> scan_ok path w s \<and> ss_lineNum s = ss_lineNum scan_init + int n"
    and "\<And>s. scan_ok path w s \<Longrightarrow> \<exists>s'. add s = Some s' \<and> scan_ok path w s' \<and> ss_lineNum s' = ss_lineNum s"
  shows "\<exists>rs. (case scan_all f ls scan_init of None \<Rightarrow> None | Some s \<Rightarrow> map_option result_of (add s)) = Some (rs, []) \<and>
    set rs \<subseteq> Collect (scanned path w (int n))"
proof -
  obtain s where s: "scan_all f ls scan_init = Some s" "scan_ok path w s" "ss_lineNum s = int n"
    using assms(1) by (auto simp: scan_init_def)
  obtain s' where "add s = Some s'" "scan_ok path w s'" "ss_lineNum s' = ss_lineNum s" using assms(2) [OF s(2)] by blast
  then show ?thesis using s by (simp add: result_of_def scan_ok_def)
qed

lemma parse_line_total:
  "\<exists>rs. parseGoFile (Inr content) path w = Some (rs, []) \<and> set rs \<subseteq> Collect (scanned path w (int (length (scan_lines content))))"
  "\<exists>rs. parsePyFile (Inr content) path w = Some (rs, []) \<and> set rs \<subseteq> Collect (scanned path w (int (length (scan_lines content))))"
  "\<exists>rs. parseTSFile (Inr content) path w = Some (rs, []) \<and> set rs \<subseteq> Collect (scanned path w (int (length (scan_lines content))))"
  unfolding parseGoFile_def parsePyFile_def parseTSFile_def sum.case
  by (intro scan_finish go.scan_total py.scan_total ts.scan_total scan_ok_init add_pending_ok ts_add_pending_ok; assumption)+

lemma parse_page_total:
  "\<exists>rs es. parseTSXFile (Inr content) path w = Some (rs, es) \<and> set rs \<subseteq> Collect (page path w (int (length (scan_lines content))))"
proof -
  have t: "tsx_ok path w tsx_init" "tx_lineNum tsx_init = 0" by (simp_all add: tsx_ok_def tsx_init_def)
  obtain s where s: "scan_all (tsx_line path w) (scan_lines content) tsx_init = Some s" "tsx_ok path w s" "tx_lineNum s = int (length (scan_lines content))"
    using tsx.scan_total [OF t(1)] t(2) by fastforce
  then show ?thesis using tsx_ok_flush [OF s(2)] by (auto simp: parseTSXFile_def tsx_ok_def)
qed

text \<open>
  C34: The parsers return for every text: no index is out of range, every route carries its file, its worker and a line of the file, an
  upper case method and a path without a closing bracket, only the page scanner reports errors, and the roles of the line scanners
  are not empty.
\<close>
theorem parsers_total:
  "(\<exists>rs. parseGoFile (Inr content) path w = Some (rs, []) \<and> set rs \<subseteq> Collect (scanned path w (int (length (scan_lines content))))) \<and>
   (\<exists>rs. parsePyFile (Inr content) path w = Some (rs, []) \<and> set rs \<subseteq> Collect (scanned path w (int (length (scan_lines content))))) \<and>
   (\<exists>rs. parseTSFile (Inr content) path w = Some (rs, []) \<and> set rs \<subseteq> Collect (scanned path w (int (length (scan_lines content))))) \<and>
   (\<exists>rs es. parseTSXFile (Inr content) path w = Some (rs, es) \<and> set rs \<subseteq> Collect (page path w (int (length (scan_lines content)))))"
  by (intro conjI parse_line_total parse_page_total)

section \<open>Validated route lists\<close>

definition route_valid :: "route \<Rightarrow> bool" where
  "route_valid r \<longleftrightarrow>
     rt_Method r \<in> set validMethods \<and> HasPrefix (rt_Path r) ''/'' \<and>
     (rt_Method r \<in> {''POST'', ''PUT'', ''PATCH''} \<longrightarrow> rt_Validate r \<noteq> []) \<and> (rt_AuthRoles r \<noteq> [] \<or> rt_Type r = ''page'')"

definition valid_map :: "route list \<Rightarrow> bool" where
  "valid_map rs \<longleftrightarrow> list_all route_valid rs \<and> distinct (map (\<lambda>r. (rt_Method r, rt_Path r)) rs)"

lemma route_messages_Nil: "route_messages seen r = [] \<longleftrightarrow> route_valid r \<and> route_key_of r \<notin> set seen"
  by (auto simp: route_messages_def route_valid_def validateRoute_def)

lemma validate_loop_Nil:
  "validate_loop seen rs = [] \<longleftrightarrow> list_all route_valid rs \<and> distinct (map route_key_of rs) \<and> set seen \<inter> route_key_of ` set rs = {}"
  by (induction seen rs rule: validate_loop.induct) (auto simp: route_messages_Nil)

lemma method_no_space: "m \<in> set validMethods \<Longrightarrow> takeWhile (\<lambda>c. c \<noteq> CHR '' '') (m @ '' '' @ p) = m"
  by (auto simp: validMethods_def)

lemma route_key_inj:
  assumes "route_valid r" and "route_valid r'" and "route_key_of r = route_key_of r'"
  shows "rt_Method r = rt_Method r' \<and> rt_Path r = rt_Path r'"
proof -
  have "rt_Method r = rt_Method r'"
    using assms method_no_space [of "rt_Method r" "rt_Path r"] method_no_space [of "rt_Method r'" "rt_Path r'"]
    by (simp add: route_valid_def route_key_of_def)
  then show ?thesis using assms(3) by (simp add: route_key_of_def)
qed

lemma Validate_ok: "fst (Validate_routes rs) = [] \<longleftrightarrow> valid_map rs"
proof -
  have "distinct (map route_key_of rs) \<longleftrightarrow> distinct (map (\<lambda>r. (rt_Method r, rt_Path r)) rs)" if "list_all route_valid rs"
    using that
  proof (induction rs)
    case (Cons r rs)
    then have "route_key_of r \<in> route_key_of ` set rs \<longleftrightarrow> (rt_Method r, rt_Path r) \<in> (\<lambda>r. (rt_Method r, rt_Path r)) ` set rs"
      using route_key_inj [of r] by (auto simp: list_all_iff image_iff route_key_of_def)
    then show ?case using Cons by simp
  qed simp
  then show ?thesis by (auto simp: Validate_routes_def valid_map_def validate_loop_Nil)
qed

lemma parse_total:
  "\<exists>p. parseGoFile x path w = Some p" "\<exists>p. parsePyFile x path w = Some p" "\<exists>p. parseTSFile x path w = Some p" "\<exists>p. parseTSXFile x path w = Some p"
proof -
  have inl: "\<exists>p. parseGoFile (Inl err) path w = Some p" "\<exists>p. parsePyFile (Inl err) path w = Some p" "\<exists>p. parseTSFile (Inl err) path w = Some p"
    "\<exists>p. parseTSXFile (Inl err) path w = Some p" for err
    by (simp_all add: parseGoFile_def parseTSFile_def parsePyFile_def parseTSXFile_def)
  note total = inl parse_line_total parse_page_total
  show "\<exists>p. parseGoFile x path w = Some p" using total(1,5) by (cases x) metis+
  show "\<exists>p. parsePyFile x path w = Some p" using total(2,6) by (cases x) metis+
  show "\<exists>p. parseTSFile x path w = Some p" using total(3,7) by (cases x) metis+
  show "\<exists>p. parseTSXFile x path w = Some p" using total(4,8) by (cases x) metis+
qed

lemma parse_files_total:
  assumes "\<And>x path w. \<exists>p. parse x path w = Some p"
  shows "\<exists>p. parse_files wanted parse fs w = Some p"
proof (induction fs)
  case (Cons f fs)
  then show ?case using assms [of "fe_open f" "fe_path f" w] by auto
qed simp

lemma join_total: "\<exists>p. a = Some p \<Longrightarrow> \<exists>p. b = Some p \<Longrightarrow> \<exists>p. join_parsed a b = Some p"
  by (auto simp: join_parsed_def)

lemma scan_dir_total: "(\<And>fs w. \<exists>p. parse fs w = Some p) \<Longrightarrow> \<exists>p. scan_dir walk parse dir w = Some p"
  by (simp add: scan_dir_def)

lemma collect_total: "\<exists>p. collect walk d = Some p"
  unfolding collect_def ParseGoFiles_def ParseTSFiles_def ParsePyFiles_def ParseTSXFiles_def
  by (intro join_total scan_dir_total parse_files_total parse_total)

text \<open>
  \<open>route_map.json\<close> is written exactly when no file reports an error and every route is well formed: a known method, a path that starts
  with a slash, a schema on every \<open>POST\<close>, \<open>PUT\<close> and \<open>PATCH\<close>, roles on everything but pages, and no pair of method and path twice.
  What is written is the encoding of all routes of the four parsers, in their order. Reported annotation errors mean that nothing was written.
\<close>
theorem generate_writes_valid_maps:
  "\<exists>rs es g. collect walk d = Some (rs, es) \<and> Generate walk marshal mkdir writeFile d = Some g \<and>
     (ge_written g = Some data \<longleftrightarrow> es = [] \<and> valid_map rs \<and> marshal rs = Inr data \<and> mkdir = None) \<and>
     (ge_errs g = [] \<longleftrightarrow> es = [] \<and> valid_map rs)"
proof -
  obtain rs es where c: "collect walk d = Some (rs, es)" using collect_total [of walk d] by auto
  then show ?thesis
    by (auto simp: Generate_def Let_def Validate_ok [symmetric] split: sum.split option.split)
qed

section \<open>Writing annotations\<close>

text \<open>The comment block that stands for a route in a Go file, followed by a line of code.\<close>

definition quoted :: "string \<Rightarrow> string" where
  "quoted r = CHR 0x22 # r @ [CHR 0x22]"

definition route_annot :: "route \<Rightarrow> string" where
  "route_annot r = ''@Route('' @ rt_Method r @ '' '' @ rt_Path r @ '')''"

definition validate_annot :: "route \<Rightarrow> string" where
  "validate_annot r = ''@Validate('' @ rt_Validate r @ '')''"

definition auth_annot :: "route \<Rightarrow> string" where
  "auth_annot r = ''@Auth(roles: ['' @ Join (map quoted (rt_AuthRoles r)) '', '' @ ''])''"

definition go_block :: "route \<Rightarrow> string list" where
  "go_block r =
     map (\<lambda>c. ''// '' @ c)
       (route_annot r # (if rt_Validate r = [] then [] else [validate_annot r]) @ (if rt_AuthRoles r = [] then [] else [auth_annot r])) @
     [''func handler() {}'']"

definition unlines :: "string list \<Rightarrow> string" where
  "unlines ls = concat (map (\<lambda>l. l @ [CHR 0x0A]) ls)"

text \<open>Texts that survive in an annotation: no white space at the ends and none of the characters that end it.\<close>

definition token :: "char set \<Rightarrow> string \<Rightarrow> bool" where
  "token bad s \<longleftrightarrow> s \<noteq> [] \<and> \<not> is_space (hd s) \<and> \<not> is_space (last s) \<and> set s \<inter> insert (CHR 0x0A) bad = {}"

definition annotatable :: "route \<Rightarrow> bool" where
  "annotatable r \<longleftrightarrow>
     rt_Type r = ''api'' \<and> rt_Method r \<noteq> [] \<and> list_all rx_word (rt_Method r) \<and> ToUpper (rt_Method r) = rt_Method r \<and>
     token {CHR '')''} (rt_Path r) \<and> (rt_Validate r = [] \<or> token {CHR '')'', CHR ''@''} (rt_Validate r)) \<and>
     list_all (token {CHR '']'', CHR ''@'', CHR 0x22, CHR '',''}) (rt_AuthRoles r) \<and>
     list_all (\<lambda>l. length l < maxScanTokenSize) (go_block r)"

lemma tokenD: "token bad s \<Longrightarrow> s \<noteq> [] \<and> \<not> is_space (hd s) \<and> \<not> is_space (last s) \<and> TrimSpace s = s \<and> CHR 0x0A \<notin> set s \<and> (\<forall>c \<in> bad. c \<notin> set s)"
  by (auto simp: token_def TrimSpace_id)

lemma class_simps [simp]:
  "rx_space (CHR '' '')" "\<not> rx_space (CHR '')'')" "\<not> rx_space (CHR ''['')" "\<not> rx_word (CHR '' '')"
  by (simp_all add: rx_space_def rx_word_def)

lemma rx_space_is_space: "rx_space c \<Longrightarrow> is_space c"
  by (auto simp: rx_space_def is_space_def)

lemma match_route_annot:
  assumes "annotatable r"
  shows "match_here goRouteRe (route_annot r) = Some [rt_Method r, rt_Path r]"
proof -
  let ?close = "\<lambda>c. c \<noteq> CHR '')''"
  have P: "rt_Path r \<noteq> []" "\<not> rx_space (hd (rt_Path r))" "\<forall>c \<in> set (rt_Path r). c \<noteq> CHR '')''"
    using assms tokenD rx_space_is_space by (fastforce simp: annotatable_def)+
  have M: "rt_Method r \<noteq> []" "\<forall>c \<in> set (rt_Method r). rx_word c" using assms by (auto simp: annotatable_def list_all_iff)
  have hM: "\<not> rx_space (hd (rt_Method r))" using M rx_word_not_space rx_space_is_space by (meson list.set_sel(1))
  have "match_here [Lit '')''] '')'' = Some []" using match_Lit [of "[]" "[]"] by (simp add: match_here.simps)
  from match_Cap [OF P(3) _ _ this, of 1]
  have "match_here [Cap 1 ?close, Lit '')''] (rt_Path r @ '')'') = Some [rt_Path r]"
    using P(1) by (simp add: Suc_le_eq)
  from match_Rep [of "'' ''", OF _ _ _ this, of rx_space 1]
  have "match_here [Rep 1 rx_space, Cap 1 ?close, Lit '')''] ('' '' @ rt_Path r @ '')'') = Some [rt_Path r]"
    using P(1,2) by simp
  from match_Cap [OF M(2) _ _ this, of 1]
  have "match_here [Cap 1 rx_word, Rep 1 rx_space, Cap 1 ?close, Lit '')''] (rt_Method r @ '' '' @ rt_Path r @ '')'') =
      Some [rt_Method r, rt_Path r]"
    using M(1) by (simp add: Suc_le_eq)
  from match_Lit [OF match_Rep [of "[]", OF _ _ _ this, of rx_space 0], of "''@Route(''"]
  show ?thesis using M(1) hM by (simp add: goRouteRe_def route_annot_def)
qed

lemma match_validate_annot:
  assumes "token {CHR '')'', CHR ''@''} (rt_Validate r)"
  shows "match_here goValidateRe (validate_annot r) = Some [rt_Validate r]"
proof -
  let ?close = "\<lambda>c. c \<noteq> CHR '')''"
  have V: "rt_Validate r \<noteq> []" "\<not> rx_space (hd (rt_Validate r))" "\<forall>c \<in> set (rt_Validate r). c \<noteq> CHR '')''"
    using tokenD [OF assms] rx_space_is_space by auto
  have "match_here [Lit '')''] '')'' = Some []" using match_Lit [of "[]" "[]"] by (simp add: match_here.simps)
  from match_Rep [of "[]", OF _ _ _ this, of rx_space 0]
  have "match_here [Rep 0 rx_space, Lit '')''] '')'' = Some []" by simp
  from match_Cap [OF V(3) _ _ this, of 1]
  have "match_here [Cap 1 ?close, Rep 0 rx_space, Lit '')''] (rt_Validate r @ '')'') = Some [rt_Validate r]"
    using V(1) by (simp add: Suc_le_eq)
  from match_Lit [OF match_Rep [of "[]", OF _ _ _ this, of rx_space 0], of "''@Validate(''"]
  show ?thesis using V(1,2) by (simp add: goValidateRe_def validate_annot_def)
qed

lemma Join_no_char: "c \<notin> set sep \<Longrightarrow> \<forall>x \<in> set xs. c \<notin> set x \<Longrightarrow> c \<notin> set (Join xs sep)"
  by (induction xs sep rule: Join.induct) auto

lemma match_auth_annot:
  assumes "rt_AuthRoles r \<noteq> []" and "list_all (token {CHR '']'', CHR ''@'', CHR 0x22, CHR '',''}) (rt_AuthRoles r)"
  shows "match_here goAuthRe (auth_annot r) = Some [Join (map quoted (rt_AuthRoles r)) '', '']"
proof -
  let ?J = "Join (map quoted (rt_AuthRoles r)) '', ''" and ?close = "\<lambda>c. c \<noteq> CHR '']''"
  have "CHR '']'' \<notin> set ?J"
    using assms(2) by (intro Join_no_char) (auto simp: list_all_iff quoted_def dest: tokenD)
  then have J: "\<forall>c \<in> set ?J. ?close c" by auto
  have ne: "?J \<noteq> []" using assms(1) by (cases "rt_AuthRoles r" rule: remdups_adj.cases) (simp_all add: quoted_def)
  have "match_here [Lit ''])''] ''])'' = Some []" using match_Lit [of "[]" "[]"] by (simp add: match_here.simps)
  from match_Cap [OF J _ _ this, of 1]
  have "match_here [Cap 1 ?close, Lit ''])''] (?J @ ''])'') = Some [?J]" using ne by (simp add: Suc_le_eq)
  from match_Lit [OF match_Rep [of "'' ''", OF _ _ _ match_Lit [OF this, of "''[''"], of rx_space 0], of "''@Auth(roles:''"]
  show ?thesis by (simp add: goAuthRe_def auth_annot_def)
qed

lemma Trim_quoted: "token bad x \<Longrightarrow> CHR 0x22 \<in> bad \<Longrightarrow> Trim (CHR 0x22) (quoted x) = x"
proof -
  assume x: "token bad x" "CHR 0x22 \<in> bad"
  then have n: "x \<noteq> []" "CHR 0x22 \<notin> set x" using tokenD [OF x(1)] by auto
  have "dropWhile (\<lambda>c. c = CHR 0x22) (x @ [CHR 0x22]) = x @ [CHR 0x22]" using n by (cases x) auto
  moreover have "dropWhile (\<lambda>c. c = CHR 0x22) (rev x) = rev x" using n by (cases x rule: rev_cases) auto
  ultimately show ?thesis by (simp add: Trim_def quoted_def)
qed

lemma TrimSpace_quoted: "pre \<in> {[], '' ''} \<Longrightarrow> TrimSpace (pre @ quoted x) = quoted x"
  by (auto simp: TrimSpace_def quoted_def is_space_def)

lemma annot_roles_Join:
  assumes "list_all (token bad) xs" and "xs \<noteq> []" and "{CHR 0x22, CHR '',''} \<subseteq> bad" and "pre \<in> {[], '' ''}"
  shows "map (\<lambda>r. Trim (CHR 0x22) (TrimSpace r)) (Split (CHR '','') (pre @ Join (map quoted xs) '', '')) = xs"
  using assms(1,2,4)
proof (induction xs arbitrary: pre rule: induct_list012)
  case (2 x)
  then have "CHR '','' \<notin> set (pre @ quoted x)" using assms(3) tokenD [of bad x] by (auto simp: quoted_def)
  then show ?case using 2 assms(3) TrimSpace_quoted [of pre x] Trim_quoted [of bad x] by (simp add: Split_no_sep)
next
  case (3 x y zs)
  then have "CHR '','' \<notin> set (pre @ quoted x)" using assms(3) tokenD [of bad x] by (auto simp: quoted_def)
  from Split_append [OF this, of "'' '' @ Join (map quoted (y # zs)) '', ''"]
  have S: "Split (CHR '','') (pre @ Join (map quoted (x # y # zs)) '', '') = (pre @ quoted x) # Split (CHR '','') ('' '' @ Join (map quoted (y # zs)) '', '')"
    by (simp del: Split.simps)
  have IH: "map (\<lambda>r. Trim (CHR 0x22) (TrimSpace r)) (Split (CHR '','') ('' '' @ Join (map quoted (y # zs)) '', '')) = y # zs"
    by (rule "3.IH"(2)) (use "3.prems" in auto)
  show ?case unfolding S using IH "3.prems" assms(3) TrimSpace_quoted [of pre x] Trim_quoted [of bad x] by (simp del: Split.simps)
qed simp

lemma annot_shape:
  "c \<in> {route_annot r, validate_annot r, auth_annot r} \<Longrightarrow> c \<noteq> [] \<and> hd c = CHR ''@'' \<and> last c = CHR '')''"
  by (auto simp: route_annot_def validate_annot_def auth_annot_def)

lemma go_line_comment:
  assumes "c \<noteq> []" and "hd c = CHR ''@''" and "last c = CHR '')''"
  shows "go_line path w (''// '' @ c) s = Some (note_comment c (s\<lparr>ss_lineNum := ss_lineNum s + 1\<rparr>))"
proof -
  have sp: "\<not> is_space (CHR ''@'')" "\<not> is_space (CHR '')'')" "\<not> is_space (CHR ''/'')" "is_space (CHR '' '')" by (simp_all add: is_space_def)
  have t: "TrimSpace (''// '' @ c) = ''// '' @ c" using assms sp by (intro TrimSpace_id) simp_all
  have "TrimSpace c = c" using assms sp by (intro TrimSpace_id) simp_all
  then have "TrimSpace (CHR '' '' # c) = c" using sp(4) by (simp add: TrimSpace_def)
  then show ?thesis using t by (simp add: go_line_def Let_def TrimPrefix_def HasPrefix_def)
qed

lemma note_annotations:
  assumes "annotatable r"
  shows "note_comment (route_annot r) s = s\<lparr>ss_route := route_annot r, ss_routeLine := ss_lineNum s\<rparr>"
    and "rt_Validate r \<noteq> [] \<Longrightarrow> note_comment (validate_annot r) s = s\<lparr>ss_validate := validate_annot r\<rparr>"
    and "rt_AuthRoles r \<noteq> [] \<Longrightarrow> note_comment (auth_annot r) s = s\<lparr>ss_auth := auth_annot r\<rparr>"
proof -
  show "note_comment (route_annot r) s = s\<lparr>ss_route := route_annot r, ss_routeLine := ss_lineNum s\<rparr>"
    using MatchString_here [OF match_route_annot [OF assms]] by (simp add: note_comment_def)
  show "note_comment (validate_annot r) s = s\<lparr>ss_validate := validate_annot r\<rparr>" if "rt_Validate r \<noteq> []"
  proof -
    have t: "token {CHR '')'', CHR ''@''} (rt_Validate r)" using assms that by (simp add: annotatable_def)
    have "\<not> MatchString goRouteRe (validate_annot r)"
      using tokenD [OF t] MatchString_other [of "CHR ''@''" "''Validate('' @ rt_Validate r @ '')''" "CHR ''@''"]
      by (simp add: goRouteRe_def validate_annot_def HasPrefix_def)
    then show ?thesis using MatchString_here [OF match_validate_annot [OF t]] by (simp add: note_comment_def)
  qed
  show "note_comment (auth_annot r) s = s\<lparr>ss_auth := auth_annot r\<rparr>" if "rt_AuthRoles r \<noteq> []"
  proof -
    have t: "list_all (token {CHR '']'', CHR ''@'', CHR 0x22, CHR '',''}) (rt_AuthRoles r)" using assms by (simp add: annotatable_def)
    have "CHR ''@'' \<notin> set (Join (map quoted (rt_AuthRoles r)) '', '')"
      using t by (intro Join_no_char) (auto simp: list_all_iff quoted_def dest: tokenD)
    then have "\<not> MatchString goRouteRe (auth_annot r)" "\<not> MatchString goValidateRe (auth_annot r)"
      using MatchString_other [of "CHR ''@''" "''Auth(roles: ['' @ Join (map quoted (rt_AuthRoles r)) '', '' @ ''])''" "CHR ''@''"]
      by (simp_all add: goRouteRe_def goValidateRe_def auth_annot_def HasPrefix_def)
    then show ?thesis using MatchString_here [OF match_auth_annot [OF that t]] by (simp add: note_comment_def)
  qed
qed

lemma build_annotated:
  assumes "annotatable r"
  shows "buildRoute path l (route_annot r) (if rt_Validate r = [] then [] else validate_annot r)
      (if rt_AuthRoles r = [] then [] else auth_annot r) w = Some (r\<lparr>rt_File := path, rt_WorkerID := w, rt_Line := l\<rparr>)"
proof -
  have v: "validate_of (if rt_Validate r = [] then [] else validate_annot r) = rt_Validate r"
  proof (cases "rt_Validate r = []")
    case False
    then have t: "token {CHR '')'', CHR ''@''} (rt_Validate r)" using assms by (simp add: annotatable_def)
    then show ?thesis
      using False FindStringSubmatch_here [OF match_validate_annot [OF t]] tokenD [OF t] by (simp add: validate_of_def validate_annot_def)
  qed (simp add: validate_of_def)
  have a: "roles_of (if rt_AuthRoles r = [] then [] else auth_annot r) = rt_AuthRoles r"
  proof (cases "rt_AuthRoles r = []")
    case False
    have t: "list_all (token {CHR '']'', CHR ''@'', CHR 0x22, CHR '',''}) (rt_AuthRoles r)" using assms by (simp add: annotatable_def)
    then have "[] \<notin> set (rt_AuthRoles r)" by (auto simp: list_all_iff token_def)
    then have "annot_roles (Join (map quoted (rt_AuthRoles r)) '', '') = rt_AuthRoles r"
      using annot_roles_Join [OF t False, of "[]"] by (auto simp: annot_roles_def filter_id_conv)
    then show ?thesis
      using False FindStringSubmatch_here [OF match_auth_annot [OF False t]] by (simp add: roles_of_def auth_annot_def)
  qed (simp add: roles_of_def)
  have "TrimSpace (rt_Path r) = rt_Path r" "TrimSpace (rt_Method r) = rt_Method r" "ToUpper (rt_Method r) = rt_Method r" "rt_Type r = ''api''"
    using assms tokenD TrimSpace_word by (auto simp: annotatable_def list_all_iff)
  then show ?thesis
    using v a FindStringSubmatch_here [OF match_route_annot [OF assms]] by (simp add: buildRoute_def)
qed

text \<open>No annotation is pending.\<close>

definition idle :: "scan_state \<Rightarrow> bool" where
  "idle s \<longleftrightarrow> ss_route s = [] \<and> ss_validate s = [] \<and> ss_auth s = [] \<and> ss_page s = []"

lemma scan_all_append:
  "scan_all f (ls @ ls') s = (case scan_all f ls s of None \<Rightarrow> None | Some s' \<Rightarrow> scan_all f ls' s')"
  by (induction ls arbitrary: s) (auto split: option.split)

lemma go_line_code:
  "\<not> HasPrefix (TrimSpace l) ''//'' \<Longrightarrow> go_line path w l s =
     (let s1 = s\<lparr>ss_lineNum := ss_lineNum s + 1\<rparr> in if ss_route s = [] then Some s1 else map_option reset_pending (add_pending path w s1))"
  by (simp add: go_line_def Let_def)

lemma scan_go_block:
  assumes "annotatable r" and "idle s"
  shows "\<exists>s'. scan_all (go_line path w) (go_block r) s = Some s' \<and> idle s' \<and> ss_errs s' = ss_errs s \<and>
    ss_routes s' = ss_routes s @ [r\<lparr>rt_File := path, rt_WorkerID := w, rt_Line := ss_lineNum s + 1\<rparr>]"
proof -
  have code: "\<not> HasPrefix (TrimSpace ''func handler() {}'') ''//''" by (simp add: TrimSpace_def is_space_def HasPrefix_def)
  have ne: "route_annot r \<noteq> []" by (simp add: route_annot_def)
  have lines: "go_line path w (CHR ''/'' # CHR ''/'' # CHR '' '' # c) t = Some (note_comment c (t\<lparr>ss_lineNum := ss_lineNum t + 1\<rparr>))"
    if "c \<in> {route_annot r, validate_annot r, auth_annot r}" for c t
    using go_line_comment [of c path w t] annot_shape [OF that] by simp
  note noted = note_annotations [OF assms(1)]
  have i: "ss_validate s = []" "ss_auth s = []" using assms(2) by (simp_all add: idle_def)
  show ?thesis
    using build_annotated [OF assms(1), of path "ss_lineNum s + 1" w] ne i noted go_line_code [OF code]
    by (cases "rt_Validate r = []"; cases "rt_AuthRoles r = []")
       (simp_all add: go_block_def lines idle_def reset_pending_def add_pending_def Let_def)
qed

definition located :: "string \<Rightarrow> string \<Rightarrow> route \<Rightarrow> route" where
  "located path workerID r = r\<lparr>rt_File := path, rt_WorkerID := workerID, rt_Line := 0\<rparr>"

lemma scan_go_blocks:
  assumes "list_all annotatable rs" and "idle s"
  shows "\<exists>s'. scan_all (go_line path w) (concat (map go_block rs)) s = Some s' \<and> idle s' \<and> ss_errs s' = ss_errs s \<and>
    map (\<lambda>r. r\<lparr>rt_Line := 0\<rparr>) (ss_routes s') = map (\<lambda>r. r\<lparr>rt_Line := 0\<rparr>) (ss_routes s) @ map (located path w) rs"
  using assms
proof (induction rs arbitrary: s)
  case (Cons r rs)
  obtain t where t: "scan_all (go_line path w) (go_block r) s = Some t" "idle t" "ss_errs t = ss_errs s"
      "ss_routes t = ss_routes s @ [r\<lparr>rt_File := path, rt_WorkerID := w, rt_Line := ss_lineNum s + 1\<rparr>]"
    using scan_go_block [of r s path w] Cons.prems by auto
  show ?case using Cons.IH [OF _ t(2)] Cons.prems(1) t by (simp add: scan_all_append located_def)
qed simp

lemma Split_unlines: "\<forall>l \<in> set ls. CHR 0x0A \<notin> set l \<Longrightarrow> Split (CHR 0x0A) (unlines ls) = ls @ [[]]"
  by (induction ls) (simp_all add: unlines_def Split_append)

lemma scan_lines_unlines:
  assumes "\<forall>l \<in> set ls. CHR 0x0A \<notin> set l \<and> (l = [] \<or> last l \<noteq> CHR 0x0D) \<and> length l < maxScanTokenSize"
  shows "scan_lines (unlines ls) = ls"
proof -
  have tw: "takeWhile (\<lambda>l. length l < maxScanTokenSize) ls = ls" using assms by (simp add: takeWhile_eq_all_conv)
  have "map drop_cr ls = ls" using assms by (intro map_idI) (auto simp: drop_cr_def)
  then show ?thesis using assms by (simp add: scan_lines_def Split_unlines tw)
qed

lemma go_block_lines:
  assumes "annotatable r" and "l \<in> set (go_block r)"
  shows "CHR 0x0A \<notin> set l \<and> (l = [] \<or> last l \<noteq> CHR 0x0D) \<and> length l < maxScanTokenSize"
proof -
  have m: "CHR 0x0A \<notin> set (rt_Method r)" using assms(1) by (auto simp: annotatable_def list_all_iff rx_word_def Let_def)
  have p: "CHR 0x0A \<notin> set (rt_Path r)" "CHR 0x0A \<notin> set (rt_Validate r)" using assms(1) tokenD by (auto simp: annotatable_def)
  have "CHR 0x0A \<notin> set (Join (map quoted (rt_AuthRoles r)) '', '')"
    using assms(1) by (intro Join_no_char) (auto simp: annotatable_def list_all_iff quoted_def dest: tokenD)
  then have "CHR 0x0A \<notin> set l" using assms(2) m p by (auto simp: go_block_def route_annot_def validate_annot_def auth_annot_def split: if_splits)
  moreover have "last l \<noteq> CHR 0x0D" using assms(2) by (auto simp: go_block_def route_annot_def validate_annot_def auth_annot_def split: if_splits)
  ultimately show ?thesis using assms by (auto simp: annotatable_def list_all_iff)
qed


definition ex_route :: "string \<Rightarrow> string \<Rightarrow> string list \<Rightarrow> string \<Rightarrow> route" where
  "ex_route m p roles v =
     \<lparr>rt_Path = p, rt_Method = m, rt_WorkerID = [], rt_AuthRoles = roles, rt_Validate = v, rt_Type = ''api'', rt_File = [], rt_Line = 0\<rparr>"

lemma ex_annotatable:
  "annotatable (ex_route ''GET'' ''/u/:id'' [''user'', ''admin''] [])" "annotatable (ex_route ''POST'' ''/u'' [''admin''] ''NewUser'')"
  by (simp_all add: annotatable_def ex_route_def token_def rx_word_def ToUpper_def upper_char_def is_space_def go_block_def
      route_annot_def validate_annot_def auth_annot_def quoted_def maxScanTokenSize_def)


section \<open>Annotations that outlive their block\<close>

definition comment_of :: "string \<Rightarrow> string" where
  "comment_of l = TrimSpace (TrimPrefix (TrimSpace l) ''//'')"

lemma scan_code:
  assumes "\<forall>l \<in> set code. \<not> HasPrefix (TrimSpace l) ''//''" and "ss_route s = []"
  shows "scan_all (go_line path w) code s = Some (s\<lparr>ss_lineNum := ss_lineNum s + int (length code)\<rparr>)"
  using assms by (induction code arbitrary: s) (simp_all add: go_line_code Let_def algebra_simps)

text \<open>
  An \<open>@Auth\<close> comment that belongs to no route is not forgotten: pending annotations are only cleared together with a route, so whatever code
  follows, the next \<open>@Route\<close> of the file, though it has no \<open>@Auth\<close> of its own, gets the roles of that comment.
\<close>
theorem dangling_auth_is_inherited:
  assumes "scan_lines content = al # code @ [rl]"
    and "HasPrefix (TrimSpace al) ''//''" and "MatchString goAuthRe (comment_of al)"
    and "\<not> MatchString goRouteRe (comment_of al)" and "\<not> MatchString goValidateRe (comment_of al)"
    and "\<forall>l \<in> set code. \<not> HasPrefix (TrimSpace l) ''//''"
    and "HasPrefix (TrimSpace rl) ''//''" and "MatchString goRouteRe (comment_of rl)"
  shows "\<exists>r. parseGoFile (Inr content) path w = Some ([r], []) \<and> rt_AuthRoles r = roles_of (comment_of al)"
proof -
  let ?s = "scan_init\<lparr>ss_auth := comment_of al, ss_lineNum := 1 + int (length code)\<rparr>"
  have "go_line path w al scan_init = Some (scan_init\<lparr>ss_auth := comment_of al, ss_lineNum := 1\<rparr>)"
    using assms(2-5) by (simp add: go_line_def Let_def note_comment_def comment_of_def scan_init_def)
  then have "scan_all (go_line path w) (al # code) scan_init = Some ?s"
    using scan_code [OF assms(6), of "scan_init\<lparr>ss_auth := comment_of al, ss_lineNum := 1\<rparr>" path w] by (simp add: scan_init_def)
  moreover have "go_line path w rl ?s = Some (?s\<lparr>ss_lineNum := 2 + int (length code), ss_route := comment_of rl, ss_routeLine := 2 + int (length code)\<rparr>)"
    using assms(7,8) by (simp add: go_line_def Let_def note_comment_def comment_of_def)
  ultimately have "scan_all (go_line path w) (scan_lines content) scan_init =
      Some (?s\<lparr>ss_lineNum := 2 + int (length code), ss_route := comment_of rl, ss_routeLine := 2 + int (length code)\<rparr>)"
    using scan_all_append [of "go_line path w" "al # code" "[rl]" scan_init] by (simp add: assms(1))
  moreover obtain m1 m2 where "FindStringSubmatch goRouteRe (comment_of rl) = Some [m1, m2]"
    using assms(8) goRoute_captures unfolding MatchString_def by blast
  moreover have "comment_of rl \<noteq> []"
    using assms(8) by (auto simp: MatchString_def goRouteRe_def match_here.simps HasPrefix_def)
  ultimately show ?thesis by (simp add: parseGoFile_def add_pending_def buildRoute_def result_of_def scan_init_def)
qed

definition ex_dangling :: "string list" where
  "ex_dangling = [''// @Auth(roles: [guest])'', ''func helper() {}'', ''// @Route(DELETE /users)'']"

theorem dangling_auth_is_inherited_witness:
  "\<exists>r. parseGoFile (Inr (unlines ex_dangling)) ''api.go'' ''go:api'' = Some ([r], []) \<and> rt_AuthRoles r = [''guest'']"
proof -
  have l: "scan_lines (unlines ex_dangling) = ''// @Auth(roles: [guest])'' # [''func helper() {}''] @ [''// @Route(DELETE /users)'']"
    using scan_lines_unlines [of ex_dangling] by (simp add: ex_dangling_def maxScanTokenSize_def)
  have c: "comment_of ''// @Auth(roles: [guest])'' = ''@Auth(roles: [guest])''" "comment_of ''// @Route(DELETE /users)'' = ''@Route(DELETE /users)''"
    by (simp_all add: comment_of_def TrimSpace_def TrimPrefix_def HasPrefix_def is_space_def)
  have a: "FindStringSubmatch goAuthRe ''@Auth(roles: [guest])'' = Some [''guest'']" by code_simp
  have m: "MatchString goRouteRe ''@Route(DELETE /users)''" "\<not> MatchString goRouteRe ''@Auth(roles: [guest])''"
    "\<not> MatchString goValidateRe ''@Auth(roles: [guest])''" by code_simp+
  have "roles_of ''@Auth(roles: [guest])'' = [''guest'']" using a by (simp add: roles_of_def annot_roles_def Trim_def TrimSpace_def is_space_def)
  then show ?thesis
    using dangling_auth_is_inherited [OF l, of "''api.go''" "''go:api''"] c a m
    by (simp add: MatchString_def) (simp add: TrimSpace_def HasPrefix_def is_space_def)
qed

section \<open>The routes in the gateway\<close>

text \<open>The entry \<open>encoding/json\<close> makes of a route: the fields of the two structures have the same tags.\<close>

definition entry_of :: "route \<Rightarrow> route_entry" where
  "entry_of r = \<lparr>re_Path = rt_Path r, re_Method = rt_Method r, re_WorkerID = rt_WorkerID r, re_AuthRoles = rt_AuthRoles r,
     re_Validate = rt_Validate r, re_Type = rt_Type r\<rparr>"

lemma find_rev_later:
  assumes "find P (rev xs) = Some x" and "j < length xs" and "P (xs ! j)"
  shows "\<exists>k. j \<le> k \<and> k < length xs \<and> xs ! k = x"
proof -
  obtain i where i: "i < length xs" "x = rev xs ! i" "\<forall>l < i. \<not> P (rev xs ! l)"
    using assms(1) by (auto simp: find_Some_iff)
  have "\<not> length xs - Suc j < i"
    using i(1,3) assms(2,3) rev_nth [of "length xs - Suc j" xs] by (auto simp: Suc_diff_Suc)
  then show ?thesis using i assms(2) by (intro exI [of _ "length xs - Suc i"]) (auto simp: rev_nth)
qed

text \<open>
  The duplicate check compares texts, the route table compares patterns: of two routes with one method whose paths differ in the names of
  their parameters only (or in slashes at the ends), both pass validation, and the gateway never answers with the first.
\<close>
theorem renamed_parameter_shadows_route:
  assumes "valid_map rs" and "i < j" and "j < length rs" and "rt_Method (rs ! i) = rt_Method (rs ! j)"
    and "pat (entry_of (rs ! i)) = pat (entry_of (rs ! j))"
    and "Lookup (NewRouteMap (map entry_of rs)) m p = Some res"
  shows "lr_Entry res \<noteq> entry_of (rs ! i)"
proof
  assume e: "lr_Entry res = entry_of (rs ! i)"
  have l: "last_entry (map entry_of rs) (pat (entry_of (rs ! i))) (ToUpper m) = Some (entry_of (rs ! i))"
    using Lookup_SomeD(2) [OF assms(6)] by (simp add: e)
  have m: "ToUpper (rt_Method (rs ! i)) = ToUpper m" using last_entry_SomeD [OF l] by (simp add: entry_of_def)
  obtain k where k: "j \<le> k" "k < length rs" "entry_of (rs ! k) = entry_of (rs ! i)"
    using find_rev_later [OF l [unfolded last_entry_def], of j] assms(3-5) m by (auto simp: entry_of_def)
  have "map (\<lambda>r. (rt_Method r, rt_Path r)) rs ! k = map (\<lambda>r. (rt_Method r, rt_Path r)) rs ! i"
    using k assms(2,3) by (simp add: entry_of_def)
  then show False
    using k(1,2) assms(1-3) nth_eq_iff_index_eq [of "map (\<lambda>r. (rt_Method r, rt_Path r)) rs" k i] by (simp add: valid_map_def)
qed

theorem renamed_parameter_shadows_route_witness:
  "valid_map [ex_route ''GET'' ''/u/:id'' [''user''] [], ex_route ''GET'' ''/u/:name'' [''admin''] []] \<and>
   (\<exists>res. Lookup (NewRouteMap (map entry_of [ex_route ''GET'' ''/u/:id'' [''user''] [], ex_route ''GET'' ''/u/:name'' [''admin''] []])) ''GET'' ''/u/7'' = Some res \<and>
     lr_Entry res \<noteq> entry_of (ex_route ''GET'' ''/u/:id'' [''user''] []))"
proof -
  let ?rs = "[ex_route ''GET'' ''/u/:id'' [''user''] [], ex_route ''GET'' ''/u/:name'' [''admin''] []]"
  have v: "valid_map ?rs" by (simp add: valid_map_def route_valid_def ex_route_def validMethods_def HasPrefix_def)
  have p: "pat (entry_of (?rs ! 0)) = pat (entry_of (?rs ! 1))" "rt_Method (?rs ! 0) = rt_Method (?rs ! 1)"
    by (simp_all add: ex_route_def entry_of_def pat_def pseg_def splitPath_def Trim_def HasPrefix_def)
  obtain res where res: "Lookup (NewRouteMap (map entry_of ?rs)) ''GET'' ''/u/7'' = Some res"
    by (simp add: ex_route_def entry_of_def ex_eval)
  show ?thesis
    using v res renamed_parameter_shadows_route [OF v _ _ p(2,1) res] by auto
qed

end
