(* ===== verification/Config.thy ===== *)
theory Config
  imports Scanner Circuit RateLimit
begin

text \<open>
  The project manifest: \<open>core/domain/config/config.go\<close> (the fields of \<open>vyx.yaml\<close>, their defaults and their validation),
  \<open>core/infrastructure/config/loader.go\<close> (loading and reloading on \<open>SIGHUP\<close>, together with the route map), \<open>LoadRouteMap\<close> of
  \<open>core/domain/gateway/route.go\<close>, and the functions of \<open>core/cmd/vyx/main.go\<close> that turn a loaded configuration into the breakers and the
  rate limiter. Reading files and decoding YAML and JSON are arguments; \<open>yaml.Unmarshal\<close> fills a given value, so its argument is the
  configuration it starts from.
\<close>

section \<open>Data\<close>

record worker_config =
  wc_ID :: string
  wc_Command :: string
  wc_WorkingDir :: string
  wc_RuntimeVersion :: string
  wc_Replicas :: int
  wc_Strategy :: string
  wc_PoolSize :: int
  wc_StartupTimeout :: duration
  wc_ShutdownTimeout :: duration

record security_config =
  sy_JWTSecretEnv :: string
  sy_PerIP :: int
  sy_PerToken :: int
  sy_CircuitBreaker :: circuit_config
  sy_PayloadMaxSize :: string
  sy_GlobalTimeout :: duration

record config =
  cf_Name :: string
  cf_Version :: string
  cf_Workers :: "worker_config list"
  cf_Security :: security_config
  cf_SocketDir :: string
  cf_ArrowThreshold :: string
  cf_SchemasDir :: string
  cf_RouteMapOutput :: string

definition Defaults :: config where
  "Defaults =
     \<lparr>cf_Name = [], cf_Version = ''0.2.0'', cf_Workers = [],
      cf_Security = \<lparr>sy_JWTSecretEnv = ''JWT_SECRET'', sy_PerIP = 100, sy_PerToken = 500,
        sy_CircuitBreaker = \<lparr>cc_Failures = 5, cc_Cooldown = 30 * second, cc_HalfOpenMax = 3\<rparr>,
        sy_PayloadMaxSize = ''1mb'', sy_GlobalTimeout = 30 * second\<rparr>,
      cf_SocketDir = ''/tmp/vyx'', cf_ArrowThreshold = ''512kb'', cf_SchemasDir = ''./schemas'', cf_RouteMapOutput = ''./route_map.json''\<rparr>"

section \<open>Validation\<close>

text \<open>\<open>errors.Join\<close>: nil without errors, else an error whose text has the texts of all of them, one per line.\<close>

definition errors_Join :: "go_error list \<Rightarrow> go_error option" where
  "errors_Join es = (if es = [] then None else Some (Errorf (Join (map Error es) [CHR 0x0A])))"

definition append_err :: "go_error option \<Rightarrow> go_error list" where
  "append_err e = (case e of None \<Rightarrow> [] | Some err \<Rightarrow> [err])"

definition validateProject :: "config \<Rightarrow> go_error option" where
  "validateProject c = (if cf_Name c = [] then Some (Errorf ''project.name is required'') else None)"

definition validateWorker :: "worker_config \<Rightarrow> nat \<Rightarrow> go_error option" where
  "validateWorker w idx =
     (let field = (\<lambda>f. ''workers['' @ Itoa (int idx) @ '']'' @ f); ident = '' (id: '' @ Quote (wc_ID w) @ '')''
      in errors_Join
        ((if wc_ID w = [] then [Errorf (field ''.id is required'')] else []) @
         (if wc_Command w = [] then [Errorf (field ''.command is required'' @ ident)] else []) @
         (if wc_Replicas w < 0 then [Errorf (field ''.replicas must be >= 0'' @ ident)] else []) @
         (if wc_PoolSize w < 0 then [Errorf (field ''.pool_size must be >= 0'' @ ident)] else []) @
         (if wc_Strategy w \<notin> {''round-robin'', ''least-loaded'', []}
          then [Errorf (field ''.strategy '' @ Quote (wc_Strategy w) @ '' is invalid; use \"round-robin\" or \"least-loaded\"'' @ ident)] else []) @
         (if wc_ShutdownTimeout w < 0 then [Errorf (field ''.shutdown_timeout must be >= 0'' @ ident)] else [])))"

definition validateSecurity :: "config \<Rightarrow> go_error option" where
  "validateSecurity c =
     (let cb = sy_CircuitBreaker (cf_Security c)
      in errors_Join
        ((if cc_Failures cb < 0 then [Errorf ''security.circuit_breaker.failures must be >= 0''] else []) @
         (if cc_Cooldown cb < 0 then [Errorf ''security.circuit_breaker.cooldown must be >= 0''] else []) @
         (if cc_HalfOpenMax cb < 0 then [Errorf ''security.circuit_breaker.half_open_max must be >= 0''] else [])))"

definition Validate_config :: "config \<Rightarrow> go_error option" where
  "Validate_config c =
     errors_Join (append_err (validateProject c) @
       concat (map (\<lambda>(i, w). append_err (validateWorker w i)) (List.enumerate 0 (cf_Workers c))) @
       append_err (validateSecurity c))"

section \<open>Loading\<close>

text \<open>\<open>ld_routeMap\<close> is the pointer the loader was given; \<open>None\<close> is nil.\<close>

record loader =
  ld_configPath :: string
  ld_routeMapPath :: string
  ld_current :: "config option"
  ld_routeMap :: "route_map option"

record file_env =
  fv_ReadFile :: "string \<Rightarrow> go_error + string"
  fv_yaml :: "string \<Rightarrow> config \<Rightarrow> go_error + config"
  fv_json :: "string \<Rightarrow> go_error + route_entry list"

definition New_loader :: "string \<Rightarrow> loader" where
  "New_loader path = \<lparr>ld_configPath = path, ld_routeMapPath = [], ld_current = None, ld_routeMap = None\<rparr>"

definition WithRouteMap :: "loader \<Rightarrow> string \<Rightarrow> route_map option \<Rightarrow> loader" where
  "WithRouteMap l path rm = l\<lparr>ld_routeMapPath := path, ld_routeMap := rm\<rparr>"

definition Load :: "file_env \<Rightarrow> loader \<Rightarrow> go_error + config" where
  "Load E l =
     (case fv_ReadFile E (ld_configPath l) of
        Inl err \<Rightarrow> Inl (ErrorfW (''config: read '' @ ld_configPath l @ '': '') err)
      | Inr data \<Rightarrow>
          (case fv_yaml E data Defaults of
             Inl err \<Rightarrow> Inl (ErrorfW (''config: parse '' @ ld_configPath l @ '': '') err)
           | Inr cfg \<Rightarrow>
               (case Validate_config cfg of
                  Some err \<Rightarrow> Inl (ErrorfW ''config: validation failed: '' err)
                | None \<Rightarrow> Inr cfg)))"

text \<open>\<open>None\<close> is the panic.\<close>

definition MustLoad :: "file_env \<Rightarrow> loader \<Rightarrow> config option" where
  "MustLoad E l = (case Load E l of Inl _ \<Rightarrow> None | Inr cfg \<Rightarrow> Some cfg)"

definition Current :: "loader \<Rightarrow> config option" where
  "Current l = ld_current l"

definition SetCurrent :: "loader \<Rightarrow> config option \<Rightarrow> loader" where
  "SetCurrent l cfg = l\<lparr>ld_current := cfg\<rparr>"

definition reloadRouteMap :: "file_env \<Rightarrow> loader \<Rightarrow> loader" where
  "reloadRouteMap E l =
     (case ld_routeMap l of
        None \<Rightarrow> l
      | Some rm \<Rightarrow>
          (case fv_ReadFile E (ld_routeMapPath l) of
             Inl err \<Rightarrow> l
           | Inr data \<Rightarrow>
               (case fv_json E data of
                  Inl err \<Rightarrow> l
                | Inr routes \<Rightarrow> l\<lparr>ld_routeMap := Some (Swap rm routes)\<rparr>)))"

definition reloadAll :: "file_env \<Rightarrow> loader \<Rightarrow> loader" where
  "reloadAll E l =
     (let l1 = (case Load E l of Inl _ \<Rightarrow> l | Inr cfg \<Rightarrow> l\<lparr>ld_current := Some cfg\<rparr>)
      in if ld_routeMap l1 \<noteq> None \<and> ld_routeMapPath l1 \<noteq> [] then reloadRouteMap E l1 else l1)"

text \<open>The files may change between two signals: one environment per \<open>SIGHUP\<close>.\<close>

definition WatchSIGHUP :: "file_env list \<Rightarrow> loader \<Rightarrow> loader" where
  "WatchSIGHUP Es l = foldl (\<lambda>l E. reloadAll E l) l Es"

definition LoadRouteMap :: "file_env \<Rightarrow> string \<Rightarrow> go_error + route_map" where
  "LoadRouteMap E path =
     (case fv_ReadFile E path of
        Inl err \<Rightarrow> Inl (ErrorfW (''gateway: read route map '' @ path @ '': '') err)
      | Inr data \<Rightarrow>
          (case fv_json E data of
             Inl err \<Rightarrow> Inl (ErrorfW ''gateway: parse route map: '' err)
           | Inr routes \<Rightarrow> Inr (NewRouteMap routes)))"

section \<open>What \<open>main\<close> makes of a configuration\<close>

definition defaultConfigPath :: string where
  "defaultConfigPath = ''vyx.yaml''"

text \<open>\<open>loadConfig\<close>; \<open>None\<close> is the exit of \<open>log.Fatal\<close>.\<close>

definition loadConfig :: "file_env \<Rightarrow> string \<Rightarrow> (loader \<times> config) option" where
  "loadConfig E vyxConfigEnv =
     (let l = New_loader (if vyxConfigEnv \<noteq> [] then vyxConfigEnv else defaultConfigPath)
      in case Load E l of Inl _ \<Rightarrow> None | Inr cfg \<Rightarrow> Some (SetCurrent l (Some cfg), cfg))"

definition breaker_config :: "config \<Rightarrow> circuit_config" where
  "breaker_config cfg = sy_CircuitBreaker (cf_Security cfg)"

definition setupRateLimiter :: "config \<Rightarrow> rate_limiter" where
  "setupRateLimiter cfg = NewRateLimiter (sy_PerIP (cf_Security cfg)) (sy_PerToken (cf_Security cfg)) (60 * second)"

section \<open>Valid configurations\<close>

definition worker_valid :: "worker_config \<Rightarrow> bool" where
  "worker_valid w \<longleftrightarrow>
     wc_ID w \<noteq> [] \<and> wc_Command w \<noteq> [] \<and> 0 \<le> wc_Replicas w \<and> 0 \<le> wc_PoolSize w \<and>
     wc_Strategy w \<in> {''round-robin'', ''least-loaded'', []} \<and> 0 \<le> wc_ShutdownTimeout w"

definition config_valid :: "config \<Rightarrow> bool" where
  "config_valid c \<longleftrightarrow> cf_Name c \<noteq> [] \<and> list_all worker_valid (cf_Workers c) \<and> config_ok (breaker_config c)"

lemma append_err_Nil [simp]: "append_err e = [] \<longleftrightarrow> e = None"
  by (simp add: append_err_def split: option.split)

lemma errors_Join_None [simp]: "errors_Join es = None \<longleftrightarrow> es = []"
  by (simp add: errors_Join_def)

lemma validateProject_None: "validateProject c = None \<longleftrightarrow> cf_Name c \<noteq> []"
  by (simp add: validateProject_def)

lemma validateWorker_None: "validateWorker w i = None \<longleftrightarrow> worker_valid w"
  by (auto simp: validateWorker_def worker_valid_def Let_def)

lemma validateSecurity_None: "validateSecurity c = None \<longleftrightarrow> config_ok (breaker_config c)"
  by (auto simp: validateSecurity_def config_ok_def breaker_config_def Let_def)

lemma all_enumerate: "list_all (\<lambda>(i, w). P w) (List.enumerate n ws) \<longleftrightarrow> list_all P ws"
  by (induction ws arbitrary: n) simp_all

lemma Validate_config_None: "Validate_config c = None \<longleftrightarrow> config_valid c"
proof -
  have "concat (map (\<lambda>(i, w). append_err (validateWorker w i)) (List.enumerate 0 (cf_Workers c))) = [] \<longleftrightarrow>
      list_all (\<lambda>(i, w). worker_valid w) (List.enumerate 0 (cf_Workers c))"
    by (auto simp: list_all_iff validateWorker_None)
  then show ?thesis
    by (auto simp: Validate_config_def config_valid_def validateProject_None validateSecurity_None all_enumerate)
qed

section \<open>Loading and reloading\<close>

lemma Load_valid: "Load E l = Inr c \<Longrightarrow> config_valid c"
  by (auto simp: Load_def Validate_config_None [symmetric] split: sum.splits option.splits)

lemma reloadRouteMap_simps [simp]:
  "ld_current (reloadRouteMap E l) = ld_current l" "ld_configPath (reloadRouteMap E l) = ld_configPath l"
  "ld_routeMapPath (reloadRouteMap E l) = ld_routeMapPath l" "ld_routeMap (reloadRouteMap E l) = None \<longleftrightarrow> ld_routeMap l = None"
  by (simp_all add: reloadRouteMap_def split: option.split sum.split)

lemma Load_path: "ld_configPath l = ld_configPath l' \<Longrightarrow> Load E l = Load E l'"
  by (simp add: Load_def cong: sum.case_cong)

lemma reloadAll_simps:
  "ld_current (reloadAll E l) = (case Load E l of Inl _ \<Rightarrow> ld_current l | Inr c \<Rightarrow> Some c)"
  "ld_configPath (reloadAll E l) = ld_configPath l" "ld_routeMapPath (reloadAll E l) = ld_routeMapPath l"
  by (simp_all add: reloadAll_def Let_def split: sum.split)

lemma reloadAll_routes:
  assumes "ld_routeMap l = Some rm" and "ld_routeMapPath l \<noteq> []"
  shows "ld_routeMap (reloadAll E l) = Some (case LoadRouteMap E (ld_routeMapPath l) of Inl _ \<Rightarrow> rm | Inr rm' \<Rightarrow> rm')"
  using assms
  by (simp add: reloadAll_def reloadRouteMap_def LoadRouteMap_def Let_def Swap_def NewRouteMap_def split: sum.split)

text \<open>The last success of a list of attempts, starting from a value.\<close>

definition last_success :: "'b \<Rightarrow> ('e + 'b) list \<Rightarrow> 'b" where
  "last_success x rs = foldl (\<lambda>x r. case r of Inl _ \<Rightarrow> x | Inr y \<Rightarrow> y) x rs"

lemma last_success_simps [simp]:
  "last_success x [] = x" "last_success x (Inl e # rs) = last_success x rs" "last_success x (Inr y # rs) = last_success y rs"
  by (simp_all add: last_success_def)

lemma last_success_inv: "P x \<Longrightarrow> (\<And>y. Inr y \<in> set rs \<Longrightarrow> P y) \<Longrightarrow> P (last_success x rs)"
proof (induction rs arbitrary: x)
  case (Cons r rs)
  then show ?case by (cases r) simp_all
qed simp

lemma watch_current:
  "ld_current l = Some c \<Longrightarrow> ld_current (WatchSIGHUP Es l) = Some (last_success c (map (\<lambda>E. Load E l) Es))"
proof (induction Es arbitrary: l c)
  case (Cons E Es)
  have p: "Load F (reloadAll E l) = Load F l" for F by (rule Load_path) (simp add: reloadAll_simps)
  show ?case
  proof (cases "Load E l")
    case (Inl e)
    then show ?thesis using Cons.IH [of "reloadAll E l" c] Cons.prems by (simp add: WatchSIGHUP_def reloadAll_simps p)
  next
    case (Inr c')
    then show ?thesis using Cons.IH [of "reloadAll E l" c'] by (simp add: WatchSIGHUP_def reloadAll_simps p)
  qed
qed (simp add: WatchSIGHUP_def)

lemma watch_routes:
  "ld_routeMap l = Some rm \<Longrightarrow> ld_routeMapPath l \<noteq> [] \<Longrightarrow>
     ld_routeMap (WatchSIGHUP Es l) = Some (last_success rm (map (\<lambda>E. LoadRouteMap E (ld_routeMapPath l)) Es))"
proof (induction Es arbitrary: l rm)
  case (Cons E Es)
  show ?case
  proof (cases "LoadRouteMap E (ld_routeMapPath l)")
    case (Inl e)
    then show ?thesis using Cons.IH [of "reloadAll E l" rm] reloadAll_routes [OF Cons.prems, of E] Cons.prems
      by (simp add: WatchSIGHUP_def reloadAll_simps)
  next
    case (Inr rm')
    then show ?thesis using Cons.IH [of "reloadAll E l" rm'] reloadAll_routes [OF Cons.prems, of E] Cons.prems
      by (simp add: WatchSIGHUP_def reloadAll_simps)
  qed
qed (simp add: WatchSIGHUP_def)

section \<open>Properties\<close>

text \<open>
  A manifest is accepted exactly when it names the project, every worker has an identifier, a command, no negative number and a known
  strategy, and no threshold of the breaker is negative.
\<close>
theorem manifest_accepted_iff_valid:
  "Load E l = Inr c \<longleftrightarrow>
     (\<exists>data. fv_ReadFile E (ld_configPath l) = Inr data \<and> fv_yaml E data Defaults = Inr c \<and> config_valid c)"
  by (auto simp: Load_def Validate_config_None [symmetric] split: sum.splits option.splits)

text \<open>
  C11: After start-up the loader always holds a valid configuration, whatever the files contain at each \<open>SIGHUP\<close>: the one of the last
  reload that succeeded, or the first. The breakers made of it satisfy the breaker invariant. The routes are likewise those of the last
  readable route map, if a route map was configured.
\<close>
theorem reloads_keep_last_valid:
  assumes "loadConfig E0 env = Some (l0, c0)"
  shows "\<exists>c. Current (WatchSIGHUP Es (WithRouteMap l0 path rm)) = Some c \<and> config_valid c \<and> breaker_inv (New (breaker_config c) notify) \<and>
    c = last_success c0 (map (\<lambda>E. Load E l0) Es) \<and>
    (rm \<noteq> None \<and> path \<noteq> [] \<longrightarrow>
       ld_routeMap (WatchSIGHUP Es (WithRouteMap l0 path rm)) = Some (last_success (the rm) (map (\<lambda>E. LoadRouteMap E path) Es)))"
proof -
  let ?l = "WithRouteMap l0 path rm" and ?c = "last_success c0 (map (\<lambda>E. Load E l0) Es)"
  have c0: "ld_current ?l = Some c0" "Load E0 l0 = Inr c0"
    using assms by (auto simp: loadConfig_def WithRouteMap_def SetCurrent_def Let_def Load_def split: sum.splits)
  have p: "Load F ?l = Load F l0" for F by (rule Load_path) (simp add: WithRouteMap_def)
  have v: "config_valid ?c" by (rule last_success_inv) (use c0(2) Load_valid in auto)
  then have "breaker_inv (New (breaker_config ?c) notify)" by (intro New_inv) (simp add: config_valid_def)
  then show ?thesis
    using watch_current [OF c0(1), of Es] v watch_routes [of ?l "the rm" Es]
    unfolding Current_def p by (auto simp: WithRouteMap_def)
qed

definition ex_config :: config where
  "ex_config = Defaults\<lparr>cf_Name := ''shop''\<rparr>"

definition ex_files :: "bool \<Rightarrow> file_env" where
  "ex_files good = \<lparr>fv_ReadFile = (\<lambda>_. Inr []), fv_yaml = (\<lambda>_ c. if good then Inr (c\<lparr>cf_Name := ''shop''\<rparr>) else Inr c), fv_json = (\<lambda>_. Inr [])\<rparr>"

lemma ex_config_valid: "config_valid ex_config" "\<not> config_valid Defaults"
  by (simp_all add: config_valid_def ex_config_def Defaults_def breaker_config_def config_ok_def second_def)

lemma ex_load:
  "Load (ex_files True) l = Inr ex_config" "\<exists>e. Load (ex_files False) l = Inl e"
  using ex_config_valid by (auto simp: Load_def ex_files_def ex_config_def Validate_config_None [symmetric] split: option.split)

theorem reloads_keep_last_valid_witness:
  "Current (WatchSIGHUP [ex_files False] (WithRouteMap (fst (the (loadConfig (ex_files True) []))) ''r.json'' (Some (NewRouteMap [])))) = Some ex_config"
proof -
  obtain l where l: "loadConfig (ex_files True) [] = Some (l, ex_config)" by (simp add: loadConfig_def Let_def ex_load(1))
  obtain e where "Load (ex_files False) l = Inl e" using ex_load(2) by blast
  then show ?thesis using reloads_keep_last_valid [OF l, of "[ex_files False]"] l by simp
qed

text \<open>
  \<open>SIGHUP\<close> does not reload the routes of the running server: start-up never hands its route map to the loader, and without that call
  no sequence of reloads touches one.
\<close>
theorem sighup_leaves_routes:
  assumes "loadConfig E0 env = Some (l0, c0)"
  shows "ld_routeMap (WatchSIGHUP Es l0) = None"
proof -
  have "ld_routeMap l0 = None" using assms by (auto simp: loadConfig_def New_loader_def SetCurrent_def Let_def split: sum.splits)
  then show ?thesis
    by (induction Es arbitrary: l0) (auto simp: WatchSIGHUP_def reloadAll_def Let_def split: sum.split)
qed

theorem sighup_leaves_routes_witness:
  "\<exists>l c. loadConfig (ex_files True) [] = Some (l, c) \<and> ld_routeMap (WatchSIGHUP [ex_files True, ex_files False] l) = None"
proof -
  obtain l where l: "loadConfig (ex_files True) [] = Some (l, ex_config)" by (simp add: loadConfig_def Let_def ex_load(1))
  then show ?thesis using sighup_leaves_routes [OF l] by blast
qed

section \<open>Limits that refuse everybody\<close>

fun ip_run :: "rate_limiter \<Rightarrow> (string \<times> int \<times> go_time) list \<Rightarrow> bool list" where
  "ip_run r [] = []"
| "ip_run r ((addr, rnd, now) # cs) = (case AllowIP r addr rnd now of ((ok, _), r') \<Rightarrow> ok # ip_run r' cs)"

definition counts_ok :: "rate_limiter \<Rightarrow> bool" where
  "counts_ok r \<longleftrightarrow> (\<forall>ip b. rl_ipBuckets r ip = Some b \<longrightarrow> 0 \<le> bk_count b)"

lemma bucket_refused:
  assumes "limit \<le> 0" and "0 \<le> bk_count b"
  shows "\<exists>d b'. bucket_allow b limit window jitter rnd now = ((False, d), b') \<and> 0 \<le> bk_count b'"
  using assms unfolding bucket_allow_def Let_def by (cases "bk_windowEnd b < now") simp_all

lemma AllowIP_refused:
  assumes "rl_perIP r \<le> 0" and "counts_ok r"
  shows "\<exists>d r'. AllowIP r addr rnd now = ((False, d), r') \<and> rl_perIP r' \<le> 0 \<and> counts_ok r'"
proof -
  let ?ip = "case SplitHostPort addr of Some (host, _) \<Rightarrow> host | None \<Rightarrow> addr"
  obtain b m where b: "getBucket (rl_ipBuckets r) ?ip = (b, m)" by fastforce
  have n: "0 \<le> bk_count b" "\<forall>i c. m i = Some c \<longrightarrow> 0 \<le> bk_count c"
    using b assms(2) by (auto simp: getBucket_def counts_ok_def new_bucket_def split: option.splits if_splits)
  obtain d b' where "bucket_allow b (rl_perIP r) (rl_window r) (rl_jitter r) rnd now = ((False, d), b')" "0 \<le> bk_count b'"
    using bucket_refused [OF assms(1) n(1)] by blast
  then show ?thesis using b n(2) assms(1) by (auto simp: AllowIP_def Let_def counts_ok_def put_bucket_def)
qed

lemma ip_run_refused: "rl_perIP r \<le> 0 \<Longrightarrow> counts_ok r \<Longrightarrow> set (ip_run r cs) \<subseteq> {False}"
proof (induction cs arbitrary: r)
  case (Cons c cs)
  obtain addr rnd now where c: "c = (addr, rnd, now)" by (cases c)
  obtain d r' where "AllowIP r addr rnd now = ((False, d), r')" "rl_perIP r' \<le> 0" "counts_ok r'"
    using AllowIP_refused [OF Cons.prems] by blast
  then show ?case using Cons.IH [of r'] c by simp
qed simp

text \<open>
  The rate limits of the manifest are not validated: with a limit of zero or less, which a manifest may set and \<open>Validate\<close> accepts, the
  limiter that start-up builds refuses every request of every client.
\<close>
theorem unchecked_limit_refuses_everybody:
  assumes "sy_PerIP (cf_Security c) \<le> 0"
  shows "set (ip_run (setupRateLimiter c) calls) \<subseteq> {False} \<and>
    Validate_config (c\<lparr>cf_Security := (cf_Security c)\<lparr>sy_PerIP := 1\<rparr>\<rparr>) = Validate_config c"
proof
  show "set (ip_run (setupRateLimiter c) calls) \<subseteq> {False}"
    using assms by (intro ip_run_refused) (simp_all add: setupRateLimiter_def NewRateLimiter_def NewRateLimiterWithJitter_def counts_ok_def)
  show "Validate_config (c\<lparr>cf_Security := (cf_Security c)\<lparr>sy_PerIP := 1\<rparr>\<rparr>) = Validate_config c"
    by (simp add: Validate_config_def validateProject_def validateSecurity_def)
qed

theorem unchecked_limit_refuses_everybody_witness:
  "config_valid (ex_config\<lparr>cf_Security := (cf_Security ex_config)\<lparr>sy_PerIP := 0\<rparr>\<rparr>) \<and>
   ip_run (setupRateLimiter (ex_config\<lparr>cf_Security := (cf_Security ex_config)\<lparr>sy_PerIP := 0\<rparr>\<rparr>)) [(''10.0.0.1:80'', 0, 5)] = [False]"
proof -
  let ?c = "ex_config\<lparr>cf_Security := (cf_Security ex_config)\<lparr>sy_PerIP := 0\<rparr>\<rparr>"
  have "config_valid ?c" using ex_config_valid(1) by (simp add: config_valid_def breaker_config_def)
  moreover have "set (ip_run (setupRateLimiter ?c) [(''10.0.0.1:80'', 0, 5)]) \<subseteq> {False}"
    using unchecked_limit_refuses_everybody [of ?c "[(''10.0.0.1:80'', 0, 5)]"] by simp
  ultimately show ?thesis by (auto split: prod.splits)
qed

end
