(* ===== verification/HotReload.thy ===== *)
theory HotReload
  imports Config
begin

text \<open>
  Starting workers from the manifest and restarting them when their sources change, in \<open>core/cmd/vyx/main.go\<close>: the identifiers of the
  replicas, the watched directories, the decision about one file system event, and the debounce timers. A timer's callback runs in a
  goroutine of its own, so expiry and callback are separate steps and a change may come between them. Resolving paths depends on the
  current directory and is an argument.
\<close>

section \<open>Identifiers of replicas\<close>

definition buildWorkerID :: "string \<Rightarrow> int \<Rightarrow> int \<Rightarrow> string" where
  "buildWorkerID baseID index replicas = (if 1 < replicas then baseID @ ''-'' @ Itoa index else baseID)"

definition buildWorkerIDs :: "string \<Rightarrow> int \<Rightarrow> string list" where
  "buildWorkerIDs baseID replicas =
     map (\<lambda>i. if 1 < replicas then baseID @ ''-'' @ Itoa i else baseID) [0 .. replicas - 1]"

definition replicas_of :: "worker_config \<Rightarrow> int" where
  "replicas_of w = (if wc_Replicas w \<le> 0 then 1 else wc_Replicas w)"

text \<open>The identifiers \<open>spawnWorker\<close> and \<open>spawnWorkers\<close> start, in order.\<close>

definition spawnWorker :: "worker_config \<Rightarrow> string list" where
  "spawnWorker w = map (\<lambda>i. buildWorkerID (wc_ID w) i (replicas_of w)) [0 .. replicas_of w - 1]"

definition spawnWorkers :: "config \<Rightarrow> string list" where
  "spawnWorkers cfg = concat (map spawnWorker (cf_Workers cfg))"

section \<open>Watched directories\<close>

record watch_entry =
  we_ids :: "string list"
  we_dir :: string

text \<open>\<open>absDir\<close> resolves the working directory of a worker; \<open>None\<close> is its error.\<close>

definition processWorkerForWatch :: "(worker_config \<Rightarrow> string option) \<Rightarrow> worker_config \<Rightarrow> string \<times> string list" where
  "processWorkerForWatch absDir w =
     (case absDir w of None \<Rightarrow> ([], []) | Some d \<Rightarrow> (d, buildWorkerIDs (wc_ID w) (replicas_of w)))"

definition add_entry :: "watch_entry list \<times> (string \<rightharpoonup> nat) \<Rightarrow> string \<times> string list \<Rightarrow> watch_entry list \<times> (string \<rightharpoonup> nat)" where
  "add_entry st p =
     (case (st, p) of ((ents, seenDirs), (dir, ids)) \<Rightarrow>
        if dir = [] then (ents, seenDirs)
        else (case seenDirs dir of
                Some idx \<Rightarrow> (ents[idx := (ents ! idx)\<lparr>we_ids := we_ids (ents ! idx) @ ids\<rparr>], seenDirs)
              | None \<Rightarrow> (ents @ [\<lparr>we_ids = ids, we_dir = dir\<rparr>], seenDirs(dir \<mapsto> length ents))))"

definition initWatcherEntries :: "(worker_config \<Rightarrow> string option) \<Rightarrow> worker_config list \<Rightarrow> watch_entry list" where
  "initWatcherEntries absDir ws = fst (foldl (\<lambda>st w. add_entry st (processWorkerForWatch absDir w)) ([], Map.empty) ws)"

section \<open>One event\<close>

text \<open>\<open>filepath.Ext\<close>.\<close>

definition Ext :: "string \<Rightarrow> string" where
  "Ext path =
     (let base = takeWhile (\<lambda>c. c \<noteq> CHR ''/'') (rev path)
      in case first_index (CHR ''.'') base of None \<Rightarrow> [] | Some i \<Rightarrow> rev (take (Suc i) base))"

definition isSourceFile :: "string \<Rightarrow> bool" where
  "isSourceFile path = (ToLower (Ext path) \<in> {''.go'', ''.ts'', ''.tsx'', ''.js''})"

record fs_event =
  fv_write :: bool
  fv_create :: bool
  fv_rename :: bool
  fv_name :: string
  fv_abs :: string

datatype watch_action = Ignore | ReloadConfig | RestartWorkers "string list"

definition handleWatcherEvent :: "fs_event \<Rightarrow> string \<Rightarrow> watch_entry list \<Rightarrow> watch_action" where
  "handleWatcherEvent ev absCfgPath es =
     (if \<not> (fv_write ev \<or> fv_create ev \<or> fv_rename ev) then Ignore
      else if fv_abs ev = absCfgPath then ReloadConfig
      else if \<not> isSourceFile (fv_name ev) then Ignore
      else (case find (\<lambda>e. HasPrefix (fv_abs ev) (we_dir e @ ''/'') \<or> fv_abs ev = we_dir e) es of
              None \<Rightarrow> Ignore
            | Some e \<Rightarrow> RestartWorkers (we_ids e)))"

section \<open>Debounce timers\<close>

definition debounce :: duration where
  "debounce = 300000000"

text \<open>
  \<open>tm_timers\<close> is the map \<open>timers\<close>; a timer is a number. \<open>tm_armed\<close> are the armed timers with their worker and deadline,
  \<open>tm_running\<close> the callbacks that have passed their first check and wait for the lock. \<open>tm_log\<close> records changes and restarts, newest
  first, with the time.
\<close>

datatype watch_note = Changed | Restarted

record timers =
  tm_now :: go_time
  tm_done :: bool
  tm_timers :: "string \<rightharpoonup> nat"
  tm_armed :: "nat \<rightharpoonup> string \<times> go_time"
  tm_running :: "string list"
  tm_next :: nat
  tm_log :: "(string \<times> watch_note \<times> go_time) list"

definition no_timers :: timers where
  "no_timers = \<lparr>tm_now = 0, tm_done = False, tm_timers = Map.empty, tm_armed = Map.empty, tm_running = [], tm_next = 0, tm_log = []\<rparr>"

definition scheduleRestart :: "string \<Rightarrow> timers \<Rightarrow> timers" where
  "scheduleRestart w s =
     (let dl = tm_now s + debounce; s1 = s\<lparr>tm_log := (w, Changed, tm_now s) # tm_log s\<rparr>
      in case tm_timers s w of
           Some k \<Rightarrow> s1\<lparr>tm_armed := (tm_armed s)(k \<mapsto> (w, dl))\<rparr>
         | None \<Rightarrow> s1\<lparr>tm_timers := (tm_timers s)(w \<mapsto> tm_next s), tm_armed := (tm_armed s)(tm_next s \<mapsto> (w, dl)), tm_next := Suc (tm_next s)\<rparr>)"

definition timer_expires :: "nat \<Rightarrow> string \<Rightarrow> timers \<Rightarrow> timers" where
  "timer_expires k w s =
     (let s1 = s\<lparr>tm_armed := (tm_armed s)(k := None)\<rparr>
      in if tm_done s then s1 else s1\<lparr>tm_running := w # tm_running s\<rparr>)"

definition timer_callback :: "string \<Rightarrow> timers \<Rightarrow> timers" where
  "timer_callback w s =
     s\<lparr>tm_running := remove1 w (tm_running s), tm_timers := (tm_timers s)(w := None), tm_log := (w, Restarted, tm_now s) # tm_log s\<rparr>"

definition cancelAllTimers :: "timers \<Rightarrow> timers" where
  "cancelAllTimers s = s\<lparr>tm_done := True, tm_armed := (\<lambda>k. if k \<in> ran (tm_timers s) then None else tm_armed s k)\<rparr>"

inductive watch_step :: "timers \<Rightarrow> timers \<Rightarrow> bool" where
  tick: "0 \<le> d \<Longrightarrow> watch_step s (s\<lparr>tm_now := tm_now s + d\<rparr>)"
| change: "\<not> tm_done s \<Longrightarrow> watch_step s (scheduleRestart w s)"
| expire: "tm_armed s k = Some (w, dl) \<Longrightarrow> dl \<le> tm_now s \<Longrightarrow> watch_step s (timer_expires k w s)"
| callback: "w \<in> set (tm_running s) \<Longrightarrow> watch_step s (timer_callback w s)"
| stop: "watch_step s (cancelAllTimers s)"

inductive watch_reach :: "timers \<Rightarrow> timers \<Rightarrow> bool" for s0 where
  refl: "watch_reach s0 s0"
| step: "watch_reach s0 s \<Longrightarrow> watch_step s t \<Longrightarrow> watch_reach s0 t"

inductive_simps watch_step_simps: "watch_step s t"

section \<open>No change is lost\<close>

text \<open>The worker has changed since its last restart.\<close>

definition owed :: "string \<Rightarrow> timers \<Rightarrow> bool" where
  "owed w s = (case filter (\<lambda>n. fst n = w) (tm_log s) of (_, Changed, _) # _ \<Rightarrow> True | _ \<Rightarrow> False)"

definition armed_for :: "string \<Rightarrow> timers \<Rightarrow> nat set" where
  "armed_for w s = {k. \<exists>dl. tm_armed s k = Some (w, dl)}"

definition noted :: "string \<Rightarrow> watch_note \<Rightarrow> timers \<Rightarrow> nat" where
  "noted w n s = length (filter (\<lambda>(v, m, _). v = w \<and> m = n) (tm_log s))"

definition changed_before :: "string \<Rightarrow> go_time \<Rightarrow> timers \<Rightarrow> bool" where
  "changed_before w t s \<longleftrightarrow> (\<exists>t'. (w, Changed, t') \<in> set (tm_log s) \<and> t' + debounce \<le> t)"

text \<open>Every timer in the map belongs to its worker alone, and numbers are not reused.\<close>

definition timers_ok :: "timers \<Rightarrow> bool" where
  "timers_ok s \<longleftrightarrow>
     (\<forall>k. tm_armed s k \<noteq> None \<longrightarrow> k < tm_next s) \<and>
     (\<forall>w k. tm_timers s w = Some k \<longrightarrow>
        k < tm_next s \<and> (\<forall>v. tm_timers s v = Some k \<longrightarrow> v = w) \<and> (\<forall>v dl. tm_armed s k = Some (v, dl) \<longrightarrow> v = w))"

definition restarts_ok :: "string \<Rightarrow> timers \<Rightarrow> bool" where
  "restarts_ok w s \<longleftrightarrow>
     (\<not> tm_done s \<and> owed w s \<longrightarrow> armed_for w s \<noteq> {} \<or> w \<in> set (tm_running s)) \<and>
     noted w Restarted s + card (armed_for w s) + count_list (tm_running s) w \<le> noted w Changed s \<and>
     (\<forall>k dl. tm_armed s k = Some (w, dl) \<longrightarrow> changed_before w dl s) \<and>
     (w \<in> set (tm_running s) \<longrightarrow> changed_before w (tm_now s) s) \<and>
     (\<forall>t. (w, Restarted, t) \<in> set (tm_log s) \<longrightarrow> changed_before w t s)"

lemma changed_before_mono:
  "changed_before w t s \<Longrightarrow> t \<le> t' \<Longrightarrow> set (tm_log s) \<subseteq> set (tm_log s') \<Longrightarrow> changed_before w t' s'"
  unfolding changed_before_def by force

lemma finite_armed: "timers_ok s \<Longrightarrow> finite (armed_for w s)"
  by (rule finite_subset [of _ "{..< tm_next s}"]) (auto simp: armed_for_def timers_ok_def)

lemma schedule_effect:
  assumes "timers_ok s"
  obtains k where "tm_armed (scheduleRestart w s) = (tm_armed s)(k \<mapsto> (w, tm_now s + debounce))"
    and "\<forall>v dl. tm_armed s k = Some (v, dl) \<longrightarrow> v = w"
    and "tm_running (scheduleRestart w s) = tm_running s" "tm_now (scheduleRestart w s) = tm_now s" "tm_done (scheduleRestart w s) = tm_done s"
    and "tm_log (scheduleRestart w s) = (w, Changed, tm_now s) # tm_log s"
proof (cases "tm_timers s w")
  case None
  have "tm_armed s (tm_next s) = None" using assms unfolding timers_ok_def by (metis less_irrefl)
  then show ?thesis using None that [of "tm_next s"] by (simp add: scheduleRestart_def Let_def)
next
  case (Some k)
  then show ?thesis using assms that [of k] by (simp add: scheduleRestart_def Let_def timers_ok_def)
qed

lemma schedule_timers_ok: "timers_ok s \<Longrightarrow> timers_ok (scheduleRestart w s)"
  by (cases "tm_timers s w") (auto simp: timers_ok_def scheduleRestart_def Let_def less_Suc_eq split: if_splits)

lemma step_timers_ok: "watch_step s t \<Longrightarrow> timers_ok s \<Longrightarrow> timers_ok t"
proof (induction rule: watch_step.induct)
  case (change s w)
  then show ?case by (simp add: schedule_timers_ok)
next
  case (expire s k w dl)
  then show ?case by (auto simp: timers_ok_def timer_expires_def Let_def)
next
  case (callback w s)
  then show ?case by (auto simp: timers_ok_def timer_callback_def)
next
  case (stop s)
  then show ?case by (auto simp: timers_ok_def cancelAllTimers_def)
qed (auto simp: timers_ok_def)

lemma schedule_restarts_ok:
  assumes "timers_ok s" and "restarts_ok v s"
  shows "restarts_ok v (scheduleRestart w s)"
proof -
  obtain k where k: "tm_armed (scheduleRestart w s) = (tm_armed s)(k \<mapsto> (w, tm_now s + debounce))" "\<forall>u dl. tm_armed s k = Some (u, dl) \<longrightarrow> u = w"
      "tm_running (scheduleRestart w s) = tm_running s" "tm_now (scheduleRestart w s) = tm_now s" "tm_done (scheduleRestart w s) = tm_done s"
      "tm_log (scheduleRestart w s) = (w, Changed, tm_now s) # tm_log s"
    using schedule_effect [OF assms(1)] by metis
  have a: "armed_for v (scheduleRestart w s) = (if v = w then insert k (armed_for v s) else armed_for v s)"
    using k(1,2) by (auto simp: armed_for_def)
  have c: "card (armed_for v (scheduleRestart w s)) \<le> (if v = w then 1 else 0) + card (armed_for v s)"
    using card_insert_le_m1 [of "Suc (card (armed_for v s))" "armed_for v s" k] by (auto simp: a)
  have n: "noted v Changed (scheduleRestart w s) = (if v = w then 1 else 0) + noted v Changed s" "noted v Restarted (scheduleRestart w s) = noted v Restarted s"
    using k(6) by (auto simp: noted_def)
  have o: "owed v (scheduleRestart w s) \<longleftrightarrow> v = w \<or> owed v s" using k(6) by (simp add: owed_def)
  have m: "changed_before v t s \<Longrightarrow> changed_before v t (scheduleRestart w s)" for t
    using k(6) by (auto intro: changed_before_mono)
  have self: "changed_before w (tm_now s + debounce) (scheduleRestart w s)" using k(6) by (auto simp: changed_before_def)
  show ?thesis
    using assms(2) k a c n o m self unfolding restarts_ok_def by (auto split: if_splits)
qed

lemma expire_restarts_ok:
  assumes "timers_ok s" and "restarts_ok v s" and "tm_armed s k = Some (w, dl)" and "dl \<le> tm_now s"
  shows "restarts_ok v (timer_expires k w s)"
proof -
  have a: "armed_for v (timer_expires k w s) = armed_for v s - {k}" by (auto simp: timer_expires_def armed_for_def Let_def)
  have k: "k \<in> armed_for v s \<longleftrightarrow> v = w" using assms(3) by (auto simp: armed_for_def)
  have c: "card (armed_for v s) = (if v = w then 1 else 0) + card (armed_for v (timer_expires k w s))"
    using a k finite_armed [OF assms(1), of v] card_Suc_Diff1 [of "armed_for v s" k] by simp
  have l: "tm_log (timer_expires k w s) = tm_log s" "tm_now (timer_expires k w s) = tm_now s" "tm_done (timer_expires k w s) = tm_done s"
    by (simp_all add: timer_expires_def Let_def)
  have r: "tm_running (timer_expires k w s) = (if tm_done s then tm_running s else w # tm_running s)" by (simp add: timer_expires_def Let_def)
  have m: "changed_before v t (timer_expires k w s) = changed_before v t s" "noted v n (timer_expires k w s) = noted v n s"
    "owed v (timer_expires k w s) = owed v s" for t n
    using l(1) by (simp_all add: changed_before_def noted_def owed_def)
  have d: "v = w \<Longrightarrow> changed_before v (tm_now s) s"
    using assms(2-4) changed_before_mono [of v dl s "tm_now s" s] by (auto simp: restarts_ok_def)
  have f: "tm_armed (timer_expires k w s) = (tm_armed s)(k := None)" by (simp add: timer_expires_def Let_def)
  note ok = assms(2) [unfolded restarts_ok_def]
  show ?thesis
    unfolding restarts_ok_def
  proof (intro conjI)
    show "\<not> tm_done (timer_expires k w s) \<and> owed v (timer_expires k w s) \<longrightarrow>
        armed_for v (timer_expires k w s) \<noteq> {} \<or> v \<in> set (tm_running (timer_expires k w s))"
      using ok k unfolding a l m(3) r by auto
    show "noted v Restarted (timer_expires k w s) + card (armed_for v (timer_expires k w s)) + count_list (tm_running (timer_expires k w s)) v
        \<le> noted v Changed (timer_expires k w s)"
      using conjunct1 [OF conjunct2 [OF ok]] c unfolding m(2) r by (auto split: if_splits)
  qed (use ok d in \<open>auto simp: l m f r split: if_splits\<close>)
qed

lemma count_list_remove: "w \<in> set xs \<Longrightarrow> count_list xs v = (if v = w then 1 else 0) + count_list (remove1 w xs) v"
  by (induction xs) auto

lemma callback_restarts_ok:
  assumes "restarts_ok v s" and "w \<in> set (tm_running s)"
  shows "restarts_ok v (timer_callback w s)"
proof -
  have c: "count_list (tm_running s) v = (if v = w then 1 else 0) + count_list (remove1 w (tm_running s)) v"
    using assms(2) by (rule count_list_remove)
  have n: "noted v Changed (timer_callback w s) = noted v Changed s"
    "noted v Restarted (timer_callback w s) = (if v = w then 1 else 0) + noted v Restarted s"
    by (auto simp: noted_def timer_callback_def)
  have o: "owed v (timer_callback w s) \<longleftrightarrow> v \<noteq> w \<and> owed v s" by (simp add: owed_def timer_callback_def)
  have m: "changed_before v t (timer_callback w s) = changed_before v t s" for t
    by (auto simp: changed_before_def timer_callback_def)
  have a: "armed_for v (timer_callback w s) = armed_for v s" by (simp add: armed_for_def timer_callback_def)
  have r: "v \<in> set (remove1 w (tm_running s)) \<Longrightarrow> v \<in> set (tm_running s)" by (meson notin_set_remove1)
  have r': "v \<noteq> w \<Longrightarrow> v \<in> set (remove1 w (tm_running s)) \<longleftrightarrow> v \<in> set (tm_running s)" by simp
  have f: "tm_running (timer_callback w s) = remove1 w (tm_running s)" "tm_armed (timer_callback w s) = tm_armed s"
    "tm_log (timer_callback w s) = (w, Restarted, tm_now s) # tm_log s" "tm_now (timer_callback w s) = tm_now s" "tm_done (timer_callback w s) = tm_done s"
    by (simp_all add: timer_callback_def)
  note ok = assms(1) [unfolded restarts_ok_def]
  show ?thesis
    unfolding restarts_ok_def
  proof (intro conjI)
    show "\<not> tm_done (timer_callback w s) \<and> owed v (timer_callback w s) \<longrightarrow>
        armed_for v (timer_callback w s) \<noteq> {} \<or> v \<in> set (tm_running (timer_callback w s))"
      using ok r' unfolding a o f by auto
    show "noted v Restarted (timer_callback w s) + card (armed_for v (timer_callback w s)) + count_list (tm_running (timer_callback w s)) v
        \<le> noted v Changed (timer_callback w s)"
      using conjunct1 [OF conjunct2 [OF ok]] c unfolding n a f by (cases "v = w"; simp only: if_True if_False simp_thms; linarith)
    show "v \<in> set (tm_running (timer_callback w s)) \<longrightarrow> changed_before v (tm_now (timer_callback w s)) (timer_callback w s)"
      using ok r unfolding f m by blast
    show "\<forall>t. (v, Restarted, t) \<in> set (tm_log (timer_callback w s)) \<longrightarrow> changed_before v t (timer_callback w s)"
      using ok assms(2) unfolding f m by auto
  qed (use ok in \<open>simp add: f m\<close>)
qed

lemma step_restarts_ok:
  assumes "watch_step s t" and "timers_ok s" and "restarts_ok v s"
  shows "restarts_ok v t"
  using assms
proof (induction rule: watch_step.induct)
  case (tick d s)
  have "changed_before v (tm_now s) s \<Longrightarrow> changed_before v (tm_now s + d) s" using tick.hyps by (auto intro: changed_before_mono)
  then show ?case using tick.prems by (simp add: restarts_ok_def owed_def armed_for_def noted_def changed_before_def)
next
  case (change s w)
  then show ?case by (simp add: schedule_restarts_ok)
next
  case (expire s k w dl)
  then show ?case by (simp add: expire_restarts_ok)
next
  case (callback w s)
  then show ?case by (simp add: callback_restarts_ok)
next
  case (stop s)
  have "armed_for v (cancelAllTimers s) \<subseteq> armed_for v s" by (auto simp: armed_for_def cancelAllTimers_def split: if_splits)
  then have "card (armed_for v (cancelAllTimers s)) \<le> card (armed_for v s)" using finite_armed [OF stop.prems(1)] by (rule card_mono [rotated])
  then show ?case
    using stop.prems(2) by (auto simp: restarts_ok_def cancelAllTimers_def noted_def changed_before_def split: if_splits)
qed

lemma reach_restarts_ok: "watch_reach no_timers s \<Longrightarrow> timers_ok s \<and> restarts_ok w s"
proof (induction rule: watch_reach.induct)
  case refl
  show ?case
    by (simp add: timers_ok_def restarts_ok_def no_timers_def owed_def armed_for_def noted_def)
next
  case (step s t)
  then show ?case using step_timers_ok step_restarts_ok by blast
qed

text \<open>
  C29: The debouncing loses no change: as long as the server runs, a worker whose sources changed since its last restart has an armed timer or
  a callback about to run, even when the change comes between a timer's expiry and its callback. There are never more restarts of a worker
  than changes, and each restart comes at least 300 ms after some change of that worker.
\<close>
theorem hot_reload_loses_no_change:
  assumes "watch_reach no_timers s"
  shows "(\<not> tm_done s \<and> owed w s \<longrightarrow> armed_for w s \<noteq> {} \<or> w \<in> set (tm_running s)) \<and>
    noted w Restarted s \<le> noted w Changed s \<and>
    (\<forall>t. (w, Restarted, t) \<in> set (tm_log s) \<longrightarrow> (\<exists>t'. (w, Changed, t') \<in> set (tm_log s) \<and> t' + debounce \<le> t))"
  using reach_restarts_ok [OF assms, of w] by (auto simp: restarts_ok_def changed_before_def)

theorem hot_reload_loses_no_change_witness:
  "\<exists>k. k \<in> armed_for ''w'' (scheduleRestart ''w'' no_timers)"
proof -
  have "watch_step no_timers (scheduleRestart ''w'' no_timers)" by (rule watch_step.change) (simp add: no_timers_def)
  then have r: "watch_reach no_timers (scheduleRestart ''w'' no_timers)" using watch_reach.refl watch_reach.step by blast
  have "\<not> tm_done (scheduleRestart ''w'' no_timers) \<and> owed ''w'' (scheduleRestart ''w'' no_timers)"
    by (simp add: scheduleRestart_def no_timers_def owed_def)
  moreover have "tm_running (scheduleRestart ''w'' no_timers) = []" by (simp add: scheduleRestart_def no_timers_def)
  ultimately show ?thesis using hot_reload_loses_no_change [OF r, of "''w''"] by auto
qed

section \<open>The watched workers\<close>

lemma buildWorkerIDs_spawned: "buildWorkerIDs (wc_ID w) (replicas_of w) = spawnWorker w"
  by (simp add: buildWorkerIDs_def spawnWorker_def buildWorkerID_def)

definition ids_in :: "(worker_config \<Rightarrow> string option) \<Rightarrow> worker_config list \<Rightarrow> string \<Rightarrow> string list" where
  "ids_in absDir ws d = concat (map spawnWorker (filter (\<lambda>w. absDir w = Some d) ws))"

definition entries_ok :: "(worker_config \<Rightarrow> string option) \<Rightarrow> worker_config list \<Rightarrow> watch_entry list \<times> (string \<rightharpoonup> nat) \<Rightarrow> bool" where
  "entries_ok absDir ws st \<longleftrightarrow>
     distinct (map we_dir (fst st)) \<and>
     (\<forall>d i. snd st d = Some i \<longleftrightarrow> i < length (fst st) \<and> we_dir (fst st ! i) = d) \<and>
     set (map we_dir (fst st)) = {d. d \<noteq> [] \<and> Some d \<in> absDir ` set ws} \<and>
     (\<forall>e \<in> set (fst st). we_ids e = ids_in absDir ws (we_dir e))"

lemma entries_skip:
  assumes "entries_ok absDir ws st" and "absDir w = None \<or> absDir w = Some []"
  shows "entries_ok absDir (ws @ [w]) st"
proof -
  have "ids_in absDir (ws @ [w]) d = ids_in absDir ws d" if "d \<noteq> []" for d using assms(2) that by (auto simp: ids_in_def)
  moreover have "we_dir e \<noteq> []" if "e \<in> set (fst st)" for e using assms(1) that by (auto simp: entries_ok_def)
  ultimately show ?thesis using assms by (auto simp: entries_ok_def image_iff)
qed

lemma entries_new:
  assumes "entries_ok absDir ws (es, seen)" and "absDir w = Some d" and "d \<noteq> []" and "seen d = None"
  shows "entries_ok absDir (ws @ [w]) (es @ [\<lparr>we_ids = spawnWorker w, we_dir = d\<rparr>], seen(d \<mapsto> length es))"
proof -
  have n: "d \<notin> set (map we_dir es)"
  proof
    assume "d \<in> set (map we_dir es)"
    then obtain i where "i < length es" "we_dir (es ! i) = d" by (auto simp: in_set_conv_nth)
    then have "seen d = Some i" using assms(1) unfolding entries_ok_def by simp
    then show False using assms(4) by simp
  qed
  then have "Some d \<notin> absDir ` set ws" using assms(1,3) unfolding entries_ok_def by auto
  then have "filter (\<lambda>w. absDir w = Some d) ws = []" by (auto simp: filter_empty_conv image_iff)
  then have e: "ids_in absDir ws d = []" by (simp add: ids_in_def)
  have "ids_in absDir (ws @ [w]) c = ids_in absDir ws c @ (if c = d then spawnWorker w else [])" for c
    using assms(2) by (auto simp: ids_in_def)
  note ids = this
  have n': "i < length es \<Longrightarrow> we_dir (es ! i) \<noteq> d" for i using n nth_mem by fastforce
  let ?es = "es @ [\<lparr>we_ids = spawnWorker w, we_dir = d\<rparr>]"
  note ok = assms(1) [unfolded entries_ok_def fst_conv snd_conv]
  show ?thesis
    unfolding entries_ok_def fst_conv snd_conv
  proof (intro conjI)
    show "distinct (map we_dir ?es)" using ok n by simp
    show "\<forall>c i. (seen(d \<mapsto> length es)) c = Some i \<longleftrightarrow> i < length ?es \<and> we_dir (?es ! i) = c"
      using conjunct1 [OF conjunct2 [OF ok]] n' by (auto simp: nth_append less_Suc_eq)
    show "set (map we_dir ?es) = {c. c \<noteq> [] \<and> Some c \<in> absDir ` set (ws @ [w])}" using ok assms(2,3) by auto
    show "\<forall>e \<in> set ?es. we_ids e = ids_in absDir (ws @ [w]) (we_dir e)" using ok n e by (auto simp: ids)
  qed
qed

lemma entries_append:
  assumes "entries_ok absDir ws (es, seen)" and "absDir w = Some d" and "seen d = Some i"
  shows "entries_ok absDir (ws @ [w]) (es[i := (es ! i)\<lparr>we_ids := we_ids (es ! i) @ spawnWorker w\<rparr>], seen)"
proof -
  let ?e = "(es ! i)\<lparr>we_ids := we_ids (es ! i) @ spawnWorker w\<rparr>"
  have i: "i < length es" "we_dir (es ! i) = d" using assms(1,3) by (auto simp: entries_ok_def)
  have m: "map we_dir (es[i := ?e]) = map we_dir es" by (simp add: map_update list_update_same_conv i)
  have "d \<in> we_dir ` set es" using i by (metis imageI nth_mem)
  then have s: "Some d \<in> absDir ` set ws" using assms(1) by (auto simp: entries_ok_def)
  have ids: "ids_in absDir (ws @ [w]) c = ids_in absDir ws c @ (if c = d then spawnWorker w else [])" for c
    using assms(2) by (auto simp: ids_in_def)
  have "we_ids e = ids_in absDir (ws @ [w]) (we_dir e)" if e: "e \<in> set (es[i := ?e])" for e
  proof -
    from e obtain j where j: "j < length es" "e = es[i := ?e] ! j" by (auto simp: in_set_conv_nth)
    have "we_dir (es ! j) = d \<longleftrightarrow> j = i"
      using assms(1) i j(1) nth_eq_iff_index_eq [of "map we_dir es" j i] by (auto simp: entries_ok_def)
    then show ?thesis using j i assms(1) ids nth_mem [OF j(1)] by (cases "j = i") (auto simp: entries_ok_def)
  qed
  moreover have "(j < length es \<and> we_dir (es[i := ?e] ! j) = c) = (j < length es \<and> we_dir (es ! j) = c)" for j c
    using i(1) by (cases "j = i") auto
  moreover have "{c. c \<noteq> [] \<and> Some c \<in> absDir ` set (ws @ [w])} = {c. c \<noteq> [] \<and> Some c \<in> absDir ` set ws}" using s assms(2) by auto
  ultimately show ?thesis using assms(1) unfolding entries_ok_def fst_conv snd_conv m by simp
qed

lemma add_entry_ok:
  assumes "entries_ok absDir ws st"
  shows "entries_ok absDir (ws @ [w]) (add_entry st (processWorkerForWatch absDir w))"
proof -
  obtain es seen where st: "st = (es, seen)" by (cases st)
  show ?thesis
  proof (cases "absDir w = None \<or> absDir w = Some []")
    case True
    then have "add_entry st (processWorkerForWatch absDir w) = st" by (auto simp: add_entry_def processWorkerForWatch_def st)
    then show ?thesis using entries_skip [OF assms True] by simp
  next
    case False
    then obtain d where d: "absDir w = Some d" "d \<noteq> []" by auto
    have p: "processWorkerForWatch absDir w = (d, spawnWorker w)" by (simp add: processWorkerForWatch_def d buildWorkerIDs_spawned)
    show ?thesis
      using entries_new [OF assms [unfolded st] d] entries_append [OF assms [unfolded st] d(1)] d(2)
      by (simp add: add_entry_def p st split: option.split)
  qed
qed

lemma init_entries_ok:
  "entries_ok absDir ws (foldl (\<lambda>st w. add_entry st (processWorkerForWatch absDir w)) ([], Map.empty) ws)"
proof (induction ws rule: rev_induct)
  case (snoc w ws)
  then show ?case using add_entry_ok by simp
qed (simp add: entries_ok_def)

lemma find_prefix: "P e \<Longrightarrow> \<exists>f \<in> set (es @ [e]). find P (es @ e # rest) = Some f"
  by (induction es) auto

text \<open>
  Hot reloading restarts what start-up started: for every working directory there is exactly one entry, and it lists exactly the
  identifiers of the replicas spawned for the workers of that directory, in the order of the manifest.
\<close>
theorem watched_workers_are_spawned:
  "distinct (map we_dir (initWatcherEntries absDir ws)) \<and>
   set (map we_dir (initWatcherEntries absDir ws)) = {d. d \<noteq> [] \<and> Some d \<in> absDir ` set ws} \<and>
   set (initWatcherEntries absDir ws) \<subseteq> {e. we_ids e = ids_in absDir ws (we_dir e)}"
  using init_entries_ok [of absDir ws] unfolding entries_ok_def initWatcherEntries_def by blast

text \<open>
  A change below several watched directories restarts the workers of one of them only, the first in the manifest: a worker whose
  directory lies inside that of an earlier one is never restarted by changes of its own sources.
\<close>
theorem nested_directory_not_restarted:
  assumes "initWatcherEntries absDir ws = es @ e # rest" and "e' \<in> set rest" and "HasPrefix (we_dir e') (we_dir e @ ''/'')"
    and "HasPrefix (fv_abs ev) (we_dir e' @ ''/'')"
    and "handleWatcherEvent ev cfgPath (initWatcherEntries absDir ws) = RestartWorkers ids"
  shows "\<exists>f \<in> set (es @ [e]). ids = we_ids f \<and> we_dir f \<noteq> we_dir e'"
proof -
  let ?P = "\<lambda>e. HasPrefix (fv_abs ev) (we_dir e @ ''/'') \<or> fv_abs ev = we_dir e"
  obtain r where r: "fv_abs ev = we_dir e' @ ''/'' @ r" using assms(4) HasPrefixE by fastforce
  obtain q where "we_dir e' = (we_dir e @ ''/'') @ q" using assms(3) HasPrefixE by fastforce
  then have "?P e" using r HasPrefix_append [of "we_dir e @ ''/''" "q @ ''/'' @ r"] by simp
  then obtain f where f: "f \<in> set (es @ [e])" "find ?P (es @ e # rest) = Some f" using find_prefix [of ?P e es rest] by blast
  have "distinct (map we_dir (es @ e # rest))"
    using init_entries_ok [of absDir ws] assms(1) by (simp add: entries_ok_def initWatcherEntries_def)
  then have "we_dir f \<noteq> we_dir e'" using f(1) assms(2) by (auto simp: disjoint_iff)
  moreover have "ids = we_ids f" using assms(5) f(2) unfolding handleWatcherEvent_def assms(1) by (simp split: if_splits)
  ultimately show ?thesis using f(1) by blast
qed

definition ex_worker :: "string \<Rightarrow> string \<Rightarrow> worker_config" where
  "ex_worker i dir = \<lparr>wc_ID = i, wc_Command = ''node x.js'', wc_WorkingDir = dir, wc_RuntimeVersion = [], wc_Replicas = 1, wc_Strategy = [],
     wc_PoolSize = 0, wc_StartupTimeout = 0, wc_ShutdownTimeout = 0\<rparr>"

theorem nested_directory_not_restarted_witness:
  "handleWatcherEvent \<lparr>fv_write = True, fv_create = False, fv_rename = False, fv_name = ''a.ts'', fv_abs = ''/p/api/a.ts''\<rparr> ''/p/vyx.yaml''
     (initWatcherEntries (\<lambda>w. Some (wc_WorkingDir w)) [ex_worker ''web'' ''/p'', ex_worker ''api'' ''/p/api'']) = RestartWorkers [''web'']"
proof -
  let ?ws = "[ex_worker ''web'' ''/p'', ex_worker ''api'' ''/p/api'']" and ?dir = "\<lambda>w. Some (wc_WorkingDir w)"
  let ?ev = "\<lparr>fv_write = True, fv_create = False, fv_rename = False, fv_name = ''a.ts'', fv_abs = ''/p/api/a.ts''\<rparr>"
  have i: "initWatcherEntries ?dir ?ws = [] @ \<lparr>we_ids = [''web''], we_dir = ''/p''\<rparr> # [\<lparr>we_ids = [''api''], we_dir = ''/p/api''\<rparr>]"
    by (simp add: initWatcherEntries_def add_entry_def processWorkerForWatch_def ex_worker_def buildWorkerIDs_def replicas_of_def)
  have x: "isSourceFile ''a.ts''" by (simp add: isSourceFile_def Ext_def ToLower_def lower_char_def)
  obtain ids where h: "handleWatcherEvent ?ev ''/p/vyx.yaml'' (initWatcherEntries ?dir ?ws) = RestartWorkers ids"
    using x by (simp add: i handleWatcherEvent_def HasPrefix_def)
  show ?thesis using nested_directory_not_restarted [OF i _ _ _ h] h by (simp add: HasPrefix_def)
qed

end
