(* ===== verification/Processes.thy ===== *)
theory Processes
  imports Lifecycle
begin

text \<open>
  The process manager of \<open>core/infrastructure/process/manager.go\<close>: the table of started processes, stopping them with a termination
  signal and a kill after the timeout, and the pipe that cuts a worker's output into log lines. What the operating system does (whether a
  process starts, whether it exits in time) is an argument; signals sent are recorded. A process that has been waited for is \<open>reaped\<close>, and
  \<open>os.Process.Signal\<close> answers \<open>os.ErrProcessDone\<close> for it.
\<close>

section \<open>Cutting output into lines\<close>

text \<open>The body of the loop of \<open>processChunk\<close>: \<open>cur\<close> is the part of the current line read so far.\<close>

fun chunk_loop :: "string \<Rightarrow> string \<Rightarrow> string list \<times> string" where
  "chunk_loop cur [] = ([], cur)"
| "chunk_loop cur (b # bs) =
     (if b = CHR 0x0A
      then (case chunk_loop [] bs of (ls, rest) \<Rightarrow> (if cur \<noteq> [] then cur # ls else ls, rest))
      else chunk_loop (cur @ [b]) bs)"

text \<open>The lines handed to the writer, and the incomplete line that is kept.\<close>

definition processChunk :: "string \<Rightarrow> string list \<times> string" where
  "processChunk data = chunk_loop [] data"

text \<open>The reads of \<open>pipeLog\<close> until the end of the input or the cancellation, which both flush what is left.\<close>

fun pipeLog :: "string \<Rightarrow> string list \<Rightarrow> string list" where
  "pipeLog partial [] = (if partial \<noteq> [] then [partial] else [])"
| "pipeLog partial (buf # reads) =
     (if buf = [] then pipeLog partial reads
      else (case processChunk (partial @ buf) of (ls, rest) \<Rightarrow> ls @ pipeLog rest reads))"

section \<open>The table of processes\<close>

abbreviation ErrStopTimeout :: go_error where
  "ErrStopTimeout \<equiv> Sentinel ''worker did not stop within the allowed timeout''"

abbreviation ErrProcessDone :: go_error where
  "ErrProcessDone \<equiv> Sentinel ''os: process already finished''"

datatype os_signal = SIGTERM | SIGKILL

record proc_manager =
  pm_processes :: "string \<rightharpoonup> nat"
  pm_waitDone :: "string \<rightharpoonup> nat"
  pm_next :: nat
  pm_reaped :: "nat set"
  pm_signals :: "(nat \<times> os_signal) list"

definition New_manager :: proc_manager where
  "New_manager = \<lparr>pm_processes = Map.empty, pm_waitDone = Map.empty, pm_next = 0, pm_reaped = {}, pm_signals = []\<rparr>"

text \<open>\<open>start\<close> is the result of \<open>cmd.Start\<close>.\<close>

definition proc_Spawn :: "go_error option \<Rightarrow> proc_manager \<Rightarrow> worker \<Rightarrow> go_error option \<times> proc_manager" where
  "proc_Spawn start m w =
     (if w_Command w = [] then (Some ErrInvalidCommand, m)
      else (case start of
              Some err \<Rightarrow> (Some (WErrorf ErrSpawnFailed ('': '' @ Error err)), m)
            | None \<Rightarrow>
                (None, m\<lparr>pm_processes := (pm_processes m)(w_ID w \<mapsto> pm_next m), pm_waitDone := (pm_waitDone m)(w_ID w \<mapsto> pm_next m),
                         pm_next := Suc (pm_next m)\<rparr>)))"

text \<open>The goroutine of \<open>Spawn\<close> after a process has ended: \<open>Wait\<close> returns and the channel is closed.\<close>

definition proc_exits :: "nat \<Rightarrow> proc_manager \<Rightarrow> proc_manager" where
  "proc_exits p m = m\<lparr>pm_reaped := insert p (pm_reaped m)\<rparr>"

definition send_signal :: "os_signal \<Rightarrow> nat \<Rightarrow> proc_manager \<Rightarrow> go_error option \<times> proc_manager" where
  "send_signal sg p m = (if p \<in> pm_reaped m then (Some ErrProcessDone, m) else (None, m\<lparr>pm_signals := pm_signals m @ [(p, sg)]\<rparr>))"

definition forget :: "string \<Rightarrow> proc_manager \<Rightarrow> proc_manager" where
  "forget i m = m\<lparr>pm_processes := (pm_processes m)(i := None), pm_waitDone := (pm_waitDone m)(i := None)\<rparr>"

text \<open>\<open>exits\<close>: the process ends before the timeout.\<close>

definition proc_Stop :: "bool \<Rightarrow> proc_manager \<Rightarrow> string \<Rightarrow> go_error option \<times> proc_manager" where
  "proc_Stop exits m i =
     (case pm_processes m i of
        None \<Rightarrow> (Some ErrNotFound, m)
      | Some p \<Rightarrow>
          (case send_signal SIGTERM p m of
             (Some err, m1) \<Rightarrow> (Some err, m1)
           | (None, m1) \<Rightarrow>
               if pm_waitDone m1 i \<noteq> None \<and> \<not> exits
               then (Some ErrStopTimeout, forget i (snd (send_signal SIGKILL p m1)))
               else (None, forget i (proc_exits p m1))))"

fun proc_stop_loop :: "(string \<Rightarrow> bool) \<Rightarrow> proc_manager \<Rightarrow> string list \<Rightarrow> go_error option \<Rightarrow> go_error option \<times> proc_manager" where
  "proc_stop_loop exits m [] lastErr = (lastErr, m)"
| "proc_stop_loop exits m (i # ids) lastErr =
     (case proc_Stop (exits i) m i of
        (err, m') \<Rightarrow> proc_stop_loop exits m' ids (if err \<noteq> None \<and> err \<noteq> Some ErrNotFound then err else lastErr))"

definition proc_StopAll :: "(string \<Rightarrow> bool) \<Rightarrow> proc_manager \<Rightarrow> string list \<Rightarrow> go_error option \<times> proc_manager" where
  "proc_StopAll exits m order = proc_stop_loop exits m order None"

section \<open>Lines do not depend on the reads\<close>

lemma Split_append_last: "Split c (xs @ ys) = butlast (Split c xs) @ Split c (last (Split c xs) @ ys)"
proof (induction xs)
  case (Cons x xs)
  obtain y zs where "Split c xs = y # zs" using Split_not_Nil by (meson neq_Nil_conv)
  then show ?case using Cons by (cases zs) (auto split: list.splits)
qed simp

lemma chunk_loop_Split:
  "CHR 0x0A \<notin> set cur \<Longrightarrow>
     chunk_loop cur s = (filter (\<lambda>l. l \<noteq> []) (butlast (Split (CHR 0x0A) (cur @ s))), last (Split (CHR 0x0A) (cur @ s)))"
proof (induction s arbitrary: cur)
  case Nil
  then show ?case by (simp add: Split_no_sep)
next
  case (Cons b bs)
  show ?case
  proof (cases "b = CHR 0x0A")
    case True
    then show ?thesis using Cons.IH [of "[]"] Cons.prems by (simp add: Split_append)
  next
    case False
    then show ?thesis using Cons.IH [of "cur @ [b]"] Cons.prems by simp
  qed
qed

lemma pipeLog_Split:
  "CHR 0x0A \<notin> set partial \<Longrightarrow> pipeLog partial reads = filter (\<lambda>l. l \<noteq> []) (Split (CHR 0x0A) (partial @ concat reads))"
proof (induction reads arbitrary: partial)
  case Nil
  then show ?case by (simp add: Split_no_sep)
next
  case (Cons buf reads)
  have "CHR 0x0A \<notin> set (last (Split (CHR 0x0A) (partial @ buf)))" by (rule Split_pieces [OF last_in_set]) simp
  then show ?case
    using Cons Split_append_last [of "CHR 0x0A" "partial @ buf" "concat reads"]
    by (cases "buf = []") (simp_all add: processChunk_def chunk_loop_Split)
qed

text \<open>
  The log lines of a worker depend on what it writes and not on how the reads cut it: whatever pieces arrive until the end of the
  output, the log gets exactly the non-empty lines of the whole, in order, the last one even without a line feed.
\<close>
theorem log_lines_independent_of_reads:
  "pipeLog [] reads = filter (\<lambda>l. l \<noteq> []) (Split (CHR 0x0A) (concat reads))"
  by (simp add: pipeLog_Split)

section \<open>No process is forgotten\<close>

datatype proc_op = PSpawn worker "go_error option" | PExit nat | PStop string bool

fun proc_step :: "proc_manager \<Rightarrow> proc_op \<Rightarrow> proc_manager" where
  "proc_step m (PSpawn w start) = snd (proc_Spawn start m w)"
| "proc_step m (PExit p) = proc_exits p m"
| "proc_step m (PStop i exits) = snd (proc_Stop exits m i)"

text \<open>Runs that start a worker only when it has no entry, and where only started processes exit.\<close>

fun allowed :: "proc_manager \<Rightarrow> proc_op \<Rightarrow> bool" where
  "allowed m (PSpawn w start) = (pm_processes m (w_ID w) = None)"
| "allowed m (PExit p) = (p < pm_next m)"
| "allowed m (PStop i exits) = True"

inductive proc_reach :: "proc_manager \<Rightarrow> bool" where
  new: "proc_reach New_manager"
| step: "proc_reach m \<Longrightarrow> allowed m op \<Longrightarrow> proc_reach (proc_step m op)"

definition accounted :: "proc_manager \<Rightarrow> nat \<Rightarrow> bool" where
  "accounted m p \<longleftrightarrow> p \<in> pm_reaped m \<or> (p, SIGKILL) \<in> set (pm_signals m) \<or> (\<exists>i. pm_processes m i = Some p)"

definition pm_ok :: "proc_manager \<Rightarrow> bool" where
  "pm_ok m \<longleftrightarrow>
     pm_waitDone m = pm_processes m \<and> (\<forall>i p. pm_processes m i = Some p \<longrightarrow> p < pm_next m) \<and>
     (\<forall>i j p. pm_processes m i = Some p \<longrightarrow> pm_processes m j = Some p \<longrightarrow> i = j) \<and>
     (\<forall>p < pm_next m. accounted m p)"

lemma proc_Stop_cases:
  assumes "pm_ok m" and "pm_processes m i = Some p"
  shows "p \<in> pm_reaped m \<Longrightarrow> proc_Stop exits m i = (Some ErrProcessDone, m)"
    and "p \<notin> pm_reaped m \<Longrightarrow> proc_Stop True m i = (None, forget i (proc_exits p (m\<lparr>pm_signals := pm_signals m @ [(p, SIGTERM)]\<rparr>)))"
    and "p \<notin> pm_reaped m \<Longrightarrow> proc_Stop False m i =
      (Some ErrStopTimeout, forget i (m\<lparr>pm_signals := pm_signals m @ [(p, SIGTERM), (p, SIGKILL)]\<rparr>))"
  using assms by (simp_all add: proc_Stop_def send_signal_def pm_ok_def)

lemma pm_ok_forget:
  assumes "pm_ok m" and "pm_processes m i = Some p"
    and "pm_processes m' = pm_processes m" "pm_waitDone m' = pm_waitDone m" "pm_next m' = pm_next m"
    and "pm_reaped m \<subseteq> pm_reaped m'" "set (pm_signals m) \<subseteq> set (pm_signals m')" "p \<in> pm_reaped m' \<or> (p, SIGKILL) \<in> set (pm_signals m')"
  shows "pm_ok (forget i m')"
proof -
  have "accounted (forget i m') q" if "q < pm_next m" for q
  proof (cases "q = p")
    case True
    then show ?thesis using assms(8) by (auto simp: accounted_def forget_def)
  next
    case False
    have "accounted m q" using assms(1) that by (simp add: pm_ok_def)
    then consider "q \<in> pm_reaped m" | "(q, SIGKILL) \<in> set (pm_signals m)" | j where "pm_processes m j = Some q" by (auto simp: accounted_def)
    then show ?thesis
    proof cases
      case (3 j)
      then have "j \<noteq> i" using False assms(2) by auto
      then show ?thesis using 3 assms(3) by (auto simp: accounted_def forget_def intro!: exI [of _ j])
    qed (use assms(6,7) in \<open>auto simp: accounted_def forget_def\<close>)
  qed
  then show ?thesis using assms(1-5) by (auto simp: pm_ok_def forget_def)
qed

lemma proc_Stop_ok:
  assumes "pm_ok m"
  shows "pm_ok (snd (proc_Stop exits m i))"
proof (cases "pm_processes m i")
  case (Some p)
  note c = proc_Stop_cases [OF assms Some]
  show ?thesis
  proof (cases "p \<in> pm_reaped m")
    case False
    then show ?thesis
      using c(2,3) pm_ok_forget [OF assms Some, of "proc_exits p (m\<lparr>pm_signals := pm_signals m @ [(p, SIGTERM)]\<rparr>)"]
        pm_ok_forget [OF assms Some, of "m\<lparr>pm_signals := pm_signals m @ [(p, SIGTERM), (p, SIGKILL)]\<rparr>"]
      by (cases exits) (auto simp: proc_exits_def)
  qed (use c(1) assms in simp)
qed (use assms in \<open>simp add: proc_Stop_def\<close>)

lemma proc_Spawn_ok:
  assumes "pm_ok m" and "pm_processes m (w_ID w) = None"
  shows "pm_ok (snd (proc_Spawn start m w))"
proof (cases "w_Command w = [] \<or> start \<noteq> None")
  case False
  let ?m = "m\<lparr>pm_processes := (pm_processes m)(w_ID w \<mapsto> pm_next m), pm_waitDone := (pm_waitDone m)(w_ID w \<mapsto> pm_next m), pm_next := Suc (pm_next m)\<rparr>"
  have "snd (proc_Spawn start m w) = ?m" using False by (simp add: proc_Spawn_def)
  moreover have "accounted ?m q" if "q < Suc (pm_next m)" for q
  proof (cases "q = pm_next m")
    case False
    then have "accounted m q" using assms(1) that by (simp add: pm_ok_def)
    then show ?thesis using assms(2) by (auto simp: accounted_def) (metis option.distinct(1))
  qed (auto simp: accounted_def)
  ultimately show ?thesis using assms by (auto simp: pm_ok_def less_Suc_eq)
qed (use assms in \<open>auto simp: proc_Spawn_def split: option.split\<close>)

lemma reach_pm_ok: "proc_reach m \<Longrightarrow> pm_ok m"
proof (induction rule: proc_reach.induct)
  case new
  show ?case by (simp add: pm_ok_def New_manager_def)
next
  case (step m op)
  then show ?case
  proof (cases op)
    case (PExit p)
    then show ?thesis using step by (auto simp: pm_ok_def proc_exits_def accounted_def)
  qed (simp_all add: proc_Spawn_ok proc_Stop_ok)
qed


definition ex_process :: worker where
  "ex_process = ex_worker ''w'' StateStarting\<lparr>w_Command := ''node''\<rparr>"


section \<open>Crashed workers\<close>

text \<open>
  A worker whose process has crashed cannot be restarted or stopped: the signal to the finished process fails, so \<open>Stop\<close> returns that error
  and keeps the entry, \<open>RestartWorker\<close> gives up before starting anything, however often it is called, and the worker is left
  in the state restarting.
\<close>
theorem crashed_worker_cannot_be_restarted:
  assumes "proc_reach m" and "pm_processes m i = Some p" and "p \<in> pm_reaped m"
    and "\<And>tr. en_stop E tr i = fst (proc_Stop exits m i)" and "FindByID (ls_repo s) i = Some w" and "w_ID w = i"
  shows "proc_Stop exits m i = (Some ErrProcessDone, m) \<and>
    (\<exists>s'. RestartWorker E s i now es = (Some ErrProcessDone, s') \<and> actions s' = actions s @ [EffStop i] \<and>
       (\<exists>w'. FindByID (ls_repo s') i = Some w' \<and> w_State w' = StateRestarting))"
proof -
  have st: "proc_Stop exits m i = (Some ErrProcessDone, m)" using proc_Stop_cases(1) [OF reach_pm_ok [OF assms(1)] assms(2,3)] .
  let ?w = "w\<lparr>w_State := StateRestarting, w_RestartCount := w_RestartCount w + 1, w_UpdatedAt := now\<rparr>"
  let ?s2 = "snd (mark_and_drain (publish (save s ?w) EventRestarting ?w ''automatic restart'' now) ?w now es)"
  have stop: "mgr_Stop E ?s2 i = (Some ErrProcessDone, add_effect ?s2 (EffStop i))" using assms(4) st by (simp add: mgr_Stop_def)
  have R: "RestartWorker E s i now es = (Some ErrProcessDone, add_effect ?s2 (EffStop i))"
    using assms(5) stop by (simp add: RestartWorker_def Let_def split_beta)
  have a: "actions (add_effect ?s2 (EffStop i)) = actions s @ [EffStop i]" by simp
  have r: "FindByID (ls_repo (add_effect ?s2 (EffStop i))) i = Some ?w"
    using assms(6) by (simp add: FindByID_def Save_def publish_def save_def add_effect_def)
  have "w_State ?w = StateRestarting" by simp
  with st R a r show ?thesis by blast
qed

theorem crashed_worker_cannot_be_restarted_witness:
  "\<exists>s'. RestartWorker (ex_env\<lparr>en_stop := \<lambda>_ _. fst (proc_Stop True (proc_exits 0 (snd (proc_Spawn None New_manager ex_process))) ''w'')\<rparr>)
      ex_service ''w'' 7 [] = (Some ErrProcessDone, s') \<and> actions s' = actions ex_service @ [EffStop ''w'']"
proof -
  let ?m1 = "snd (proc_Spawn None New_manager ex_process)"
  have f: "pm_processes ?m1 ''w'' = Some 0" "pm_next ?m1 = 1" by (simp_all add: proc_Spawn_def New_manager_def ex_process_def ex_worker_def)
  have "proc_reach (proc_step New_manager (PSpawn ex_process None))" by (rule proc_reach.step [OF proc_reach.new]) (simp add: New_manager_def)
  then have "proc_reach (proc_step ?m1 (PExit 0))" using f by (intro proc_reach.step) simp_all
  then have r: "proc_reach (proc_exits 0 ?m1)" by simp
  have e: "pm_processes (proc_exits 0 ?m1) ''w'' = Some 0" "0 \<in> pm_reaped (proc_exits 0 ?m1)" using f by (simp_all add: proc_exits_def)
  have w: "FindByID (ls_repo ex_service) ''w'' = Some (ex_worker ''w'' StateRunning)" "w_ID (ex_worker ''w'' StateRunning) = ''w''"
    by (simp_all add: FindByID_def ex_service_def NewService_def ex_worker_def)
  show ?thesis
    using crashed_worker_cannot_be_restarted [OF r e, of "ex_env\<lparr>en_stop := \<lambda>_ _. fst (proc_Stop True (proc_exits 0 ?m1) ''w'')\<rparr>" True, OF _ w, of 7 "[]"]
    by auto
qed

end
