(* ===== verification/Schemas.thy ===== *)
theory Schemas
  imports Server Scanner
begin

text \<open>
  The schema validator of \<open>core/infrastructure/gateway/schema.go\<close>: compiled schemas are cached by name and compiled on first use or by
  \<open>WarmUp\<close>. The JSON Schema library and the file system are a record of functions; compiled schemas and decoded bodies are opaque
  types. The dispatcher takes the validator as a function of name and body, and the locale \<open>body_validator\<close> is what it relies on.
\<close>

section \<open>Interface: a validator with hidden state\<close>

fun answers :: "('s \<Rightarrow> string \<Rightarrow> bytes \<Rightarrow> go_error option \<times> 's) \<Rightarrow> 's \<Rightarrow> (string \<times> bytes) list \<Rightarrow> go_error option list \<times> 's" where
  "answers validate s [] = ([], s)"
| "answers validate s ((n, b) # qs) =
     (case validate s n b of (r, s') \<Rightarrow> (case answers validate s' qs of (rs, s'') \<Rightarrow> (r # rs, s'')))"

locale body_validator =
  fixes ok :: "'s \<Rightarrow> bool"
    and validate :: "'s \<Rightarrow> string \<Rightarrow> bytes \<Rightarrow> go_error option \<times> 's"
    and spec :: "string \<Rightarrow> bytes \<Rightarrow> go_error option"
  assumes validate_spec: "ok s \<Longrightarrow> fst (validate s n b) = spec n b"
    and validate_ok: "ok s \<Longrightarrow> ok (snd (validate s n b))"
begin

lemma answers_spec: "ok s \<Longrightarrow> fst (answers validate s qs) = map (\<lambda>(n, b). spec n b) qs"
proof (induction qs arbitrary: s)
  case (Cons q qs)
  then show ?case using validate_spec [of s] validate_ok [of s] by (cases q) (simp add: split_beta)
qed simp

lemma answers_ok: "ok s \<Longrightarrow> ok (snd (answers validate s qs))"
proof (induction qs arbitrary: s)
  case (Cons q qs)
  then show ?case using validate_ok [of s] by (cases q) (simp add: split_beta)
qed simp

end

section \<open>The validator\<close>

text \<open>The error of the library's \<open>Validate\<close>: a \<open>*jsonschema.ValidationError\<close> with location, message and causes, or another error.\<close>

datatype js_error = JsValidation string string "(string \<times> string) list" | JsOther go_error

datatype read_dir = DirMissing | DirError go_error | DirEntries "(string \<times> bool) list"

record ('sc, 'i) schema_env =
  se_stat :: "string \<Rightarrow> go_error option"
  se_compile :: "string \<Rightarrow> go_error + 'sc"
  se_readDir :: "string \<Rightarrow> read_dir"
  se_unmarshal :: "bytes \<Rightarrow> go_error + 'i"
  se_check :: "'sc \<Rightarrow> 'i \<Rightarrow> js_error option"

record 'sc schema_validator =
  sm_schemasDir :: string
  sm_cached :: "string \<rightharpoonup> 'sc"

definition NewSchemaValidator :: "string \<Rightarrow> 'sc schema_validator" where
  "NewSchemaValidator dir = \<lparr>sm_schemasDir = dir, sm_cached = Map.empty\<rparr>"

text \<open>\<open>compile\<close>, with the result it stores.\<close>

definition compiled :: "('sc, 'i) schema_env \<Rightarrow> string \<Rightarrow> string \<Rightarrow> go_error + 'sc" where
  "compiled E dir name =
     (let path = filepath_Join [dir, name @ ''.json'']
      in case se_stat E path of
           Some err \<Rightarrow> Inl (ErrorfW (''schema: file not found for '' @ Quote name @ '': '') err)
         | None \<Rightarrow> (case se_compile E path of Inl err \<Rightarrow> Inl (ErrorfW (''schema: compile '' @ path @ '': '') err) | Inr sc \<Rightarrow> Inr sc))"

definition schema_compile ::
  "('sc, 'i) schema_env \<Rightarrow> 'sc schema_validator \<Rightarrow> string \<Rightarrow> (go_error + 'sc) \<times> 'sc schema_validator" where
  "schema_compile E v name =
     (case compiled E (sm_schemasDir v) name of
        Inl err \<Rightarrow> (Inl err, v)
      | Inr sc \<Rightarrow> (Inr sc, v\<lparr>sm_cached := (sm_cached v)(name \<mapsto> sc)\<rparr>))"

definition getSchema ::
  "('sc, 'i) schema_env \<Rightarrow> 'sc schema_validator \<Rightarrow> string \<Rightarrow> (go_error + 'sc) \<times> 'sc schema_validator" where
  "getSchema E v name = (case sm_cached v name of Some sc \<Rightarrow> (Inr sc, v) | None \<Rightarrow> schema_compile E v name)"

definition InvalidateCache :: "'sc schema_validator \<Rightarrow> 'sc schema_validator" where
  "InvalidateCache v = v\<lparr>sm_cached := Map.empty\<rparr>"

fun toValidationError :: "js_error \<Rightarrow> go_error" where
  "toValidationError (JsValidation loc msg causes) = ValidationError (if causes = [] then [(loc, msg)] else causes)"
| "toValidationError (JsOther err) = ValidationError [([], Error err)]"

text \<open>The part of \<open>Validate\<close> after the schema has been found.\<close>

definition check_body :: "('sc, 'i) schema_env \<Rightarrow> bytes \<Rightarrow> 'sc \<Rightarrow> go_error option" where
  "check_body E body sc =
     (case se_unmarshal E body of
        Inl err \<Rightarrow> Some (ErrorfW ''schema: unmarshal body: '' err)
      | Inr inst \<Rightarrow> map_option toValidationError (se_check E sc inst))"

definition schema_Validate ::
  "('sc, 'i) schema_env \<Rightarrow> 'sc schema_validator \<Rightarrow> string \<Rightarrow> bytes \<Rightarrow> go_error option \<times> 'sc schema_validator" where
  "schema_Validate E v name body =
     (case getSchema E v name of
        (Inl err, v') \<Rightarrow> (Some err, v')
      | (Inr sc, v') \<Rightarrow> (check_body E body sc, v'))"

definition TrimSuffix :: "string \<Rightarrow> string \<Rightarrow> string" where
  "TrimSuffix s p = (if HasSuffix s p then take (length s - length p) s else s)"

fun warm_loop ::
  "('sc, 'i) schema_env \<Rightarrow> 'sc schema_validator \<Rightarrow> (string \<times> bool) list \<Rightarrow> string list \<times> 'sc schema_validator" where
  "warm_loop E v [] = ([], v)"
| "warm_loop E v ((fname, isDir) # es) =
     (if isDir \<or> \<not> HasSuffix fname ''.json'' then warm_loop E v es
      else (case schema_compile E v (TrimSuffix fname ''.json'') of
              (Inl err, v') \<Rightarrow> (case warm_loop E v' es of (errs, v'') \<Rightarrow> (Error err # errs, v''))
            | (Inr _, v') \<Rightarrow> warm_loop E v' es))"

definition WarmUp :: "('sc, 'i) schema_env \<Rightarrow> 'sc schema_validator \<Rightarrow> go_error option \<times> 'sc schema_validator" where
  "WarmUp E v =
     (if sm_schemasDir v = [] then (None, v)
      else (case se_readDir E (sm_schemasDir v) of
              DirMissing \<Rightarrow> (None, v)
            | DirError err \<Rightarrow> (Some (ErrorfW (''schema warm-up: read dir '' @ sm_schemasDir v @ '': '') err), v)
            | DirEntries es \<Rightarrow>
                (case warm_loop E v es of
                   (errs, v') \<Rightarrow>
                     (if errs \<noteq> [] then Some (Errorf (''schema warm-up errors:'' @ [CHR 0x0A] @ Join errs [CHR 0x0A])) else None, v'))))"

section \<open>The cache is invisible while the files stay\<close>

text \<open>The reference: compile the schema anew for every body.\<close>

definition validate_uncached :: "('sc, 'i) schema_env \<Rightarrow> string \<Rightarrow> string \<Rightarrow> bytes \<Rightarrow> go_error option" where
  "validate_uncached E dir name body = (case compiled E dir name of Inl err \<Rightarrow> Some err | Inr sc \<Rightarrow> check_body E body sc)"

definition cache_current :: "('sc, 'i) schema_env \<Rightarrow> string \<Rightarrow> 'sc schema_validator \<Rightarrow> bool" where
  "cache_current E dir v \<longleftrightarrow> sm_schemasDir v = dir \<and> (\<forall>n sc. sm_cached v n = Some sc \<longrightarrow> compiled E dir n = Inr sc)"

lemma schema_compile_current: "cache_current E dir v \<Longrightarrow> cache_current E dir (snd (schema_compile E v n))"
  by (auto simp: cache_current_def schema_compile_def split: sum.splits)

lemma getSchema_current: "cache_current E dir v \<Longrightarrow> cache_current E dir (snd (getSchema E v n))"
  by (simp add: getSchema_def schema_compile_current split: option.split)

lemma getSchema_result: "cache_current E dir v \<Longrightarrow> fst (getSchema E v n) = compiled E dir n"
  by (auto simp: getSchema_def schema_compile_def cache_current_def split: option.split sum.split)

interpretation schemas: body_validator "cache_current E dir" "schema_Validate E" "validate_uncached E dir" for E dir
proof
  fix v n b
  assume c: "cache_current E dir v"
  note g = getSchema_result [OF c, of n] getSchema_current [OF c, of n]
  show "fst (schema_Validate E v n b) = validate_uncached E dir n b"
    using g(1) by (cases "getSchema E v n") (auto simp: schema_Validate_def validate_uncached_def split: sum.split)
  show "cache_current E dir (snd (schema_Validate E v n b))"
    using g(2) by (cases "getSchema E v n") (auto simp: schema_Validate_def split: sum.split)
qed

lemma warm_loop_current: "cache_current E dir v \<Longrightarrow> cache_current E dir (snd (warm_loop E v es))"
proof (induction E v es rule: warm_loop.induct)
  case (2 E v fname isDir es)
  then show ?case
    using schema_compile_current [of E dir v "TrimSuffix fname ''.json''"]
    by (cases "schema_compile E v (TrimSuffix fname ''.json'')") (auto simp: split_beta split: sum.split)
qed simp

lemma WarmUp_current: "cache_current E dir v \<Longrightarrow> cache_current E dir (snd (WarmUp E v))"
  using warm_loop_current by (fastforce simp: WarmUp_def split_beta split: read_dir.split)

lemma NewSchemaValidator_current: "cache_current E dir (NewSchemaValidator dir)"
  by (simp add: cache_current_def NewSchemaValidator_def)

text \<open>
  C24: The cache of compiled schemas is invisible as long as the schema files stay: after a warm-up, whatever it could compile, and any bodies
  validated before, every body gets the answer that compiling its schema anew would give.
\<close>
theorem schema_cache_transparent:
  "fst (answers (schema_Validate E) (snd (WarmUp E (NewSchemaValidator dir))) qs) = map (\<lambda>(n, b). validate_uncached E dir n b) qs"
  by (rule schemas.answers_spec) (rule WarmUp_current [OF NewSchemaValidator_current])

section \<open>Changed files\<close>

lemma schema_Validate_keeps:
  "sm_cached v n = Some sc \<Longrightarrow> sm_cached (snd (schema_Validate E v m b)) n = Some sc"
  by (auto simp: schema_Validate_def getSchema_def schema_compile_def split: option.split sum.split)

lemma answers_keep:
  "sm_cached v n = Some sc \<Longrightarrow> sm_cached (snd (answers (schema_Validate E) v qs)) n = Some sc"
proof (induction qs arbitrary: v)
  case (Cons q qs)
  then show ?case using schema_Validate_keeps [of v n sc E] by (cases q) (simp add: split_beta)
qed simp

lemma getSchema_stores: "fst (getSchema E v n) = Inr sc \<Longrightarrow> sm_cached (snd (getSchema E v n)) n = Some sc"
  by (auto simp: getSchema_def schema_compile_def split: option.splits sum.splits)

text \<open>
  A schema that was compiled once stays in force when its file is changed or deleted: whatever the files are later and whatever is validated
  in between, a body is checked against the old schema, until \<open>InvalidateCache\<close>, after which the current file decides.
\<close>
theorem changed_schema_needs_invalidation:
  assumes "fst (getSchema E v n) = Inr sc"
  shows "let v' = snd (answers (schema_Validate E') (snd (getSchema E v n)) qs)
         in fst (schema_Validate E' v' n b) = check_body E' b sc \<and>
            fst (schema_Validate E' (InvalidateCache v') n b) = validate_uncached E' (sm_schemasDir v') n b"
proof -
  let ?v = "snd (answers (schema_Validate E') (snd (getSchema E v n)) qs)"
  have "sm_cached ?v n = Some sc" using assms by (intro answers_keep getSchema_stores)
  moreover have "cache_current E' (sm_schemasDir ?v) (InvalidateCache ?v)" by (simp add: cache_current_def InvalidateCache_def)
  ultimately show ?thesis
    using schemas.validate_spec [of E' "sm_schemasDir ?v" "InvalidateCache ?v"] by (simp add: Let_def schema_Validate_def getSchema_def)
qed

section \<open>What the client is told\<close>

text \<open>
  Whatever the validator reports, the client gets the same 400: a schema that is missing or does not compile is answered as if the body
  were invalid, and the error that the dispatcher keeps wraps the sentinel with the report's text only, so the structured field
  details that \<open>toValidationError\<close> builds and \<open>writeError\<close> would encode never reach the answer.
\<close>
theorem validation_details_are_lost:
  assumes "re_Validate (cur_route x) \<noteq> []" and "gq_Body (cur_req x) \<noteq> []"
    and "dc_schema cfg = validate_uncached E dir"
    and "validate_uncached E dir (re_Validate (cur_route x)) (gq_Body (cur_req x)) = Some err"
  shows "fst (validateSchema cfg x) = Some None \<and>
    (\<exists>e. lc_Err (px_lc (snd (validateSchema cfg x))) = Some e \<and> error_answer e = (400, json_error ''validation failed''))"
  using assms by (simp add: validateSchema_def fail_with_def error_answer_def)

definition ex_schema_env :: "(nat, nat) schema_env" where
  "ex_schema_env =
     \<lparr>se_stat = \<lambda>p. if p = ''schemas/user.json'' then None else Some (Errorf ''no such file''), se_compile = \<lambda>p. Inr (length p),
      se_readDir = \<lambda>d. DirMissing, se_unmarshal = \<lambda>b. if b = [] then Inl (Errorf ''EOF'') else Inr (length b),
      se_check = \<lambda>sc i. if i < 3 then None else Some (JsValidation [] ''invalid'' [(''/name'', ''too long'')])\<rparr>"

definition ex_validated :: pctx where
  "ex_validated =
     \<lparr>px_lc = (NewLifecycleContext ((ex_req Map.empty)\<lparr>gq_Body := [1, 2, 3]\<rparr>))\<lparr>lc_Route := Some (ex_entry\<lparr>re_Validate := ''user''\<rparr>)\<rparr>,
      px_status = 0, px_disp = ex_disp\<rparr>"

lemma ex_schema_path: "filepath_Join [''schemas'', ''user'' @ ''.json''] = ''schemas/user.json''"
  by code_simp

theorem changed_schema_needs_invalidation_witness:
  "fst (schema_Validate (ex_schema_env\<lparr>se_compile := \<lambda>p. Inr 0\<rparr>) (snd (getSchema ex_schema_env (NewSchemaValidator ''schemas'') ''user'')) ''user'' [1])
     = check_body (ex_schema_env\<lparr>se_compile := \<lambda>p. Inr 0\<rparr>) [1] 17"
proof -
  have "fst (getSchema ex_schema_env (NewSchemaValidator ''schemas'') ''user'') = Inr 17"
    by (simp add: getSchema_def schema_compile_def compiled_def NewSchemaValidator_def ex_schema_env_def ex_schema_path [simplified])
  from changed_schema_needs_invalidation [OF this, of "ex_schema_env\<lparr>se_compile := \<lambda>p. Inr 0\<rparr>" "[]" "[1]"] show ?thesis by (simp add: Let_def)
qed

theorem validation_details_are_lost_witness:
  "fst (validateSchema (ex_cfg\<lparr>dc_schema := validate_uncached ex_schema_env ''schemas''\<rparr>) ex_validated) = Some None"
proof -
  have "validate_uncached ex_schema_env ''schemas'' (re_Validate (cur_route ex_validated)) (gq_Body (cur_req ex_validated)) =
      Some (ValidationError [(''/name'', ''too long'')])"
    by (simp add: validate_uncached_def compiled_def check_body_def ex_validated_def ex_schema_env_def NewLifecycleContext_def cur_route_def
        ex_schema_path [simplified])
  moreover have "re_Validate (cur_route ex_validated) \<noteq> []" "gq_Body (cur_req ex_validated) \<noteq> []"
    by (simp_all add: ex_validated_def NewLifecycleContext_def cur_route_def)
  ultimately show ?thesis
    using validation_details_are_lost [of ex_validated "ex_cfg\<lparr>dc_schema := validate_uncached ex_schema_env ''schemas''\<rparr>" ex_schema_env "''schemas''"]
    by simp
qed

end
