(* ===== verification/Terminal.thy ===== *)
theory Terminal
  imports Logs "HOL-Library.List_Lexorder" "HOL-Library.Char_ord"
begin

text \<open>
  The log viewer of \<open>core/cmd/tui\<close>: the model, its reaction to keys, window sizes and new entries (\<open>update.go\<close>), and the lines it shows
  (\<open>view.go\<close>). Messages are keys by their text; colours and borders are left to the rendering library, and the clock format of an
  entry is a parameter. \<open>View\<close> has a value receiver: what it assigns to the model is lost, so it is a function to the screen.
\<close>

section \<open>The model\<close>

datatype level = LevelALL | LevelERROR | LevelWARN | LevelINFO

fun level_String :: "level \<Rightarrow> string" where
  "level_String LevelALL = ''ALL''"
| "level_String LevelERROR = ''ERROR''"
| "level_String LevelWARN = ''WARN''"
| "level_String LevelINFO = ''INFO''"

fun level_Next :: "level \<Rightarrow> level" where
  "level_Next LevelALL = LevelERROR"
| "level_Next LevelERROR = LevelWARN"
| "level_Next LevelWARN = LevelINFO"
| "level_Next LevelINFO = LevelALL"

record model =
  mo_workers :: "string list"
  mo_filter :: string
  mo_activeKey :: string
  mo_level :: level
  mo_scrollTop :: int
  mo_maxLines :: int
  mo_width :: int
  mo_height :: int
  mo_searchMode :: bool
  mo_searchBuf :: string

definition NewModel :: model where
  "NewModel = \<lparr>mo_workers = [], mo_filter = [], mo_activeKey = ''ALL'', mo_level = LevelALL, mo_scrollTop = 0, mo_maxLines = 0,
     mo_width = 0, mo_height = 0, mo_searchMode = False, mo_searchBuf = []\<rparr>"

definition fetchEntries :: "model \<Rightarrow> multiplexer \<Rightarrow> entry list" where
  "fetchEntries m mux =
     (let all = Entries mux;
          all1 = (if mo_activeKey m \<noteq> ''ALL'' then FilterBySource all (mo_activeKey m) else all);
          all2 = (if mo_level m \<noteq> LevelALL then FilterByLevel all1 (level_String (mo_level m)) else all1)
      in if mo_filter m \<noteq> [] then FilterByCorrelationID all2 (mo_filter m) else all2)"

definition refreshWorkers :: "multiplexer \<Rightarrow> model \<Rightarrow> model" where
  "refreshWorkers mux m =
     m\<lparr>mo_workers := sort (remdups (filter (\<lambda>s. s \<noteq> ''CORE'' \<and> s \<noteq> []) (map en_Source (Entries mux))))\<rparr>"

section \<open>Keys and messages\<close>

definition visibleLines :: "model \<Rightarrow> int" where
  "visibleLines m = (let h = mo_height m - 3 in if h < 1 then 10 else h)"

text \<open>\<open>search_index\<close> is the loop of \<open>cycleSource\<close> that looks for the active source; \<open>None\<close> is -1.\<close>

fun search_index :: "string \<Rightarrow> string list \<Rightarrow> nat option" where
  "search_index k [] = None"
| "search_index k (w # ws) = (if w = k then Some 0 else map_option Suc (search_index k ws))"

definition cycleSource :: "model \<Rightarrow> model" where
  "cycleSource m =
     (let key = (if mo_activeKey m = ''ALL''
                 then (if mo_workers m \<noteq> [] then hd (mo_workers m) else mo_activeKey m)
                 else (case search_index (mo_activeKey m) (mo_workers m) of
                         Some idx \<Rightarrow> if idx < length (mo_workers m) - 1 then mo_workers m ! (idx + 1) else ''ALL''
                       | None \<Rightarrow> ''ALL''))
      in m\<lparr>mo_activeKey := key, mo_scrollTop := 0\<rparr>)"

text \<open>The result says whether to quit.\<close>

definition handleKey :: "string \<Rightarrow> model \<Rightarrow> bool \<times> model" where
  "handleKey key m =
     (if key \<in> {''ctrl+c'', ''q''} then (True, m)
      else (False,
        if key = ''/'' then m\<lparr>mo_searchMode := True, mo_searchBuf := []\<rparr>
        else if key \<in> {''up'', ''k''} then (if 0 < mo_scrollTop m then m\<lparr>mo_scrollTop := mo_scrollTop m - 1\<rparr> else m)
        else if key \<in> {''down'', ''j''}
        then (if mo_scrollTop m < mo_maxLines m - visibleLines m - 1 then m\<lparr>mo_scrollTop := mo_scrollTop m + 1\<rparr> else m)
        else if key \<in> {''pgup'', ''ctrl+b''}
        then (let s = mo_scrollTop m - visibleLines m in m\<lparr>mo_scrollTop := (if s < 0 then 0 else s)\<rparr>)
        else if key \<in> {''pgdown'', ''ctrl+f''} then m\<lparr>mo_scrollTop := mo_scrollTop m + visibleLines m\<rparr>
        else if key = ''g'' then m\<lparr>mo_scrollTop := 0\<rparr>
        else if key = ''G''
        then (let s = mo_maxLines m - visibleLines m in m\<lparr>mo_scrollTop := (if s < 0 then 0 else s)\<rparr>)
        else if key = ''tab'' then cycleSource m
        else if key = ''l'' then m\<lparr>mo_level := level_Next (mo_level m)\<rparr>
        else m))"

definition handleSearchKey :: "string \<Rightarrow> model \<Rightarrow> bool \<times> model" where
  "handleSearchKey key m =
     (if key = ''enter'' then (False, m\<lparr>mo_filter := mo_searchBuf m, mo_searchMode := False\<rparr>)
      else if key = ''esc'' then (False, m\<lparr>mo_searchBuf := [], mo_searchMode := False\<rparr>)
      else if key = ''backspace'' then (False, if mo_searchBuf m \<noteq> [] then m\<lparr>mo_searchBuf := butlast (mo_searchBuf m)\<rparr> else m)
      else if key = ''ctrl+c'' then (True, m)
      else (False, if length key = 1 then m\<lparr>mo_searchBuf := mo_searchBuf m @ key\<rparr> else m))"

datatype tea_msg = KeyMsg string | WindowSizeMsg int int | EntryMsg | TickMsg

text \<open>\<open>Update\<close>; the multiplexer is read behind its pointer.\<close>

fun Update :: "multiplexer \<Rightarrow> model \<Rightarrow> tea_msg \<Rightarrow> bool \<times> model" where
  "Update mux m (KeyMsg key) = (if mo_searchMode m then handleSearchKey key m else handleKey key m)"
| "Update mux m (WindowSizeMsg w h) = (False, refreshWorkers mux (m\<lparr>mo_width := w, mo_height := h\<rparr>))"
| "Update mux m EntryMsg = (False, refreshWorkers mux m)"
| "Update mux m TickMsg = (False, m)"

section \<open>The screen\<close>

definition pad_right :: "nat \<Rightarrow> string \<Rightarrow> string" where
  "pad_right n s = s @ replicate (n - length s) (CHR '' '')"

definition formatEntry :: "(go_time \<Rightarrow> string) \<Rightarrow> entry \<Rightarrow> string" where
  "formatEntry clock e =
     (let message = (if en_Message e = [] then en_Raw e else en_Message e)
      in ''['' @ clock (en_Timestamp e) @ ''] '' @ pad_right 8 (Tag (ParseSource (en_Source e)) (en_Source e)) @ '' '' @
         pad_right 5 (en_Level e) @ '' '' @ message)"

definition renderFooter :: "model \<Rightarrow> string" where
  "renderFooter m =
     (if mo_searchMode m then ''/'' @ mo_searchBuf m @ [CHR 0xE2, CHR 0x96, CHR 0x88]
      else Join [''q quit'', ''/ search'', ''Tab cycle source'', ''l level: '' @ level_String (mo_level m), ''g/G top/bottom''] ''  '' @
           (if mo_filter m \<noteq> [] then '' | filter: '' @ mo_filter m else []) @
           (if mo_activeKey m \<noteq> ''ALL'' then '' | source: '' @ mo_activeKey m else []))"

text \<open>The slice expression \<open>xs[start:end]\<close>, \<open>None\<close> when it panics.\<close>

definition slice :: "'a list \<Rightarrow> int \<Rightarrow> int \<Rightarrow> 'a list option" where
  "slice xs start end =
     (if 0 \<le> start \<and> start \<le> end \<and> end \<le> int (length xs) then Some (take (nat (end - start)) (drop (nat start) xs)) else None)"

definition View :: "(go_time \<Rightarrow> string) \<Rightarrow> multiplexer \<Rightarrow> model \<Rightarrow> (string list \<times> string) option" where
  "View clock mux m =
     (let entries = fetchEntries m mux;
          s1 = (if int (length entries) - visibleLines m < mo_scrollTop m then int (length entries) - visibleLines m else mo_scrollTop m);
          s2 = (if s1 < 0 then 0 else s1);
          visible = map (formatEntry clock) entries;
          end1 = s2 + visibleLines m;
          end2 = (if int (length visible) < end1 then int (length visible) else end1)
      in map_option (\<lambda>ls. (ls, renderFooter m)) (slice visible s2 end2))"

section \<open>What is shown\<close>

lemma visibleLines_pos [simp]: "0 < visibleLines m"
  by (simp add: visibleLines_def Let_def)

lemma clamp: "(if (x :: int) < 0 then 0 else x) = max 0 x" "(if (y :: int) < x then y else x) = min y x"
  by auto

lemma slice_window:
  assumes "0 < v" and "s = max 0 (min (int (length xs) - v) t)"
  shows "slice xs s (min (int (length xs)) (s + v)) = Some (take (nat v) (drop (nat s) xs))"
    and "nat s \<le> length xs - nat v" "int (nat s) \<le> max 0 t"
proof -
  have "0 \<le> s" "s \<le> int (length xs)" "s + v \<le> int (length xs) \<or> s = 0" using assms by auto
  then show "slice xs s (min (int (length xs)) (s + v)) = Some (take (nat v) (drop (nat s) xs))"
    using assms(1) by (cases "s + v \<le> int (length xs)") (auto simp: slice_def min_def)
qed (use assms in \<open>auto simp: max_def min_def\<close>)

text \<open>
  Drawing never fails, whatever has been pressed: the screen shows a window of the filtered entries, as many as fit, ending at the last one when
  the scroll position lies beyond it.
\<close>
theorem view_shows_window:
  "\<exists>s. View clock mux m = Some (take (nat (visibleLines m)) (drop s (map (formatEntry clock) (fetchEntries m mux))), renderFooter m) \<and>
     s \<le> length (fetchEntries m mux) - nat (visibleLines m) \<and> int s \<le> max 0 (mo_scrollTop m)"
proof -
  let ?xs = "map (formatEntry clock) (fetchEntries m mux)" and ?v = "visibleLines m"
  define s where "s = max 0 (min (int (length ?xs) - ?v) (mo_scrollTop m))"
  note w = slice_window [OF visibleLines_pos s_def]
  have "View clock mux m = map_option (\<lambda>ls. (ls, renderFooter m)) (slice ?xs s (min (int (length ?xs)) (s + ?v)))"
    by (simp only: View_def Let_def length_map clamp s_def)
  then have "View clock mux m = Some (take (nat ?v) (drop (nat s) ?xs), renderFooter m)" by (simp only: w(1) option.map)
  then show ?thesis using w(2,3) by (auto simp only: length_map)
qed

lemma filter_stages:
  "(if k \<noteq> ''ALL'' then FilterBySource es k else es) = filter (\<lambda>e. k \<in> {''ALL'', []} \<or> en_Source e = k) es"
  "(if l \<noteq> LevelALL then FilterByLevel es (level_String l) else es) = filter (\<lambda>e. l = LevelALL \<or> levelGreaterOrEqual (en_Level e) (level_String l)) es"
  "(if f \<noteq> [] then FilterByCorrelationID es f else es) = filter (\<lambda>e. f = [] \<or> en_CorrelationID e = f \<or> containsField e f) es"
  by (simp add: FilterBySource_def, cases l, simp_all add: FilterByLevel_def FilterByCorrelationID_def)

text \<open>
  The three filters together show, in their order, exactly the buffered entries of the selected source, at or above the selected level, that
  carry the correlation id or contain the text.
\<close>
theorem filters_compose:
  "fetchEntries m mux =
     filter (\<lambda>e. (mo_activeKey m \<in> {''ALL'', []} \<or> en_Source e = mo_activeKey m) \<and>
                 (mo_level m = LevelALL \<or> levelGreaterOrEqual (en_Level e) (level_String (mo_level m))) \<and>
                 (mo_filter m = [] \<or> en_CorrelationID e = mo_filter m \<or> containsField e (mo_filter m))) (Entries mux)"
  unfolding fetchEntries_def Let_def filter_stages filter_filter by (rule filter_cong) auto

section \<open>Selecting a source\<close>

lemma search_index_nth: "distinct ws \<Longrightarrow> i < length ws \<Longrightarrow> search_index (ws ! i) ws = Some i"
proof (induction ws arbitrary: i)
  case (Cons w ws)
  then show ?case by (cases i) auto
qed simp

lemma cycleSource_workers [simp]: "mo_workers (cycleSource m) = mo_workers m"
  by (simp add: cycleSource_def Let_def)

lemma cycleSource_key:
  assumes "distinct (mo_workers m)" "''ALL'' \<notin> set (mo_workers m)" and "mo_activeKey m = (''ALL'' # mo_workers m) ! i" "i \<le> length (mo_workers m)"
  shows "mo_activeKey (cycleSource m) = (''ALL'' # mo_workers m) ! (Suc i mod Suc (length (mo_workers m)))"
proof (cases i)
  case 0
  then show ?thesis using assms by (cases "mo_workers m") (simp_all add: cycleSource_def Let_def)
next
  case (Suc j)
  then have "mo_activeKey m = mo_workers m ! j" "j < length (mo_workers m)" using assms by auto
  moreover from this have "mo_activeKey m \<noteq> ''ALL''" using assms(2) nth_mem by metis
  ultimately show ?thesis
    using Suc assms(1) search_index_nth [of "mo_workers m" j] by (auto simp: cycleSource_def Let_def mod_if)
qed

text \<open>
  Tab goes through all sources: with \<open>n\<close> workers known, the presses select ALL and each worker once, in the order of the list, and start over
  after \<open>n + 1\<close> presses.
\<close>
theorem tab_visits_every_source:
  assumes "distinct (mo_workers m)" "''ALL'' \<notin> set (mo_workers m)" "mo_activeKey m = ''ALL''"
  shows "mo_activeKey ((cycleSource ^^ k) m) = (''ALL'' # mo_workers m) ! (k mod Suc (length (mo_workers m)))"
proof (induction k)
  case (Suc k)
  have "mo_workers ((cycleSource ^^ k) m) = mo_workers m" by (induction k) simp_all
  then show ?case
    using cycleSource_key [of "(cycleSource ^^ k) m" "k mod Suc (length (mo_workers m))"] Suc assms by (simp add: mod_Suc_eq less_Suc_eq_le [symmetric])
qed (simp add: assms)

text \<open>The list that Tab goes through: the sources of the buffer other than the core, sorted and without repetition.\<close>

lemma refreshWorkers_sources:
  "sorted (mo_workers (refreshWorkers mux m)) \<and> distinct (mo_workers (refreshWorkers mux m)) \<and>
   set (mo_workers (refreshWorkers mux m)) = en_Source ` set (Entries mux) - {''CORE'', []}"
  by (auto simp: refreshWorkers_def)

definition ex_tabs :: model where
  "ex_tabs = NewModel\<lparr>mo_workers := [''go:api'', ''node:api'']\<rparr>"

theorem tab_visits_every_source_witness: "mo_activeKey ((cycleSource ^^ 5) ex_tabs) = ''node:api''"
  using tab_visits_every_source [of ex_tabs 5] by (simp add: ex_tabs_def NewModel_def)

section \<open>Typing a filter\<close>

fun updates :: "(multiplexer \<times> tea_msg) list \<Rightarrow> model \<Rightarrow> model" where
  "updates [] m = m"
| "updates ((mux, msg) # msgs) m = updates msgs (snd (Update mux m msg))"

lemma updates_append: "updates (xs @ ys) m = updates ys (updates xs m)"
  by (induction xs m rule: updates.induct) simp_all

lemma typed_keys: "mo_searchMode m \<Longrightarrow> updates (map (\<lambda>c. (mux, KeyMsg [c])) s) m = m\<lparr>mo_searchBuf := mo_searchBuf m @ s\<rparr>"
  by (induction s arbitrary: m) (simp_all add: handleSearchKey_def)

text \<open>
  Typing a text into the search field and pressing Enter filters by exactly that text, whatever the characters are: also those that are commands
  outside the search field, such as \<open>q\<close>.
\<close>
theorem typed_text_becomes_filter:
  assumes "\<not> mo_searchMode m"
  shows "updates ((mux, KeyMsg ''/'') # map (\<lambda>c. (mux, KeyMsg [c])) s @ [(mux, KeyMsg ''enter'')]) m =
    m\<lparr>mo_filter := s, mo_searchBuf := s, mo_searchMode := False\<rparr>"
  using assms typed_keys [of "m\<lparr>mo_searchMode := True, mo_searchBuf := []\<rparr>" mux s]
  by (simp add: handleKey_def updates_append handleSearchKey_def)

theorem typed_text_becomes_filter_witness:
  "mo_filter (updates ((NewMultiplexer [], KeyMsg ''/'') # map (\<lambda>c. (NewMultiplexer [], KeyMsg [c])) ''q1'' @ [(NewMultiplexer [], KeyMsg ''enter'')]) NewModel)
     = ''q1''"
  by (subst typed_text_becomes_filter) (simp_all add: NewModel_def)

section \<open>Scrolling\<close>

lemma Update_scroll:
  "mo_maxLines (snd (Update mux m msg)) = mo_maxLines m"
  "0 \<le> mo_scrollTop m \<Longrightarrow> 0 \<le> mo_scrollTop (snd (Update mux m msg))"
  using visibleLines_pos [of m]
  by (cases msg; simp add: handleSearchKey_def handleKey_def cycleSource_def refreshWorkers_def Let_def del: visibleLines_pos)+

lemma updates_scroll:
  "mo_maxLines (updates msgs m) = mo_maxLines m \<and> (0 \<le> mo_scrollTop m \<longrightarrow> 0 \<le> mo_scrollTop (updates msgs m))"
  by (induction msgs m rule: updates.induct) (simp_all add: Update_scroll)

text \<open>
  Scrolling down by a line and jumping to the end do not work: the number of lines that \<open>View\<close> records is recorded in its copy of the model,
  so after any messages it is still zero; \<open>down\<close> and \<open>j\<close> never move, and \<open>G\<close>, documented as the bottom, goes to the top.
\<close>
theorem scrolling_down_is_dead:
  "let m = updates msgs NewModel
   in snd (handleKey ''down'' m) = m \<and> snd (handleKey ''j'' m) = m \<and> mo_scrollTop (snd (handleKey ''G'' m)) = 0"
proof -
  let ?m = "updates msgs NewModel"
  have "mo_maxLines ?m = 0" "0 \<le> mo_scrollTop ?m" using updates_scroll [of msgs NewModel] by (simp_all add: NewModel_def)
  moreover have "0 < visibleLines ?m" by simp
  ultimately have "\<not> mo_scrollTop ?m < mo_maxLines ?m - visibleLines ?m - 1" "mo_maxLines ?m - visibleLines ?m < 0" by linarith+
  then show ?thesis unfolding Let_def handleKey_def by simp
qed

end
