(* ===== verification/Metrics.thy ===== *)
theory Metrics
  imports Dispatcher "HOL-Library.Monad_Syntax"
begin

text \<open>
  Instrumentation: the names and label keys of \<open>core/domain/metrics/metrics.go\<close>, the Prometheus provider of
  \<open>core/infrastructure/metrics/prometheus.go\<close>, and what the dispatcher records through it. The Prometheus library decides whether a
  collector can be registered and whether a set of labels fits a collector; both are parameters, a refusal is a panic (\<open>None\<close>). An instrument
  is known by its kind, name and declared label names; an update of it names the series by its labels.
\<close>

section \<open>Names\<close>

abbreviation (input) HTTPRequestTotal :: string where "HTTPRequestTotal \<equiv> ''vyx_http_requests_total''"
abbreviation (input) HTTPRequestDuration :: string where "HTTPRequestDuration \<equiv> ''vyx_http_request_duration_seconds''"
abbreviation (input) HTTPRequestInFlight :: string where "HTTPRequestInFlight \<equiv> ''vyx_http_requests_in_flight''"
abbreviation (input) WorkerRequestTotal :: string where "WorkerRequestTotal \<equiv> ''vyx_worker_requests_total''"
abbreviation (input) WorkerRequestDuration :: string where "WorkerRequestDuration \<equiv> ''vyx_worker_request_duration_seconds''"
abbreviation (input) WorkerErrorsTotal :: string where "WorkerErrorsTotal \<equiv> ''vyx_worker_errors_total''"
abbreviation (input) CircuitBreakerState :: string where "CircuitBreakerState \<equiv> ''vyx_circuit_breaker_state''"
abbreviation (input) CircuitBreakerTrips :: string where "CircuitBreakerTrips \<equiv> ''vyx_circuit_breaker_trips_total''"

type_synonym labels = "string \<rightharpoonup> string"

section \<open>The provider\<close>

datatype kind = Counter | Gauge | Histogram

type_synonym registered = "(string \<times> string list) list"

record provider =
  pv_registry :: registered
  pv_vecs :: "kind \<Rightarrow> string \<rightharpoonup> string list"

definition NewPromProvider :: provider where
  "NewPromProvider = \<lparr>pv_registry = [], pv_vecs = \<lambda>_. Map.empty\<rparr>"

text \<open>The label names with which a counter, gauge or histogram of a name is created.\<close>

definition counter_labels :: "string \<Rightarrow> string list" where
  "counter_labels name =
     (if name = HTTPRequestTotal then [''method'', ''path'', ''status'']
      else if name = WorkerRequestTotal then [''worker'', ''method'']
      else if name = WorkerErrorsTotal then [''worker'', ''phase'']
      else if name = CircuitBreakerTrips then [''worker'']
      else [])"

definition gauge_labels :: "string \<Rightarrow> string list" where
  "gauge_labels name =
     (if name = HTTPRequestInFlight then [''method'', ''path'']
      else if name \<in> {''vyx_worker_pool_size'', ''vyx_worker_pool_active'', ''vyx_worker_pool_idle''} then [''worker'']
      else if name = CircuitBreakerState then [''worker'', ''state'']
      else [])"

definition histogram_labels :: "string \<Rightarrow> string list" where
  "histogram_labels name =
     (if name = HTTPRequestDuration then [''method'', ''path'', ''status'']
      else if name = WorkerRequestDuration then [''worker'', ''method'']
      else [])"

text \<open>Creating or finding an instrument: the declared labels and the provider; \<open>register\<close> is the library's decision in \<open>MustRegister\<close>.\<close>

definition new_vec ::
  "(registered \<Rightarrow> string \<Rightarrow> string list \<Rightarrow> bool) \<Rightarrow> kind \<Rightarrow> (string \<Rightarrow> string list) \<Rightarrow> provider \<Rightarrow> string \<Rightarrow> (string list \<times> provider) option" where
  "new_vec register k lab p name =
     (case pv_vecs p k name of
        Some ls \<Rightarrow> Some (ls, p)
      | None \<Rightarrow>
          if register (pv_registry p) name (lab name)
          then Some (lab name, p\<lparr>pv_registry := pv_registry p @ [(name, lab name)], pv_vecs := (pv_vecs p)(k := (pv_vecs p k)(name \<mapsto> lab name))\<rparr>)
          else None)"

definition NewCounter :: "(registered \<Rightarrow> string \<Rightarrow> string list \<Rightarrow> bool) \<Rightarrow> provider \<Rightarrow> string \<Rightarrow> (string list \<times> provider) option" where
  "NewCounter register = new_vec register Counter counter_labels"

definition NewGauge :: "(registered \<Rightarrow> string \<Rightarrow> string list \<Rightarrow> bool) \<Rightarrow> provider \<Rightarrow> string \<Rightarrow> (string list \<times> provider) option" where
  "NewGauge register = new_vec register Gauge gauge_labels"

definition NewHistogram :: "(registered \<Rightarrow> string \<Rightarrow> string list \<Rightarrow> bool) \<Rightarrow> provider \<Rightarrow> string \<Rightarrow> (string list \<times> provider) option" where
  "NewHistogram register = new_vec register Histogram histogram_labels"

section \<open>The dispatcher's instruments\<close>

definition initMetrics :: "(registered \<Rightarrow> string \<Rightarrow> string list \<Rightarrow> bool) \<Rightarrow> provider \<Rightarrow> provider option" where
  "initMetrics register p0 = do {
     (_, p1) \<leftarrow> NewCounter register p0 HTTPRequestTotal;
     (_, p2) \<leftarrow> NewHistogram register p1 HTTPRequestDuration;
     (_, p3) \<leftarrow> NewGauge register p2 HTTPRequestInFlight;
     (_, p4) \<leftarrow> NewCounter register p3 WorkerRequestTotal;
     (_, p5) \<leftarrow> NewHistogram register p4 WorkerRequestDuration;
     (_, p6) \<leftarrow> NewCounter register p5 WorkerErrorsTotal;
     (_, p7) \<leftarrow> NewGauge register p6 CircuitBreakerState;
     (_, p8) \<leftarrow> NewCounter register p7 CircuitBreakerTrips;
     Some p8 }"

datatype change = SetTo int | Plus int | Observed

text \<open>An update of an instrument: kind and name, the series, and what happens to it.\<close>

type_synonym update = "(kind \<times> string) \<times> labels \<times> change"

definition recordHTTPMetrics :: "string \<Rightarrow> string \<Rightarrow> string \<Rightarrow> update list" where
  "recordHTTPMetrics method path status =
     (let ls = [''method'' \<mapsto> method, ''path'' \<mapsto> path, ''status'' \<mapsto> status]
      in [((Counter, HTTPRequestTotal), ls, Plus 1), ((Histogram, HTTPRequestDuration), ls, Observed),
          ((Gauge, HTTPRequestInFlight), [''method'' \<mapsto> method, ''path'' \<mapsto> path], Plus (- 1))])"

definition trackWorkerDispatch :: "string \<Rightarrow> string \<Rightarrow> bool \<Rightarrow> update list" where
  "trackWorkerDispatch workerID method failed =
     (let ls = [''worker'' \<mapsto> workerID, ''method'' \<mapsto> method]
      in [((Counter, WorkerRequestTotal), ls, Plus 1)] @
         (if failed then [((Counter, WorkerErrorsTotal), [''worker'' \<mapsto> workerID, ''phase'' \<mapsto> ''dispatch''], Plus 1)] else []) @
         [((Histogram, WorkerRequestDuration), ls, Observed)])"

fun state_value :: "cb_state \<Rightarrow> int" where
  "state_value StateClosed = 0"
| "state_value StateOpen = 1"
| "state_value StateHalfOpen = 2"

definition trackCircuitBreakerState :: "string \<Rightarrow> cb_state \<Rightarrow> update list" where
  "trackCircuitBreakerState routeKey state =
     [((Gauge, CircuitBreakerState), [''worker'' \<mapsto> routeKey, ''state'' \<mapsto> cb_state_String state], SetTo (state_value state))]"

text \<open>The counter that a state change of a breaker increments.\<close>

definition onStateChange :: "state_change \<Rightarrow> update list" where
  "onStateChange sc = (if sc_To sc = StateOpen then [((Counter, CircuitBreakerTrips), [''worker'' \<mapsto> sc_RouteID sc], Plus 1)] else [])"

text \<open>
  The updates behind the entries of \<open>ds_metrics\<close>. The dispatcher records a finished request as \<open>HTTPRequest\<close> followed by \<open>InFlightDec\<close>, which
  are the calls of \<open>recordHTTPMetrics\<close>.
\<close>

fun metric_updates :: "metric \<Rightarrow> update list" where
  "metric_updates (InFlightInc method path) = [((Gauge, HTTPRequestInFlight), [''method'' \<mapsto> method, ''path'' \<mapsto> path], Plus 1)]"
| "metric_updates (HTTPRequest method path status) = take 2 (recordHTTPMetrics method path (Itoa status))"
| "metric_updates (InFlightDec method path) = drop 2 (recordHTTPMetrics method path [])"
| "metric_updates (CBState routeKey state) = trackCircuitBreakerState routeKey state"

text \<open>Performing an update: \<open>With\<close> panics unless the labels fit the declared names.\<close>

definition perform :: "(string list \<Rightarrow> labels \<Rightarrow> bool) \<Rightarrow> provider \<Rightarrow> update \<Rightarrow> bool" where
  "perform fits p u = (case pv_vecs p (fst (fst u)) (snd (fst u)) of None \<Rightarrow> False | Some names \<Rightarrow> fits names (fst (snd u)))"

section \<open>No instrument is used against its declaration\<close>

definition pv_ok :: "provider \<Rightarrow> bool" where
  "pv_ok p \<longleftrightarrow> (\<forall>k n ls. pv_vecs p k n = Some ls \<longrightarrow> n \<in> fst ` set (pv_registry p)) \<and> distinct (map fst (pv_registry p))"

lemma new_vec_ok:
  assumes "\<And>reg n ls. n \<notin> fst ` set reg \<Longrightarrow> register reg n ls"
    and "pv_ok p" "n \<notin> fst ` set (pv_registry p)"
  shows "\<exists>p'. new_vec register k lab p n = Some (lab n, p') \<and> pv_ok p' \<and> pv_registry p' = pv_registry p @ [(n, lab n)] \<and>
    pv_vecs p' = (pv_vecs p)(k := (pv_vecs p k)(n \<mapsto> lab n))"
proof -
  have "pv_vecs p k n = None" using assms(2,3) by (cases "pv_vecs p k n") (auto simp: pv_ok_def)
  then show ?thesis using assms by (force simp: new_vec_def pv_ok_def)
qed

lemma new_vec_again: "new_vec register k lab p n = Some (ls, p') \<Longrightarrow> new_vec register k lab p' n = Some (ls, p')"
  by (auto simp: new_vec_def split: option.splits if_splits)

definition instruments :: "(kind \<times> string) list" where
  "instruments =
     [(Counter, HTTPRequestTotal), (Histogram, HTTPRequestDuration), (Gauge, HTTPRequestInFlight), (Counter, WorkerRequestTotal),
      (Histogram, WorkerRequestDuration), (Counter, WorkerErrorsTotal), (Gauge, CircuitBreakerState), (Counter, CircuitBreakerTrips)]"

fun label_names :: "kind \<Rightarrow> string \<Rightarrow> string list" where
  "label_names Counter = counter_labels"
| "label_names Gauge = gauge_labels"
| "label_names Histogram = histogram_labels"

text \<open>\<open>initMetrics\<close> creates its instruments one after the other.\<close>

fun create_all :: "(registered \<Rightarrow> string \<Rightarrow> string list \<Rightarrow> bool) \<Rightarrow> (kind \<times> string) list \<Rightarrow> provider \<Rightarrow> provider option" where
  "create_all register [] p = Some p"
| "create_all register ((k, n) # ins) p = do { (_, p') \<leftarrow> new_vec register k (label_names k) p n; create_all register ins p' }"

lemma initMetrics_create_all: "initMetrics register p = create_all register instruments p"
  by (simp only: initMetrics_def instruments_def NewCounter_def NewGauge_def NewHistogram_def create_all.simps label_names.simps case_prod_beta')

lemma create_all_ok:
  assumes "\<And>reg n ls. n \<notin> fst ` set reg \<Longrightarrow> register reg n ls"
  shows "pv_ok p \<Longrightarrow> distinct (map snd ins) \<Longrightarrow> snd ` set ins \<inter> fst ` set (pv_registry p) = {} \<Longrightarrow>
    \<exists>p'. create_all register ins p = Some p' \<and> pv_ok p' \<and> map fst (pv_registry p') = map fst (pv_registry p) @ map snd ins \<and>
      (\<forall>k n. pv_vecs p' k n = (if (k, n) \<in> set ins then Some (label_names k n) else pv_vecs p k n))"
proof (induction ins arbitrary: p)
  case (Cons i js)
  obtain k n where i: "i = (k, n)" by fastforce
  obtain p1 where p1: "new_vec register k (label_names k) p n = Some (label_names k n, p1)" "pv_ok p1"
      "pv_registry p1 = pv_registry p @ [(n, label_names k n)]" "pv_vecs p1 = (pv_vecs p)(k := (pv_vecs p k)(n \<mapsto> label_names k n))"
    using new_vec_ok [where register = register and p = p and n = n and k = k and lab = "label_names k"] assms Cons.prems i by auto
  have d: "distinct (map snd js)" "snd ` set js \<inter> fst ` set (pv_registry p1) = {}" using Cons.prems p1(3) i by auto
  obtain p2 where "create_all register js p1 = Some p2" "pv_ok p2" "map fst (pv_registry p2) = map fst (pv_registry p1) @ map snd js"
      "\<forall>k n. pv_vecs p2 k n = (if (k, n) \<in> set js then Some (label_names k n) else pv_vecs p1 k n)"
    using Cons.IH [OF p1(2)] d by blast
  then show ?case using p1 i by auto
qed simp

definition well_labelled :: "update \<Rightarrow> bool" where
  "well_labelled u \<longleftrightarrow> fst u \<in> set instruments \<and> dom (fst (snd u)) = set (label_names (fst (fst u)) (snd (fst u)))"

lemma declared_labels [simp]:
  "label_names Counter HTTPRequestTotal = [''method'', ''path'', ''status'']" "label_names Counter WorkerRequestTotal = [''worker'', ''method'']"
  "label_names Counter WorkerErrorsTotal = [''worker'', ''phase'']" "label_names Counter CircuitBreakerTrips = [''worker'']"
  "label_names Gauge HTTPRequestInFlight = [''method'', ''path'']" "label_names Gauge CircuitBreakerState = [''worker'', ''state'']"
  "label_names Histogram HTTPRequestDuration = [''method'', ''path'', ''status'']"
  "label_names Histogram WorkerRequestDuration = [''worker'', ''method'']"
  by (simp_all add: counter_labels_def gauge_labels_def histogram_labels_def)

lemma dom_labels: "dom [a \<mapsto> x] = set [a]" "dom [a \<mapsto> x, b \<mapsto> y] = set [a, b]" "dom [a \<mapsto> x, b \<mapsto> y, c \<mapsto> z] = set [a, b, c]"
  by auto

lemma well_labelled_simps:
  "well_labelled (i, [a \<mapsto> x], ch) \<longleftrightarrow> i \<in> set instruments \<and> set [a] = set (label_names (fst i) (snd i))"
  "well_labelled (i, [a \<mapsto> x, b \<mapsto> y], ch) \<longleftrightarrow> i \<in> set instruments \<and> set [a, b] = set (label_names (fst i) (snd i))"
  "well_labelled (i, [a \<mapsto> x, b \<mapsto> y, c \<mapsto> z], ch) \<longleftrightarrow> i \<in> set instruments \<and> set [a, b, c] = set (label_names (fst i) (snd i))"
  by (simp_all only: well_labelled_def dom_labels fst_conv snd_conv)

lemma instruments_set:
  "(Counter, HTTPRequestTotal) \<in> set instruments" "(Histogram, HTTPRequestDuration) \<in> set instruments"
  "(Gauge, HTTPRequestInFlight) \<in> set instruments" "(Counter, WorkerRequestTotal) \<in> set instruments"
  "(Histogram, WorkerRequestDuration) \<in> set instruments" "(Counter, WorkerErrorsTotal) \<in> set instruments"
  "(Gauge, CircuitBreakerState) \<in> set instruments" "(Counter, CircuitBreakerTrips) \<in> set instruments"
  by (simp_all add: instruments_def)

lemmas labelling = list.pred_inject list_all_append append.simps well_labelled_simps instruments_set declared_labels fst_conv snd_conv simp_thms

lemma updates_well_labelled:
  "list_all well_labelled (recordHTTPMetrics me pa st)" "list_all well_labelled (trackWorkerDispatch w me f)"
  "list_all well_labelled (trackCircuitBreakerState k s)" "list_all well_labelled (onStateChange sc)"
  unfolding recordHTTPMetrics_def trackWorkerDispatch_def trackCircuitBreakerState_def onStateChange_def Let_def
  by (simp_all only: labelling split: if_split)

lemma metric_updates_well_labelled: "list_all well_labelled (metric_updates m)"
proof (cases m)
  case (InFlightInc me pa)
  then show ?thesis by (simp only: metric_updates.simps labelling)
next
  case (InFlightDec me pa)
  then show ?thesis by (simp only: metric_updates.simps recordHTTPMetrics_def Let_def drop_Cons_numeral drop_0 arith_simps numeral_2_eq_2 drop_Suc_Cons labelling)
next
  case (HTTPRequest me pa st)
  then show ?thesis by (simp only: metric_updates.simps recordHTTPMetrics_def Let_def take_0 numeral_2_eq_2 take_Suc_Cons labelling)
qed (simp only: metric_updates.simps updates_well_labelled)



section \<open>What the breaker gauge says\<close>

text \<open>
  The gauge of the breakers does not say which state a breaker is in: the state is also a label, so each state of a route has a series of its own,
  every update of it sets the same number, and none is ever reset. A breaker that has been open shows 1 in its series \<open>open\<close> for ever, next
  to the 0 of its series \<open>closed\<close>.
\<close>
theorem breaker_gauge_never_falls_back:
  assumes "u \<in> set (metric_updates m)" and "fst u = (Gauge, CircuitBreakerState)" and "fst (snd u) ''state'' = Some (cb_state_String s)"
  shows "snd (snd u) = SetTo (state_value s)"
proof -
  have inj: "cb_state_String a = cb_state_String b \<Longrightarrow> a = b" for a b by (cases a; cases b) simp_all
  show ?thesis using assms inj
    by (cases m) (auto simp: recordHTTPMetrics_def trackCircuitBreakerState_def Let_def)
qed

theorem breaker_gauge_never_falls_back_witness:
  "snd (snd (hd (metric_updates (CBState ''GET:/a'' StateOpen)))) = SetTo 1"
  using breaker_gauge_never_falls_back [of "hd (metric_updates (CBState ''GET:/a'' StateOpen))" "CBState ''GET:/a'' StateOpen" StateOpen]
  by (simp add: trackCircuitBreakerState_def)

end
