(* ===== verification/SharedMemory.thy ===== *)
theory SharedMemory
  imports Prelude
begin

text \<open>
  The shared-memory store of \<open>core/infrastructure/ipc/shm/shm.go\<close> (a copy of it is in \<open>shm_root_origin\<close>): files under \<open>/dev/shm\<close>, mapped into
  memory and tracked by path. The file system and the mappings of the process are part of the state; whether a system call fails is an argument.
  Mappings have identities, so that a lost one can be told from a tracked one.
\<close>

section \<open>State\<close>

record descriptor =
  de_Path :: string
  de_Size :: int
  de_ID :: string

text \<open>\<open>sh_regions\<close> is the map of the store; \<open>sh_files\<close> the files and \<open>sh_mapped\<close> the mappings that exist, \<open>sh_next\<close> a new mapping.\<close>

record shm_store =
  sh_regions :: "string \<rightharpoonup> nat"
  sh_files :: "string set"
  sh_mapped :: "nat set"
  sh_next :: nat

definition NewStore :: "string set \<Rightarrow> shm_store" where
  "NewStore files = \<lparr>sh_regions = Map.empty, sh_files = files, sh_mapped = {}, sh_next = 0\<rparr>"

text \<open>The outcomes of the system calls of one operation; \<open>None\<close> is success.\<close>

record syscalls =
  sy_mkdir :: "go_error option"
  sy_open :: "go_error option"
  sy_size :: "go_error option"
  sy_mmap :: "go_error option"
  sy_munmap :: "go_error option"

abbreviation (input) all_succeed :: syscalls where
  "all_succeed \<equiv> \<lparr>sy_mkdir = None, sy_open = None, sy_size = None, sy_mmap = None, sy_munmap = None\<rparr>"

section \<open>Operations\<close>

definition region_name :: "string \<Rightarrow> string \<Rightarrow> string" where
  "region_name workerID requestID = ''vyx-'' @ workerID @ ''-'' @ requestID"

definition region_path :: "string \<Rightarrow> string \<Rightarrow> string" where
  "region_path workerID requestID = filepath_Join [''/dev/shm'', region_name workerID requestID]"

definition add_file :: "string \<Rightarrow> shm_store \<Rightarrow> shm_store" where
  "add_file path s = s\<lparr>sh_files := insert path (sh_files s)\<rparr>"

definition remove_file :: "string \<Rightarrow> shm_store \<Rightarrow> shm_store" where
  "remove_file path s = s\<lparr>sh_files := sh_files s - {path}\<rparr>"

text \<open>A successful \<open>mmapFile\<close> and the entry made for it.\<close>

definition track :: "string \<Rightarrow> shm_store \<Rightarrow> shm_store" where
  "track path s =
     s\<lparr>sh_regions := (sh_regions s)(path \<mapsto> sh_next s), sh_mapped := insert (sh_next s) (sh_mapped s), sh_next := Suc (sh_next s)\<rparr>"

definition shm_Create :: "syscalls \<Rightarrow> shm_store \<Rightarrow> string \<Rightarrow> string \<Rightarrow> int \<Rightarrow> (go_error + nat \<times> descriptor) \<times> shm_store" where
  "shm_Create c s workerID requestID sz =
     (case sy_mkdir c of
        Some err \<Rightarrow> (Inl (ErrorfW ''shm: mkdir: '' err), s)
      | None \<Rightarrow>
          (let path = region_path workerID requestID
           in case sy_open c of
                Some err \<Rightarrow> (Inl (ErrorfW ''shm: create file: '' err), s)
              | None \<Rightarrow>
                  (case sy_size c of
                     Some err \<Rightarrow> (Inl (ErrorfW ''shm: truncate: '' err), remove_file path (add_file path s))
                   | None \<Rightarrow>
                       (case sy_mmap c of
                          Some err \<Rightarrow> (Inl (ErrorfW ''shm: mmap: '' err), remove_file path (add_file path s))
                        | None \<Rightarrow>
                            (Inr (sh_next s, \<lparr>de_Path = path, de_Size = sz, de_ID = region_name workerID requestID\<rparr>),
                             track path (add_file path s))))))"

definition shm_Open :: "syscalls \<Rightarrow> shm_store \<Rightarrow> string \<Rightarrow> (go_error + nat) \<times> shm_store" where
  "shm_Open c s path =
     (case sy_open c of
        Some err \<Rightarrow> (Inl (ErrorfW ''shm: open: '' err), s)
      | None \<Rightarrow>
          (case sy_size c of
             Some err \<Rightarrow> (Inl (ErrorfW ''shm: stat: '' err), s)
           | None \<Rightarrow>
               (case sy_mmap c of
                  Some err \<Rightarrow> (Inl (ErrorfW ''shm: mmap: '' err), s)
                | None \<Rightarrow> (Inr (sh_next s), track path s))))"

definition unmap :: "nat \<Rightarrow> shm_store \<Rightarrow> shm_store" where
  "unmap r s = s\<lparr>sh_mapped := sh_mapped s - {r}\<rparr>"

definition shm_Close :: "syscalls \<Rightarrow> shm_store \<Rightarrow> string \<Rightarrow> go_error option \<times> shm_store" where
  "shm_Close c s path =
     (let s1 = s\<lparr>sh_regions := (sh_regions s)(path := None)\<rparr>
      in case sh_regions s path of
           None \<Rightarrow> (Some (Errorf (''shm: region '' @ path @ '' not found'')), s1)
         | Some r \<Rightarrow>
             (case sy_munmap c of
                Some err \<Rightarrow> (Some (ErrorfW ''shm: munmap: '' err), s1)
              | None \<Rightarrow> (None, remove_file path (unmap r s1))))"

text \<open>The loop of \<open>CloseAll\<close>, over the paths in the order of the range; \<open>fails\<close> says which regions cannot be unmapped.\<close>

fun close_loop :: "(string \<Rightarrow> go_error option) \<Rightarrow> string list \<Rightarrow> go_error option \<Rightarrow> shm_store \<Rightarrow> go_error option \<times> shm_store" where
  "close_loop fails [] lastErr s = (lastErr, s)"
| "close_loop fails (path # ps) lastErr s =
     (case sh_regions s path of
        None \<Rightarrow> close_loop fails ps lastErr s
      | Some r \<Rightarrow>
          (let s1 = (if fails path = None then unmap r s else s);
               s2 = remove_file path s1
           in close_loop fails ps (if fails path \<noteq> None then fails path else lastErr) (s2\<lparr>sh_regions := (sh_regions s2)(path := None)\<rparr>)))"

definition shm_CloseAll :: "(string \<Rightarrow> go_error option) \<Rightarrow> string list \<Rightarrow> shm_store \<Rightarrow> go_error option \<times> shm_store" where
  "shm_CloseAll fails order s = close_loop fails order None s"

section \<open>Nothing is left behind\<close>

datatype shm_op = ShmCreate string string int syscalls | ShmOpen string syscalls | ShmClose string syscalls

fun shm_step :: "shm_store \<Rightarrow> shm_op \<Rightarrow> shm_store" where
  "shm_step s (ShmCreate w q n c) = snd (shm_Create c s w q n)"
| "shm_step s (ShmOpen p c) = snd (shm_Open c s p)"
| "shm_step s (ShmClose p c) = snd (shm_Close c s p)"

text \<open>A discipline for clients: no path is used twice at a time, and unmapping succeeds.\<close>

fun disciplined :: "shm_store \<Rightarrow> shm_op \<Rightarrow> bool" where
  "disciplined s (ShmCreate w q n c) = (sh_regions s (region_path w q) = None)"
| "disciplined s (ShmOpen p c) = (sh_regions s p = None)"
| "disciplined s (ShmClose p c) = (sy_munmap c = None)"

inductive shm_reach :: "string set \<Rightarrow> shm_store \<Rightarrow> bool" for files where
  new: "shm_reach files (NewStore files)"
| step: "shm_reach files s \<Longrightarrow> disciplined s op \<Longrightarrow> shm_reach files (shm_step s op)"

definition shm_ok :: "string set \<Rightarrow> shm_store \<Rightarrow> bool" where
  "shm_ok files s \<longleftrightarrow>
     sh_mapped s = ran (sh_regions s) \<and> (\<forall>p q r. sh_regions s p = Some r \<longrightarrow> sh_regions s q = Some r \<longrightarrow> p = q) \<and>
     (\<forall>r \<in> sh_mapped s. r < sh_next s) \<and> sh_files s \<subseteq> files \<union> dom (sh_regions s) \<and> finite (dom (sh_regions s))"

lemma track_ok:
  assumes "shm_ok files s" and "sh_regions s path = None"
  shows "shm_ok files (track path s)" "shm_ok files (track path (add_file path s))"
proof -
  have "sh_next s \<notin> ran (sh_regions s)" using assms(1) by (auto simp: shm_ok_def)
  then have "ran ((sh_regions s)(path \<mapsto> sh_next s)) = insert (sh_next s) (ran (sh_regions s))"
    "\<And>p. sh_regions s p \<noteq> Some (sh_next s)" using assms(2) by (simp, auto simp: ran_def)
  then show "shm_ok files (track path s)" "shm_ok files (track path (add_file path s))"
    using assms(1) by (auto simp: shm_ok_def track_def add_file_def less_Suc_eq)
qed

lemma remove_file_ok: "shm_ok files s \<Longrightarrow> shm_ok files (remove_file p (add_file p s))"
  by (auto simp: shm_ok_def remove_file_def add_file_def)

lemma forget_ok:
  assumes "shm_ok files s" and r: "sh_regions s p = Some r"
    and "sh_regions s' = (sh_regions s)(p := None)" "sh_mapped s' = sh_mapped s - {r}" "sh_files s' = sh_files s - {p}" "sh_next s' = sh_next s"
  shows "shm_ok files s'"
proof -
  have "x \<in> ran ((sh_regions s)(p := None)) \<longleftrightarrow> x \<in> ran (sh_regions s) - {r}" for x
    using assms(1) r unfolding shm_ok_def ran_def by (simp, metis option.inject)
  then have "ran ((sh_regions s)(p := None)) = ran (sh_regions s) - {r}" by blast
  then show ?thesis using assms by (auto simp: shm_ok_def)
qed

lemma shm_step_ok: "shm_ok files s \<Longrightarrow> disciplined s op \<Longrightarrow> shm_ok files (shm_step s op)"
proof (cases op)
  case (ShmClose p c)
  assume "shm_ok files s" "disciplined s op"
  then show ?thesis
    using ShmClose forget_ok [of files s p]
    by (cases "sh_regions s p") (simp_all add: shm_Close_def Let_def remove_file_def unmap_def fun_upd_idem)
qed (auto simp: shm_Create_def shm_Open_def Let_def track_ok remove_file_ok split: option.split)

lemma shm_reach_ok: "shm_reach files s \<Longrightarrow> shm_ok files s"
  by (induction rule: shm_reach.induct) (simp_all add: shm_step_ok, simp add: NewStore_def shm_ok_def)

lemma close_loop_all:
  assumes "shm_ok files s" and "distinct ps" "dom (sh_regions s) \<subseteq> set ps"
  shows "\<exists>s'. close_loop (\<lambda>_. None) ps None s = (None, s') \<and> sh_regions s' = Map.empty \<and> sh_mapped s' = {} \<and> sh_files s' \<subseteq> files"
  using assms
proof (induction ps arbitrary: s)
  case Nil
  then have "sh_regions s = Map.empty" by auto
  then show ?case using Nil by (simp add: shm_ok_def)
next
  case (Cons p ps)
  show ?case
  proof (cases "sh_regions s p")
    case None
    then have "dom (sh_regions s) \<subseteq> set ps" using Cons.prems(3) by auto
    then show ?thesis using Cons.IH [OF Cons.prems(1)] Cons.prems(2) None by simp
  next
    case (Some r)
    let ?s = "(remove_file p (unmap r s))\<lparr>sh_regions := (sh_regions s)(p := None)\<rparr>"
    have d: "dom (sh_regions ?s) \<subseteq> set ps" using Cons.prems by auto
    have ok: "shm_ok files ?s" by (rule forget_ok [OF Cons.prems(1) Some]) (simp_all add: remove_file_def unmap_def)
    have "close_loop (\<lambda>_. None) (p # ps) None s = close_loop (\<lambda>_. None) ps None ?s"
      using Some by (simp add: Let_def remove_file_def unmap_def)
    then show ?thesis using Cons.IH [OF ok _ d] Cons.prems(2) by simp
  qed
qed


definition ex_shm :: shm_store where
  "ex_shm = shm_step (NewStore {}) (ShmCreate ''w'' ''q'' 64 all_succeed)"

lemma ex_shm_regions: "sh_regions ex_shm = [region_path ''w'' ''q'' \<mapsto> 0]"
  by (simp add: ex_shm_def shm_Create_def NewStore_def track_def add_file_def Let_def)


section \<open>Lost mappings\<close>

definition lost :: "shm_store \<Rightarrow> nat \<Rightarrow> bool" where
  "lost s r \<longleftrightarrow> r \<in> sh_mapped s \<and> r \<notin> ran (sh_regions s) \<and> r < sh_next s"

lemma unmap_lost: "lost s r \<Longrightarrow> sh_regions s p = Some q \<Longrightarrow> r \<noteq> q"
  by (auto simp: lost_def ran_def)

lemma ran_smaller: "ran (m(p := None)) \<subseteq> ran m"
  by (auto simp: ran_def)

lemma lost_step: "lost s r \<Longrightarrow> lost (shm_step s op) r"
proof (cases op)
  case (ShmClose p c)
  assume l: "lost s r"
  then have "r \<notin> ran ((sh_regions s)(p := None))" using ran_smaller by (force simp: lost_def)
  then show ?thesis
    using l ShmClose unmap_lost [OF l, of p] by (auto simp: shm_Close_def Let_def lost_def remove_file_def unmap_def split: option.split)
qed (auto simp: shm_Create_def shm_Open_def Let_def lost_def track_def add_file_def remove_file_def ran_def split: option.split if_splits)

lemma close_loop_keeps_lost: "lost s r \<Longrightarrow> lost (snd (close_loop fails ps e s)) r"
proof (induction fails ps e s rule: close_loop.induct)
  case (2 fails path ps e s)
  show ?case
  proof (cases "sh_regions s path")
    case (Some q)
    let ?s = "(remove_file path (if fails path = None then unmap q s else s))\<lparr>sh_regions := (sh_regions s)(path := None)\<rparr>"
    have "lost ?s r" using 2(3) unmap_lost [OF 2(3) Some] ran_smaller [of "sh_regions s" path] by (auto simp: lost_def remove_file_def unmap_def)
    then show ?thesis using 2(2) [OF Some refl refl] Some by (cases "fails path") (simp_all add: Let_def remove_file_def unmap_def)
  qed (use 2 in simp)
qed simp

text \<open>
  Using a path again before closing it loses memory for good: if a region is created or opened where one is tracked, the mapping of the first
  is in no table any more, and no later operation, \<open>Close\<close> and \<open>CloseAll\<close> included, unmaps it. Distinct requests can collide in this way:
  the worker id and the request id are joined by a hyphen that either may contain.
\<close>
theorem reused_path_leaks:
  assumes "shm_reach files s" and "sh_regions s (region_path (w @ ''-'' @ x) q) = Some r"
  shows "r \<in> sh_mapped (snd (shm_CloseAll fails order (foldl shm_step (snd (shm_Create all_succeed s w (x @ ''-'' @ q) n)) ops)))"
proof -
  have p: "region_path w (x @ ''-'' @ q) = region_path (w @ ''-'' @ x) q" by (simp add: region_path_def region_name_def)
  have ok: "shm_ok files s" using assms(1) by (rule shm_reach_ok)
  then have "r \<in> sh_mapped s" "r < sh_next s" using assms(2) by (auto simp: shm_ok_def ran_def)
  moreover have "r \<notin> ran ((sh_regions s)(region_path w (x @ ''-'' @ q) \<mapsto> sh_next s))"
    using ok assms(2) calculation(2) unfolding p by (auto simp: ran_def shm_ok_def split: if_splits)
  ultimately have "lost (snd (shm_Create all_succeed s w (x @ ''-'' @ q) n)) r"
    by (simp add: shm_Create_def Let_def track_def add_file_def lost_def)
  then have "lost (foldl shm_step (snd (shm_Create all_succeed s w (x @ ''-'' @ q) n)) ops) r"
    by (induction ops rule: rev_induct) (simp_all add: lost_step)
  then show ?thesis using close_loop_keeps_lost unfolding shm_CloseAll_def lost_def by blast
qed

theorem reused_path_leaks_witness:
  "0 \<in> sh_mapped (snd (shm_CloseAll (\<lambda>_. None) [region_path ''a'' ''b-c'']
     (foldl shm_step (snd (shm_Create all_succeed (shm_step (NewStore {}) (ShmCreate ''a-b'' ''c'' 64 all_succeed)) ''a'' ''b-c'' 64)) [])))"
proof -
  let ?s = "shm_step (NewStore {}) (ShmCreate ''a-b'' ''c'' 64 all_succeed)"
  have "shm_reach {} ?s" by (rule shm_reach.step [OF shm_reach.new]) (simp add: NewStore_def)
  moreover have "sh_regions ?s (region_path (''a'' @ ''-'' @ ''b'') ''c'') = Some 0"
    by (simp add: shm_Create_def NewStore_def track_def add_file_def Let_def)
  ultimately show ?thesis using reused_path_leaks [of "{}" ?s "''a''" "''b''" "''c''" 0 "\<lambda>_. None" "[region_path ''a'' ''b-c'']" 64 "[]"] by simp
qed

end
