(* ===== verification/Arrow.thy ===== *)
theory Arrow
  imports Framing
begin

text \<open>
  The Arrow codec of \<open>core/infrastructure/ipc/codec/arrow.go\<close>: rows are turned into typed columns and back. A value of type \<open>any\<close> is a
  datatype with one constructor per Go type the code distinguishes, integers as words of their width. Floating-point numbers, the text that
  \<open>%v\<close> prints and the Arrow IPC encoding are parameters. A row lists its keys in the order in which a range over it visits them. A
  panic is \<open>None\<close>, an error \<open>Inl\<close>.
\<close>

section \<open>Values, columns, records\<close>

datatype ('f, 'o) any =
    Nil_any
  | V_int "64 word" | V_int8 "8 word" | V_int16 "16 word" | V_int32 "32 word" | V_int64 "64 word"
  | V_uint "64 word" | V_uint8 "8 word" | V_uint16 "16 word" | V_uint32 "32 word" | V_uint64 "64 word"
  | V_float32 'f | V_float64 'f
  | V_bool bool | V_string string | V_bytes bytes
  | V_other 'o

datatype data_type = INT32 | INT64 | FLOAT64 | BOOL | STRING | BINARY

datatype 'f column =
    Int32s "32 word option list"
  | Int64s "64 word option list"
  | Float64s "'f option list"
  | Booleans "bool option list"
  | Strings "string option list"
  | Binaries "bytes option list"

record 'f arrow_record =
  ar_fields :: "(string \<times> data_type) list"
  ar_columns :: "'f column list"
  ar_numRows :: nat

type_synonym ('f, 'o) row = "(string \<times> ('f, 'o) any) list"

text \<open>The library: conversions of numbers and text to \<open>float64\<close> and \<open>int64\<close>, \<open>%v\<close>, and the IPC writer and reader.\<close>

record ('f, 'o) arrow_lib =
  al_float_of_int :: "int \<Rightarrow> 'f"
  al_int_of_float :: "'f \<Rightarrow> 64 word"
  al_ParseFloat :: "string \<Rightarrow> 'f"
  al_NaN :: 'f
  al_sprint :: "('f, 'o) any \<Rightarrow> string"
  al_write :: "'f arrow_record \<Rightarrow> go_error option"
  al_close :: "'f arrow_record \<Rightarrow> go_error option"
  al_bytes :: "'f arrow_record \<Rightarrow> bytes"
  al_read :: "bytes \<Rightarrow> go_error + 'f arrow_record option"

section \<open>Conversions\<close>

text \<open>\<open>strconv.ParseInt(s, 10, 64)\<close> without its error: zero for a malformed text, the nearest bound for a number out of range.\<close>

definition digit_value :: "char \<Rightarrow> int" where
  "digit_value c = int (of_char c :: nat) - 48"

definition ParseInt :: "string \<Rightarrow> 64 word" where
  "ParseInt s =
     (let neg = HasPrefix s ''-''; ds = (if neg \<or> HasPrefix s ''+'' then drop 1 s else s)
      in if ds = [] \<or> (\<exists>c \<in> set ds. digit_value c < 0 \<or> 9 < digit_value c) then 0
         else (let n = foldl (\<lambda>a c. a * 10 + digit_value c) 0 ds; v = (if neg then - n else n)
               in word_of_int (max (- (2 ^ 63)) (min (2 ^ 63 - 1) v))))"

fun toInt64 :: "('f, 'o) arrow_lib \<Rightarrow> ('f, 'o) any \<Rightarrow> 64 word" where
  "toInt64 L (V_int w) = w"
| "toInt64 L (V_int8 w) = scast w"
| "toInt64 L (V_int16 w) = scast w"
| "toInt64 L (V_int32 w) = scast w"
| "toInt64 L (V_int64 w) = w"
| "toInt64 L (V_uint w) = w"
| "toInt64 L (V_uint8 w) = ucast w"
| "toInt64 L (V_uint16 w) = ucast w"
| "toInt64 L (V_uint32 w) = ucast w"
| "toInt64 L (V_uint64 w) = w"
| "toInt64 L (V_float32 x) = al_int_of_float L x"
| "toInt64 L (V_float64 x) = al_int_of_float L x"
| "toInt64 L (V_string s) = ParseInt s"
| "toInt64 L _ = 0"

text \<open>The number an integer value stands for.\<close>

fun int_value :: "('f, 'o) any \<Rightarrow> int option" where
  "int_value (V_int w) = Some (sint w)"
| "int_value (V_int8 w) = Some (sint w)"
| "int_value (V_int16 w) = Some (sint w)"
| "int_value (V_int32 w) = Some (sint w)"
| "int_value (V_int64 w) = Some (sint w)"
| "int_value (V_uint w) = Some (uint w)"
| "int_value (V_uint8 w) = Some (uint w)"
| "int_value (V_uint16 w) = Some (uint w)"
| "int_value (V_uint32 w) = Some (uint w)"
| "int_value (V_uint64 w) = Some (uint w)"
| "int_value _ = None"

fun toFloat64 :: "('f, 'o) arrow_lib \<Rightarrow> ('f, 'o) any \<Rightarrow> 'f" where
  "toFloat64 L (V_float32 x) = x"
| "toFloat64 L (V_float64 x) = x"
| "toFloat64 L (V_string s) = al_ParseFloat L s"
| "toFloat64 L v = (case int_value v of Some i \<Rightarrow> al_float_of_int L i | None \<Rightarrow> al_NaN L)"

section \<open>Columns from rows\<close>

datatype ('f, 'o) payload = Rows "('f, 'o) row list" | OneRow "('f, 'o) row" | OtherPayload string

fun toRows :: "('f, 'o) payload \<Rightarrow> go_error + ('f, 'o) row list" where
  "toRows (Rows rs) = Inr rs"
| "toRows (OneRow r) = Inr [r]"
| "toRows (OtherPayload t) = Inl (Errorf (''unsupported type '' @ t))"

definition emptyRecord :: "'f arrow_record" where
  "emptyRecord = \<lparr>ar_fields = [(''_empty'', INT32)], ar_columns = [Int32s [None]], ar_numRows = 0\<rparr>"

text \<open>\<open>row[k]\<close>: a missing key reads as nil.\<close>

definition cell :: "('f, 'o) row \<Rightarrow> string \<Rightarrow> ('f, 'o) any" where
  "cell row k = (case map_of row k of Some v \<Rightarrow> v | None \<Rightarrow> Nil_any)"

fun value_type :: "('f, 'o) any \<Rightarrow> data_type" where
  "value_type (V_float32 _) = FLOAT64"
| "value_type (V_float64 _) = FLOAT64"
| "value_type (V_bool _) = BOOL"
| "value_type (V_string _) = STRING"
| "value_type (V_bytes _) = BINARY"
| "value_type (V_other _) = STRING"
| "value_type Nil_any = STRING"
| "value_type _ = INT64"

fun inferType :: "('f, 'o) row list \<Rightarrow> string \<Rightarrow> data_type" where
  "inferType [] key = STRING"
| "inferType (row # rows) key = (if cell row key = Nil_any then inferType rows key else value_type (cell row key))"

definition note_keys :: "string list \<Rightarrow> ('f, 'o) row \<Rightarrow> string list" where
  "note_keys keys row = foldl (\<lambda>ks k. if k \<in> set ks then ks else ks @ [k]) keys (map fst row)"

definition row_keys :: "('f, 'o) row list \<Rightarrow> string list" where
  "row_keys rows = foldl note_keys [] rows"

definition inferSchema :: "('f, 'o) row list \<Rightarrow> (string \<times> data_type) list \<times> ('f, 'o) any list list" where
  "inferSchema rows =
     (let keys = row_keys rows
      in (map (\<lambda>k. (k, inferType rows k)) keys, map (\<lambda>k. map (\<lambda>row. cell row k) rows) keys))"

text \<open>A column; the type assertions for booleans and bytes panic on other values.\<close>

definition cells_with :: "(('f, 'o) any \<Rightarrow> 'a) \<Rightarrow> ('f, 'o) any list \<Rightarrow> 'a option list" where
  "cells_with conv col = map (\<lambda>v. if v = Nil_any then None else Some (conv v)) col"

fun as_bool :: "('f, 'o) any \<Rightarrow> bool option" where
  "as_bool (V_bool b) = Some b"
| "as_bool _ = None"

fun as_bytes :: "('f, 'o) any \<Rightarrow> bytes option" where
  "as_bytes (V_bytes b) = Some b"
| "as_bytes _ = None"

fun assert_cells :: "(('f, 'o) any \<Rightarrow> 'a option) \<Rightarrow> ('f, 'o) any list \<Rightarrow> 'a option list option" where
  "assert_cells conv [] = Some []"
| "assert_cells conv (v # col) =
     (if v = Nil_any then map_option (\<lambda>cs. None # cs) (assert_cells conv col)
      else (case conv v of None \<Rightarrow> None | Some x \<Rightarrow> map_option (\<lambda>cs. Some x # cs) (assert_cells conv col)))"

fun text_of :: "('f, 'o) arrow_lib \<Rightarrow> ('f, 'o) any \<Rightarrow> string" where
  "text_of L (V_string s) = s"
| "text_of L v = al_sprint L v"

fun buildColumn :: "('f, 'o) arrow_lib \<Rightarrow> data_type \<Rightarrow> ('f, 'o) any list \<Rightarrow> 'f column option" where
  "buildColumn L INT64 col = Some (Int64s (cells_with (toInt64 L) col))"
| "buildColumn L FLOAT64 col = Some (Float64s (cells_with (toFloat64 L) col))"
| "buildColumn L BOOL col = map_option Booleans (assert_cells as_bool col)"
| "buildColumn L BINARY col = map_option Binaries (assert_cells as_bytes col)"
| "buildColumn L _ col = Some (Strings (cells_with (text_of L) col))"

fun build_columns :: "('f, 'o) arrow_lib \<Rightarrow> (string \<times> data_type) list \<Rightarrow> ('f, 'o) any list list \<Rightarrow> 'f column list option" where
  "build_columns L ((_, dt) # fs) (col # cols) =
     (case buildColumn L dt col of None \<Rightarrow> None | Some c \<Rightarrow> map_option (\<lambda>cs. c # cs) (build_columns L fs cols))"
| "build_columns L _ _ = Some []"

definition buildRecord :: "('f, 'o) arrow_lib \<Rightarrow> (string \<times> data_type) list \<Rightarrow> ('f, 'o) any list list \<Rightarrow> nat \<Rightarrow> 'f arrow_record option" where
  "buildRecord L fs cols numRows =
     map_option (\<lambda>cs. \<lparr>ar_fields = fs, ar_columns = cs, ar_numRows = numRows\<rparr>) (build_columns L fs cols)"

definition recordToIPC :: "('f, 'o) arrow_lib \<Rightarrow> 'f arrow_record \<Rightarrow> go_error + bytes" where
  "recordToIPC L rec =
     (case al_write L rec of
        Some err \<Rightarrow> Inl (ErrorfW ''arrow: ipc write: '' err)
      | None \<Rightarrow> (case al_close L rec of Some err \<Rightarrow> Inl (ErrorfW ''arrow: ipc close: '' err) | None \<Rightarrow> Inr (al_bytes L rec)))"

definition arrow_Marshal :: "('f, 'o) arrow_lib \<Rightarrow> ('f, 'o) payload \<Rightarrow> (go_error + bytes) option" where
  "arrow_Marshal L v =
     (case toRows v of
        Inl err \<Rightarrow> Some (Inl (ErrorfW ''arrow: marshal: '' err))
      | Inr rows \<Rightarrow>
          if rows = [] then Some (recordToIPC L emptyRecord)
          else (case inferSchema rows of (fs, cols) \<Rightarrow> map_option (recordToIPC L) (buildRecord L fs cols (length rows))))"

section \<open>Rows from columns\<close>

text \<open>\<open>IsNull\<close> and \<open>extractValue\<close> at one position.\<close>

fun column_value :: "('f, 'o) arrow_lib \<Rightarrow> 'f column \<Rightarrow> nat \<Rightarrow> ('f, 'o) any" where
  "column_value L (Int64s xs) i = (case xs ! i of None \<Rightarrow> Nil_any | Some x \<Rightarrow> V_int64 x)"
| "column_value L (Float64s xs) i = (case xs ! i of None \<Rightarrow> Nil_any | Some x \<Rightarrow> V_float64 x)"
| "column_value L (Booleans xs) i = (case xs ! i of None \<Rightarrow> Nil_any | Some x \<Rightarrow> V_bool x)"
| "column_value L (Strings xs) i = (case xs ! i of None \<Rightarrow> Nil_any | Some x \<Rightarrow> V_string x)"
| "column_value L (Binaries xs) i = (case xs ! i of None \<Rightarrow> Nil_any | Some x \<Rightarrow> V_bytes x)"
| "column_value L (Int32s xs) i = (case xs ! i of None \<Rightarrow> Nil_any | Some x \<Rightarrow> V_string (al_sprint L (V_int32 x)))"

text \<open>The loop over the columns: the map of row \<open>i\<close>.\<close>

definition row_of :: "('f, 'o) arrow_lib \<Rightarrow> 'f arrow_record \<Rightarrow> nat \<Rightarrow> string \<rightharpoonup> ('f, 'o) any" where
  "row_of L rec i = foldl (\<lambda>m (f, col). m(fst f \<mapsto> column_value L col i)) Map.empty (zip (ar_fields rec) (ar_columns rec))"

definition recordToRows :: "('f, 'o) arrow_lib \<Rightarrow> 'f arrow_record \<Rightarrow> (string \<rightharpoonup> ('f, 'o) any) list" where
  "recordToRows L rec = map (row_of L rec) [0..<ar_numRows rec]"

text \<open>The reader finds no stream, a stream without a record, or a record.\<close>

definition ipcToRecord :: "('f, 'o) arrow_lib \<Rightarrow> bytes \<Rightarrow> go_error + 'f arrow_record" where
  "ipcToRecord L data =
     (case al_read L data of
        Inl err \<Rightarrow> Inl (ErrorfW ''arrow: ipc reader: '' err)
      | Inr None \<Rightarrow> Inl (Errorf ''arrow: no record in IPC data'')
      | Inr (Some rec) \<Rightarrow> Inr rec)"

definition arrow_Unmarshal :: "('f, 'o) arrow_lib \<Rightarrow> bytes \<Rightarrow> bool \<Rightarrow> go_error + (string \<rightharpoonup> ('f, 'o) any) list" where
  "arrow_Unmarshal L data rows_target =
     (case ipcToRecord L data of
        Inl err \<Rightarrow> Inl (ErrorfW ''arrow: unmarshal: '' err)
      | Inr rec \<Rightarrow> if rows_target then Inr (recordToRows L rec) else Inl (Errorf ''arrow: unmarshal target must be *[]map[string]any''))"

section \<open>Keys and columns\<close>

lemma note_keys_set: "set (note_keys ks row) = set ks \<union> fst ` set row" and note_keys_distinct: "distinct ks \<Longrightarrow> distinct (note_keys ks row)"
proof -
  let ?f = "\<lambda>ks k. if k \<in> set ks then ks else ks @ [k]"
  have "set (foldl ?f ks xs) = set ks \<union> set xs" "distinct ks \<longrightarrow> distinct (foldl ?f ks xs)" for xs :: "string list"
    by (induction xs arbitrary: ks) auto
  then show "set (note_keys ks row) = set ks \<union> fst ` set row" "distinct ks \<Longrightarrow> distinct (note_keys ks row)"
    by (simp_all add: note_keys_def)
qed

lemma row_keys_set: "set (row_keys rows) = (\<Union>row \<in> set rows. fst ` set row)" and row_keys_distinct: "distinct (row_keys rows)"
proof -
  have "set (foldl note_keys ks rows) = set ks \<union> (\<Union>row \<in> set rows. fst ` set row)" "distinct ks \<longrightarrow> distinct (foldl note_keys ks rows)" for ks
    by (induction rows arbitrary: ks) (auto simp: note_keys_set note_keys_distinct)
  then show "set (row_keys rows) = (\<Union>row \<in> set rows. fst ` set row)" "distinct (row_keys rows)" by (simp_all add: row_keys_def)
qed

lemma assert_cells_eq:
  "assert_cells conv col =
     (if \<exists>v \<in> set col. v \<noteq> Nil_any \<and> conv v = None then None else Some (map (\<lambda>v. if v = Nil_any then None else conv v) col))"
  by (induction col) (auto split: option.split)

lemma build_columns_map:
  "build_columns L (map (\<lambda>k. (k, T k)) ks) (map C ks) =
     (if \<exists>k \<in> set ks. buildColumn L (T k) (C k) = None then None else Some (map (\<lambda>k. the (buildColumn L (T k) (C k))) ks))"
  by (induction ks) (auto split: option.split)

lemma foldl_columns:
  "foldl (\<lambda>m (f, col). m(fst f \<mapsto> column_value L col i)) m0 (zip (map (\<lambda>k. (k, T k)) ks) (map c ks)) =
     (\<lambda>k. if k \<in> set ks then Some (column_value L (c k) i) else m0 k)"
  by (induction ks arbitrary: m0) auto

section \<open>Round trip\<close>

text \<open>A value as the decoder returns it: integers and floats at 64 bits, values of other types as their text.\<close>

fun normalise :: "('f, 'o) arrow_lib \<Rightarrow> ('f, 'o) any \<Rightarrow> ('f, 'o) any" where
  "normalise L Nil_any = Nil_any"
| "normalise L (V_bool b) = V_bool b"
| "normalise L (V_string s) = V_string s"
| "normalise L (V_bytes b) = V_bytes b"
| "normalise L (V_other x) = V_string (al_sprint L (V_other x))"
| "normalise L (V_float32 x) = V_float64 x"
| "normalise L (V_float64 x) = V_float64 x"
| "normalise L v = V_int64 (toInt64 L v)"

text \<open>The values of one key have one type.\<close>

definition homogeneous :: "('f, 'o) row list \<Rightarrow> bool" where
  "homogeneous rows \<longleftrightarrow> (\<forall>row \<in> set rows. \<forall>k. cell row k \<noteq> Nil_any \<longrightarrow> value_type (cell row k) = inferType rows k)"

lemma as_type: "v \<noteq> Nil_any \<Longrightarrow> as_bool v = None \<longleftrightarrow> value_type v \<noteq> BOOL" "v \<noteq> Nil_any \<Longrightarrow> as_bytes v = None \<longleftrightarrow> value_type v \<noteq> BINARY"
  by (cases v; simp)+

lemma inferType_not_INT32: "inferType rows k \<noteq> INT32"
proof (induction rows)
  case (Cons row rows)
  then show ?case by (cases "cell row k") simp_all
qed simp

lemma buildColumn_None:
  "buildColumn L dt col = None \<longleftrightarrow> dt \<in> {BOOL, BINARY} \<and> (\<exists>v \<in> set col. v \<noteq> Nil_any \<and> value_type v \<noteq> dt)"
  by (cases dt) (simp_all add: assert_cells_eq as_type cong: conj_cong)

lemma buildColumn_value:
  assumes "\<forall>v \<in> set col. v \<noteq> Nil_any \<longrightarrow> value_type v = dt" and "dt \<noteq> INT32" and "i < length col"
  shows "\<exists>c. buildColumn L dt col = Some c \<and> column_value L c i = normalise L (col ! i)"
proof -
  have v: "col ! i \<noteq> Nil_any \<longrightarrow> value_type (col ! i) = dt" using assms by auto
  obtain c where "buildColumn L dt col = Some c" using assms(1) buildColumn_None [of L dt col] by fastforce
  then show ?thesis using v assms(2,3)
    by (cases dt; cases "col ! i") (auto simp: cells_with_def assert_cells_eq split: if_splits)
qed

definition ex_rows :: "(unit, unit) row list" where
  "ex_rows = [[(''id'', V_int8 7), (''ok'', V_bool True)], [(''id'', V_int8 (- 1))]]"

definition ex_arrow :: "(unit, unit) arrow_lib" where
  "ex_arrow = \<lparr>al_float_of_int = \<lambda>_. (), al_int_of_float = \<lambda>_. 0, al_ParseFloat = \<lambda>_. (), al_NaN = (), al_sprint = \<lambda>_. [],
     al_write = \<lambda>_. None, al_close = \<lambda>_. None, al_bytes = \<lambda>_. [1],
     al_read = \<lambda>_. Inr (Some \<lparr>ar_fields = [(''id'', INT64), (''ok'', BOOL)], ar_columns = [Int64s [Some 7, Some (- 1)], Booleans [Some True, None]],
       ar_numRows = 2\<rparr>)\<rparr>"

lemma ex_rows_eval:
  "inferSchema ex_rows = ([(''id'', INT64), (''ok'', BOOL)], [[V_int8 7, V_int8 (- 1)], [V_bool True, Nil_any]])" "length ex_rows = 2"
  by (simp_all add: inferSchema_def ex_rows_def row_keys_def note_keys_def cell_def)

text \<open>
  Marshalling panics exactly when a column mixes types against its first value: the first value of some key that is not nil is a boolean or a
  byte string, and a later one is neither nil nor of that type. No other input makes the type assertions fail.
\<close>
theorem marshal_panics_iff:
  assumes "rows \<noteq> []"
  shows "arrow_Marshal L (Rows rows) = None \<longleftrightarrow>
    (\<exists>row \<in> set rows. \<exists>k. cell row k \<noteq> Nil_any \<and> inferType rows k \<in> {BOOL, BINARY} \<and> value_type (cell row k) \<noteq> inferType rows k)"
proof -
  have key: "cell row k \<noteq> Nil_any \<Longrightarrow> row \<in> set rows \<Longrightarrow> k \<in> set (row_keys rows)" for row k
    by (auto simp: row_keys_set cell_def split: option.splits dest!: map_of_SomeD) (metis fst_conv image_eqI)
  have "arrow_Marshal L (Rows rows) = None \<longleftrightarrow>
      (\<exists>k \<in> set (row_keys rows). buildColumn L (inferType rows k) (map (\<lambda>row. cell row k) rows) = None)"
    using assms by (simp add: arrow_Marshal_def inferSchema_def Let_def buildRecord_def build_columns_map)
  then show ?thesis using key by (fastforce simp: buildColumn_None)
qed

theorem marshal_panics_iff_witness:
  "arrow_Marshal ex_arrow (Rows [[(''ok'', V_bool True)], [(''ok'', V_string ''yes'')]]) = None"
  by (subst marshal_panics_iff) (auto simp: cell_def)

text \<open>
  C22: Decoding gives back what was encoded: if the IPC reader reads what the writer has written, the rows of one type per key come back in order, with
  every key of any of the rows in each of them, nil where a row had none, and the values at 64 bits.
\<close>
theorem arrow_round_trip:
  assumes "rows \<noteq> []" and "homogeneous rows"
    and "\<And>rec. buildRecord L (fst (inferSchema rows)) (snd (inferSchema rows)) (length rows) = Some rec \<Longrightarrow>
      al_write L rec = None \<and> al_close L rec = None \<and> al_read L (al_bytes L rec) = Inr (Some rec)"
  shows "\<exists>b. arrow_Marshal L (Rows rows) = Some (Inr b) \<and>
    arrow_Unmarshal L b True =
      Inr (map (\<lambda>row k. if \<exists>r \<in> set rows. k \<in> fst ` set r then Some (normalise L (cell row k)) else None) rows)"
proof -
  let ?T = "inferType rows" and ?C = "\<lambda>k. map (\<lambda>row. cell row k) rows"
  let ?c = "\<lambda>k. the (buildColumn L (?T k) (?C k))"
  let ?rec = "\<lparr>ar_fields = map (\<lambda>k. (k, ?T k)) (row_keys rows), ar_columns = map ?c (row_keys rows), ar_numRows = length rows\<rparr>"
  have hom: "\<forall>v \<in> set (?C k). v \<noteq> Nil_any \<longrightarrow> value_type v = ?T k" for k using assms(2) by (auto simp: homogeneous_def)
  have col: "\<exists>c. buildColumn L (?T k) (?C k) = Some c \<and> column_value L c i = normalise L (cell (rows ! i) k)" if "i < length rows" for i k
    using buildColumn_value [OF hom inferType_not_INT32, of i k L] that by simp
  have "buildColumn L (?T k) (?C k) \<noteq> None" for k using hom buildColumn_None [of L "?T k" "?C k"] by blast
  then have b: "buildRecord L (fst (inferSchema rows)) (snd (inferSchema rows)) (length rows) = Some ?rec"
    by (simp add: inferSchema_def Let_def buildRecord_def build_columns_map)
  then have "arrow_Marshal L (Rows rows) = Some (Inr (al_bytes L ?rec))"
    using assms(1) assms(3) [OF b] by (simp add: arrow_Marshal_def split_beta recordToIPC_def)
  moreover have "row_of L ?rec i = (\<lambda>k. if \<exists>r \<in> set rows. k \<in> fst ` set r then Some (normalise L (cell (rows ! i) k)) else None)"
    if "i < length rows" for i
    using col [OF that] by (auto simp: row_of_def foldl_columns row_keys_set fun_eq_iff) (metis option.sel)+
  then have "recordToRows L ?rec = map (\<lambda>row k. if \<exists>r \<in> set rows. k \<in> fst ` set r then Some (normalise L (cell row k)) else None) rows"
    by (intro nth_equalityI) (simp_all add: recordToRows_def)
  ultimately show ?thesis using assms(3) [OF b] by (simp add: arrow_Unmarshal_def ipcToRecord_def)
qed

theorem arrow_round_trip_witness:
  "\<exists>b. arrow_Marshal ex_arrow (Rows ex_rows) = Some (Inr b) \<and>
     map (\<lambda>m. (m ''id'', m ''ok'')) (projr (arrow_Unmarshal ex_arrow b True)) =
       [(Some (V_int64 7), Some (V_bool True)), (Some (V_int64 (- 1)), Some Nil_any)]"
proof -
  have "homogeneous ex_rows" by (simp add: homogeneous_def ex_rows_def cell_def)
  moreover have "al_write ex_arrow rec = None \<and> al_close ex_arrow rec = None \<and> al_read ex_arrow (al_bytes ex_arrow rec) = Inr (Some rec)"
    if "buildRecord ex_arrow (fst (inferSchema ex_rows)) (snd (inferSchema ex_rows)) (length ex_rows) = Some rec" for rec
    using that by (auto simp: ex_rows_eval buildRecord_def ex_arrow_def cells_with_def)
  ultimately show ?thesis
    using arrow_round_trip [of ex_rows ex_arrow] by (auto simp: ex_rows_def cell_def)
qed

section \<open>Integers\<close>

lemma sint_of_uint: "sint w = (if uint w < 2 ^ 63 then uint w else uint w - 2 ^ 64)" for w :: "64 word"
proof -
  have b: "0 \<le> uint w" "uint w < 2 ^ 64" using uint_lt2p [of w] by simp_all
  have e: "sint w = (uint w + 2 ^ 63) mod 2 ^ 64 - 2 ^ 63" by (simp add: sint_uint signed_take_bit_eq_take_bit_shift take_bit_eq_mod)
  show ?thesis
  proof (cases "uint w < 2 ^ 63")
    case False
    have "(uint w + 2 ^ 63) mod 2 ^ 64 = ((uint w - 2 ^ 63) + 2 ^ 64) mod 2 ^ 64" by (rule arg_cong [where f = "\<lambda>x. x mod 2 ^ 64"]) simp
    also have "\<dots> = uint w - 2 ^ 63" using b False by (simp only: mod_add_self2) (rule mod_pos_pos_trivial; simp)
    finally show ?thesis using False e by simp
  qed (use b e in \<open>simp add: mod_pos_pos_trivial\<close>)
qed

lemma widened:
  "sint (scast (w8 :: 8 word) :: 64 word) = sint w8" "sint (scast (w16 :: 16 word) :: 64 word) = sint w16"
  "sint (scast (w32 :: 32 word) :: 64 word) = sint w32" "uint (ucast (w8 :: 8 word) :: 64 word) = uint w8"
  "uint (ucast (w16 :: 16 word) :: 64 word) = uint w16" "uint (ucast (w32 :: 32 word) :: 64 word) = uint w32"
  by (simp_all add: sint_up_scast uint_up_ucast is_up)

lemma narrow_bounds:
  "sint (w8 :: 8 word) < 2 ^ 63" "sint (w16 :: 16 word) < 2 ^ 63" "sint (w32 :: 32 word) < 2 ^ 63" "sint (w64 :: 64 word) < 2 ^ 63"
  "uint w8 < 2 ^ 63" "uint w16 < 2 ^ 63" "uint w32 < 2 ^ 63"
  using sint_lt [of w8] sint_lt [of w16] sint_lt [of w32] sint_lt [of w64] uint_lt2p [of w8] uint_lt2p [of w16] uint_lt2p [of w32]
  by simp_all

lemma widened_unsigned:
  "sint (ucast (w8 :: 8 word) :: 64 word) = uint w8" "sint (ucast (w16 :: 16 word) :: 64 word) = uint w16"
  "sint (ucast (w32 :: 32 word) :: 64 word) = uint w32"
  by (simp_all only: sint_of_uint widened narrow_bounds if_True)

text \<open>
  Integers keep their value unless they are unsigned and at least 2^63, which no test of the code excludes: these come back as the negative number
  that is smaller by 2^64.
\<close>
theorem int64_conversion:
  assumes "int_value v = Some n"
  shows "sint (toInt64 L v) = (if n < 2 ^ 63 then n else n - 2 ^ 64)"
proof (cases v)
  case (V_uint w)
  then show ?thesis using assms sint_of_uint [of w] by simp
next
  case (V_uint64 w)
  then show ?thesis using assms sint_of_uint [of w] by simp
qed (use assms narrow_bounds in \<open>auto simp: widened widened_unsigned\<close>)

theorem int64_conversion_witness: "sint (toInt64 ex_arrow (V_uint64 (2 ^ 63 + 5))) = 5 - 2 ^ 63"
  using int64_conversion [of "V_uint64 (2 ^ 63 + 5)" "2 ^ 63 + 5" ex_arrow] by simp

end
