(* ===== verification/Provision.thy ===== *)
theory Provision
  imports Lifecycle "HOL-Library.List_Lexorder" "HOL-Library.Char_ord"
begin

text \<open>
  Provisioning of language runtimes, \<open>core/infrastructure/runtime/runtime.go\<close>: downloading the installers, installing a version and finding
  the installed binary. The world is the list of files with the state of their contents, the downloads and the commands so far; what the network,
  the system calls and the commands do is a record of functions. Progress messages are not recorded.
\<close>

section \<open>Files\<close>

text \<open>A downloaded file is complete, or was left behind by an interrupted copy; \<open>Installed\<close> is any other file.\<close>

datatype content = Complete | Truncated | Installed

record world =
  wd_files :: "(string \<times> content) list"
  wd_downloads :: "string list"
  wd_commands :: "string list list"

definition exists_file :: "world \<Rightarrow> string \<Rightarrow> bool" where
  "exists_file w p = (p \<in> fst ` set (wd_files w))"

definition write_file :: "string \<Rightarrow> content \<Rightarrow> world \<Rightarrow> world" where
  "write_file p c w = w\<lparr>wd_files := (p, c) # filter (\<lambda>f. fst f \<noteq> p) (wd_files w)\<rparr>"

definition delete_file :: "string \<Rightarrow> world \<Rightarrow> world" where
  "delete_file p w = w\<lparr>wd_files := filter (\<lambda>f. fst f \<noteq> p) (wd_files w)\<rparr>"

text \<open>\<open>filepath.Glob\<close> for patterns whose only special character is the star: the matching files, ordered by the elements of their paths.\<close>

fun glob_match :: "string \<Rightarrow> string \<Rightarrow> bool" where
  "glob_match [] s = (s = [])"
| "glob_match (p # ps) [] = (p = CHR ''*'' \<and> glob_match ps [])"
| "glob_match (p # ps) (c # s) =
     (if p = CHR ''*'' then glob_match ps (c # s) \<or> (c \<noteq> CHR ''/'' \<and> glob_match (p # ps) s)
      else p = c \<and> glob_match ps s)"

definition Glob :: "world \<Rightarrow> string \<Rightarrow> string list" where
  "Glob w pat = sort_key (Split (CHR ''/'')) (filter (glob_match pat) (map fst (wd_files w)))"

text \<open>\<open>filepath.Dir\<close>.\<close>

definition filepath_Dir :: "string \<Rightarrow> string" where
  "filepath_Dir p = filepath_Clean (case last_index (CHR ''/'') p of None \<Rightarrow> [] | Some i \<Rightarrow> take (Suc i) p)"

section \<open>Environment\<close>

record provision_env =
  pe_goos :: string
  pe_goarch :: string
  pe_tempDir :: string
  pe_mkdir :: "string \<Rightarrow> go_error option"
  pe_request :: "string \<Rightarrow> go_error option"
  pe_get :: "string \<Rightarrow> go_error + int"
  pe_create :: "string \<Rightarrow> go_error option"
  pe_copy :: "string \<Rightarrow> go_error option"
  pe_chmod :: "string \<Rightarrow> go_error option"
  pe_LookPath :: "string \<Rightarrow> go_error + string"
  pe_run :: "string list \<Rightarrow> (string \<times> content) list \<Rightarrow> (go_error \<times> string) option \<times> (string \<times> content) list"

definition run_command :: "provision_env \<Rightarrow> string list \<Rightarrow> world \<Rightarrow> (go_error \<times> string) option \<times> world" where
  "run_command E argv w =
     (case pe_run E argv (wd_files w) of (r, files) \<Rightarrow> (r, w\<lparr>wd_files := files, wd_commands := wd_commands w @ [argv]\<rparr>))"

section \<open>Downloads\<close>

definition getOSAndArch :: "provision_env \<Rightarrow> string \<times> string" where
  "getOSAndArch E =
     (let arch = (if pe_goarch E = ''x86_64'' then ''amd64'' else pe_goarch E)
      in (pe_goos E, if arch = ''aarch64'' then ''arm64'' else arch))"

definition downloadFile :: "provision_env \<Rightarrow> string \<Rightarrow> string \<Rightarrow> world \<Rightarrow> go_error option \<times> world" where
  "downloadFile E url targetPath w =
     (case pe_mkdir E (filepath_Dir targetPath) of
        Some err \<Rightarrow> (Some (ErrorfW ''create directory: '' err), w)
      | None \<Rightarrow>
          (case pe_request E url of
             Some err \<Rightarrow> (Some (ErrorfW ''create request: '' err), w)
           | None \<Rightarrow>
               (let w1 = w\<lparr>wd_downloads := wd_downloads w @ [url]\<rparr>
                in case pe_get E url of
                     Inl err \<Rightarrow> (Some (ErrorfW ''download: '' err), w1)
                   | Inr status \<Rightarrow>
                       if status \<noteq> 200 then (Some (Errorf (''download failed: status '' @ Itoa status)), w1)
                       else (case pe_create E targetPath of
                               Some err \<Rightarrow> (Some (ErrorfW ''create file: '' err), w1)
                             | None \<Rightarrow>
                                 (case pe_copy E url of
                                    Some err \<Rightarrow> (Some (ErrorfW ''write: '' err), write_file targetPath Truncated w1)
                                  | None \<Rightarrow> (pe_chmod E targetPath, write_file targetPath Complete w1))))))"

definition unpack :: "provision_env \<Rightarrow> string \<Rightarrow> string \<Rightarrow> string \<Rightarrow> world \<Rightarrow> go_error option \<times> world" where
  "unpack E tmpFile targetDir binaryName w =
     (case pe_LookPath E ''unzip'' of
        Inl err \<Rightarrow> (Some (ErrorfW ''unzip not found in PATH: '' err), w)
      | Inr unzipPath \<Rightarrow>
          (case run_command E [unzipPath, ''-o'', ''-q'', tmpFile, ''-d'', targetDir] w of
             (Some (err, out), w1) \<Rightarrow> (Some (ErrorfW ''unzip: '' (WErrorf err ('': '' @ out))), w1)
           | (None, w1) \<Rightarrow>
               (let binaryPath = filepath_Join [targetDir, binaryName]
                in if exists_file w1 binaryPath then (pe_chmod E binaryPath, w1)
                   else (case Glob w1 (filepath_Join [targetDir, ''*'', binaryName]) of
                           p # _ \<Rightarrow> (pe_chmod E p, w1)
                         | [] \<Rightarrow> (Some (Errorf (''binary '' @ binaryName @ '' not found after extract'')), w1)))))"

definition downloadZip :: "provision_env \<Rightarrow> string \<Rightarrow> string \<Rightarrow> string \<Rightarrow> world \<Rightarrow> go_error option \<times> world" where
  "downloadZip E url targetDir binaryName w =
     (case pe_mkdir E targetDir of
        Some err \<Rightarrow> (Some (ErrorfW ''create directory: '' err), w)
      | None \<Rightarrow>
          (let tmpFile = filepath_Join [pe_tempDir E, ''vyx-'' @ binaryName @ ''.zip'']
           in case downloadFile E url tmpFile w of
                (Some err, w1) \<Rightarrow> (Some err, w1)
              | (None, w1) \<Rightarrow> (case unpack E tmpFile targetDir binaryName w1 of (r, w2) \<Rightarrow> (r, delete_file tmpFile w2))))"

definition downloadFNM :: "provision_env \<Rightarrow> string \<Rightarrow> world \<Rightarrow> go_error option \<times> world" where
  "downloadFNM E targetDir w =
     (case getOSAndArch E of
        (osName, arch) \<Rightarrow>
          downloadZip E (''https://github.com/Schniz/fnm/releases/latest/download'' @ ''/'' @ ''fnm-'' @ osName @ ''-'' @ arch @ ''.zip'')
            targetDir ''fnm'' w)"

definition downloadUV :: "provision_env \<Rightarrow> string \<Rightarrow> world \<Rightarrow> go_error option \<times> world" where
  "downloadUV E targetDir w =
     (case getOSAndArch E of
        (osName, arch) \<Rightarrow>
          (let filename = (if osName = ''windows'' then ''uv-'' @ arch @ ''-'' @ ''pc-windows-msvc'' @ ''.exe''
                           else if osName = ''darwin'' then ''uv-'' @ arch @ ''-apple-darwin''
                           else ''uv-'' @ arch @ ''-unknown-linux-'' @ arch);
               uvPath = filepath_Join [targetDir, ''uv'']
           in downloadFile E (''https://github.com/astral-sh/uv/releases/latest/download'' @ ''/'' @ filename)
                (if osName = ''windows'' then uvPath @ ''.exe'' else uvPath) w))"

section \<open>Installing and finding a runtime\<close>

definition runtimes_dir :: "string \<Rightarrow> string" where
  "runtimes_dir vyxDir = filepath_Join [vyxDir, ''runtimes'']"

definition ensureNode :: "provision_env \<Rightarrow> string \<Rightarrow> string \<Rightarrow> world \<Rightarrow> go_error option \<times> world" where
  "ensureNode E version vyxDir w =
     (let fnmDir = filepath_Join [runtimes_dir vyxDir, ''fnm'']; nodeDir = filepath_Join [runtimes_dir vyxDir, ''node''];
          fnmBinary = filepath_Join [fnmDir, ''fnm'']
      in case (if exists_file w fnmBinary then (None, w) else downloadFNM E fnmDir w) of
           (Some err, w1) \<Rightarrow> (Some (ErrorfW ''download fnm: '' err), w1)
         | (None, w1) \<Rightarrow>
             if exists_file w1 (filepath_Join [nodeDir, ''v'' @ version, ''bin'', ''node'']) then (None, w1)
             else (case run_command E [fnmBinary, ''install'', version, ''--fnm-dir'', nodeDir] w1 of
                     (Some (err, out), w2) \<Rightarrow> (Some (ErrorfW ''fnm install: '' (WErrorf err ('': '' @ out))), w2)
                   | (None, w2) \<Rightarrow>
                       (case run_command E [fnmBinary, ''use'', version, ''--fnm-dir'', nodeDir] w2 of
                          (Some (err, out), w3) \<Rightarrow> (Some (ErrorfW ''fnm use: '' (WErrorf err ('': '' @ out))), w3)
                        | (None, w3) \<Rightarrow> (None, w3))))"

definition ensurePython :: "provision_env \<Rightarrow> string \<Rightarrow> string \<Rightarrow> world \<Rightarrow> go_error option \<times> world" where
  "ensurePython E version vyxDir w =
     (let uvDir = filepath_Join [runtimes_dir vyxDir, ''uv'']; pythonDir = filepath_Join [runtimes_dir vyxDir, ''python''];
          uvBinary = filepath_Join [uvDir, ''uv'']
      in case (if exists_file w uvBinary then (None, w) else downloadUV E uvDir w) of
           (Some err, w1) \<Rightarrow> (Some (ErrorfW ''download uv: '' err), w1)
         | (None, w1) \<Rightarrow>
             (case run_command E [uvBinary, ''python'', ''install'', version] w1 of
                (Some (err, out), w2) \<Rightarrow> (Some (ErrorfW ''uv python install: '' (WErrorf err ('': '' @ out))), w2)
              | (None, w2) \<Rightarrow>
                  (let m1 = Glob w2 (filepath_Join [pythonDir, ''cpython-'' @ version @ ''*'', ''bin'', ''python3'']);
                       m2 = (if m1 = [] then Glob w2 (filepath_Join [pythonDir, ''cpython-*'', ''bin'', ''python3'']) else m1)
                   in if m2 \<noteq> [] then (None, w2) else (Some (Errorf (''python '' @ version @ '' not found after install'')), w2))))"

definition ensureGo :: "provision_env \<Rightarrow> world \<Rightarrow> go_error option \<times> world" where
  "ensureGo E w = (case pe_LookPath E ''go'' of Inl err \<Rightarrow> (Some (Errorf ''go not found in PATH''), w) | Inr _ \<Rightarrow> (None, w))"

fun runtime_name :: "runtime \<Rightarrow> string" where
  "runtime_name RuntimeNode = ''node''"
| "runtime_name RuntimePython = ''python''"
| "runtime_name RuntimeGo = ''go''"
| "runtime_name RuntimeUnknown = ''unknown''"

definition Ensure :: "provision_env \<Rightarrow> runtime \<Rightarrow> string \<Rightarrow> string \<Rightarrow> world \<Rightarrow> go_error option \<times> world" where
  "Ensure E rt version vyxDir w =
     (let dir = (if vyxDir = [] then ''.vyx'' else vyxDir); targetVersion = (if version = [] then DefaultVersion rt else version)
      in case rt of
           RuntimeNode \<Rightarrow> ensureNode E targetVersion dir w
         | RuntimePython \<Rightarrow> ensurePython E targetVersion dir w
         | RuntimeGo \<Rightarrow> ensureGo E w
         | RuntimeUnknown \<Rightarrow> (Some (Errorf (''unsupported runtime: '' @ runtime_name rt)), w))"

definition first_or :: "string list \<Rightarrow> string \<Rightarrow> go_error + string" where
  "first_or matches err = (case matches of [] \<Rightarrow> Inl (Errorf err) | p # _ \<Rightarrow> Inr p)"

definition Resolve :: "provision_env \<Rightarrow> runtime \<Rightarrow> string \<Rightarrow> world \<Rightarrow> go_error + string" where
  "Resolve E rt vyxDir w =
     (let runtimesDir = runtimes_dir (if vyxDir = [] then ''.vyx'' else vyxDir)
      in case rt of
           RuntimeNode \<Rightarrow>
             first_or (Glob w (filepath_Join [runtimesDir, ''node'', ''v*'', ''bin'', ''node'']))
               (''node not installed in '' @ filepath_Join [runtimesDir, ''node''])
         | RuntimePython \<Rightarrow>
             first_or (Glob w (filepath_Join [runtimesDir, ''python'', ''cpython-*'', ''bin'', ''python3'']))
               (''python not installed in '' @ filepath_Join [runtimesDir, ''python''])
         | RuntimeGo \<Rightarrow> (case pe_LookPath E ''go'' of Inl err \<Rightarrow> Inl (Errorf ''go not found in PATH'') | Inr p \<Rightarrow> Inr p)
         | RuntimeUnknown \<Rightarrow> Inl (Errorf (''unsupported runtime: '' @ runtime_name rt)))"

section \<open>Patterns\<close>

text \<open>What a star stands for.\<close>

lemma split_Cons: "(\<exists>u t. c # s = u @ t \<and> P u \<and> Q t) \<longleftrightarrow> P [] \<and> Q (c # s) \<or> (\<exists>u t. s = u @ t \<and> P (c # u) \<and> Q t)"
  unfolding Cons_eq_append_conv by blast

lemma glob_star: "glob_match (CHR ''*'' # ps) s \<longleftrightarrow> (\<exists>u t. s = u @ t \<and> CHR ''/'' \<notin> set u \<and> glob_match ps t)"
proof (induction s)
  case (Cons c s)
  show ?case unfolding split_Cons [where P = "\<lambda>u. CHR ''/'' \<notin> set u"] using Cons by auto
qed simp

lemma glob_literal: "CHR ''*'' \<notin> set q \<Longrightarrow> glob_match (q @ ps) s \<longleftrightarrow> (\<exists>t. s = q @ t \<and> glob_match ps t)"
proof (induction q arbitrary: s)
  case (Cons c q)
  then show ?case by (cases s) auto
qed simp

lemma Glob_mem: "p \<in> set (Glob w pat) \<longleftrightarrow> exists_file w p \<and> glob_match pat p"
  by (auto simp: Glob_def exists_file_def)

lemma Glob_Nil: "Glob w pat = [] \<longleftrightarrow> (\<forall>p. exists_file w p \<longrightarrow> \<not> glob_match pat p)"
  using Glob_mem by (metis list.set_intros(1) neq_Nil_conv set_empty empty_iff)

lemma glob_wider:
  assumes "CHR ''*'' \<notin> set q" and "CHR ''/'' \<notin> set v" and "CHR ''*'' \<notin> set v" and "glob_match (q @ v @ ''*'' @ ps) s"
  shows "glob_match (q @ ''*'' @ ps) s"
proof -
  obtain u t where s: "s = q @ v @ u @ t" "CHR ''/'' \<notin> set u" "glob_match ps t"
    using assms(4) unfolding glob_literal [OF assms(1)] glob_literal [OF assms(3)] by (auto simp: glob_star)
  then have "glob_match (''*'' @ ps) (v @ u @ t)" using assms(2) unfolding append.simps glob_star by (intro exI [of _ "v @ u"] exI [of _ t]) simp
  then show ?thesis unfolding glob_literal [OF assms(1)] using s(1) by blast
qed

section \<open>A ready Python is found\<close>

lemma python_pattern:
  assumes "CHR ''/'' \<notin> set v"
  shows "filepath_Join [filepath_Join [runtimes_dir ''.vyx'', ''python''], ''cpython-'' @ v @ ''*'', ''bin'', ''python3''] =
    ''.vyx/runtimes/python/cpython-'' @ v @ ''*'' @ ''/bin/python3''"
proof -
  have d: "filepath_Join [runtimes_dir ''.vyx'', ''python''] = ''.vyx/runtimes/python''" by code_simp
  have "Split (CHR ''/'') (''.vyx/runtimes/python/cpython-'' @ v @ ''*/bin/python3'') =
      [''.vyx'', ''runtimes'', ''python'', ''cpython-'' @ v @ ''*'', ''bin'', ''python3'']"
    using Split_append [of "CHR ''/''" "''cpython-'' @ v @ ''*''" "''bin/python3''"] assms by simp
  then have "filepath_Clean (''.vyx/runtimes/python/cpython-'' @ v @ ''*/bin/python3'') = ''.vyx/runtimes/python/cpython-'' @ v @ ''*/bin/python3''"
    by (simp only: filepath_Clean_def Let_def) (simp add: HasPrefix_def)
  then show ?thesis unfolding d by (simp add: filepath_Join_def)
qed

lemma python_star: "filepath_Join [filepath_Join [runtimes_dir ''.vyx'', ''python''], ''cpython-*'', ''bin'', ''python3''] = ''.vyx/runtimes/python/cpython-*/bin/python3''"
  "filepath_Join [runtimes_dir ''.vyx'', ''python'', ''cpython-*'', ''bin'', ''python3''] = ''.vyx/runtimes/python/cpython-*/bin/python3''"
  by code_simp+

text \<open>A machine where downloads are cut off and commands succeed, installing a Python; and files as an installation leaves them.\<close>

definition ex_prov :: provision_env where
  "ex_prov = \<lparr>pe_goos = ''linux'', pe_goarch = ''amd64'', pe_tempDir = ''/tmp'', pe_mkdir = \<lambda>_. None, pe_request = \<lambda>_. None,
     pe_get = \<lambda>_. Inr 200, pe_create = \<lambda>_. None, pe_copy = \<lambda>_. Some (Errorf ''unexpected EOF''), pe_chmod = \<lambda>_. None,
     pe_LookPath = \<lambda>n. Inr (''/usr/bin/'' @ n), pe_run = \<lambda>_ fs. (None, (''.vyx/runtimes/python/cpython-3.12.4/bin/python3'', Installed) # fs)\<rparr>"

definition ex_world :: "string list \<Rightarrow> world" where
  "ex_world files = \<lparr>wd_files = map (\<lambda>p. (p, Installed)) files, wd_downloads = [], wd_commands = []\<rparr>"

text \<open>
  A Python that is reported ready is found: when \<open>Ensure\<close> returns without an error, the worker's later \<open>Resolve\<close> gives a file that exists,
  whatever the installer did.
\<close>
theorem ready_python_resolves:
  assumes "Ensure E RuntimePython v [] w = (None, w')" and "v \<noteq> []" "CHR ''/'' \<notin> set v" "CHR ''*'' \<notin> set v"
  shows "\<exists>p. Resolve E RuntimePython [] w' = Inr p \<and> exists_file w' p"
proof -
  let ?star = "''.vyx/runtimes/python/cpython-*/bin/python3''"
  have "Glob w' ?star \<noteq> []"
  proof -
    have "Glob w' (''.vyx/runtimes/python/cpython-'' @ v @ ''*'' @ ''/bin/python3'') \<noteq> [] \<or> Glob w' ?star \<noteq> []"
      using assms(1,2) by (auto simp: Ensure_def ensurePython_def Let_def python_pattern [OF assms(3), simplified] python_star split: prod.splits option.splits if_splits)
    moreover have "glob_match (''.vyx/runtimes/python/cpython-'' @ v @ ''*'' @ ''/bin/python3'') p \<Longrightarrow> glob_match ?star p" for p
      using glob_wider [of "''.vyx/runtimes/python/cpython-''" v "''/bin/python3''" p] assms by simp
    ultimately show ?thesis unfolding Glob_Nil by blast
  qed
  then obtain p ps where g: "Glob w' ?star = p # ps" by (meson neq_Nil_conv)
  then have "exists_file w' p" using Glob_mem [of p w' ?star] by simp
  then show ?thesis using g by (simp add: Resolve_def Let_def python_star first_or_def)
qed

theorem ready_python_resolves_witness:
  "\<exists>p. Resolve ex_prov RuntimePython [] (snd (Ensure ex_prov RuntimePython ''3.12'' [] (ex_world [''.vyx/runtimes/uv/uv'']))) = Inr p"
proof -
  have "fst (Ensure ex_prov RuntimePython ''3.12'' [] (ex_world [''.vyx/runtimes/uv/uv''])) = None" by code_simp
  then have "Ensure ex_prov RuntimePython ''3.12'' [] (ex_world [''.vyx/runtimes/uv/uv'']) =
      (None, snd (Ensure ex_prov RuntimePython ''3.12'' [] (ex_world [''.vyx/runtimes/uv/uv''])))" by (metis prod.collapse)
  from ready_python_resolves [OF this] show ?thesis by auto
qed

section \<open>Node is reported ready without a check\<close>

lemma node_paths:
  "filepath_Join [filepath_Join [runtimes_dir ''.vyx'', ''fnm''], ''fnm''] = ''.vyx/runtimes/fnm/fnm''"
  "filepath_Join [runtimes_dir ''.vyx'', ''node'', ''v*'', ''bin'', ''node''] = ''.vyx/runtimes/node/v*/bin/node''"
  by code_simp+

text \<open>
  Not so for Node: if the installer is there and its commands succeed without leaving the binary in the place where the code looks, \<open>Ensure\<close>
  reports success and the next step fails because nothing is installed.
\<close>
theorem ready_node_may_be_missing:
  assumes "\<And>argv files. pe_run E argv files = (None, files)"
    and "exists_file w ''.vyx/runtimes/fnm/fnm''" and "Glob w ''.vyx/runtimes/node/v*/bin/node'' = []"
  shows "\<exists>w' err. Ensure E RuntimeNode v [] w = (None, w') \<and> Resolve E RuntimeNode [] w' = Inl err"
proof -
  have "fst (Ensure E RuntimeNode v [] w) = None \<and> wd_files (snd (Ensure E RuntimeNode v [] w)) = wd_files w"
    using assms(1,2) by (simp add: Ensure_def ensureNode_def Let_def node_paths run_command_def)
  then obtain w' where "Ensure E RuntimeNode v [] w = (None, w')" "wd_files w' = wd_files w" by (metis prod.collapse)
  moreover from this(2) have "Glob w' ''.vyx/runtimes/node/v*/bin/node'' = []" using assms(3) by (simp add: Glob_def)
  ultimately show ?thesis by (simp add: Resolve_def Let_def node_paths first_or_def)
qed

theorem ready_node_may_be_missing_witness:
  "\<exists>w' err. Ensure (ex_prov\<lparr>pe_run := \<lambda>_ files. (None, files)\<rparr>) RuntimeNode ''20'' [] (ex_world [''.vyx/runtimes/fnm/fnm'']) = (None, w') \<and>
     Resolve (ex_prov\<lparr>pe_run := \<lambda>_ files. (None, files)\<rparr>) RuntimeNode [] w' = Inl err"
  by (rule ready_node_may_be_missing) (simp_all add: ex_world_def exists_file_def Glob_def)

section \<open>The version that is run\<close>

lemma Glob_first: "Glob w pat = p # ps \<Longrightarrow> q \<in> set ps \<Longrightarrow> Split (CHR ''/'') p \<le> Split (CHR ''/'') q"
  using sorted_sort_key [of "Split (CHR ''/'')" "filter (glob_match pat) (map fst (wd_files w))"] by (auto simp: Glob_def)

text \<open>
  The version that a worker asks for does not decide which one it gets: \<open>Resolve\<close> returns, of all installed versions, the one whose path comes
  first in the order of bytes, so that version 10 hides version 9 and version 18 hides version 20.
\<close>
theorem resolve_ignores_version:
  assumes "Resolve E RuntimeNode [] w = Inr p" and "exists_file w q" and "glob_match ''.vyx/runtimes/node/v*/bin/node'' q"
  shows "exists_file w p \<and> Split (CHR ''/'') p \<le> Split (CHR ''/'') q"
proof -
  obtain ps where g: "Glob w ''.vyx/runtimes/node/v*/bin/node'' = p # ps"
    using assms(1) by (auto simp: Resolve_def Let_def node_paths first_or_def split: list.splits)
  have "q \<in> set (p # ps)" "p \<in> set (p # ps)" using assms(2,3) Glob_mem [of q w "''.vyx/runtimes/node/v*/bin/node''"] unfolding g by simp_all
  then show ?thesis using g Glob_first [OF g] Glob_mem [of p w "''.vyx/runtimes/node/v*/bin/node''"] by auto
qed

theorem resolve_ignores_version_witness:
  "Split (CHR ''/'') ''.vyx/runtimes/node/v10/bin/node'' \<le> Split (CHR ''/'') ''.vyx/runtimes/node/v9/bin/node''"
proof -
  let ?w = "ex_world [''.vyx/runtimes/node/v9/bin/node'', ''.vyx/runtimes/node/v10/bin/node'']"
  have "Resolve ex_prov RuntimeNode [] ?w = Inr ''.vyx/runtimes/node/v10/bin/node''" by code_simp
  moreover have "exists_file ?w ''.vyx/runtimes/node/v9/bin/node''" "glob_match ''.vyx/runtimes/node/v*/bin/node'' ''.vyx/runtimes/node/v9/bin/node''"
    by code_simp+
  ultimately show ?thesis using resolve_ignores_version by blast
qed

section \<open>Interrupted downloads\<close>

lemma uv_paths: "filepath_Join [filepath_Join [runtimes_dir ''.vyx'', ''uv''], ''uv''] = ''.vyx/runtimes/uv/uv''"
  by code_simp

text \<open>
  An interrupted download breaks provisioning for good: the truncated file stays under the final name, so no later attempt, in whatever
  environment, downloads it again; each one runs the truncated installer instead.
\<close>
theorem truncated_download_is_kept:
  assumes "\<not> exists_file w ''.vyx/runtimes/uv/uv''" and "pe_goos E \<noteq> ''windows''"
    and "\<And>d. pe_mkdir E d = None" "\<And>u. pe_request E u = None" "\<And>u. pe_get E u = Inr 200" "\<And>p. pe_create E p = None" "\<And>u. pe_copy E u = Some err"
  shows "\<exists>w1. Ensure E RuntimePython v [] w = (Some (ErrorfW ''download uv: '' (ErrorfW ''write: '' err)), w1) \<and>
    (''.vyx/runtimes/uv/uv'', Truncated) \<in> set (wd_files w1) \<and>
    wd_downloads (snd (Ensure E' RuntimePython v' [] w1)) = wd_downloads w1 \<and>
    (\<exists>args. wd_commands (snd (Ensure E' RuntimePython v' [] w1)) = wd_commands w1 @ [''.vyx/runtimes/uv/uv'' # args])"
proof -
  obtain w1 where w1: "Ensure E RuntimePython v [] w = (Some (ErrorfW ''download uv: '' (ErrorfW ''write: '' err)), w1)"
      "(''.vyx/runtimes/uv/uv'', Truncated) \<in> set (wd_files w1)"
    using assms
    by (auto simp: Ensure_def ensurePython_def Let_def uv_paths downloadUV_def getOSAndArch_def downloadFile_def write_file_def)
  then have "exists_file w1 ''.vyx/runtimes/uv/uv''" by (force simp: exists_file_def)
  then have "wd_downloads (snd (Ensure E' RuntimePython v' [] w1)) = wd_downloads w1 \<and>
      (\<exists>args. wd_commands (snd (Ensure E' RuntimePython v' [] w1)) = wd_commands w1 @ [''.vyx/runtimes/uv/uv'' # args])"
    by (auto simp: Ensure_def ensurePython_def Let_def uv_paths run_command_def split: prod.split option.split)
  then show ?thesis using w1 by blast
qed

theorem truncated_download_is_kept_witness:
  "\<exists>w1. Ensure ex_prov RuntimePython ''3.12'' [] (ex_world []) =
       (Some (ErrorfW ''download uv: '' (ErrorfW ''write: '' (Errorf ''unexpected EOF''))), w1) \<and>
     wd_downloads (snd (Ensure ex_prov RuntimePython ''3.12'' [] w1)) = wd_downloads w1"
proof -
  have "\<not> exists_file (ex_world []) ''.vyx/runtimes/uv/uv''" "pe_goos ex_prov \<noteq> ''windows''" by (simp_all add: exists_file_def ex_world_def ex_prov_def)
  from truncated_download_is_kept [OF this, of "Errorf ''unexpected EOF''" "''3.12''" ex_prov "''3.12''"] show ?thesis by (auto simp: ex_prov_def)
qed

end
