(* ===== verification/NamedPipes.thy ===== *)
theory NamedPipes
  imports Framing
begin

text \<open>
  The Windows transport of \<open>core/infrastructure/ipc/uds/named_pipe_windows.go\<close>. Handles of the operating system are numbers; the state records
  every call of \<open>CloseHandle\<close>. A listener object is known by the handle it was created with; its field \<open>handle\<close> becomes invalid once
  the connection owns it. The goroutine that waits for the worker is an entry of \<open>np_pending\<close> and takes its step later, in any order with the
  calls of the transport. Creating a pipe and connecting are decided outside.
\<close>

section \<open>State\<close>

record pipes =
  np_listeners :: "string \<rightharpoonup> nat"
  np_consumed :: "nat set"
  np_connections :: "string \<rightharpoonup> nat"
  np_once :: "nat set"
  np_pending :: "(string \<times> nat) set"
  np_closed :: "nat list"
  np_next :: nat
  np_in :: "nat \<Rightarrow> bytes"
  np_out :: "nat \<Rightarrow> bytes"

definition NewNamedPipeTransport :: pipes where
  "NewNamedPipeTransport = \<lparr>np_listeners = Map.empty, np_consumed = {}, np_connections = Map.empty, np_once = {}, np_pending = {}, np_closed = [],
     np_next = 0, np_in = \<lambda>_. [], np_out = \<lambda>_. []\<rparr>"

definition pipePath :: "string \<Rightarrow> string" where
  "pipePath workerID = [CHR 0x5C, CHR 0x5C, CHR ''.'', CHR 0x5C] @ ''pipe'' @ [CHR 0x5C] @ ''vyx-'' @ workerID"

definition CloseHandle :: "nat \<Rightarrow> pipes \<Rightarrow> pipes" where
  "CloseHandle h t = t\<lparr>np_closed := np_closed t @ [h]\<rparr>"

text \<open>\<open>handleConn.Close\<close>, guarded by \<open>sync.Once\<close>.\<close>

definition conn_Close :: "nat \<Rightarrow> pipes \<Rightarrow> pipes" where
  "conn_Close h t = (if h \<in> np_once t then t else CloseHandle h (t\<lparr>np_once := insert h (np_once t)\<rparr>))"

section \<open>Operations\<close>

text \<open>Closing and forgetting the connection of a worker, as \<open>Register\<close> and \<open>Deregister\<close> do.\<close>

definition drop_conn :: "string \<Rightarrow> pipes \<Rightarrow> pipes" where
  "drop_conn workerID t =
     (case np_connections t workerID of
        None \<Rightarrow> t
      | Some h \<Rightarrow> (let t1 = conn_Close h t in t1\<lparr>np_connections := (np_connections t1)(workerID := None)\<rparr>))"

text \<open>\<open>create\<close> is the outcome of \<open>createSecureNamedPipe\<close>.\<close>

definition pipe_Register :: "go_error option \<Rightarrow> pipes \<Rightarrow> string \<Rightarrow> go_error option \<times> pipes" where
  "pipe_Register create t workerID =
     (case create of
        Some err \<Rightarrow> (Some err, t)
      | None \<Rightarrow>
          (let h = np_next t; t1 = drop_conn workerID (t\<lparr>np_next := Suc h\<rparr>)
           in (None, t1\<lparr>np_listeners := (np_listeners t1)(workerID \<mapsto> h), np_pending := insert (workerID, h) (np_pending t1)\<rparr>)))"

datatype accept_outcome = Cancelled | ConnectFailed | Connected

text \<open>The end of \<open>acceptPipe\<close>.\<close>

definition acceptPipe :: "accept_outcome \<Rightarrow> pipes \<Rightarrow> string \<times> nat \<Rightarrow> pipes" where
  "acceptPipe r t wl =
     (let t1 = t\<lparr>np_pending := np_pending t - {wl}\<rparr>
      in case r of
           Cancelled \<Rightarrow> CloseHandle (snd wl) t1
         | ConnectFailed \<Rightarrow> CloseHandle (snd wl) t1
         | Connected \<Rightarrow> t1\<lparr>np_connections := (np_connections t1)(fst wl \<mapsto> snd wl), np_consumed := insert (snd wl) (np_consumed t1)\<rparr>)"

definition drop_listener :: "string \<Rightarrow> pipes \<Rightarrow> pipes" where
  "drop_listener workerID t =
     (case np_listeners t workerID of
        None \<Rightarrow> t
      | Some l \<Rightarrow>
          (let t1 = (if l \<notin> np_consumed t then CloseHandle l t else t)
           in t1\<lparr>np_listeners := (np_listeners t1)(workerID := None)\<rparr>))"

definition pipe_Deregister :: "pipes \<Rightarrow> string \<Rightarrow> pipes" where
  "pipe_Deregister t workerID = drop_listener workerID (drop_conn workerID t)"

text \<open>The two loops of \<open>Close\<close>, in the orders of their ranges.\<close>

definition pipe_Close :: "string list \<Rightarrow> string list \<Rightarrow> pipes \<Rightarrow> pipes" where
  "pipe_Close conns listeners t = foldl (\<lambda>t i. drop_listener i t) (foldl (\<lambda>t i. drop_conn i t) t conns) listeners"

definition pipe_getConn :: "pipes \<Rightarrow> string \<Rightarrow> go_error + nat" where
  "pipe_getConn t workerID =
     (case np_connections t workerID of
        None \<Rightarrow> Inl (WErrorf ErrWorkerNotConnected ('': '' @ workerID))
      | Some h \<Rightarrow> Inr h)"

definition pipe_Send :: "go_error option \<Rightarrow> pipes \<Rightarrow> string \<Rightarrow> message \<Rightarrow> go_error option \<times> pipes" where
  "pipe_Send fails t workerID msg =
     (case pipe_getConn t workerID of
        Inl err \<Rightarrow> (Some err, t)
      | Inr h \<Rightarrow>
          (case Write (\<lambda>out bs. case fails of Some err \<Rightarrow> (out, Some err) | None \<Rightarrow> (out @ bs, None)) (np_out t h) msg of
             (out, err) \<Rightarrow> (err, t\<lparr>np_out := (np_out t)(h := out)\<rparr>)))"

definition pipe_Receive :: "pipes \<Rightarrow> string \<Rightarrow> (go_error + message) \<times> pipes" where
  "pipe_Receive t workerID =
     (case pipe_getConn t workerID of
        Inl err \<Rightarrow> (Inl err, t)
      | Inr h \<Rightarrow>
          (case Read (np_in t h) of
             Inl err \<Rightarrow> (Inl err, t)
           | Inr (msg, rest) \<Rightarrow> (Inr msg, t\<lparr>np_in := (np_in t)(h := rest)\<rparr>)))"

definition pipe_ReceiveResponse :: "pipes \<Rightarrow> string \<Rightarrow> (go_error + message) \<times> pipes" where
  "pipe_ReceiveResponse t workerID = pipe_Receive t workerID"

section \<open>Connections are open\<close>

text \<open>A worker can only connect to a pipe whose handle has not been closed.\<close>

inductive pipe_step :: "pipes \<Rightarrow> pipes \<Rightarrow> bool" where
  register: "pipe_step t (snd (pipe_Register create t w))"
| accept: "wl \<in> np_pending t \<Longrightarrow> r = Connected \<longrightarrow> snd wl \<notin> set (np_closed t) \<Longrightarrow> pipe_step t (acceptPipe r t wl)"
| deregister: "pipe_step t (pipe_Deregister t w)"
| close: "pipe_step t (pipe_Close cs ls t)"
| send: "pipe_step t (snd (pipe_Send fails t w msg))"
| receive: "pipe_step t (snd (pipe_Receive t w))"

inductive pipe_reach :: "pipes \<Rightarrow> bool" where
  new: "pipe_reach NewNamedPipeTransport"
| step: "pipe_reach t \<Longrightarrow> pipe_step t t' \<Longrightarrow> pipe_reach t'"

definition pipe_ok :: "pipes \<Rightarrow> bool" where
  "pipe_ok t \<longleftrightarrow>
     (\<forall>w h. np_connections t w = Some h \<longrightarrow> h \<in> np_consumed t \<and> h \<notin> set (np_closed t)) \<and>
     (\<forall>v w h. np_connections t v = Some h \<longrightarrow> np_connections t w = Some h \<longrightarrow> v = w) \<and>
     (\<forall>(w, h) \<in> np_pending t. h \<notin> np_consumed t \<and> h < np_next t) \<and>
     (\<forall>v w h. (v, h) \<in> np_pending t \<longrightarrow> (w, h) \<in> np_pending t \<longrightarrow> v = w) \<and>
     (\<forall>h \<in> np_consumed t \<union> set (np_closed t) \<union> ran (np_listeners t). h < np_next t) \<and>
     (\<forall>h \<in> np_once t. h \<in> set (np_closed t))"

lemma pipe_ok_new: "pipe_ok NewNamedPipeTransport"
  by (simp add: pipe_ok_def NewNamedPipeTransport_def)

lemma drop_conn_ok: "pipe_ok t \<Longrightarrow> pipe_ok (drop_conn w t)"
  by (cases "np_connections t w") (auto simp: drop_conn_def conn_Close_def CloseHandle_def pipe_ok_def Let_def)

lemma drop_listener_ok: "pipe_ok t \<Longrightarrow> pipe_ok (drop_listener w t)"
  by (cases "np_listeners t w") (auto simp: drop_listener_def CloseHandle_def pipe_ok_def Let_def ran_def split: if_splits)

lemma folds_ok: "pipe_ok t \<Longrightarrow> pipe_ok (foldl (\<lambda>t i. drop_conn i t) t ws)" "pipe_ok t \<Longrightarrow> pipe_ok (foldl (\<lambda>t i. drop_listener i t) t ws)"
  by (induction ws arbitrary: t) (simp_all add: drop_conn_ok drop_listener_ok)

lemma pipe_ok_grow:
  assumes "pipe_ok t"
  shows "pipe_ok (t\<lparr>np_next := Suc (np_next t)\<rparr>)"
  using assms unfolding pipe_ok_def by (auto intro: less_SucI)

lemma drop_conn_frame [simp]:
  "np_next (drop_conn w t) = np_next t" "np_pending (drop_conn w t) = np_pending t" "np_consumed (drop_conn w t) = np_consumed t"
  "np_listeners (drop_conn w t) = np_listeners t"
  by (simp_all add: drop_conn_def conn_Close_def CloseHandle_def Let_def split: option.split)

lemma register_ok:
  assumes "pipe_ok t"
  shows "pipe_ok (snd (pipe_Register create t w))"
proof (cases create)
  case None
  let ?t = "drop_conn w (t\<lparr>np_next := Suc (np_next t)\<rparr>)"
  have "pipe_ok ?t" using assms by (intro drop_conn_ok pipe_ok_grow)
  moreover have "(v, np_next t) \<notin> np_pending t" "np_next t \<notin> np_consumed t" for v using assms by (auto simp: pipe_ok_def)
  ultimately show ?thesis using None by (auto simp: pipe_Register_def Let_def pipe_ok_def ran_def)
qed (use assms in \<open>simp add: pipe_Register_def\<close>)

lemma accept_ok:
  assumes "pipe_ok t" and wl: "wl \<in> np_pending t" and "r = Connected \<longrightarrow> snd wl \<notin> set (np_closed t)"
  shows "pipe_ok (acceptPipe r t wl)"
proof -
  obtain w h where e: "wl = (w, h)" by fastforce
  then have p: "h \<notin> np_consumed t" "h < np_next t" "\<And>v. (v, h) \<in> np_pending t \<Longrightarrow> v = w" using assms(1) wl by (auto simp: pipe_ok_def)
  have n: "np_connections t v \<noteq> Some h" for v using assms(1) p(1) by (auto simp: pipe_ok_def)
  note o = assms(1) [unfolded pipe_ok_def]
  show ?thesis
  proof (cases "r = Connected")
    case True
    have "acceptPipe r t wl = t\<lparr>np_pending := np_pending t - {wl}, np_connections := (np_connections t)(w \<mapsto> h), np_consumed := insert h (np_consumed t)\<rparr>"
      using True e by (simp add: acceptPipe_def)
    then show ?thesis using o p n assms(3) True e unfolding pipe_ok_def by (intro conjI) (simp, blast?)+
  next
    case False
    then have "acceptPipe r t wl = t\<lparr>np_pending := np_pending t - {wl}, np_closed := np_closed t @ [h]\<rparr>"
      using e by (cases r) (simp_all add: acceptPipe_def CloseHandle_def)
    then show ?thesis using o p n unfolding pipe_ok_def by (intro conjI) (simp, blast?)+
  qed
qed

lemma pipe_step_ok: "pipe_step t t' \<Longrightarrow> pipe_ok t \<Longrightarrow> pipe_ok t'"
proof (induction rule: pipe_step.induct)
  case (send t fails w msg)
  then show ?case by (auto simp: pipe_Send_def pipe_ok_def split: sum.split prod.split)
next
  case (receive t w)
  then show ?case by (auto simp: pipe_Receive_def pipe_ok_def split: sum.split prod.split)
qed (simp_all add: register_ok accept_ok pipe_Deregister_def drop_conn_ok drop_listener_ok pipe_Close_def folds_ok)

lemma pipe_reach_ok: "pipe_reach t \<Longrightarrow> pipe_ok t"
  by (induction rule: pipe_reach.induct) (auto simp: pipe_ok_new pipe_step_ok)

text \<open>
  Messages only travel over live pipes: whenever, in any interleaving of the transport's calls and the waiting goroutines, a send or receive
  finds a connection for a worker, its handle has not been closed, and no other worker has the same one.
\<close>
theorem pipe_connections_are_open:
  assumes "pipe_reach t" and "pipe_getConn t w = Inr h"
  shows "h \<notin> set (np_closed t) \<and> (\<forall>v. pipe_getConn t v = Inr h \<longleftrightarrow> v = w)"
  using pipe_reach_ok [OF assms(1)] assms(2) by (auto simp: pipe_getConn_def pipe_ok_def split: option.splits)

definition ex_pipes :: pipes where
  "ex_pipes = snd (pipe_Register None NewNamedPipeTransport ''w'')"

lemma ex_pipes_eval: "np_pending ex_pipes = {(''w'', 0)}" "np_listeners ex_pipes = [''w'' \<mapsto> 0]" "np_closed ex_pipes = []" "np_consumed ex_pipes = {}"
  "np_connections ex_pipes = Map.empty"
  by (simp_all add: ex_pipes_def pipe_Register_def NewNamedPipeTransport_def drop_conn_def Let_def)

lemma ex_pipes_reach: "pipe_reach ex_pipes"
  unfolding ex_pipes_def by (rule pipe_reach.step [OF pipe_reach.new register])

theorem pipe_connections_are_open_witness:
  "pipe_getConn (acceptPipe Connected ex_pipes (''w'', 0)) ''v'' \<noteq> Inr 0"
proof -
  have "pipe_reach (acceptPipe Connected ex_pipes (''w'', 0))"
    by (rule pipe_reach.step [OF ex_pipes_reach accept]) (simp_all add: ex_pipes_eval)
  moreover have "pipe_getConn (acceptPipe Connected ex_pipes (''w'', 0)) ''w'' = Inr 0"
    by (simp add: pipe_getConn_def acceptPipe_def Let_def)
  ultimately show ?thesis using pipe_connections_are_open by fastforce
qed

section \<open>A handle closed twice\<close>

text \<open>
  Stopping a worker that has not connected closes its handle twice: \<open>Deregister\<close> closes the handle of the listener, the waiting
  \<open>ConnectNamedPipe\<close> fails because of it, and the goroutine closes the same handle again, which by then may belong to something else.
\<close>
theorem handle_closed_twice:
  assumes "pipe_reach t" and "np_listeners t w = Some h" and "(w, h) \<in> np_pending t"
  shows "pipe_reach (acceptPipe ConnectFailed (pipe_Deregister t w) (w, h)) \<and>
    2 \<le> count_list (np_closed (acceptPipe ConnectFailed (pipe_Deregister t w) (w, h))) h"
proof -
  have h: "h \<notin> np_consumed t" using pipe_reach_ok [OF assms(1)] assms(3) by (auto simp: pipe_ok_def)
  have "np_pending (pipe_Deregister t w) = np_pending t"
    by (simp add: pipe_Deregister_def drop_listener_def CloseHandle_def Let_def split: option.split)
  then have "pipe_reach (acceptPipe ConnectFailed (pipe_Deregister t w) (w, h))"
    using assms(1,3) by (intro pipe_reach.step [OF pipe_reach.step [OF _ deregister] accept]) simp_all
  moreover have "np_closed (acceptPipe ConnectFailed (pipe_Deregister t w) (w, h)) = np_closed (drop_conn w t) @ [h, h]"
    using assms(2) h by (simp add: pipe_Deregister_def drop_listener_def CloseHandle_def Let_def acceptPipe_def)
  ultimately show ?thesis by simp
qed

theorem handle_closed_twice_witness:
  "2 \<le> count_list (np_closed (acceptPipe ConnectFailed (pipe_Deregister ex_pipes ''w'') (''w'', 0))) 0"
  using handle_closed_twice [OF ex_pipes_reach, of "''w''" 0] by (simp add: ex_pipes_eval)

section \<open>No sorting of frames\<close>

text \<open>
  On this transport nothing separates heartbeats from answers: whatever frame is next, a heartbeat or a handshake as well, is what a dispatcher
  waiting for a response gets, and the heartbeat loop does not see it any more.
\<close>
theorem response_gets_any_frame:
  assumes "np_connections t w = Some h" and "np_in t h = frame msg @ rest" and "wire_ok msg"
  shows "pipe_ReceiveResponse t w = (Inr msg, t\<lparr>np_in := (np_in t)(h := rest)\<rparr>)"
  using assms by (simp add: pipe_ReceiveResponse_def pipe_Receive_def pipe_getConn_def wire.dec_enc)

end
