(* ===== verification/Startup.thy ===== *)
theory Startup
  imports HotReload Health Schemas Transport Provision
begin

text \<open>
  From the manifest to a serving gateway, in \<open>core/cmd/vyx/main.go\<close>: the construction of the validators, the dispatcher and the server,
  starting the workers one after another with their handshakes, and the shutdown. Start-up runs in the main goroutine, which recovers from
  no panic, and the server begins to listen only after the last worker. Contexts carry the time of their cancellation and a deadline; the
  attempts of a handshake are a list, and a list that runs out means that start-up still waits. Paths are those of Unix.
\<close>

section \<open>The operating system and contexts\<close>

record os_env =
  os_cwd :: "string option"
  os_stat :: "string \<Rightarrow> bool"
  os_getenv :: "string \<Rightarrow> string"
  os_windows :: bool

text \<open>\<open>filepath.IsAbs\<close> and \<open>filepath.Abs\<close>, which fails without a current directory.\<close>

definition IsAbs :: "string \<Rightarrow> bool" where
  "IsAbs p = HasPrefix p ''/''"

definition filepath_Abs :: "os_env \<Rightarrow> string \<Rightarrow> string option" where
  "filepath_Abs E p = (if IsAbs p then Some (filepath_Clean p) else map_option (\<lambda>d. filepath_Join [d, p]) (os_cwd E))"

record go_context =
  cx_cancelled :: "go_time option"
  cx_deadline :: "go_time option"

definition passed :: "go_time \<Rightarrow> go_time option \<Rightarrow> bool" where
  "passed t x = (case x of None \<Rightarrow> False | Some d \<Rightarrow> d \<le> t)"

text \<open>\<open>ctx.Err()\<close> at a time: what came first decides.\<close>

definition ctx_Err :: "go_context \<Rightarrow> go_time \<Rightarrow> go_error option" where
  "ctx_Err c t =
     (if passed t (cx_cancelled c) \<and> (\<not> passed t (cx_deadline c) \<or> the (cx_cancelled c) \<le> the (cx_deadline c)) then Some Canceled
      else if passed t (cx_deadline c) then Some DeadlineExceeded
      else None)"

definition WithTimeout :: "go_context \<Rightarrow> go_time \<Rightarrow> duration \<Rightarrow> go_context" where
  "WithTimeout c now timeout =
     c\<lparr>cx_deadline := Some (case cx_deadline c of None \<Rightarrow> now + timeout | Some d \<Rightarrow> min d (now + timeout))\<rparr>"

section \<open>Commands, directories and contexts of a worker\<close>

definition parseArgs :: "string \<Rightarrow> string list" where
  "parseArgs command = Fields command"

definition resolveCommand :: "os_env \<Rightarrow> string \<Rightarrow> string" where
  "resolveCommand E cmd =
     (if IsAbs cmd then cmd
      else (case filepath_Abs E cmd of
              Some p \<Rightarrow> if os_stat E p then p else cmd
            | None \<Rightarrow> cmd))"

text \<open>\<open>None\<close> is the panic of \<open>args[0]\<close>.\<close>

definition prepareWorkerCommand :: "os_env \<Rightarrow> worker_config \<Rightarrow> string \<Rightarrow> string \<Rightarrow> (string \<times> string list) option" where
  "prepareWorkerCommand E wcfg workerID socketDir =
     (case parseArgs (wc_Command wcfg) of
        [] \<Rightarrow> None
      | arg0 # cmdArgs \<Rightarrow>
          Some (resolveCommand E arg0,
                cmdArgs @ [''--vyx-socket'',
                  if os_windows E then [CHR 0x5C, CHR 0x5C, CHR ''.'', CHR 0x5C] @ ''pipe'' @ [CHR 0x5C] @ ''vyx-'' @ workerID
                  else filepath_Join [socketDir, workerID @ ''.sock'']]))"

definition resolveWorkerDir :: "os_env \<Rightarrow> worker_config \<Rightarrow> string \<Rightarrow> string" where
  "resolveWorkerDir E wcfg configPath =
     (let workDir = wc_WorkingDir wcfg
      in if workDir \<noteq> [] \<and> \<not> IsAbs workDir
         then (let joined = filepath_Join [filepath_Dir configPath, workDir]
               in case filepath_Abs E joined of Some p \<Rightarrow> p | None \<Rightarrow> joined)
         else workDir)"

definition createSpawnContext :: "go_context \<Rightarrow> go_time \<Rightarrow> duration \<Rightarrow> go_context" where
  "createSpawnContext ctx now startupTimeout = (if 0 < startupTimeout then WithTimeout ctx now startupTimeout else ctx)"

definition getVyxDir :: "os_env \<Rightarrow> string" where
  "getVyxDir E = (let vyxDir = os_getenv E ''VYX_DIR'' in if vyxDir = [] then ''.vyx'' else vyxDir)"

definition socket_dir :: "config \<Rightarrow> string" where
  "socket_dir cfg = (if cf_SocketDir cfg = [] then ''/tmp/vyx'' else cf_SocketDir cfg)"

section \<open>Waiting for the handshake\<close>

text \<open>
  One turn of the retry loop: what \<open>Receive\<close> returned and when, when the wait after a failure ended, and whether the context won when both
  it and the timer were ready.
\<close>

record attempt =
  at_received :: "go_error + message"
  at_time :: go_time
  at_slept :: go_time
  at_doneFirst :: bool

datatype wait_result = Ready | TimedOut go_error | WaitPanic | StillWaiting

definition handshake_timeout :: "string \<Rightarrow> go_error \<Rightarrow> go_error" where
  "handshake_timeout workerID ce = ErrorfW (''handshake timeout for worker '' @ workerID @ '': '') ce"

fun waitForHandshake ::
  "(bytes \<Rightarrow> go_error + capability list) \<Rightarrow> route_map option \<Rightarrow> go_context \<Rightarrow> lifecycle \<Rightarrow> string \<Rightarrow> attempt list \<Rightarrow> wait_result \<times> lifecycle" where
  "waitForHandshake U routes ctx s workerID [] = (StillWaiting, s)"
| "waitForHandshake U routes ctx s workerID (a # as) =
     (case Handle U routes s workerID (at_received a) (ctx_Err ctx (at_time a)) (at_time a) of
        (HandshakeOk, s') \<Rightarrow> (Ready, s')
      | (HandshakePanic, s') \<Rightarrow> (WaitPanic, s')
      | (HandshakeError err, s') \<Rightarrow>
          (case ctx_Err ctx (at_time a) of
             Some ce \<Rightarrow> (TimedOut (handshake_timeout workerID ce), s')
           | None \<Rightarrow>
               (case ctx_Err ctx (at_slept a) of
                  Some ce \<Rightarrow> if at_doneFirst a then (TimedOut (handshake_timeout workerID ce), s')
                             else waitForHandshake U routes ctx s' workerID as
                | None \<Rightarrow> waitForHandshake U routes ctx s' workerID as)))"

text \<open>The handler is built without a route map. A failed handshake stops the worker; \<open>now\<close> and \<open>es\<close> are the time and the events of that stop.\<close>

definition waitForWorkerHandshake ::
  "env \<Rightarrow> (bytes \<Rightarrow> go_error + capability list) \<Rightarrow> go_context \<Rightarrow> lifecycle \<Rightarrow> string \<Rightarrow> attempt list \<Rightarrow> go_time \<Rightarrow>
    (go_time \<times> drain_event) list \<Rightarrow> wait_result \<times> lifecycle" where
  "waitForWorkerHandshake E U spawnCtx s workerID as now es =
     (case waitForHandshake U None spawnCtx s workerID as of
        (TimedOut err, s') \<Rightarrow> (TimedOut err, snd (StopWorker E s' workerID now es))
      | (r, s') \<Rightarrow> (r, s'))"

definition startWorkerHeartbeat :: "receiver \<Rightarrow> string \<Rightarrow> receiver" where
  "startWorkerHeartbeat hb workerID = StartLoop hb workerID"

section \<open>Starting the workers\<close>

record startup =
  su_transport :: transport
  su_service :: lifecycle
  su_receiver :: receiver

text \<open>What happens around the start of one worker: the outcome of creating its socket, the times, the handshake attempts and the drain.\<close>

record instance_env =
  ie_listen :: "go_error option"
  ie_spawned :: go_time
  ie_attempts :: "attempt list"
  ie_stopped :: go_time
  ie_drain :: "(go_time \<times> drain_event) list"

datatype outcome = Continues | Blocks | Crashes

definition spawn_request :: "os_env \<Rightarrow> worker_config \<Rightarrow> string \<Rightarrow> string \<times> string list \<Rightarrow> spawn_config" where
  "spawn_request O1 wcfg workerID cmd =
     \<lparr>sp_ID = workerID, sp_Command = fst cmd, sp_Args = snd cmd, sp_WorkDir = resolveWorkerDir O1 wcfg (os_getenv O1 ''VYX_CONFIG''),
      sp_ShutdownTimeout = wc_ShutdownTimeout wcfg, sp_RuntimeVersion = wc_RuntimeVersion wcfg, sp_VyxDir = getVyxDir O1\<rparr>"

definition spawnWorkerInstance ::
  "os_env \<Rightarrow> env \<Rightarrow> (bytes \<Rightarrow> go_error + capability list) \<Rightarrow> go_context \<Rightarrow> string \<Rightarrow> worker_config \<Rightarrow> string \<Rightarrow> instance_env \<Rightarrow> startup \<Rightarrow>
    outcome \<times> startup" where
  "spawnWorkerInstance O1 E U ctx socketDir wcfg workerID x st =
     (case Register (su_transport st) workerID (ie_listen x) of
        (Some err, tr) \<Rightarrow> (Continues, st\<lparr>su_transport := tr\<rparr>)
      | (None, tr) \<Rightarrow>
          (let st1 = st\<lparr>su_transport := tr\<rparr>
           in case prepareWorkerCommand O1 wcfg workerID socketDir of
                None \<Rightarrow> (Crashes, st1)
              | Some cmd \<Rightarrow>
                  (let spawnCtx = createSpawnContext ctx (ie_spawned x) (wc_StartupTimeout wcfg)
                   in case SpawnWorker E (su_service st1) (spawn_request O1 wcfg workerID cmd) (ie_spawned x) of
                        (Inl err, s1) \<Rightarrow> (Continues, st1\<lparr>su_service := s1\<rparr>)
                      | (Inr w, s1) \<Rightarrow>
                          (case waitForWorkerHandshake E U spawnCtx s1 workerID (ie_attempts x) (ie_stopped x) (ie_drain x) of
                             (WaitPanic, s2) \<Rightarrow> (Crashes, st1\<lparr>su_service := s2\<rparr>)
                           | (StillWaiting, s2) \<Rightarrow> (Blocks, st1\<lparr>su_service := s2\<rparr>)
                           | (_, s2) \<Rightarrow> (Continues, st1\<lparr>su_service := s2, su_receiver := startWorkerHeartbeat (su_receiver st1) (w_ID w)\<rparr>)))))"

text \<open>The two nested loops over the workers and their replicas; a panic or an endless wait ends them.\<close>

definition instances :: "config \<Rightarrow> (worker_config \<times> string) list" where
  "instances cfg = concat (map (\<lambda>w. map (\<lambda>i. (w, buildWorkerID (wc_ID w) i (replicas_of w))) [0 .. replicas_of w - 1]) (cf_Workers cfg))"

fun spawn_all ::
  "os_env \<Rightarrow> env \<Rightarrow> (bytes \<Rightarrow> go_error + capability list) \<Rightarrow> go_context \<Rightarrow> string \<Rightarrow> (string \<Rightarrow> instance_env) \<Rightarrow> (worker_config \<times> string) list \<Rightarrow>
    startup \<Rightarrow> outcome \<times> startup" where
  "spawn_all O1 E U ctx socketDir X [] st = (Continues, st)"
| "spawn_all O1 E U ctx socketDir X ((wcfg, workerID) # ws) st =
     (case spawnWorkerInstance O1 E U ctx socketDir wcfg workerID (X workerID) st of
        (Continues, st') \<Rightarrow> spawn_all O1 E U ctx socketDir X ws st'
      | (r, st') \<Rightarrow> (r, st'))"

definition startServices ::
  "os_env \<Rightarrow> env \<Rightarrow> (bytes \<Rightarrow> go_error + capability list) \<Rightarrow> go_context \<Rightarrow> (string \<Rightarrow> instance_env) \<Rightarrow> config \<Rightarrow> startup \<Rightarrow> outcome \<times> startup" where
  "startServices O1 E U ctx X cfg st = spawn_all O1 E U ctx (socket_dir cfg) X (instances cfg) st"

section \<open>Building the gateway\<close>

definition route_map_path :: "os_env \<Rightarrow> config \<Rightarrow> string" where
  "route_map_path E cfg =
     (let p = (if cf_RouteMapOutput cfg = [] then ''./route_map.json'' else cf_RouteMapOutput cfg)
      in if IsAbs p then p else filepath_Join [filepath_Dir (os_getenv E ''VYX_CONFIG''), p])"

definition loadRouteMap :: "os_env \<Rightarrow> file_env \<Rightarrow> config \<Rightarrow> route_map" where
  "loadRouteMap E F cfg = (case LoadRouteMap F (route_map_path E cfg) of Inl _ \<Rightarrow> NewRouteMap [] | Inr rm \<Rightarrow> rm)"

text \<open>\<open>None\<close> is the fatal error for a short secret.\<close>

definition setupValidators ::
  "os_env \<Rightarrow> ('sc, 'i) schema_env \<Rightarrow> config \<Rightarrow> (jwt_validator \<times> 'sc schema_validator) option" where
  "setupValidators E SE cfg =
     (let jwtSecret = os_getenv E (sy_JWTSecretEnv (cf_Security cfg))
      in if length jwtSecret < 32 then None
         else (let schemaValidator = snd (WarmUp SE (NewSchemaValidator (cf_SchemasDir cfg)))
               in Some (NewJWTValidatorWithClaims (map of_char jwtSecret) [] [], schemaValidator)))"

record http_config =
  hc_Addr :: string
  hc_ReadTimeout :: duration
  hc_WriteTimeout :: duration
  hc_IdleTimeout :: duration
  hc_MaxBodyBytes :: int
  hc_TLSCertFile :: string
  hc_TLSKeyFile :: string
  hc_H2CEnabled :: bool

definition defaultMaxBodyBytes :: int where
  "defaultMaxBodyBytes = 2 ^ 20"

definition http_DefaultConfig :: http_config where
  "http_DefaultConfig =
     \<lparr>hc_Addr = '':8080'', hc_ReadTimeout = 15 * second, hc_WriteTimeout = 30 * second, hc_IdleTimeout = 60 * second,
      hc_MaxBodyBytes = defaultMaxBodyBytes, hc_TLSCertFile = [], hc_TLSKeyFile = [], hc_H2CEnabled = False\<rparr>"

definition http_DevConfig :: http_config where
  "http_DevConfig = http_DefaultConfig\<lparr>hc_H2CEnabled := True\<rparr>"

definition setupHTTPServerConfig :: "bool \<Rightarrow> http_config" where
  "setupHTTPServerConfig devMode = (if devMode then http_DevConfig else http_DefaultConfig)"

text \<open>What libraries do for the running gateway: token parsing and its clock, schemas, the JSON of requests and answers.\<close>

record ('sc, 'i) library_env =
  le_parse :: "string \<Rightarrow> (jwt_token \<Rightarrow> go_error + bytes) \<Rightarrow> go_error + jwt_token"
  le_now :: go_time
  le_schemas :: "('sc, 'i) schema_env"
  le_marshal :: "gateway_request \<Rightarrow> string \<Rightarrow> duration \<Rightarrow> go_error + bytes"
  le_unmarshal :: "bytes \<Rightarrow> go_error + worker_response"

definition setupDispatcher ::
  "('sc, 'i) library_env \<Rightarrow> route_map \<Rightarrow> jwt_validator \<Rightarrow> 'sc schema_validator \<Rightarrow> config \<Rightarrow> drainer \<Rightarrow> pool_manager \<Rightarrow>
    dispatcher_config \<times> dispatcher" where
  "setupDispatcher L rm jwt schema cfg drainer poolMgr =
     (\<lparr>dc_routes = rm, dc_jwt = Validate (le_parse L) jwt (le_now L), dc_schema = (\<lambda>name body. fst (schema_Validate (le_schemas L) schema name body)),
       dc_timeout = sy_GlobalTimeout (cf_Security cfg), dc_listeners = [], dc_hooks = [], dc_marshal = le_marshal L, dc_unmarshal = le_unmarshal L\<rparr>,
      NewDispatcher (breaker_config cfg) (Some drainer) (Some poolMgr))"

text \<open>\<open>setupHTTPServer\<close> and the fields of the server that \<open>New\<close> sets: the default resolver of addresses and the limit of the body.\<close>

definition setupHTTPServer :: "http_config \<Rightarrow> dispatcher_config \<times> dispatcher \<Rightarrow> rate_limiter \<Rightarrow> server_config \<times> server" where
  "setupHTTPServer hc d rl =
     (\<lparr>sc_dispatch = fst d, sc_maxBodyBytes = hc_MaxBodyBytes hc, sc_ipResolver = RemoteAddr_ClientIP\<rparr>,
      \<lparr>sv_dispatcher = snd d, sv_rateLimiter = rl\<rparr>)"

definition setupCoreServices :: startup where
  "setupCoreServices =
     \<lparr>su_transport = NewTransport, su_service = NewService NewMemoryWorkerRepository (Some NewWorkerDrainer) (Some NewManager), su_receiver = NewReceiver\<rparr>"

record gateway =
  gw_loader :: loader
  gw_config :: config
  gw_http :: server_config
  gw_server :: server
  gw_started :: "outcome \<times> startup"

definition runServer ::
  "os_env \<Rightarrow> file_env \<Rightarrow> ('sc, 'i) library_env \<Rightarrow> env \<Rightarrow> (bytes \<Rightarrow> go_error + capability list) \<Rightarrow> go_context \<Rightarrow> (string \<Rightarrow> instance_env) \<Rightarrow> bool \<Rightarrow>
    gateway option" where
  "runServer O1 F L E U ctx X devMode =
     (case loadConfig F (os_getenv O1 ''VYX_CONFIG'') of
        None \<Rightarrow> None
      | Some (cfgLoader, cfg) \<Rightarrow>
          (case setupValidators O1 (le_schemas L) cfg of
             None \<Rightarrow> None
           | Some (jwt, schema) \<Rightarrow>
               (let d = setupDispatcher L (loadRouteMap O1 F cfg) jwt schema cfg NewWorkerDrainer NewManager;
                    h = setupHTTPServer (setupHTTPServerConfig devMode) d (setupRateLimiter cfg)
                in Some \<lparr>gw_loader = cfgLoader, gw_config = cfg, gw_http = fst h, gw_server = snd h,
                         gw_started = startServices O1 E U ctx X cfg setupCoreServices\<rparr>)))"

section \<open>Shutdown\<close>

text \<open>
  \<open>waitForShutdown\<close> once its context is done. \<open>busy\<close> says whether connections are active: \<open>Shutdown\<close> is given a context derived from the
  cancelled one and returns its error at once. The result is the exit status and the errors logged.
\<close>

definition waitForShutdown ::
  "env \<Rightarrow> go_context \<Rightarrow> startup \<Rightarrow> bool \<Rightarrow> string list \<Rightarrow> go_time \<Rightarrow> (string \<Rightarrow> (go_time \<times> drain_event) list) \<Rightarrow> (int \<times> go_error list) \<times> startup" where
  "waitForShutdown E ctx st busy order now es =
     (let shutdownCtx = WithTimeout ctx now (30 * second);
          httpErr = (if busy then ctx_Err shutdownCtx now else None);
          tr = Close (su_transport st)
      in case StopAll E (su_service st) order now es of
           (Some err, s) \<Rightarrow> ((1, (case httpErr of None \<Rightarrow> [] | Some h \<Rightarrow> [h]) @ [err]), st\<lparr>su_transport := tr, su_service := s\<rparr>)
         | (None, s) \<Rightarrow> ((0, (case httpErr of None \<Rightarrow> [] | Some h \<Rightarrow> [h])), st\<lparr>su_transport := tr, su_service := s\<rparr>))"

section \<open>Sequences of starts\<close>

text \<open>Starting one thing after another until one start does not come back.\<close>

locale start_sequence =
  fixes start :: "'w \<Rightarrow> 's \<Rightarrow> outcome \<times> 's" and run :: "'w list \<Rightarrow> 's \<Rightarrow> outcome \<times> 's"
  assumes run_Nil: "run [] s = (Continues, s)"
    and run_Cons: "run (w # ws) s = (case start w s of (Continues, s') \<Rightarrow> run ws s' | (r, s') \<Rightarrow> (r, s'))"
begin

lemma run_append: "run pre s = (Continues, s1) \<Longrightarrow> run (pre @ ws) s = run ws s1"
  by (induction pre arbitrary: s) (auto simp: run_Nil run_Cons split: prod.splits outcome.splits)

lemma run_stops:
  assumes "run pre s = (Continues, s1)" and "start w s1 = (r, s2)" and "r \<noteq> Continues"
  shows "run (pre @ w # post) s = (r, s2)"
  using assms(2,3) by (simp add: run_append [OF assms(1)] run_Cons split: outcome.split)

lemma run_keeps:
  assumes "\<And>w s. w \<in> set ws \<Longrightarrow> P s \<Longrightarrow> P (snd (start w s))" and "P s"
  shows "P (snd (run ws s))"
  using assms
proof (induction ws arbitrary: s)
  case (Cons w ws)
  obtain r s' where w: "start w s = (r, s')" by fastforce
  have p: "P s'" using Cons.prems(1) [of w s] Cons.prems(2) w by simp
  have "P (snd (run ws s'))" by (rule Cons.IH) (use Cons.prems(1) p in auto)
  then show ?case using w p by (simp add: run_Cons split: outcome.split)
qed (simp add: run_Nil)

end

interpretation starts: start_sequence "\<lambda>(w, i). spawnWorkerInstance O1 E U ctx dir w i (X i)" "spawn_all O1 E U ctx dir X" for O1 E U ctx dir X
proof
  fix p :: "worker_config \<times> string" and ps st
  show "spawn_all O1 E U ctx dir X (p # ps) st =
      (case (case p of (w, i) \<Rightarrow> spawnWorkerInstance O1 E U ctx dir w i (X i)) st of
         (Continues, s') \<Rightarrow> spawn_all O1 E U ctx dir X ps s' | (r, s') \<Rightarrow> (r, s'))"
    by (cases p) simp
qed simp

section \<open>Start-up as a run of the lifecycle service\<close>

lemma Handle_service: "snd (Handle U routes s i m ce now) = s \<or> snd (Handle U routes s i m ce now) = snd (MarkRunning s i now)"
  by (simp add: Handle_def split: sum.split option.split prod.split)

lemma Handle_run: "\<exists>ops. snd (Handle U routes s i m ce now) = life_run E s ops"
  using Handle_service [of U routes s i m ce now]
proof
  assume "snd (Handle U routes s i m ce now) = s"
  then show ?thesis by (intro exI [of _ "[]"]) simp
next
  assume "snd (Handle U routes s i m ce now) = snd (MarkRunning s i now)"
  then show ?thesis by (intro exI [of _ "[(now, LRunning i)]"]) simp
qed

lemma run_trans: "\<lbrakk>\<exists>ops. s1 = life_run E s ops; \<exists>ops. s2 = life_run E s1 ops\<rbrakk> \<Longrightarrow> \<exists>ops. s2 = life_run E s ops"
  by (metis foldl_append)

lemma waitForHandshake_run: "\<exists>ops. snd (waitForHandshake U routes ctx s i as) = life_run E s ops"
proof (induction as arbitrary: s)
  case Nil
  show ?case by (intro exI [of _ "[]"]) simp
next
  case (Cons a as)
  obtain r s' where h: "Handle U routes s i (at_received a) (ctx_Err ctx (at_time a)) (at_time a) = (r, s')" by fastforce
  have 1: "\<exists>ops. s' = life_run E s ops" using Handle_run [of U routes s i "at_received a" "ctx_Err ctx (at_time a)" "at_time a" E] h by simp
  have 2: "\<exists>ops. snd (waitForHandshake U routes ctx s' i as) = life_run E s ops" using run_trans [OF 1 Cons.IH] .
  have "snd (waitForHandshake U routes ctx s i (a # as)) \<in> {s', snd (waitForHandshake U routes ctx s' i as)}"
    using h by (simp split: handshake_result.split option.split)
  with 1 2 show ?case by (metis empty_iff insert_iff)
qed

lemma waitForWorkerHandshake_run: "\<exists>ops. snd (waitForWorkerHandshake E U ctx s i as now es) = life_run E s ops"
proof -
  obtain r s' where w: "waitForHandshake U None ctx s i as = (r, s')" by fastforce
  have 1: "\<exists>ops. s' = life_run E s ops" using waitForHandshake_run [of U None ctx s i as E] w by simp
  have "\<exists>ops. snd (StopWorker E s' i now es) = life_run E s' ops" by (intro exI [of _ "[(now, LStop i es)]"]) simp
  with 1 have 2: "\<exists>ops. snd (StopWorker E s' i now es) = life_run E s ops" by (rule run_trans)
  have "snd (waitForWorkerHandshake E U ctx s i as now es) \<in> {s', snd (StopWorker E s' i now es)}"
    using w by (simp add: waitForWorkerHandshake_def split: wait_result.split)
  with 1 2 show ?thesis by (metis empty_iff insert_iff)
qed

lemma spawnWorkerInstance_run:
  "\<exists>ops. su_service (snd (spawnWorkerInstance O1 E U ctx dir w i x st)) = life_run E (su_service st) ops"
proof -
  have base: "\<exists>ops. su_service st = life_run E (su_service st) ops" by (intro exI [of _ "[]"]) simp
  have spawn: "\<exists>ops. s1 = life_run E (su_service st) ops"
    if "SpawnWorker E (su_service st) c t = (q, s1)" for c t q s1
    using that by (intro exI [of _ "[(t, LSpawn c 1 ''round-robin'')]"]) (simp add: SpawnWorker_def)
  have wait: "\<exists>ops. s2 = life_run E (su_service st) ops"
    if "SpawnWorker E (su_service st) c t = (q, s1)" "waitForWorkerHandshake E U cc s1 i as now es = (r, s2)" for c t q s1 cc as now es r s2
    using run_trans [OF spawn [OF that(1)] waitForWorkerHandshake_run [of E U cc s1 i as now es]] that(2) by simp
  show ?thesis
    unfolding spawnWorkerInstance_def Let_def
    by (auto intro: base spawn wait simp: Register_def split: option.splits sum.splits prod.splits wait_result.splits)
qed


section \<open>Replicas\<close>

lemma MarkRunning_pools [simp]: "ls_poolMgr (snd (MarkRunning s i now)) = ls_poolMgr s"
  by (simp add: MarkRunning_def save_def publish_def add_effect_def Let_def split: option.split)

lemma StopWorker_pools [simp]: "ls_poolMgr (snd (StopWorker E s i now es)) = ls_poolMgr s"
  by (simp add: StopWorker_def mark_and_drain_def mgr_Stop_def save_def publish_def add_effect_def Let_def split: option.split prod.split)

lemma SpawnWorker_pools [simp]: "ls_poolMgr (snd (SpawnWorker E s c now)) = ls_poolMgr s"
  by (simp add: SpawnWorker_def SpawnWorkerWithReplicas_def spawn_single_def spawn_failed_def mgr_Spawn_def save_def publish_def add_effect_def Let_def
      split: option.split sum.split)

lemma waitForHandshake_pools [simp]: "ls_poolMgr (snd (waitForHandshake U routes ctx s i as)) = ls_poolMgr s"
proof (induction as arbitrary: s)
  case (Cons a as)
  obtain r s' where h: "Handle U routes s i (at_received a) (ctx_Err ctx (at_time a)) (at_time a) = (r, s')" by fastforce
  have "ls_poolMgr s' = ls_poolMgr s"
    using Handle_service [of U routes s i "at_received a" "ctx_Err ctx (at_time a)" "at_time a"] h by auto
  then show ?case using h Cons.IH [of s'] by (simp split: handshake_result.split option.split)
qed simp

lemma waitForWorkerHandshake_pools [simp]: "ls_poolMgr (snd (waitForWorkerHandshake E U ctx s i as now es)) = ls_poolMgr s"
proof -
  obtain r s' where w: "waitForHandshake U None ctx s i as = (r, s')" by fastforce
  then have "ls_poolMgr s' = ls_poolMgr s" using waitForHandshake_pools [of U None ctx s i as] by simp
  with w show ?thesis by (simp add: waitForWorkerHandshake_def split: wait_result.split)
qed

lemma spawnWorkerInstance_pools: "ls_poolMgr (su_service (snd (spawnWorkerInstance O1 E U ctx dir w i x st))) = ls_poolMgr (su_service st)"
proof -
  have 1: "ls_poolMgr s1 = ls_poolMgr (su_service st)" if "SpawnWorker E (su_service st) c t = (q, s1)" for c t q s1
    using SpawnWorker_pools [of E "su_service st" c t] that by simp
  have 2: "ls_poolMgr s2 = ls_poolMgr (su_service st)"
    if "SpawnWorker E (su_service st) c t = (q, s1)" "waitForWorkerHandshake E U cc s1 i as now es = (r, s2)" for c t q s1 cc as now es r s2
    using waitForWorkerHandshake_pools [of E U cc s1 i as now es] 1 [OF that(1)] that(2) by simp
  show ?thesis
    unfolding spawnWorkerInstance_def Let_def
    by (auto intro: 1 2 simp: Register_def split: option.splits sum.splits prod.splits wait_result.splits)
qed

text \<open>Only the sockets of started instances are registered.\<close>

lemma spawnWorkerInstance_transport:
  "su_transport (snd (spawnWorkerInstance O1 E U ctx dir w i x st)) = snd (Register (su_transport st) i (ie_listen x))"
  by (simp add: spawnWorkerInstance_def Let_def Register_def split: option.split sum.split prod.split wait_result.split)

lemma Register_listeners: "dom (tp_listeners (snd (Register t i l))) \<subseteq> insert i (dom (tp_listeners t))"
  by (auto simp: Register_def split: option.splits if_splits)

lemma instances_ids: "map snd (instances cfg) = spawnWorkers cfg"
  by (simp add: instances_def spawnWorkers_def spawnWorker_def [abs_def] map_concat comp_def)

lemma started_pools_and_sockets:
  "ls_poolMgr (su_service (snd (startServices O1 E U ctx X cfg setupCoreServices))) = Some NewManager"
  "dom (tp_listeners (su_transport (snd (startServices O1 E U ctx X cfg setupCoreServices)))) \<subseteq> set (spawnWorkers cfg)"
proof -
  let ?run = "\<lambda>st. snd (spawn_all O1 E U ctx (socket_dir cfg) X (instances cfg) st)"
  have "ls_poolMgr (su_service (?run setupCoreServices)) = Some NewManager"
    by (rule starts.run_keeps)
      (auto simp: spawnWorkerInstance_pools setupCoreServices_def NewService_def)
  then show "ls_poolMgr (su_service (snd (startServices O1 E U ctx X cfg setupCoreServices))) = Some NewManager"
    by (simp add: startServices_def)
  have "dom (tp_listeners (su_transport (?run setupCoreServices))) \<subseteq> set (map snd (instances cfg))"
  proof (rule starts.run_keeps)
    fix p and st :: startup assume a: "p \<in> set (instances cfg)" "dom (tp_listeners (su_transport st)) \<subseteq> set (map snd (instances cfg))"
    have "dom (tp_listeners (su_transport (snd (spawnWorkerInstance O1 E U ctx (socket_dir cfg) (fst p) (snd p) (X (snd p)) st)))) \<subseteq>
        insert (snd p) (dom (tp_listeners (su_transport st)))"
      unfolding spawnWorkerInstance_transport by (rule Register_listeners)
    also have "\<dots> \<subseteq> set (map snd (instances cfg))" using a by auto
    finally show "dom (tp_listeners (su_transport (snd ((case p of (w, i) \<Rightarrow> spawnWorkerInstance O1 E U ctx (socket_dir cfg) w i (X i)) st)))) \<subseteq>
        set (map snd (instances cfg))"
      by (simp add: case_prod_beta)
  qed (simp add: setupCoreServices_def NewTransport_def)
  then show "dom (tp_listeners (su_transport (snd (startServices O1 E U ctx X cfg setupCoreServices)))) \<subseteq> set (spawnWorkers cfg)"
    by (simp add: startServices_def instances_ids [symmetric])
qed

lemma replica_id_differs: "1 < wc_Replicas w \<Longrightarrow> wc_ID w \<notin> set (spawnWorker w)"
  by (auto simp: spawnWorker_def buildWorkerID_def replicas_of_def)

text \<open>
  C12: A worker with several replicas cannot be reached: its instances are started one by one under numbered names, so no pool is ever
  registered, and the dispatcher picks the name in the route itself; but no socket exists under that name, and every message to it fails as
  not connected. This holds however start-up goes, as long as no other worker's instances have the name.
\<close>
theorem replicated_worker_unreachable:
  assumes "startServices O1 E U ctx X cfg setupCoreServices = (r, st)" and "w \<in> set (cf_Workers cfg)" and "1 < wc_Replicas w"
    and "\<forall>v \<in> set (cf_Workers cfg). v \<noteq> w \<longrightarrow> wc_ID w \<notin> set (spawnWorker v)"
    and "re_WorkerID route = wc_ID w" and "ds_poolMgr d = ls_poolMgr (su_service st)"
    and "dom (tp_connections t) \<subseteq> dom (tp_listeners (su_transport st))"
  shows "selectWorker d route = Some (wc_ID w, d) \<and>
    Send t (wc_ID w) msg fails = (Some (WErrorf ErrWorkerNotConnected ('': '' @ wc_ID w)), t)"
proof -
  note s = started_pools_and_sockets [of O1 E U ctx X cfg, unfolded assms(1), simplified]
  have "wc_ID w \<notin> set (spawnWorkers cfg)"
    using replica_id_differs [OF assms(3)] assms(4) by (auto simp: spawnWorkers_def)
  with s(2) assms(7) have "tp_connections t (wc_ID w) = None" by blast
  then show ?thesis
    using s(1) assms(5,6) by (simp add: selectWorker_def GetPool_def NewManager_def Let_def Send_def getConn_def)
qed

section \<open>Handshakes\<close>

lemma ctx_Err_deadline: "cx_deadline c = Some d \<Longrightarrow> d \<le> t \<Longrightarrow> ctx_Err c t \<noteq> None"
  by (simp add: ctx_Err_def passed_def)

lemma ctx_Err_background: "cx_cancelled c = None \<Longrightarrow> cx_deadline c = None \<Longrightarrow> ctx_Err c t = None"
  by (simp add: ctx_Err_def passed_def)

lemma createSpawnContext_deadline:
  "0 < timeout \<Longrightarrow> \<exists>d \<le> now + timeout. cx_deadline (createSpawnContext c now timeout) = Some d"
  by (auto simp: createSpawnContext_def WithTimeout_def split: option.split)

lemma waitForHandshake_ends:
  assumes "a \<in> set as" and "ctx_Err ctx (at_time a) \<noteq> None"
  shows "fst (waitForHandshake U routes ctx s i as) \<noteq> StillWaiting"
  using assms by (induction as arbitrary: s) (auto split: handshake_result.split option.split prod.split)

lemma waitForHandshake_waits:
  assumes "\<forall>a \<in> set as. ctx_Err ctx (at_time a) = None \<and> ctx_Err ctx (at_slept a) = None"
    and "\<forall>a \<in> set as. \<forall>m. at_received a = Inr m \<longrightarrow> m_Type m \<noteq> TypeHandshake"
  shows "waitForHandshake U routes ctx s i as = (StillWaiting, s)"
  using assms by (induction as) (auto simp: Handle_def split: sum.split)

text \<open>
  A start-up timeout bounds the wait for a worker: with a positive timeout the wait for the handshake is over as soon as an attempt ends
  after the deadline, whatever the worker sends. Without one there is no bound at all: a worker that never sends its handshake keeps
  the wait, and with it the start of all later workers and of the HTTP server, going through any number of attempts.
\<close>
theorem startup_timeout_decides:
  assumes "cx_cancelled ctx = None" and "cx_deadline ctx = None"
  shows "(0 < wc_StartupTimeout w \<longrightarrow> (\<exists>a \<in> set as. now + wc_StartupTimeout w \<le> at_time a) \<longrightarrow>
      fst (waitForHandshake U None (createSpawnContext ctx now (wc_StartupTimeout w)) s i as) \<noteq> StillWaiting) \<and>
    (wc_StartupTimeout w \<le> 0 \<longrightarrow> (\<forall>a \<in> set as. \<forall>m. at_received a = Inr m \<longrightarrow> m_Type m \<noteq> TypeHandshake) \<longrightarrow>
      waitForHandshake U None (createSpawnContext ctx now (wc_StartupTimeout w)) s i as = (StillWaiting, s))"
proof (intro conjI impI)
  assume t: "0 < wc_StartupTimeout w" and "\<exists>a \<in> set as. now + wc_StartupTimeout w \<le> at_time a"
  then obtain a d where a: "a \<in> set as" "now + wc_StartupTimeout w \<le> at_time a" "d \<le> now + wc_StartupTimeout w"
      "cx_deadline (createSpawnContext ctx now (wc_StartupTimeout w)) = Some d"
    using createSpawnContext_deadline [OF t, of now ctx] by blast
  show "fst (waitForHandshake U None (createSpawnContext ctx now (wc_StartupTimeout w)) s i as) \<noteq> StillWaiting"
    by (rule waitForHandshake_ends [OF a(1)]) (use ctx_Err_deadline [OF a(4)] a(2,3) in auto)
next
  assume t: "wc_StartupTimeout w \<le> 0" and m: "\<forall>a \<in> set as. \<forall>m. at_received a = Inr m \<longrightarrow> m_Type m \<noteq> TypeHandshake"
  have "createSpawnContext ctx now (wc_StartupTimeout w) = ctx" using t by (simp add: createSpawnContext_def)
  then show "waitForHandshake U None (createSpawnContext ctx now (wc_StartupTimeout w)) s i as = (StillWaiting, s)"
    using waitForHandshake_waits [of as ctx U None s i] m ctx_Err_background [OF assms] by simp
qed

lemma MarkRunning_running:
  assumes "\<forall>w. ls_repo s i = Some w \<longrightarrow> w_ID w = i" and "fst (MarkRunning s i now) = None"
  shows "\<exists>w. ls_repo (snd (MarkRunning s i now)) i = Some w \<and> w_State w = StateRunning"
  using assms by (auto simp: MarkRunning_def FindByID_def Save_def save_def publish_def add_effect_def Let_def split: option.splits if_splits)

lemma Handle_result:
  assumes "Handle U routes s i m ce now = (HandshakeOk, s')"
  shows "MarkRunning s i now = (None, s')"
  using assms by (auto simp: Handle_def split: sum.splits option.splits prod.splits if_splits)

lemma Handle_error_service:
  assumes "Handle U routes s i m ce now = (HandshakeError e, s')"
  shows "s' = s"
  using assms
  by (auto simp: Handle_def MarkRunning_def Let_def split: sum.splits option.splits prod.splits if_splits)

lemma waitForHandshake_ready:
  assumes "waitForHandshake U routes ctx s i as = (Ready, s')"
  shows "\<exists>t. MarkRunning s i t = (None, s')"
  using assms
proof (induction as arbitrary: s)
  case (Cons a as)
  obtain r s1 where h: "Handle U routes s i (at_received a) (ctx_Err ctx (at_time a)) (at_time a) = (r, s1)" by fastforce
  show ?case
  proof (cases r)
    case HandshakeOk
    then show ?thesis using Cons.prems h Handle_result by fastforce
  next
    case (HandshakeError e)
    then have "s1 = s" using h Handle_error_service by blast
    then show ?thesis using Cons h HandshakeError by (auto split: option.splits if_splits)
  next
    case HandshakePanic
    then show ?thesis using Cons.prems h by simp
  qed
qed simp

lemma SpawnWorker_stored:
  assumes "SpawnWorker E s c now = (Inr w, s1)"
  shows "ls_repo s1 (sp_ID c) = Some w" and "w_ID w = sp_ID c" and "w_State w = StateStarting"
  using assms
  by (auto simp: SpawnWorker_def SpawnWorkerWithReplicas_def spawn_single_def mgr_Spawn_def new_worker_def save_def Save_def publish_def add_effect_def Let_def
      split: option.splits sum.splits if_splits)

lemma spawnWorkerInstance_started:
  assumes "ie_listen x = None" and "prepareWorkerCommand O1 w i dir = Some cmd"
    and "SpawnWorker E (su_service st) (spawn_request O1 w i cmd) (ie_spawned x) = (Inr wk, s1)"
    and "waitForWorkerHandshake E U (createSpawnContext ctx (ie_spawned x) (wc_StartupTimeout w)) s1 i (ie_attempts x) (ie_stopped x) (ie_drain x) = (r, s2)"
  shows "spawnWorkerInstance O1 E U ctx dir w i x st =
    (let st1 = st\<lparr>su_transport := snd (Register (su_transport st) i None), su_service := s2\<rparr>
     in case r of WaitPanic \<Rightarrow> (Crashes, st1) | StillWaiting \<Rightarrow> (Blocks, st1)
        | _ \<Rightarrow> (Continues, st1\<lparr>su_receiver := StartLoop (su_receiver st) i\<rparr>))"
  using assms SpawnWorker_stored(2) [OF assms(3)]
  by (simp add: spawnWorkerInstance_def Register_def startWorkerHeartbeat_def spawn_request_def Let_def split: wait_result.split)

lemma StartLoop_running: "rc_running (StartLoop r i) i \<noteq> None"
  by (simp add: StartLoop_def launchLocked_def)

text \<open>
  A worker whose handshake arrives is running when start-up goes on to the next one, its socket is open and its heartbeats are read.
\<close>
theorem ready_worker_runs:
  assumes "ie_listen x = None" and "prepareWorkerCommand O1 w i dir = Some cmd"
    and "SpawnWorker E (su_service st) (spawn_request O1 w i cmd) (ie_spawned x) = (Inr wk, s1)"
    and "fst (waitForHandshake U None (createSpawnContext ctx (ie_spawned x) (wc_StartupTimeout w)) s1 i (ie_attempts x)) = Ready"
  shows "\<exists>st' v. spawnWorkerInstance O1 E U ctx dir w i x st = (Continues, st') \<and>
    ls_repo (su_service st') i = Some v \<and> w_State v = StateRunning \<and> tp_listeners (su_transport st') i \<noteq> None \<and> rc_running (su_receiver st') i \<noteq> None"
proof -
  obtain s2 where w: "waitForHandshake U None (createSpawnContext ctx (ie_spawned x) (wc_StartupTimeout w)) s1 i (ie_attempts x) = (Ready, s2)"
    using assms(4) by (metis prod.collapse)
  obtain t where m: "MarkRunning s1 i t = (None, s2)" using waitForHandshake_ready [OF w] by blast
  have "ls_repo s1 i = Some wk" "w_ID wk = i" using SpawnWorker_stored(1,2) [OF assms(3)] by (simp_all add: spawn_request_def)
  then obtain v where v: "ls_repo s2 i = Some v" "w_State v = StateRunning" using MarkRunning_running [of s1 i t] m by auto
  have "waitForWorkerHandshake E U (createSpawnContext ctx (ie_spawned x) (wc_StartupTimeout w)) s1 i (ie_attempts x) (ie_stopped x) (ie_drain x) = (Ready, s2)"
    using w by (simp add: waitForWorkerHandshake_def)
  from spawnWorkerInstance_started [OF assms(1-3) this] v StartLoop_running show ?thesis
    by (simp add: Let_def Register_def)
qed

lemma StopWorker_stopped:
  assumes "ls_repo s i = Some w" and "w_ID w = i" and "\<And>tr. en_stop E tr i = None"
  shows "\<exists>v. ls_repo (snd (StopWorker E s i now es)) i = Some v \<and> w_State v = StateStopped"
proof -
  obtain derr s1 where d: "mark_and_drain s w now es = (derr, s1)" by fastforce
  then show ?thesis
    using assms by (simp add: StopWorker_def FindByID_def mgr_Stop_def save_def Save_def publish_def add_effect_def Let_def)
qed

lemma waitForHandshake_timed_out: "waitForHandshake U routes ctx s i as = (TimedOut e, s') \<Longrightarrow> s' = s"
proof (induction as arbitrary: s)
  case (Cons a as)
  obtain r s1 where h: "Handle U routes s i (at_received a) (ctx_Err ctx (at_time a)) (at_time a) = (r, s1)" by fastforce
  then have "r = HandshakeError e' \<Longrightarrow> s1 = s" for e' using Handle_error_service by blast
  then show ?case using Cons h by (auto split: handshake_result.splits option.splits if_splits)
qed simp

text \<open>
  A worker whose handshake fails is stopped, yet start-up goes on as if it ran: its socket stays open and a loop is started that reads
  its heartbeats.
\<close>
theorem failed_handshake_leaves_loop:
  assumes "ie_listen x = None" and "prepareWorkerCommand O1 w i dir = Some cmd"
    and "SpawnWorker E (su_service st) (spawn_request O1 w i cmd) (ie_spawned x) = (Inr wk, s1)"
    and "fst (waitForHandshake U None (createSpawnContext ctx (ie_spawned x) (wc_StartupTimeout w)) s1 i (ie_attempts x)) = TimedOut e"
    and "\<And>tr. en_stop E tr i = None"
  shows "\<exists>st' v. spawnWorkerInstance O1 E U ctx dir w i x st = (Continues, st') \<and>
    ls_repo (su_service st') i = Some v \<and> w_State v = StateStopped \<and> tp_listeners (su_transport st') i \<noteq> None \<and> rc_running (su_receiver st') i \<noteq> None"
proof -
  obtain s2 where w: "waitForHandshake U None (createSpawnContext ctx (ie_spawned x) (wc_StartupTimeout w)) s1 i (ie_attempts x) = (TimedOut e, s2)"
    using assms(4) by (metis prod.collapse)
  have s: "ls_repo s2 i = Some wk" "w_ID wk = i"
    using SpawnWorker_stored(1,2) [OF assms(3)] waitForHandshake_timed_out [OF w] by (simp_all add: spawn_request_def)
  obtain v where v: "ls_repo (snd (StopWorker E s2 i (ie_stopped x) (ie_drain x))) i = Some v" "w_State v = StateStopped"
    using StopWorker_stopped [OF s assms(5)] by blast
  have "waitForWorkerHandshake E U (createSpawnContext ctx (ie_spawned x) (wc_StartupTimeout w)) s1 i (ie_attempts x) (ie_stopped x) (ie_drain x) =
      (TimedOut e, snd (StopWorker E s2 i (ie_stopped x) (ie_drain x)))"
    using w by (simp add: waitForWorkerHandshake_def)
  from spawnWorkerInstance_started [OF assms(1-3) this] v StartLoop_running show ?thesis
    by (simp add: Let_def Register_def)
qed

lemma announced_routes_crash:
  assumes "ie_listen x = None" and "prepareWorkerCommand O1 w i dir = Some cmd"
    and "SpawnWorker E (su_service st) (spawn_request O1 w i cmd) (ie_spawned x) = (Inr wk, s1)"
    and "ie_attempts x = a # as" and "at_received a = Inr m" and "m_Type m = TypeHandshake" and "U (m_Payload m) = Inr (c # cs)"
  shows "spawnWorkerInstance O1 E U ctx dir w i x st = (Crashes, st\<lparr>su_transport := snd (Register (su_transport st) i None), su_service := s1\<rparr>)"
proof -
  have "waitForHandshake U None (createSpawnContext ctx (ie_spawned x) (wc_StartupTimeout w)) s1 i (ie_attempts x) = (WaitPanic, s1)"
    using assms(4-7) by (simp add: Handle_def validateCapabilities_def)
  then have "waitForWorkerHandshake E U (createSpawnContext ctx (ie_spawned x) (wc_StartupTimeout w)) s1 i (ie_attempts x) (ie_stopped x) (ie_drain x) = (WaitPanic, s1)"
    by (simp add: waitForWorkerHandshake_def)
  from spawnWorkerInstance_started [OF assms(1-3) this] show ?thesis by (simp add: Let_def)
qed

text \<open>
  C15: A worker that announces a route takes the gateway down: the handshake handler of start-up has no route map, so the first capability in the
  payload is a nil dereference in the main goroutine. The workers after it are never started, and the HTTP server never listens.
\<close>
theorem announced_routes_crash_gateway:
  assumes "instances cfg = pre @ (w, i) # post"
    and "spawn_all O1 E U ctx (socket_dir cfg) X pre setupCoreServices = (Continues, st)"
    and "ie_listen (X i) = None" and "prepareWorkerCommand O1 w i (socket_dir cfg) = Some cmd"
    and "SpawnWorker E (su_service st) (spawn_request O1 w i cmd) (ie_spawned (X i)) = (Inr wk, s1)"
    and "ie_attempts (X i) = a # as" and "at_received a = Inr m" and "m_Type m = TypeHandshake" and "U (m_Payload m) = Inr (c # cs)"
  shows "\<exists>st'. startServices O1 E U ctx X cfg setupCoreServices = (Crashes, st') \<and>
    dom (tp_listeners (su_transport st')) = insert i (dom (tp_listeners (su_transport st)))"
proof -
  have "spawnWorkerInstance O1 E U ctx (socket_dir cfg) w i (X i) st =
      (Crashes, st\<lparr>su_transport := snd (Register (su_transport st) i None), su_service := s1\<rparr>)"
    by (rule announced_routes_crash [where U = U, OF assms(3) assms(4) assms(5) assms(6) assms(7) assms(8) assms(9)])
  with starts.run_stops [OF assms(2), of "(w, i)" Crashes _ post] show ?thesis
    by (simp add: startServices_def assms(1) Register_def)
qed

section \<open>Settings of the running gateway\<close>

text \<open>
  What the gateway enforces once it runs: its configuration passed validation and its tokens are checked with a secret of at least 32 bytes;
  but tokens of any issuer and for any audience are accepted, and bodies are limited to one mebibyte whatever payload size the
  configuration sets.
\<close>
theorem running_gateway_settings:
  assumes "runServer O1 F L E U ctx X devMode = Some g"
  shows "config_valid (gw_config g) \<and> sc_maxBodyBytes (gw_http g) = 2 ^ 20 \<and>
    (\<exists>secret. 32 \<le> length secret \<and>
      dc_jwt (sc_dispatch (gw_http g)) = Validate (le_parse L) \<lparr>jv_secret = secret, jv_issuer = [], jv_audience = []\<rparr> (le_now L)) \<and>
    dc_timeout (sc_dispatch (gw_http g)) = sy_GlobalTimeout (cf_Security (gw_config g))"
proof -
  obtain l cfg jwt schema where c: "loadConfig F (os_getenv O1 ''VYX_CONFIG'') = Some (l, cfg)" "setupValidators O1 (le_schemas L) cfg = Some (jwt, schema)"
    and g: "gw_config g = cfg" "gw_http g = fst (setupHTTPServer (setupHTTPServerConfig devMode)
        (setupDispatcher L (loadRouteMap O1 F cfg) jwt schema cfg NewWorkerDrainer NewManager) (setupRateLimiter cfg))"
    using assms by (auto simp: runServer_def Let_def split: option.splits prod.splits)
  have "config_valid cfg" using c(1) Load_valid by (auto simp: loadConfig_def Let_def split: sum.splits)
  moreover have "\<exists>secret. 32 \<le> length secret \<and> jwt = \<lparr>jv_secret = secret, jv_issuer = [], jv_audience = []\<rparr>"
    using c(2) by (auto simp: setupValidators_def NewJWTValidatorWithClaims_def Let_def split: if_splits)
  ultimately show ?thesis
    by (auto simp: g setupHTTPServer_def setupDispatcher_def setupHTTPServerConfig_def http_DevConfig_def http_DefaultConfig_def defaultMaxBodyBytes_def)
qed

text \<open>
  Shutdown does not wait for requests: the context given to the server derives from the one whose cancellation started the shutdown, so
  with active connections the server's shutdown is given up at once; and the transport is closed before the workers are drained, so from
  then on no message reaches any worker.
\<close>
theorem shutdown_drops_active_requests:
  assumes "cx_cancelled ctx = Some c" and "c \<le> now" and "cx_deadline ctx = None"
  shows "hd (snd (fst (waitForShutdown E ctx st True order now es))) = Canceled \<and>
    fst (Send (su_transport (snd (waitForShutdown E ctx st True order now es))) w msg fails) = Some (WErrorf ErrWorkerNotConnected ('': '' @ w))"
proof -
  have "ctx_Err (WithTimeout ctx now (30 * second)) now = Some Canceled"
    using assms by (simp add: ctx_Err_def WithTimeout_def passed_def second_def)
  then show ?thesis
    by (simp add: waitForShutdown_def Let_def Send_def getConn_def Close_def split: prod.split option.split)
qed

section \<open>Examples\<close>

definition ex_os :: os_env where
  "ex_os = \<lparr>os_cwd = Some ''/srv'', os_stat = (\<lambda>_. False),
     os_getenv = (\<lambda>n. if n = ''JWT_SECRET'' then replicate 32 (CHR ''k'') else []), os_windows = False\<rparr>"

definition ex_context :: go_context where
  "ex_context = \<lparr>cx_cancelled = None, cx_deadline = None\<rparr>"

definition ex_attempt :: "go_error + message \<Rightarrow> go_time \<Rightarrow> attempt" where
  "ex_attempt m t = \<lparr>at_received = m, at_time = t, at_slept = t + 1, at_doneFirst = True\<rparr>"

abbreviation (input) ex_hello :: message where
  "ex_hello \<equiv> \<lparr>m_Type = TypeHandshake, m_Payload = []\<rparr>"

definition ex_instance :: "(go_error + message) list \<Rightarrow> instance_env" where
  "ex_instance ms = \<lparr>ie_listen = None, ie_spawned = 0, ie_attempts = map (\<lambda>m. ex_attempt m 10) ms, ie_stopped = 20, ie_drain = []\<rparr>"

definition ex_app :: "int \<Rightarrow> duration \<Rightarrow> worker_config" where
  "ex_app n timeout = \<lparr>wc_ID = ''api'', wc_Command = ''bin/api -v'', wc_WorkingDir = [], wc_RuntimeVersion = [], wc_Replicas = n, wc_Strategy = [],
     wc_PoolSize = 0, wc_StartupTimeout = timeout, wc_ShutdownTimeout = 0\<rparr>"

definition ex_library :: "(unit, unit) library_env" where
  "ex_library = \<lparr>le_parse = (\<lambda>_ _. Inl ErrUnauthorized), le_now = 0,
     le_schemas = \<lparr>se_stat = (\<lambda>_. None), se_compile = (\<lambda>_. Inr ()), se_readDir = (\<lambda>_. DirMissing), se_unmarshal = (\<lambda>_. Inr ()), se_check = (\<lambda>_ _. None)\<rparr>,
     le_marshal = (\<lambda>_ _ _. Inr []), le_unmarshal = (\<lambda>_. Inl ErrUnauthorized)\<rparr>"

lemma ex_command: "prepareWorkerCommand ex_os (ex_app n timeout) i ''/tmp'' = Some (''bin/api'', [''-v'', ''--vyx-socket'', filepath_Join [''/tmp'', i @ ''.sock'']])"
  by (simp add: prepareWorkerCommand_def parseArgs_def resolveCommand_def filepath_Abs_def IsAbs_def ex_os_def ex_app_def) code_simp

lemma ex_spawn: "\<exists>w s1. SpawnWorker ex_env s (spawn_request ex_os (ex_app n timeout) i (''bin/api'', as)) t = (Inr w, s1)"
  by (simp add: SpawnWorker_def SpawnWorkerWithReplicas_def provision_def NeedsProvisioning_def spawn_request_def ex_env_def spawn_single_def mgr_Spawn_def Let_def
      split: option.split)

lemma ex_started: "\<exists>g. runServer ex_os (ex_files True) ex_library ex_env U ex_context X devMode = Some g"
  using ex_load(1) [of "New_loader defaultConfigPath"]
  by (simp add: runServer_def loadConfig_def setupValidators_def ex_os_def ex_config_def Defaults_def Let_def)


theorem running_gateway_settings_witness:
  "\<exists>g. runServer ex_os (ex_files True) ex_library ex_env (\<lambda>_. Inr []) ex_context (\<lambda>_. ex_instance []) False = Some g \<and>
     sc_maxBodyBytes (gw_http g) = 2 ^ 20"
  using ex_started [of "\<lambda>_. Inr []" "\<lambda>_. ex_instance []" False] running_gateway_settings by blast

theorem replicated_worker_unreachable_witness:
  "Send NewTransport ''api'' ex_hello None = (Some (WErrorf ErrWorkerNotConnected '': api''), NewTransport) \<and>
   (let cfg = ex_config\<lparr>cf_Workers := [ex_app 2 10]\<rparr>;
        st = snd (startServices ex_os ex_env (\<lambda>_. Inr []) ex_context (\<lambda>_. ex_instance [Inr ex_hello]) cfg setupCoreServices);
        d = NewDispatcher (breaker_config cfg) None (ls_poolMgr (su_service st))
    in selectWorker d (ex_entry\<lparr>re_WorkerID := ''api''\<rparr>) = Some (''api'', d))"
proof -
  let ?cfg = "ex_config\<lparr>cf_Workers := [ex_app 2 10]\<rparr>"
  let ?r = "startServices ex_os ex_env (\<lambda>_. Inr []) ex_context (\<lambda>_. ex_instance [Inr ex_hello]) ?cfg setupCoreServices"
  let ?d = "NewDispatcher (breaker_config ?cfg) None (ls_poolMgr (su_service (snd ?r)))" and ?e = "ex_entry\<lparr>re_WorkerID := ''api''\<rparr>"
  have r: "?r = (fst ?r, snd ?r)" by simp
  have w: "ex_app 2 10 \<in> set (cf_Workers ?cfg)" "1 < wc_Replicas (ex_app 2 10)"
    "\<forall>v \<in> set (cf_Workers ?cfg). v \<noteq> ex_app 2 10 \<longrightarrow> wc_ID (ex_app 2 10) \<notin> set (spawnWorker v)"
    "re_WorkerID ?e = wc_ID (ex_app 2 10)" "ds_poolMgr ?d = ls_poolMgr (su_service (snd ?r))"
    by (simp_all add: ex_app_def NewDispatcher_def)
  have c: "dom (tp_connections NewTransport) \<subseteq> dom (tp_listeners (su_transport (snd ?r)))" by (simp add: NewTransport_def)
  have a: "wc_ID (ex_app 2 10) = ''api''" by (simp add: ex_app_def)
  show ?thesis
    using replicated_worker_unreachable [OF r w c, of ex_hello None] by (simp add: a Let_def)
qed

theorem startup_timeout_decides_witness:
  "fst (waitForHandshake (\<lambda>_. Inr []) None (createSpawnContext ex_context 0 5) ex_service ''api'' [ex_attempt (Inl EOF) 10]) \<noteq> StillWaiting \<and>
   waitForHandshake (\<lambda>_. Inr []) None (createSpawnContext ex_context 0 0) ex_service ''api'' [ex_attempt (Inl EOF) 10] = (StillWaiting, ex_service)"
proof -
  have c: "cx_cancelled ex_context = None" "cx_deadline ex_context = None" by (simp_all add: ex_context_def)
  show ?thesis
    using startup_timeout_decides [OF c, of "ex_app 1 5" "[ex_attempt (Inl EOF) 10]" 0 "\<lambda>_. Inr []" ex_service "''api''"]
      startup_timeout_decides [OF c, of "ex_app 1 0" "[ex_attempt (Inl EOF) 10]" 0 "\<lambda>_. Inr []" ex_service "''api''"]
    by (simp add: ex_app_def ex_attempt_def)
qed

lemma ex_ready: "fst (waitForHandshake (\<lambda>_. Inr []) None ctx s ''api'' (ie_attempts (ex_instance [Inr ex_hello]))) = Ready"
  if "ls_repo s ''api'' = Some w"
  using that by (simp add: ex_instance_def ex_attempt_def Handle_def validateCapabilities_def MarkRunning_def FindByID_def Let_def split: prod.split)

theorem ready_worker_runs_witness:
  "\<exists>st' v. spawnWorkerInstance ex_os ex_env (\<lambda>_. Inr []) ex_context ''/tmp'' (ex_app 1 5) ''api'' (ex_instance [Inr ex_hello]) setupCoreServices = (Continues, st') \<and>
     ls_repo (su_service st') ''api'' = Some v \<and> w_State v = StateRunning"
proof -
  let ?x = "ex_instance [Inr ex_hello]"
  obtain w s1 where s: "SpawnWorker ex_env (su_service setupCoreServices)
      (spawn_request ex_os (ex_app 1 5) ''api'' (''bin/api'', [''-v'', ''--vyx-socket'', filepath_Join [''/tmp'', ''api'' @ ''.sock'']])) (ie_spawned ?x) = (Inr w, s1)"
    using ex_spawn by blast
  have l: "ie_listen ?x = None" by (simp add: ex_instance_def)
  have r: "ls_repo s1 ''api'' = Some w" using SpawnWorker_stored(1) [OF s] by (simp add: spawn_request_def)
  show ?thesis using ready_worker_runs [OF l ex_command s ex_ready [OF r]] by blast
qed

theorem failed_handshake_leaves_loop_witness:
  "\<exists>st' v. spawnWorkerInstance ex_os ex_env (\<lambda>_. Inr []) ex_context ''/tmp'' (ex_app 1 5) ''api'' (ex_instance [Inl EOF]) setupCoreServices = (Continues, st') \<and>
     ls_repo (su_service st') ''api'' = Some v \<and> w_State v = StateStopped \<and> rc_running (su_receiver st') ''api'' \<noteq> None"
proof -
  let ?x = "ex_instance [Inl EOF]" and ?c = "createSpawnContext ex_context 0 5"
  obtain w s1 where s: "SpawnWorker ex_env (su_service setupCoreServices)
      (spawn_request ex_os (ex_app 1 5) ''api'' (''bin/api'', [''-v'', ''--vyx-socket'', filepath_Join [''/tmp'', ''api'' @ ''.sock'']])) (ie_spawned ?x) = (Inr w, s1)"
    using ex_spawn by blast
  have l: "ie_listen ?x = None" "en_stop ex_env tr ''api'' = None" for tr by (simp_all add: ex_instance_def ex_env_def)
  have "fst (waitForHandshake (\<lambda>_. Inr []) None (createSpawnContext ex_context (ie_spawned ?x) (wc_StartupTimeout (ex_app 1 5))) s1 ''api'' (ie_attempts ?x)) =
      TimedOut (handshake_timeout ''api'' DeadlineExceeded)"
    by (simp add: ex_instance_def ex_attempt_def Handle_def createSpawnContext_def WithTimeout_def ex_context_def ex_app_def ctx_Err_def passed_def)
  from failed_handshake_leaves_loop [OF l(1) ex_command s this l(2)] show ?thesis by blast
qed

theorem announced_routes_crash_gateway_witness:
  "fst (startServices ex_os ex_env (\<lambda>_. Inr [\<lparr>cap_Path = ''/u'', cap_Method = ''GET''\<rparr>]) ex_context (\<lambda>_. ex_instance [Inr ex_hello])
     (ex_config\<lparr>cf_Workers := [ex_app 1 5], cf_SocketDir := ''/tmp''\<rparr>) setupCoreServices) = Crashes"
proof -
  let ?x = "ex_instance [Inr ex_hello]" and ?cfg = "ex_config\<lparr>cf_Workers := [ex_app 1 5], cf_SocketDir := ''/tmp''\<rparr>"
  let ?U = "\<lambda>_. Inr [\<lparr>cap_Path = ''/u'', cap_Method = ''GET''\<rparr>]"
  obtain w s1 where s: "SpawnWorker ex_env (su_service setupCoreServices)
      (spawn_request ex_os (ex_app 1 5) ''api'' (''bin/api'', [''-v'', ''--vyx-socket'', filepath_Join [''/tmp'', ''api'' @ ''.sock'']])) (ie_spawned ?x) = (Inr w, s1)"
    using ex_spawn by blast
  have i: "instances ?cfg = [] @ (ex_app 1 5, ''api'') # []" by (simp add: instances_def ex_app_def replicas_of_def buildWorkerID_def)
  have d: "socket_dir ?cfg = ''/tmp''" by (simp add: socket_dir_def)
  have p: "spawn_all ex_os ex_env ?U ex_context (socket_dir ?cfg) (\<lambda>_. ?x) [] setupCoreServices = (Continues, setupCoreServices)" by simp
  have l: "ie_listen ?x = None" "ie_attempts ?x = ex_attempt (Inr ex_hello) 10 # []" "at_received (ex_attempt (Inr ex_hello) 10) = Inr ex_hello"
    by (simp_all add: ex_instance_def ex_attempt_def)
  have c: "prepareWorkerCommand ex_os (ex_app 1 5) ''api'' (socket_dir ?cfg) =
      Some (''bin/api'', [''-v'', ''--vyx-socket'', filepath_Join [''/tmp'', ''api'' @ ''.sock'']])"
    unfolding d by (rule ex_command)
  show ?thesis
    using announced_routes_crash_gateway [OF i p l(1) c s l(2,3), of "\<lparr>cap_Path = ''/u'', cap_Method = ''GET''\<rparr>" "[]"] by auto
qed

theorem shutdown_drops_active_requests_witness:
  "hd (snd (fst (waitForShutdown ex_env (ex_context\<lparr>cx_cancelled := Some 5\<rparr>) setupCoreServices True [] 5 (\<lambda>_. [])))) = Canceled"
  using shutdown_drops_active_requests [of "ex_context\<lparr>cx_cancelled := Some 5\<rparr>" 5 5 ex_env setupCoreServices "[]" "\<lambda>_. []"] by (simp add: ex_context_def)

end
