(* ===== verification/CommandLine.thy ===== *)
theory CommandLine
  imports Startup
begin

text \<open>
  The command line: the \<open>vyx\<close> tool (\<open>cmd/vyx\<close>), the annotation scanner as a program (\<open>cmd/annotate\<close>) and the subcommands of the core binary
  (\<open>core/cmd/vyx/main.go\<close>). A session has the directories and files of the project, the notices the user is given, the programs that were run with
  their arguments and added environment, and the managed runtimes. Programs that are run, the file system's errors and YAML are arguments;
  a call that fails creates nothing.
\<close>

section \<open>Flags\<close>

text \<open>
  \<open>FlagSet.Parse\<close> for flags with a string value, as the \<open>flag\<close> package documents it: one or two dashes, the value after an equals sign or in the next
  argument, and an end at the first argument that is no flag. With \<open>ExitOnError\<close> a request for help ends the program with status 0, an error with 2.
\<close>

datatype flag_result = Parsed "string \<rightharpoonup> string" | FlagExit int

definition flag_name :: "string \<Rightarrow> string option" where
  "flag_name s = (case s of
      c # d # rest \<Rightarrow> if c \<noteq> CHR ''-'' then None else Some (if d = CHR ''-'' then rest else d # rest)
    | _ \<Rightarrow> None)"

definition split_value :: "string \<Rightarrow> string \<times> string option" where
  "split_value name =
     (let n = takeWhile (\<lambda>c. c \<noteq> CHR ''='') name
      in (n, if length n < length name then Some (drop (Suc (length n)) name) else None))"

fun parse_flags :: "string list \<Rightarrow> string list \<Rightarrow> (string \<rightharpoonup> string) \<Rightarrow> flag_result" where
  "parse_flags names [] m = Parsed m"
| "parse_flags names (s # rest) m =
     (case flag_name s of
        None \<Rightarrow> Parsed m
      | Some name \<Rightarrow>
          if s = ''--'' then Parsed m
          else if name = [] \<or> hd name = CHR ''-'' \<or> hd name = CHR ''='' then FlagExit 2
          else (case split_value name of
                  (n, v) \<Rightarrow>
                    if n \<notin> set names then (if n = ''help'' \<or> n = ''h'' then FlagExit 0 else FlagExit 2)
                    else (case v of
                            Some x \<Rightarrow> parse_flags names rest (m(n \<mapsto> x))
                          | None \<Rightarrow> (case rest of [] \<Rightarrow> FlagExit 2 | x # rest' \<Rightarrow> parse_flags names rest' (m(n \<mapsto> x))))))"

section \<open>Sessions\<close>

datatype notice =
    ProjectCreated string
  | RouteMapWritten string
  | BuildComplete
  | CoreRunning
  | Warning go_error
  | Failed go_error
  | Usage

record session =
  cs_dirs :: "string set"
  cs_files :: "string \<rightharpoonup> string"
  cs_notices :: "notice list"
  cs_runs :: "(string list \<times> (string \<times> string) list) list"
  cs_world :: world

type_synonym dev_worker = "string \<times> string \<times> string"

record shell =
  sl_MkdirAll :: "string \<Rightarrow> go_error option"
  sl_WriteFile :: "string \<Rightarrow> go_error option"
  sl_LookPath :: "string \<Rightarrow> string option"
  sl_getenv :: "string \<Rightarrow> string"
  sl_run :: "string list \<Rightarrow> (string \<rightharpoonup> string) \<Rightarrow> go_error option \<times> (string \<rightharpoonup> string)"
  sl_yaml :: "string \<Rightarrow> go_error option"
  sl_json :: "string \<Rightarrow> go_error option"
  sl_workers :: "string \<Rightarrow> go_error + dev_worker list"
  sl_marshal :: "config \<Rightarrow> go_error + string"
  sl_unmarshal :: "string \<Rightarrow> config \<Rightarrow> go_error + config"
  sl_provision :: provision_env

abbreviation (input) no_such_file :: go_error where
  "no_such_file \<equiv> Sentinel ''no such file or directory''"

definition tell :: "notice \<Rightarrow> session \<Rightarrow> session" where
  "tell n s = s\<lparr>cs_notices := cs_notices s @ [n]\<rparr>"

text \<open>\<open>os.Stat\<close> succeeds for a directory and for a file.\<close>

definition stat_ok :: "session \<Rightarrow> string \<Rightarrow> bool" where
  "stat_ok s p = (p \<in> cs_dirs s \<or> cs_files s p \<noteq> None)"

definition ancestors :: "string \<Rightarrow> string list" where
  "ancestors p = (let es = Split (CHR ''/'') p in map (\<lambda>n. Join (take n es) ''/'') [1..<Suc (length es)])"

definition MkdirAll :: "shell \<Rightarrow> string \<Rightarrow> session \<Rightarrow> go_error option \<times> session" where
  "MkdirAll E p s =
     (case sl_MkdirAll E p of
        Some err \<Rightarrow> (Some err, s)
      | None \<Rightarrow> (None, s\<lparr>cs_dirs := cs_dirs s \<union> set (ancestors p)\<rparr>))"

definition WriteFile :: "shell \<Rightarrow> string \<Rightarrow> string \<Rightarrow> session \<Rightarrow> go_error option \<times> session" where
  "WriteFile E p data s =
     (case sl_WriteFile E p of
        Some err \<Rightarrow> (Some err, s)
      | None \<Rightarrow> (None, s\<lparr>cs_files := (cs_files s)(p \<mapsto> data)\<rparr>))"

text \<open>Running a program: it is recorded, and may change files of the project.\<close>

definition run_in :: "shell \<Rightarrow> (string \<times> string) list \<Rightarrow> string list \<Rightarrow> session \<Rightarrow> go_error option \<times> session" where
  "run_in E extra argv s =
     (case sl_run E argv (cs_files s) of
        (r, fs) \<Rightarrow> (r, s\<lparr>cs_files := fs, cs_runs := cs_runs s @ [(argv, extra)]\<rparr>))"

definition runCommand :: "shell \<Rightarrow> string list \<Rightarrow> session \<Rightarrow> go_error option \<times> session" where
  "runCommand E argv s = run_in E [] argv s"

section \<open>\<open>vyx new project\<close>\<close>

definition nl :: string where
  "nl = [CHR 0x0A]"

definition defaultVyxYAML :: "string \<Rightarrow> string" where
  "defaultVyxYAML projectName =
     ''project:'' @ nl @
     ''  name: '' @ projectName @ nl @
     ''  version: 0.1.0'' @ nl @ nl @
     ''workers:'' @ nl @
     ''  - id: node:api'' @ nl @
     ''    command: node backend/node/index.js'' @ nl @
     ''    replicas: 1'' @ nl @
     ''    strategy: round-robin'' @ nl @
     ''    startup_timeout: 10s'' @ nl @
     ''    shutdown_timeout: 5s'' @ nl @ nl @
     ''security:'' @ nl @
     ''  jwt_secret_env: JWT_SECRET'' @ nl @
     ''  rate_limit:'' @ nl @
     ''    per_ip: 100'' @ nl @
     ''    per_token: 500'' @ nl @
     ''  payload_max_size: 1mb'' @ nl @
     ''  global_timeout: 30s'' @ nl @ nl @
     ''ipc:'' @ nl @
     ''  socket_dir: /tmp/vyx'' @ nl @
     ''  arrow_threshold: 512kb'' @ nl @ nl @
     ''build:'' @ nl @
     ''  schemas_dir: ./schemas'' @ nl @
     ''  route_map_output: ./route_map.json'' @ nl"

definition project_dirs :: "string list" where
  "project_dirs = [''core'', ''backend/go'', ''backend/node'', ''backend/python'', ''frontend/src'', ''schemas'']"

fun make_dirs :: "shell \<Rightarrow> string \<Rightarrow> string list \<Rightarrow> session \<Rightarrow> go_error option \<times> session" where
  "make_dirs E root [] s = (None, s)"
| "make_dirs E root (d # ds) s =
     (case MkdirAll E (filepath_Join [root, d]) s of
        (Some err, s') \<Rightarrow> (Some (ErrorfW (''create directory '' @ d @ '': '') err), s')
      | (None, s') \<Rightarrow> make_dirs E root ds s')"

definition gitignore :: string where
  "gitignore = ''# vyx managed runtimes and binaries'' @ nl @ ''.vyx/'' @ nl"

text \<open>The \<open>.gitignore\<close> of the project: written, or extended when it does not mention the directory.\<close>

definition add_gitignore :: "shell \<Rightarrow> string \<Rightarrow> session \<Rightarrow> go_error option \<times> session" where
  "add_gitignore E root s =
     (let p = filepath_Join [root, ''.gitignore'']
      in case cs_files s p of
           None \<Rightarrow> (case WriteFile E p gitignore s of (Some err, s') \<Rightarrow> (Some (ErrorfW ''write .gitignore: '' err), s') | (None, s') \<Rightarrow> (None, s'))
         | Some existing \<Rightarrow>
             if Contains existing ''.vyx/'' then (None, s) else (None, snd (WriteFile E p (existing @ nl @ gitignore) s)))"

definition scaffoldProject :: "shell \<Rightarrow> string \<Rightarrow> session \<Rightarrow> go_error option \<times> session" where
  "scaffoldProject E name s =
     (let root = filepath_Join [''.'', name]
      in if stat_ok s root then (Some (Errorf (''directory '' @ Quote root @ '' already exists'')), s)
         else (case make_dirs E root project_dirs s of
                 (Some err, s1) \<Rightarrow> (Some err, s1)
               | (None, s1) \<Rightarrow>
                   (let vyxYAML = defaultVyxYAML name
                    in case sl_yaml E vyxYAML of
                         Some err \<Rightarrow> (Some (ErrorfW ''generated vyx.yaml is invalid: '' err), s1)
                       | None \<Rightarrow>
                           (case WriteFile E (filepath_Join [root, ''vyx.yaml'']) vyxYAML s1 of
                              (Some err, s2) \<Rightarrow> (Some (ErrorfW ''write vyx.yaml: '' err), s2)
                            | (None, s2) \<Rightarrow>
                                (let s3 = foldl (\<lambda>s d. snd (WriteFile E (filepath_Join [root, d, ''.gitkeep'']) [] s)) s2 (tl project_dirs)
                                 in add_gitignore E root s3)))))"

text \<open>Programs return their exit status.\<close>

definition runNew :: "shell \<Rightarrow> string list \<Rightarrow> session \<Rightarrow> int \<times> session" where
  "runNew E args s =
     (case args of
        [] \<Rightarrow> (1, tell Usage s)
      | a0 # rest \<Rightarrow>
          if a0 = ''-h'' \<or> a0 = ''--help'' then (0, tell Usage s)
          else if a0 \<noteq> ''project'' then (1, tell (Failed (Errorf (''unknown subcommand '' @ Quote a0 @ '' for '' @ [CHR 0x27] @ ''vyx new'' @ [CHR 0x27]))) s)
          else (case rest of
                  [] \<Rightarrow> (1, tell (Failed (Errorf ''project name is required'')) s)
                | a1 # _ \<Rightarrow>
                    if TrimSpace a1 = [] then (1, tell (Failed (Errorf ''project name is required'')) s)
                    else (case scaffoldProject E (TrimSpace a1) s of
                            (Some err, s') \<Rightarrow> (1, tell (Failed err) s')
                          | (None, s') \<Rightarrow> (0, tell (ProjectCreated (TrimSpace a1)) s'))))"

section \<open>The annotation scanner\<close>

text \<open>What the scanner uses of the outside: the walk of the directories, the encoding of the routes, and the errors of the output file.\<close>

record annotate_env =
  an_walk :: "string \<Rightarrow> file_entry list"
  an_marshal :: "route list \<Rightarrow> go_error + string"
  an_mkdir :: "string \<Rightarrow> go_error option"
  an_write :: "string \<Rightarrow> go_error option"

definition runAnnotateWithFlags :: "annotate_env \<Rightarrow> source_dirs \<Rightarrow> string \<Rightarrow> (string \<rightharpoonup> string) \<Rightarrow> (go_error option \<times> (string \<rightharpoonup> string)) option" where
  "runAnnotateWithFlags A dirs output fs =
     (case Generate (an_walk A) (an_marshal A) (an_mkdir A (filepath_Dir output)) (\<lambda>_. an_write A output) dirs of
        None \<Rightarrow> None
      | Some g \<Rightarrow>
          (let fs' = (case ge_written g of Some data \<Rightarrow> if ge_err g = None then fs(output \<mapsto> data) else fs | None \<Rightarrow> fs)
           in if ge_err g \<noteq> None then Some (ge_err g, fs')
              else if ge_errs g \<noteq> [] then Some (Some (Sentinel ''annotation errors found''), fs')
              else Some (None, fs')))"

definition default_dirs :: source_dirs where
  "default_dirs = \<lparr>sd_goDir = ''backend/go'', sd_tsDir = ''backend/node'', sd_pyDir = ''backend/python'', sd_frontendDir = ''frontend/src''\<rparr>"

text \<open>\<open>main\<close> of \<open>cmd/annotate\<close> with its arguments: the exit error of the process, and the files. A panic would end the process with an error, too.\<close>

definition annotate_main :: "annotate_env \<Rightarrow> string list \<Rightarrow> (string \<rightharpoonup> string) \<Rightarrow> go_error option \<times> (string \<rightharpoonup> string)" where
  "annotate_main A args fs =
     (case runAnnotateWithFlags A default_dirs ''route_map.json'' fs of
        None \<Rightarrow> (Some (Sentinel ''exit status 2''), fs)
      | Some (Some _, fs') \<Rightarrow> (Some (Sentinel ''exit status 1''), fs')
      | Some (None, fs') \<Rightarrow> (None, fs'))"

section \<open>\<open>vyx annotate\<close> and \<open>vyx build\<close>\<close>

definition findAnnotatePkg :: "session \<Rightarrow> string" where
  "findAnnotatePkg s = (if stat_ok s ''cmd/annotate/main.go'' then ''./cmd/annotate'' else ''github.com/ElioNeto/vyx/cmd/annotate'')"

definition annotate_argv :: "source_dirs \<Rightarrow> string \<Rightarrow> string list" where
  "annotate_argv dirs output = [''-go'', sd_goDir dirs, ''-ts'', sd_tsDir dirs, ''-frontend'', sd_frontendDir dirs, ''-output'', output]"

definition runAnnotateCmd :: "shell \<Rightarrow> source_dirs \<Rightarrow> string \<Rightarrow> session \<Rightarrow> go_error option \<times> session" where
  "runAnnotateCmd E dirs output s =
     (case sl_LookPath E ''vyx-annotate'' of
        Some path \<Rightarrow> run_in E [] ((if path = [] then [''go'', ''run'', findAnnotatePkg s] else [path]) @ annotate_argv dirs output) s
      | None \<Rightarrow> run_in E [] ([''go'', ''run'', findAnnotatePkg s] @ annotate_argv dirs output) s)"

definition flag_or :: "(string \<rightharpoonup> string) \<Rightarrow> string \<Rightarrow> string \<Rightarrow> string" where
  "flag_or m n d = (case m n of Some v \<Rightarrow> v | None \<Rightarrow> d)"

text \<open>The flags that both commands declare, with their defaults.\<close>

definition scan_flags :: "(string \<rightharpoonup> string) \<Rightarrow> source_dirs \<times> string" where
  "scan_flags m =
     (\<lparr>sd_goDir = flag_or m ''go'' ''backend/go'', sd_tsDir = flag_or m ''ts'' ''backend/node'', sd_pyDir = [],
       sd_frontendDir = flag_or m ''frontend'' ''frontend/src''\<rparr>, flag_or m ''output'' ''route_map.json'')"

definition runAnnotate :: "shell \<Rightarrow> string list \<Rightarrow> session \<Rightarrow> int \<times> session" where
  "runAnnotate E args s =
     (case parse_flags [''go'', ''ts'', ''frontend'', ''output''] args Map.empty of
        FlagExit c \<Rightarrow> (c, s)
      | Parsed m \<Rightarrow>
          (case scan_flags m of
             (dirs, output) \<Rightarrow>
               (case runAnnotateCmd E dirs output s of
                  (Some err, s') \<Rightarrow> (1, tell (Failed err) s')
                | (None, s') \<Rightarrow> (0, s'))))"

definition core_package :: string where
  "core_package = ''github.com/ElioNeto/vyx/core/cmd/vyx''"

definition runBuild :: "shell \<Rightarrow> string list \<Rightarrow> session \<Rightarrow> int \<times> session" where
  "runBuild E args s =
     (case parse_flags [''go'', ''ts'', ''frontend'', ''output''] args Map.empty of
        FlagExit c \<Rightarrow> (c, s)
      | Parsed m \<Rightarrow>
          (case scan_flags m of
             (dirs, output) \<Rightarrow>
               (case runAnnotateCmd E dirs output s of
                  (Some err, s1) \<Rightarrow> (1, tell (Failed (ErrorfW ''annotation scan failed: '' err)) s1)
                | (None, s1) \<Rightarrow>
                    (case runCommand E [''go'', ''build'', ''-buildvcs=false'', ''-o'', ''.vyx/core'', core_package] (tell (RouteMapWritten output) s1) of
                       (Some err, s2) \<Rightarrow> (1, tell (Failed (ErrorfW ''go build failed: '' err)) s2)
                     | (None, s2) \<Rightarrow> (0, tell BuildComplete s2)))))"

section \<open>\<open>vyx dev\<close>\<close>

text \<open>
  The loop over the workers; \<open>Ensure\<close> is called with a nil context. An error of running the core binary is one of starting it: how it ends is
  not looked at.
\<close>

fun ensure_each :: "shell \<Rightarrow> string \<Rightarrow> runtime list \<Rightarrow> dev_worker list \<Rightarrow> session \<Rightarrow> session" where
  "ensure_each E vyxDir detected [] s = s"
| "ensure_each E vyxDir detected ((_, command, ver) # ws) s =
     (let rt = Detect command
      in if rt = RuntimeUnknown \<or> rt \<in> set detected then ensure_each E vyxDir detected ws s
         else (let version = (if ver = [] then DefaultVersion rt else ver)
               in case Ensure (sl_provision E) rt version vyxDir (cs_world s) of
                    (Some err, w) \<Rightarrow> ensure_each E vyxDir (rt # detected) ws (tell (Warning err) (s\<lparr>cs_world := w\<rparr>))
                  | (None, w) \<Rightarrow> ensure_each E vyxDir (rt # detected) ws (s\<lparr>cs_world := w\<rparr>)))"

definition dev_loadConfig :: "shell \<Rightarrow> session \<Rightarrow> string \<Rightarrow> go_error + dev_worker list" where
  "dev_loadConfig E s path = (case cs_files s path of None \<Rightarrow> Inl no_such_file | Some data \<Rightarrow> sl_workers E data)"

definition detectAndEnsureRuntimes :: "shell \<Rightarrow> string \<Rightarrow> session \<Rightarrow> session" where
  "detectAndEnsureRuntimes E vyxDir s =
     (case dev_loadConfig E s ''vyx.yaml'' of
        Inl err \<Rightarrow> tell (Warning err) s
      | Inr ws \<Rightarrow> ensure_each E vyxDir [] ws s)"

definition runDev :: "shell \<Rightarrow> string list \<Rightarrow> session \<Rightarrow> int \<times> session" where
  "runDev E args s =
     (case parse_flags [''config'', ''addr''] args Map.empty of
        FlagExit c \<Rightarrow> (c, s)
      | Parsed m \<Rightarrow>
          (let configPath = flag_or m ''config'' ''vyx.yaml''; addr = flag_or m ''addr'' '':8080''
           in if \<not> stat_ok s configPath then (1, tell (Failed (Errorf (''config file not found: '' @ configPath))) s)
              else (let d = sl_getenv E ''VYX_DIR''; s1 = detectAndEnsureRuntimes E (if d \<noteq> [] then d else ''.vyx'') s
                    in case runCommand E [''go'', ''build'', ''-buildvcs=false'', ''-o'', ''.vyx/core'', core_package] s1 of
                         (Some err, s2) \<Rightarrow> (1, tell (Failed (ErrorfW ''build failed: '' err)) s2)
                       | (None, s2) \<Rightarrow>
                           (case run_in E [(''VYX_CONFIG'', configPath), (''VYX_ADDR'', addr), (''VYX_ENV'', ''development'')] [''.vyx/core''] s2 of
                              (Some err, s3) \<Rightarrow> (1, tell (Failed (ErrorfW ''failed to start core: '' err)) s3)
                            | (None, s3) \<Rightarrow> (0, tell CoreRunning s3)))))"

definition vyx_main :: "shell \<Rightarrow> string list \<Rightarrow> session \<Rightarrow> int \<times> session" where
  "vyx_main E args s =
     (case args of
        [] \<Rightarrow> (1, tell Usage s)
      | c # rest \<Rightarrow>
          if c = ''new'' then runNew E rest s
          else if c = ''dev'' then runDev E rest s
          else if c = ''build'' then runBuild E rest s
          else if c = ''annotate'' then runAnnotate E rest s
          else if c \<in> {''-h'', ''--help'', ''help''} then (0, tell Usage s)
          else (1, tell Usage (tell (Failed (Errorf (''unknown command '' @ Quote c))) s)))"

section \<open>Subcommands of the core binary\<close>

datatype core_action =
    RunServer bool bool
  | CmdNew string
  | CmdLogs
  | CmdBuild
  | CmdAnnotate
  | PrintUsage int
  | Fatal string

definition core_main :: "string list \<Rightarrow> core_action" where
  "core_main args =
     (case args of
        [] \<Rightarrow> RunServer False False
      | subcmd # rest \<Rightarrow>
          if subcmd = ''new'' then (case rest of [] \<Rightarrow> Fatal ''usage: vyx new <project-name>'' | name # _ \<Rightarrow> CmdNew name)
          else if subcmd = ''dev'' then RunServer True (''--tui'' \<in> set rest)
          else if subcmd = ''logs'' then CmdLogs
          else if subcmd = ''start'' then RunServer False False
          else if subcmd = ''build'' then CmdBuild
          else if subcmd = ''annotate'' then CmdAnnotate
          else if subcmd \<in> {''help'', ''-h'', ''--help''} then PrintUsage 0
          else PrintUsage 1)"

definition new_project_config :: "string \<Rightarrow> config" where
  "new_project_config name =
     Defaults\<lparr>cf_Name := name, cf_Version := ''0.1.0'',
       cf_Workers := [\<lparr>wc_ID = ''node:api'', wc_Command = ''node'', wc_WorkingDir = [], wc_RuntimeVersion = [], wc_Replicas = 1, wc_Strategy = ''round-robin'',
         wc_PoolSize = 0, wc_StartupTimeout = 10 * second, wc_ShutdownTimeout = 5 * second\<rparr>]\<rparr>"

fun make_core_dirs :: "shell \<Rightarrow> string \<Rightarrow> string list \<Rightarrow> session \<Rightarrow> go_error option \<times> session" where
  "make_core_dirs E name [] s = (None, s)"
| "make_core_dirs E name (d # ds) s =
     (case MkdirAll E (filepath_Join [name, d]) s of
        (Some err, s') \<Rightarrow> (Some (Errorf (''vyx new: create '' @ d @ '': '' @ Error err)), s')
      | (None, s') \<Rightarrow> make_core_dirs E name ds s')"

definition readme_of :: "string \<Rightarrow> string" where
  "readme_of name =
     ''# '' @ name @ nl @ nl @ ''Created with `vyx new '' @ name @ ''`.'' @ nl @ nl @ ''Run `cd '' @ name @ '' && vyx dev` to start in development mode.'' @ nl"

definition cmdNew :: "shell \<Rightarrow> string \<Rightarrow> session \<Rightarrow> int \<times> session" where
  "cmdNew E name s =
     (case MkdirAll E name s of
        (Some err, s1) \<Rightarrow> (1, tell (Failed (Errorf (''vyx new: create directory: '' @ Error err))) s1)
      | (None, s1) \<Rightarrow>
          (case sl_marshal E (new_project_config name) of
             Inl err \<Rightarrow> (1, tell (Failed (Errorf (''vyx new: marshal config: '' @ Error err))) s1)
           | Inr cfgData \<Rightarrow>
               (case WriteFile E (filepath_Join [name, ''vyx.yaml'']) cfgData s1 of
                  (Some err, s2) \<Rightarrow> (1, tell (Failed (Errorf (''vyx new: write vyx.yaml: '' @ Error err))) s2)
                | (None, s2) \<Rightarrow>
                    (case make_core_dirs E name [''workers'', ''schemas''] s2 of
                       (Some err, s3) \<Rightarrow> (1, tell (Failed err) s3)
                     | (None, s3) \<Rightarrow>
                         (case WriteFile E (filepath_Join [name, ''README.md'']) (readme_of name) s3 of
                            (Some err, s4) \<Rightarrow> (1, tell (Failed (Errorf (''vyx new: write README: '' @ Error err))) s4)
                          | (None, s4) \<Rightarrow> (0, tell (ProjectCreated name) s4))))))"

definition config_files :: "shell \<Rightarrow> session \<Rightarrow> file_env" where
  "config_files E s =
     \<lparr>fv_ReadFile = (\<lambda>p. case cs_files s p of None \<Rightarrow> Inl no_such_file | Some d \<Rightarrow> Inr d),
      fv_yaml = sl_unmarshal E, fv_json = (\<lambda>_. Inr [])\<rparr>"

definition mustLoadConfig :: "shell \<Rightarrow> session \<Rightarrow> go_error + config" where
  "mustLoadConfig E s =
     (let p = sl_getenv E ''VYX_CONFIG''; cfgPath = (if p \<noteq> [] then p else defaultConfigPath)
      in case Load (config_files E s) (New_loader cfgPath) of
           Inl err \<Rightarrow> Inl (Errorf (''failed to load '' @ cfgPath @ '': '' @ Error err))
         | Inr cfg \<Rightarrow> Inr cfg)"

text \<open>The core's own \<open>runAnnotateCmd\<close>; the text of an exit error has the exit status.\<close>

definition scanner_missing :: "go_error \<Rightarrow> bool" where
  "scanner_missing err = (Contains (Error err) ''no required module'' \<or> Error err = ''exit status 127'')"

definition core_runAnnotateCmd :: "shell \<Rightarrow> string \<Rightarrow> string \<Rightarrow> string \<Rightarrow> session \<Rightarrow> go_error option \<times> session" where
  "core_runAnnotateCmd E goDir tsDir output s =
     (case run_in E []
         ([''go'', ''run'', ''github.com/ElioNeto/vyx/cmd/annotate'', ''--output'', output] @
          (if goDir \<noteq> [] then [''--go-dir'', goDir] else []) @ (if tsDir \<noteq> [] then [''--ts-dir'', tsDir] else [])) s of
        (None, s') \<Rightarrow> (None, s')
      | (Some err, s') \<Rightarrow>
          (if scanner_missing err
           then Some (ErrorfW (''scanner binary not found '' @ [CHR 0xE2, CHR 0x80, CHR 0x94] @ '' run `go install github.com/ElioNeto/vyx/cmd/annotate@latest`: '') err)
           else Some err, s'))"

definition output_of :: "config \<Rightarrow> string" where
  "output_of cfg = (if cf_RouteMapOutput cfg = [] then ''./route_map.json'' else cf_RouteMapOutput cfg)"

definition cmdBuild :: "shell \<Rightarrow> session \<Rightarrow> int \<times> session" where
  "cmdBuild E s =
     (case mustLoadConfig E s of
        Inl err \<Rightarrow> (1, tell (Failed err) s)
      | Inr cfg \<Rightarrow>
          (let tsDir = (if stat_ok s ''workers'' then ''workers'' else []); goDir = (if stat_ok s ''backend/go'' then ''backend/go'' else [])
           in case core_runAnnotateCmd E goDir tsDir (output_of cfg) s of
                (Some err, s1) \<Rightarrow> (1, tell (Failed (Errorf (''vyx build: '' @ Error err))) s1)
              | (None, s1) \<Rightarrow> (0, tell (RouteMapWritten (output_of cfg)) s1)))"

definition cmdAnnotate :: "shell \<Rightarrow> session \<Rightarrow> int \<times> session" where
  "cmdAnnotate E s =
     (case mustLoadConfig E s of
        Inl err \<Rightarrow> (1, tell (Failed err) s)
      | Inr cfg \<Rightarrow>
          (let tsDir = (if stat_ok s ''workers'' then ''workers'' else [])
           in case core_runAnnotateCmd E [] tsDir (output_of cfg) s of
                (Some err, s1) \<Rightarrow> (1, tell (Failed (Errorf (''vyx annotate: '' @ Error err))) s1)
              | (None, s1) \<Rightarrow>
                  (case cs_files s1 (output_of cfg) of
                     None \<Rightarrow> (1, tell (Failed (Errorf (''vyx annotate: read output: '' @ Error no_such_file))) s1)
                   | Some data \<Rightarrow> (case sl_json E data of Some err \<Rightarrow> (1, tell (Failed (Errorf (''vyx annotate: parse output: '' @ Error err))) s1) | None \<Rightarrow> (0, s1)))))"

section \<open>Paths\<close>

definition plain :: "string \<Rightarrow> bool" where
  "plain e \<longleftrightarrow> e \<noteq> [] \<and> e \<noteq> ''.'' \<and> e \<noteq> ''..'' \<and> CHR ''/'' \<notin> set e"

lemma Split_snoc: "CHR ''/'' \<notin> set e \<Longrightarrow> Split (CHR ''/'') (p @ CHR ''/'' # e) = Split (CHR ''/'') p @ [e]"
  by (induction p) (auto simp: Split_no_sep split: list.split)

lemma clean_elems_snoc: "plain e \<Longrightarrow> \<exists>ys. clean_elems rooted out (es @ [e]) = ys @ [e]"
  by (induction rooted out es rule: clean_elems.induct) (auto simp: plain_def split: list.splits)

lemma Join_snoc: "\<exists>q. Join (ys @ [e]) sep = q @ e"
  by (induction ys sep rule: Join.induct) auto

lemma filepath_Join_ends:
  assumes "plain e"
  shows "\<exists>q. filepath_Join [r, e] = q @ e"
proof -
  have c: "\<exists>q. filepath_Clean p = q @ e" if s: "Split (CHR ''/'') p = es @ [e]" for p es
  proof -
    obtain ys where "clean_elems (HasPrefix p ''/'') [] (Split (CHR ''/'') p) = ys @ [e]"
      using clean_elems_snoc [OF assms, of "HasPrefix p ''/''" "[]" es] s by auto
    moreover obtain q where "Join (ys @ [e]) ''/'' = q @ e" using Join_snoc by blast
    ultimately have "filepath_Clean p = (if HasPrefix p ''/'' then (CHR ''/'' # q) @ e else q @ e)"
      using assms by (simp add: filepath_Clean_def plain_def)
    then show ?thesis by (meson)
  qed
  show ?thesis
  proof (cases "r = []")
    case True
    then show ?thesis using c [of e "[]"] assms by (simp add: filepath_Join_def plain_def Split_no_sep)
  next
    case False
    have "Split (CHR ''/'') (r @ CHR ''/'' # e) = Split (CHR ''/'') r @ [e]" using assms by (simp add: plain_def Split_snoc)
    from c [OF this] show ?thesis using False by (simp add: filepath_Join_def)
  qed
qed

lemma filepath_Join_neq: "plain a \<Longrightarrow> plain b \<Longrightarrow> last a \<noteq> last b \<Longrightarrow> filepath_Join [r, a] \<noteq> filepath_Join [q, b]"
proof
  assume a: "plain a" "plain b" "last a \<noteq> last b" and eq: "filepath_Join [r, a] = filepath_Join [q, b]"
  obtain x y where "filepath_Join [r, a] = x @ a" "filepath_Join [q, b] = y @ b" using filepath_Join_ends a(1,2) by blast
  then show False using eq a by (metis last_appendR plain_def)
qed

lemma plain_root:
  assumes "plain name"
  shows "filepath_Join [''.'', name] = name" and "plain d \<Longrightarrow> filepath_Join [name, d] = name @ CHR ''/'' # d"
proof -
  have h: "\<not> HasPrefix (name @ CHR ''/'' # d) ''/''" for d using assms by (cases name) (auto simp: plain_def HasPrefix_def)
  have "Split (CHR ''/'') (''.'' @ CHR ''/'' # name) = [''.'', name]" using assms by (simp add: plain_def Split_no_sep)
  then show "filepath_Join [''.'', name] = name"
    using assms by (simp add: filepath_Join_def filepath_Clean_def HasPrefix_def plain_def Let_def)
  assume "plain d"
  moreover from this have "Split (CHR ''/'') (name @ CHR ''/'' # d) = [name, d]"
    using assms by (simp add: plain_def Split_append Split_no_sep)
  moreover note h [of d]
  ultimately show "filepath_Join [name, d] = name @ CHR ''/'' # d"
    using assms by (simp add: filepath_Join_def filepath_Clean_def plain_def Let_def)
qed

section \<open>Creating projects\<close>

lemma make_dirs_files [simp]: "cs_files (snd (make_dirs E root ds s)) = cs_files s"
  by (induction ds arbitrary: s) (simp_all add: MkdirAll_def split: option.split)

lemma make_core_dirs_files [simp]: "cs_files (snd (make_core_dirs E root ds s)) = cs_files s"
  by (induction ds arbitrary: s) (simp_all add: MkdirAll_def split: option.split)

lemma make_dirs_grow: "cs_dirs s \<subseteq> cs_dirs (snd (make_dirs E root ds s))"
proof (induction ds arbitrary: s)
  case (Cons d ds)
  then show ?case using Cons [of "s\<lparr>cs_dirs := cs_dirs s \<union> set (ancestors (filepath_Join [root, d]))\<rparr>"]
    by (auto simp: MkdirAll_def split: option.split)
qed simp

lemma make_dirs_all:
  "fst (make_dirs E root ds s) = None \<Longrightarrow> d \<in> set ds \<Longrightarrow> set (ancestors (filepath_Join [root, d])) \<subseteq> cs_dirs (snd (make_dirs E root ds s))"
proof (induction ds arbitrary: s)
  case (Cons x ds)
  let ?s = "s\<lparr>cs_dirs := cs_dirs s \<union> set (ancestors (filepath_Join [root, x]))\<rparr>"
  have m: "MkdirAll E (filepath_Join [root, x]) s = (None, ?s)" "fst (make_dirs E root ds ?s) = None"
    using Cons.prems(1) by (auto simp: MkdirAll_def split: option.splits)
  then show ?case using Cons.IH [OF m(2)] Cons.prems(2) make_dirs_grow [of ?s E root ds] by auto
qed simp

lemma WriteFile_other: "q \<noteq> p \<Longrightarrow> cs_files (snd (WriteFile E q d s)) p = cs_files s p"
  by (simp add: WriteFile_def split: option.split)

lemma WriteFile_dirs [simp]: "cs_dirs (snd (WriteFile E q d s)) = cs_dirs s"
  by (simp add: WriteFile_def split: option.split)

lemma keep_files: "(\<And>d. d \<in> set ds \<Longrightarrow> f d \<noteq> p) \<Longrightarrow> cs_files (foldl (\<lambda>s d. snd (WriteFile E (f d) [] s)) s ds) p = cs_files s p"
  by (induction ds arbitrary: s) (simp_all add: WriteFile_other)

lemma keep_dirs: "cs_dirs (foldl (\<lambda>s d. snd (WriteFile E (f d) [] s)) s ds) = cs_dirs s"
  by (induction ds arbitrary: s) simp_all

lemma add_gitignore_dirs [simp]: "cs_dirs (snd (add_gitignore E root s)) = cs_dirs s"
  by (simp add: add_gitignore_def WriteFile_def Let_def split: option.split)

lemma add_gitignore_other: "filepath_Join [root, ''.gitignore''] \<noteq> p \<Longrightarrow> cs_files (snd (add_gitignore E root s)) p = cs_files s p"
  by (simp add: add_gitignore_def WriteFile_def Let_def split: option.split)

lemma Join_Split: "Join (Split (CHR ''/'') p) ''/'' = p"
proof (induction p)
  case (Cons x p)
  then show ?case by (cases "Split (CHR ''/'') p"; cases "tl (Split (CHR ''/'') p)") auto
qed simp

lemma ancestors_mem:
  assumes "1 \<le> n" and "n \<le> length (Split (CHR ''/'') p)"
  shows "Join (take n (Split (CHR ''/'') p)) ''/'' \<in> set (ancestors p)"
  using assms by (auto simp: ancestors_def Let_def simp del: upt_Suc)

lemma self_ancestor: "p \<in> set (ancestors p)"
  using ancestors_mem [of "length (Split (CHR ''/'') p)" p] by (simp add: Suc_le_eq Join_Split)

lemma root_ancestor: "plain name \<Longrightarrow> name \<in> set (ancestors (name @ CHR ''/'' # d))"
  using ancestors_mem [of 1 "name @ CHR ''/'' # d"] by (simp add: plain_def Split_append)

lemma scaffold_paths:
  shows "root \<noteq> [] \<Longrightarrow> filepath_Join [root, d, ''.gitkeep''] \<noteq> filepath_Join [root, ''vyx.yaml'']"
    and "filepath_Join [root, ''.gitignore''] \<noteq> filepath_Join [root, ''vyx.yaml'']"
proof -
  have p: "plain ''.gitkeep''" "plain ''vyx.yaml''" "plain ''.gitignore''" by (simp_all add: plain_def)
  show "filepath_Join [root, ''.gitignore''] \<noteq> filepath_Join [root, ''vyx.yaml'']"
    by (rule filepath_Join_neq [OF p(3,2)]) simp
  assume "root \<noteq> []"
  then have "filepath_Join [root, d, ''.gitkeep''] = filepath_Join [root @ CHR ''/'' # d, ''.gitkeep'']" by (simp add: filepath_Join_def)
  then show "filepath_Join [root, d, ''.gitkeep''] \<noteq> filepath_Join [root, ''vyx.yaml'']"
    using filepath_Join_neq [OF p(1,2), of "root @ CHR ''/'' # d" root] by simp
qed

text \<open>
  \<open>vyx new project\<close> creates what it promises and overwrites nothing: when it reports success the directory did not exist before, afterwards it has all
  directories of the layout and the manifest with the project's name; when the directory exists, nothing changes.
\<close>
theorem scaffold_creates_project:
  assumes "plain name"
  shows "case scaffoldProject E name s of
      (None, s') \<Rightarrow> \<not> stat_ok s name \<and> cs_files s' (filepath_Join [name, ''vyx.yaml'']) = Some (defaultVyxYAML name) \<and>
        (\<forall>d \<in> set project_dirs. filepath_Join [name, d] \<in> cs_dirs s')
    | (Some err, s') \<Rightarrow> stat_ok s name \<longrightarrow> s' = s"
proof -
  note root = plain_root(1) [OF assms]
  obtain r s1 where m: "make_dirs E name project_dirs s = (r, s1)" by fastforce
  show ?thesis
  proof (cases "stat_ok s name \<or> r \<noteq> None \<or> sl_yaml E (defaultVyxYAML name) \<noteq> None \<or> sl_WriteFile E (filepath_Join [name, ''vyx.yaml'']) \<noteq> None")
    case True
    then show ?thesis using m by (auto simp: scaffoldProject_def root WriteFile_def Let_def split: option.splits)
  next
    case False
    define s2 where "s2 = snd (WriteFile E (filepath_Join [name, ''vyx.yaml'']) (defaultVyxYAML name) s1)"
    define s3 where "s3 = foldl (\<lambda>s d. snd (WriteFile E (filepath_Join [name, d, ''.gitkeep'']) [] s)) s2 (tl project_dirs)"
    have sc: "scaffoldProject E name s = add_gitignore E name s3"
      using False m by (simp add: scaffoldProject_def root Let_def s3_def s2_def WriteFile_def)
    have "cs_files s2 (filepath_Join [name, ''vyx.yaml'']) = Some (defaultVyxYAML name)" using False by (simp add: s2_def WriteFile_def)
    then have f: "cs_files (snd (add_gitignore E name s3)) (filepath_Join [name, ''vyx.yaml'']) = Some (defaultVyxYAML name)"
      using assms scaffold_paths by (simp add: add_gitignore_other s3_def keep_files plain_def)
    have d: "cs_dirs (snd (add_gitignore E name s3)) = cs_dirs s1" by (simp add: s3_def keep_dirs s2_def)
    have "\<forall>d \<in> set project_dirs. filepath_Join [name, d] \<in> cs_dirs s1"
      using make_dirs_all [of E name project_dirs s] m False self_ancestor by fastforce
    then show ?thesis using sc f d False by (auto simp del: add_gitignore_dirs split: prod.split option.split)
  qed
qed

text \<open>
  A project name that spoils the manifest cannot be retried: the name is put into the YAML unquoted and checked only after the directories were made, so
  the error leaves them behind and the next attempt with the name is refused because the directory exists.
\<close>
theorem invalid_name_blocks_retry:
  assumes "plain name" and "\<not> stat_ok s name" and "\<And>p. sl_MkdirAll E p = None" and "sl_yaml E (defaultVyxYAML name) = Some err"
  shows "\<exists>s'. scaffoldProject E name s = (Some (ErrorfW ''generated vyx.yaml is invalid: '' err), s') \<and>
    scaffoldProject E name s' = (Some (Errorf (''directory '' @ Quote name @ '' already exists'')), s')"
proof -
  note root = plain_root(1) [OF assms(1)]
  have n: "fst (make_dirs E name ds s) = None" for ds s by (induction ds arbitrary: s) (simp_all add: MkdirAll_def assms(3))
  obtain s1 where m: "make_dirs E name project_dirs s = (None, s1)" using n [of project_dirs s] by (metis prod.collapse)
  have "filepath_Join [name, ''core''] = name @ CHR ''/'' # ''core''" using assms(1) by (simp add: plain_root(2) plain_def)
  then have "name \<in> cs_dirs s1"
    using make_dirs_all [of E name project_dirs s "''core''"] m root_ancestor [OF assms(1), of "''core''"] by (auto simp: project_dirs_def)
  then have "stat_ok s1 name" by (simp add: stat_ok_def)
  then show ?thesis using m assms(2,4) by (simp add: scaffoldProject_def root)
qed

lemma new_project_valid: "name \<noteq> [] \<Longrightarrow> config_valid (new_project_config name)"
  by (simp add: config_valid_def worker_valid_def new_project_config_def Defaults_def breaker_config_def config_ok_def second_def)

text \<open>
  A project made by the core's \<open>vyx new\<close> starts: if YAML gives back the configuration it was given, loading the manifest from the new directory
  gives exactly the configuration the command built, and validation accepts it.
\<close>
theorem new_project_loads:
  assumes "cmdNew E name s = (0, s')" and "name \<noteq> []"
    and "\<And>d. sl_marshal E (new_project_config name) = Inr d \<Longrightarrow> sl_unmarshal E d Defaults = Inr (new_project_config name)"
  shows "Load (config_files E s') (New_loader (filepath_Join [name, ''vyx.yaml''])) = Inr (new_project_config name)"
proof -
  obtain s1 where s1: "MkdirAll E name s = (None, s1)" using assms(1) by (auto simp: cmdNew_def split: prod.splits option.splits)
  obtain d where d: "sl_marshal E (new_project_config name) = Inr d" using assms(1) s1 by (auto simp: cmdNew_def split: sum.splits)
  obtain s2 where s2: "WriteFile E (filepath_Join [name, ''vyx.yaml'']) d s1 = (None, s2)"
    using assms(1) s1 d by (auto simp: cmdNew_def split: prod.splits option.splits)
  obtain s3 where s3: "make_core_dirs E name [''workers'', ''schemas''] s2 = (None, s3)"
    using assms(1) s1 d s2 by (auto simp: cmdNew_def split: prod.splits option.splits)
  obtain s4 where s4: "WriteFile E (filepath_Join [name, ''README.md'']) (readme_of name) s3 = (None, s4)" "s' = tell (ProjectCreated name) s4"
    using assms(1) s1 d s2 s3 by (auto simp: cmdNew_def split: prod.splits option.splits)
  have p: "filepath_Join [name, ''README.md''] \<noteq> filepath_Join [name, ''vyx.yaml'']"
    by (rule filepath_Join_neq) (simp_all add: plain_def)
  have "cs_files s' (filepath_Join [name, ''vyx.yaml'']) = cs_files s3 (filepath_Join [name, ''vyx.yaml''])"
    using s4 WriteFile_other [OF p, of E "readme_of name" s3] by (simp add: tell_def)
  also have "\<dots> = Some d"
    using s2 make_core_dirs_files [of E name "[''workers'', ''schemas'']" s2] s3 by (auto simp: WriteFile_def split: option.splits)
  finally have f: "cs_files s' (filepath_Join [name, ''vyx.yaml'']) = Some d" .
  have "Validate_config (new_project_config name) = None" using new_project_valid [OF assms(2)] by (simp add: Validate_config_None)
  then show ?thesis using f assms(3) [OF d] by (simp add: Load_def config_files_def New_loader_def)
qed

section \<open>Building\<close>

text \<open>
  The flags of \<open>vyx build\<close> do not arrive: the scanner is given them as arguments but its \<open>main\<close> reads none. With an output path the build reports that the
  route map was written there, while the file at that path is as it was before; what is scanned are always the default directories.
\<close>
theorem build_output_is_not_written:
  assumes "sl_LookPath E ''vyx-annotate'' = Some path" and "path \<noteq> []"
    and "\<And>as fs. sl_run E (path # as) fs = annotate_main A as fs" and "\<And>as fs. snd (sl_run E (''go'' # as) fs) = fs"
    and "output \<noteq> ''route_map.json''" and "vyx_main E [''build'', ''-output'', output] s = (0, s')"
  shows "RouteMapWritten output \<in> set (cs_notices s') \<and> cs_files s' output = cs_files s output"
proof -
  let ?names = "[''go'', ''ts'', ''frontend'', ''output'']"
  have p: "parse_flags ?names [''-output'', output] Map.empty = Parsed [''output'' \<mapsto> output]"
    by (simp add: flag_name_def split_value_def Let_def)
  obtain d where o: "scan_flags [''output'' \<mapsto> output] = (d, output)" by (simp add: scan_flags_def flag_or_def)
  obtain r fs where a: "annotate_main A (annotate_argv d output) (cs_files s) = (r, fs)" by fastforce
  have fs: "fs output = cs_files s output"
    using a assms(5) by (auto simp: annotate_main_def runAnnotateWithFlags_def Let_def split: option.splits prod.splits if_splits)
  have "runBuild E [''-output'', output] s = (0, s')" using assms(6) by (simp add: vyx_main_def)
  then show ?thesis
    using a fs assms(4) [of "[''build'', ''-buildvcs=false'', ''-o'', ''.vyx/core'', core_package]" fs]
    unfolding runBuild_def p flag_result.case o prod.case runAnnotateCmd_def assms(1) option.case
    by (auto simp: assms(2,3) run_in_def runCommand_def tell_def split: option.splits prod.splits)
qed

section \<open>Development mode\<close>

text \<open>
  \<open>vyx dev\<close> starts the production gateway: it runs the core binary without arguments, and without arguments the core runs as for \<open>vyx start\<close>, without
  HTTP/2 cleartext and without reloading changed sources. The mode and the address are only put into environment variables that nothing reads.
\<close>
theorem dev_starts_production:
  assumes "parse_flags [''config'', ''addr''] args Map.empty = Parsed m" and "vyx_main E (''dev'' # args) s = (0, s')"
  shows "\<exists>core_args extra. last (cs_runs s') = (''.vyx/core'' # core_args, extra) \<and> core_main core_args = RunServer False False \<and>
    core_main core_args = core_main [''start''] \<and> core_main core_args \<noteq> core_main [''dev'']"
proof -
  have "runDev E args s = (0, s')" using assms(2) by (simp add: vyx_main_def)
  then have "\<exists>extra. last (cs_runs s') = ([''.vyx/core''], extra)"
    unfolding runDev_def assms(1)
    by (auto simp: run_in_def tell_def Let_def split: if_splits prod.splits option.splits)
  then show ?thesis by (auto simp: core_main_def)
qed

lemma run_command_downloads: "run_command P argv w = (r, w') \<Longrightarrow> wd_downloads w' = wd_downloads w"
  by (auto simp: run_command_def split: prod.splits)

lemma nil_context_download:
  assumes "\<And>url. pe_request P url \<noteq> None"
  shows "wd_downloads (snd (downloadFile P url target w)) = wd_downloads w" and "fst (downloadFile P url target w) \<noteq> None"
proof -
  obtain err where "pe_request P url = Some err" using assms by blast
  then show "wd_downloads (snd (downloadFile P url target w)) = wd_downloads w" "fst (downloadFile P url target w) \<noteq> None"
    by (simp_all add: downloadFile_def split: option.split)
qed

lemma nil_context_tools:
  assumes "\<And>url. pe_request P url \<noteq> None"
  shows "wd_downloads (snd (downloadFNM P dir w)) = wd_downloads w" and "fst (downloadFNM P dir w) \<noteq> None"
    and "wd_downloads (snd (downloadUV P dir w)) = wd_downloads w" and "fst (downloadUV P dir w) \<noteq> None"
proof -
  have "wd_downloads (snd (downloadZip P url d b w)) = wd_downloads w \<and> fst (downloadZip P url d b w) \<noteq> None" for url d b
  proof -
    obtain r w1 where "downloadFile P url (filepath_Join [pe_tempDir P, ''vyx-'' @ b @ ''.zip'']) w = (r, w1)" by fastforce
    then show ?thesis using nil_context_download [OF assms, of url "filepath_Join [pe_tempDir P, ''vyx-'' @ b @ ''.zip'']" w]
      by (auto simp: downloadZip_def Let_def split: option.split)
  qed
  then show "wd_downloads (snd (downloadFNM P dir w)) = wd_downloads w" "fst (downloadFNM P dir w) \<noteq> None"
    by (simp_all add: downloadFNM_def split: prod.split)
  show "wd_downloads (snd (downloadUV P dir w)) = wd_downloads w" "fst (downloadUV P dir w) \<noteq> None"
    using nil_context_download [OF assms] by (simp_all add: downloadUV_def Let_def split: prod.split)
qed

lemma ensureNode_downloads:
  assumes "wd_downloads (snd (downloadFNM P (filepath_Join [runtimes_dir d, ''fnm'']) w)) = wd_downloads w"
  shows "wd_downloads (snd (ensureNode P v d w)) = wd_downloads w"
proof -
  let ?dir = "filepath_Join [runtimes_dir d, ''fnm'']" and ?node = "filepath_Join [runtimes_dir d, ''node'']"
  let ?fnm = "filepath_Join [?dir, ''fnm'']"
  obtain r1 w1 where 1: "(if exists_file w ?fnm then (None, w) else downloadFNM P ?dir w) = (r1, w1)" by fastforce
  obtain r2 w2 where 2: "run_command P [?fnm, ''install'', v, ''--fnm-dir'', ?node] w1 = (r2, w2)" by fastforce
  obtain r3 w3 where 3: "run_command P [?fnm, ''use'', v, ''--fnm-dir'', ?node] w2 = (r3, w3)" by fastforce
  have "wd_downloads w1 = wd_downloads w" using 1 assms by (auto split: if_splits)
  then show ?thesis
    using run_command_downloads [OF 2] run_command_downloads [OF 3] unfolding ensureNode_def Let_def 1
    by (simp add: 2 3 split: option.split)
qed

lemma ensurePython_downloads:
  assumes "wd_downloads (snd (downloadUV P (filepath_Join [runtimes_dir d, ''uv'']) w)) = wd_downloads w"
  shows "wd_downloads (snd (ensurePython P v d w)) = wd_downloads w"
proof -
  let ?dir = "filepath_Join [runtimes_dir d, ''uv'']"
  let ?uv = "filepath_Join [?dir, ''uv'']"
  obtain r1 w1 where 1: "(if exists_file w ?uv then (None, w) else downloadUV P ?dir w) = (r1, w1)" by fastforce
  obtain r2 w2 where 2: "run_command P [?uv, ''python'', ''install'', v] w1 = (r2, w2)" by fastforce
  have "wd_downloads w1 = wd_downloads w" using 1 assms by (auto split: if_splits)
  then show ?thesis
    using run_command_downloads [OF 2] unfolding ensurePython_def Let_def 1
    by (simp add: 2 split: option.split)
qed

lemma nil_context_ensure:
  assumes "\<And>url. pe_request P url \<noteq> None"
  shows "wd_downloads (snd (Ensure P rt v dir w)) = wd_downloads w"
  using ensureNode_downloads [OF nil_context_tools(1) [OF assms]] ensurePython_downloads [OF nil_context_tools(3) [OF assms]]
  by (simp add: Ensure_def ensureGo_def Let_def split: runtime.split sum.split)

lemma missing_tool_fails:
  assumes "\<And>url. pe_request P url \<noteq> None" and "dir \<noteq> []"
    and "\<not> exists_file w (filepath_Join [filepath_Join [runtimes_dir dir, ''fnm''], ''fnm''])"
  shows "fst (Ensure P RuntimeNode v dir w) \<noteq> None"
proof -
  obtain err w1 where "downloadFNM P (filepath_Join [runtimes_dir dir, ''fnm'']) w = (Some err, w1)"
    using nil_context_tools(2) [OF assms(1), of "filepath_Join [runtimes_dir dir, ''fnm'']" w] by (metis option.exhaust prod.collapse)
  then show ?thesis using assms(2,3) by (simp add: Ensure_def ensureNode_def)
qed

lemma ensure_each_downloads:
  assumes "\<And>url. pe_request (sl_provision E) url \<noteq> None"
  shows "wd_downloads (cs_world (ensure_each E dir seen ws s)) = wd_downloads (cs_world s)"
proof (induction ws arbitrary: seen s)
  case (Cons x ws)
  obtain i c v where x: "x = (i, c, v)" by (cases x)
  obtain r w where e: "Ensure (sl_provision E) (Detect c) (if v = [] then DefaultVersion (Detect c) else v) dir (cs_world s) = (r, w)" by fastforce
  have "wd_downloads w = wd_downloads (cs_world s)"
    using nil_context_ensure [OF assms, of "Detect c" "if v = [] then DefaultVersion (Detect c) else v" dir "cs_world s"] e by simp
  then show ?case using e Cons.IH by (simp add: x Let_def tell_def split: option.split)
qed simp

lemma detect_downloads:
  assumes "\<And>url. pe_request (sl_provision E) url \<noteq> None"
  shows "wd_downloads (cs_world (detectAndEnsureRuntimes E dir s)) = wd_downloads (cs_world s)"
  using ensure_each_downloads [OF assms] by (simp add: detectAndEnsureRuntimes_def tell_def split: sum.split)

text \<open>
  \<open>vyx dev\<close> cannot install a runtime: it calls the provisioning with a nil context, with which no HTTP request can be made, so no run of it downloads
  anything, and as long as the installer of Node is not there already, ensuring Node fails.
\<close>
theorem dev_never_downloads:
  assumes "\<And>url. pe_request (sl_provision E) url \<noteq> None"
  shows "wd_downloads (cs_world (snd (vyx_main E (''dev'' # args) s))) = wd_downloads (cs_world s) \<and>
    (\<not> exists_file w (filepath_Join [filepath_Join [runtimes_dir ''.vyx'', ''fnm''], ''fnm'']) \<longrightarrow> fst (Ensure (sl_provision E) RuntimeNode v ''.vyx'' w) \<noteq> None)"
proof
  have r: "wd_downloads (cs_world s') = wd_downloads (cs_world s0)" if "run_in E x argv s0 = (r, s')" for x argv s0 r s'
    using that by (auto simp: run_in_def split: prod.splits)
  have "wd_downloads (cs_world (snd (runDev E args s))) = wd_downloads (cs_world s)"
    unfolding runDev_def runCommand_def Let_def
    by (auto simp: detect_downloads [OF assms] tell_def dest!: r split: flag_result.split prod.split option.split)
  then show "wd_downloads (cs_world (snd (vyx_main E (''dev'' # args) s))) = wd_downloads (cs_world s)" by (simp add: vyx_main_def)
  show "\<not> exists_file w (filepath_Join [filepath_Join [runtimes_dir ''.vyx'', ''fnm''], ''fnm'']) \<longrightarrow> fst (Ensure (sl_provision E) RuntimeNode v ''.vyx'' w) \<noteq> None"
    using missing_tool_fails [OF assms, of "''.vyx''" w v] by simp
qed

section \<open>The routes of a new project\<close>

lemma parse_files_worker:
  assumes "\<And>x path w rs es. parse x path w = Some (rs, es) \<Longrightarrow> \<forall>r \<in> set rs. rt_WorkerID r = w" and "parse_files wanted parse fs w = Some (rs, es)"
  shows "\<forall>r \<in> set rs. rt_WorkerID r = w"
  using assms(2)
proof (induction fs arbitrary: rs es)
  case (Cons f fs)
  then show ?case using assms(1) by (fastforce split: if_splits option.splits prod.splits)
qed simp

lemma parsers_worker:
  shows "parseGoFile x path w = Some (rs, es) \<Longrightarrow> \<forall>r \<in> set rs. rt_WorkerID r = w"
    and "parsePyFile x path w = Some (rs, es) \<Longrightarrow> \<forall>r \<in> set rs. rt_WorkerID r = w"
    and "parseTSFile x path w = Some (rs, es) \<Longrightarrow> \<forall>r \<in> set rs. rt_WorkerID r = w"
    and "parseTSXFile x path w = Some (rs, es) \<Longrightarrow> \<forall>r \<in> set rs. rt_WorkerID r = w"
proof -
  have i: "parseGoFile (Inl e) path w = Some ([], [cannot_open path e])" "parsePyFile (Inl e) path w = Some ([], [cannot_open path e])"
    "parseTSFile (Inl e) path w = Some ([], [cannot_open path e])" "parseTSXFile (Inl e) path w = Some ([], [cannot_open path e])" for e
    by (simp_all add: parseGoFile_def parsePyFile_def parseTSFile_def parseTSXFile_def)
  show "parseGoFile x path w = Some (rs, es) \<Longrightarrow> \<forall>r \<in> set rs. rt_WorkerID r = w"
    using i(1) parse_line_total(1) [of "projr x" path w] by (cases x) (auto simp: scanned_def)
  show "parsePyFile x path w = Some (rs, es) \<Longrightarrow> \<forall>r \<in> set rs. rt_WorkerID r = w"
    using i(2) parse_line_total(2) [of "projr x" path w] by (cases x) (auto simp: scanned_def)
  show "parseTSFile x path w = Some (rs, es) \<Longrightarrow> \<forall>r \<in> set rs. rt_WorkerID r = w"
    using i(3) parse_line_total(3) [of "projr x" path w] by (cases x) (auto simp: scanned_def)
  show "parseTSXFile x path w = Some (rs, es) \<Longrightarrow> \<forall>r \<in> set rs. rt_WorkerID r = w"
    using i(4) parse_page_total [of "projr x" path w] by (cases x) (auto simp: page_def)
qed

lemma parsed_worker:
  "ParseGoFiles fs w = Some (rs, es) \<Longrightarrow> \<forall>r \<in> set rs. rt_WorkerID r = w" "ParseTSFiles fs w = Some (rs, es) \<Longrightarrow> \<forall>r \<in> set rs. rt_WorkerID r = w"
  "ParsePyFiles fs w = Some (rs, es) \<Longrightarrow> \<forall>r \<in> set rs. rt_WorkerID r = w" "ParseTSXFiles fs w = Some (rs, es) \<Longrightarrow> \<forall>r \<in> set rs. rt_WorkerID r = w"
  unfolding ParseGoFiles_def ParseTSFiles_def ParsePyFiles_def ParseTSXFiles_def
  by (erule parse_files_worker [rotated], erule parsers_worker)+

lemma scan_dir_worker:
  assumes "\<And>fs rs es. parse fs w = Some (rs, es) \<Longrightarrow> \<forall>r \<in> set rs. rt_WorkerID r = w" and "scan_dir walk parse dir w = Some (rs, es)"
  shows "\<forall>r \<in> set rs. rt_WorkerID r = w"
  using assms by (auto simp: scan_dir_def split: if_splits)

lemma join_parsed_SomeD:
  "join_parsed a b = Some (rs, es) \<Longrightarrow> \<exists>r e r' e'. a = Some (r, e) \<and> b = Some (r', e') \<and> rs = r @ r' \<and> es = e @ e'"
  by (auto simp: join_parsed_def split: option.splits prod.splits)

lemma collected_workers:
  assumes "collect walk default_dirs = Some (rs, es)" and "r \<in> set rs"
  shows "rt_WorkerID r \<in> {''go:go'', ''node:node'', ''python:python'', ''node:ssr''}"
proof -
  have b: "filepath_Base ''backend/go'' = ''go''" "filepath_Base ''backend/node'' = ''node''" "filepath_Base ''backend/python'' = ''python''"
    by (simp_all add: filepath_Base_def)
  obtain r1 r2 r3 r4 e1 e2 e3 e4 where rs: "rs = r1 @ r2 @ r3 @ r4"
    and p: "scan_dir walk ParseGoFiles ''backend/go'' (''go:'' @ ''go'') = Some (r1, e1)" "scan_dir walk ParseTSFiles ''backend/node'' (''node:'' @ ''node'') = Some (r2, e2)"
      "scan_dir walk ParsePyFiles ''backend/python'' (''python:'' @ ''python'') = Some (r3, e3)" "scan_dir walk ParseTSXFiles ''frontend/src'' ''node:ssr'' = Some (r4, e4)"
    using assms(1) unfolding collect_def default_dirs_def source_dirs.select_convs b by (force dest!: join_parsed_SomeD)
  show ?thesis
    using scan_dir_worker [OF parsed_worker(1) p(1)] scan_dir_worker [OF parsed_worker(2) p(2)]
      scan_dir_worker [OF parsed_worker(3) p(3)] scan_dir_worker [OF parsed_worker(4) p(4)] assms(2) rs by auto
qed

text \<open>
  C13: The routes of a new project lead nowhere: the scanner names the worker of a route after the default directory it lies in, as \<open>node:node\<close>, while the
  only worker in the manifest of a new project is \<open>node:api\<close>. However start-up goes, every message the gateway sends for an annotated route fails as
  not connected.
\<close>
theorem new_project_routes_unreachable:
  assumes "collect walk default_dirs = Some (rs, es)" and "r \<in> set rs"
    and "startServices O1 E U ctx X (new_project_config name) setupCoreServices = (q, st)"
    and "dom (tp_connections t) \<subseteq> dom (tp_listeners (su_transport st))"
  shows "Send t (re_WorkerID (entry_of r)) msg fails = (Some (WErrorf ErrWorkerNotConnected ('': '' @ rt_WorkerID r)), t)"
proof -
  have "spawnWorkers (new_project_config name) = [''node:api'']"
    by (simp add: spawnWorkers_def spawnWorker_def new_project_config_def replicas_of_def buildWorkerID_def)
  then have "dom (tp_listeners (su_transport st)) \<subseteq> {''node:api''}"
    using started_pools_and_sockets(2) [of O1 E U ctx X "new_project_config name"] assms(3) by simp
  moreover have "rt_WorkerID r \<noteq> ''node:api''" using collected_workers [OF assms(1,2)] by auto
  ultimately have "tp_connections t (rt_WorkerID r) = None" using assms(4) by blast
  then show ?thesis by (simp add: entry_of_def Send_def getConn_def)
qed

section \<open>Examples\<close>

definition ex_annotate :: annotate_env where
  "ex_annotate = \<lparr>an_walk = (\<lambda>_. []), an_marshal = (\<lambda>_. Inr ''{}''), an_mkdir = (\<lambda>_. None), an_write = (\<lambda>_. None)\<rparr>"

definition ex_shell :: "go_error option \<Rightarrow> shell" where
  "ex_shell yaml =
     \<lparr>sl_MkdirAll = (\<lambda>_. None), sl_WriteFile = (\<lambda>_. None), sl_LookPath = (\<lambda>_. Some ''/bin/va''), sl_getenv = (\<lambda>_. []),
      sl_run = (\<lambda>argv fs. if hd argv = ''/bin/va'' then annotate_main ex_annotate (tl argv) fs else (None, fs)),
      sl_yaml = (\<lambda>_. yaml), sl_json = (\<lambda>_. None), sl_workers = (\<lambda>_. Inr [(''node:api'', ''node x.js'', [])]), sl_marshal = (\<lambda>_. Inr []),
      sl_unmarshal = (\<lambda>_ _. Inr (new_project_config ''app'')), sl_provision = ex_prov\<lparr>pe_request := (\<lambda>_. Some (Sentinel ''net/http: nil Context''))\<rparr>\<rparr>"

definition ex_session :: session where
  "ex_session = \<lparr>cs_dirs = {}, cs_files = [''vyx.yaml'' \<mapsto> []], cs_notices = [], cs_runs = [], cs_world = ex_world []\<rparr>"

lemma ex_plain: "plain ''app''" "plain ''a: b''"
  by (simp_all add: plain_def)

lemma ex_no_app: "\<not> stat_ok ex_session n" if "n \<noteq> ''vyx.yaml''"
  using that by (simp add: stat_ok_def ex_session_def)

theorem scaffold_creates_project_witness:
  "case scaffoldProject (ex_shell None) ''app'' ex_session of
     (None, s') \<Rightarrow> cs_files s' (filepath_Join [''app'', ''vyx.yaml'']) = Some (defaultVyxYAML ''app'')
   | (Some err, s') \<Rightarrow> False"
proof -
  have n: "fst (make_dirs (ex_shell None) root ds s) = None" for root ds s
    by (induction ds arbitrary: s) (simp_all add: MkdirAll_def ex_shell_def)
  have g: "fst (add_gitignore (ex_shell None) root s) = None" for root s
    by (simp add: add_gitignore_def WriteFile_def ex_shell_def Let_def split: option.split)
  obtain s1 where m: "make_dirs (ex_shell None) ''app'' project_dirs ex_session = (None, s1)"
    using n [of "''app''" project_dirs ex_session] by (metis prod.collapse)
  have "fst (scaffoldProject (ex_shell None) ''app'' ex_session) = None"
    using m g ex_no_app [of "''app''"] by (simp add: scaffoldProject_def plain_root(1) [OF ex_plain(1)] WriteFile_def ex_shell_def Let_def)
  then show ?thesis using scaffold_creates_project [OF ex_plain(1), of ex_session "ex_shell None"] by (auto split: prod.splits option.splits)
qed

theorem invalid_name_blocks_retry_witness:
  "\<exists>s'. scaffoldProject (ex_shell (Some EOF)) ''a: b'' ex_session = (Some (ErrorfW ''generated vyx.yaml is invalid: '' EOF), s') \<and>
     fst (scaffoldProject (ex_shell (Some EOF)) ''a: b'' s') \<noteq> None"
proof -
  have s: "\<not> stat_ok ex_session ''a: b''" by (rule ex_no_app) simp
  have e: "sl_MkdirAll (ex_shell (Some EOF)) p = None" "sl_yaml (ex_shell (Some EOF)) (defaultVyxYAML ''a: b'') = Some EOF" for p
    by (simp_all add: ex_shell_def)
  show ?thesis using invalid_name_blocks_retry [OF ex_plain(2) s e] by (metis fst_conv option.distinct(1))
qed

theorem new_project_loads_witness:
  "Load (config_files (ex_shell None) (snd (cmdNew (ex_shell None) ''app'' ex_session))) (New_loader (filepath_Join [''app'', ''vyx.yaml''])) =
     Inr (new_project_config ''app'')"
proof -
  have c: "cmdNew (ex_shell None) ''app'' ex_session = (0, snd (cmdNew (ex_shell None) ''app'' ex_session))"
    by (simp add: cmdNew_def MkdirAll_def WriteFile_def ex_shell_def)
  show ?thesis by (rule new_project_loads [OF c]) (simp_all add: ex_shell_def)
qed

lemma ex_annotated: "annotate_main ex_annotate as fs = (None, fs(''route_map.json'' \<mapsto> ''{}''))"
proof -
  have "collect (\<lambda>_. []) default_dirs = Some ([], [])"
    by (simp add: collect_def default_dirs_def scan_dir_def ParseGoFiles_def ParseTSFiles_def ParsePyFiles_def ParseTSXFiles_def join_parsed_def)
  then show ?thesis by (simp add: annotate_main_def runAnnotateWithFlags_def Generate_def ex_annotate_def Validate_routes_def)
qed

theorem build_output_is_not_written_witness:
  "RouteMapWritten ''out.json'' \<in> set (cs_notices (snd (vyx_main (ex_shell None) [''build'', ''-output'', ''out.json''] ex_session))) \<and>
   cs_files (snd (vyx_main (ex_shell None) [''build'', ''-output'', ''out.json''] ex_session)) ''out.json'' = None"
proof -
  let ?r = "vyx_main (ex_shell None) [''build'', ''-output'', ''out.json''] ex_session"
  have l: "sl_LookPath (ex_shell None) ''vyx-annotate'' = Some ''/bin/va''" "''/bin/va'' \<noteq> []" "''out.json'' \<noteq> ''route_map.json''"
    and r: "sl_run (ex_shell None) (''/bin/va'' # as) fs = annotate_main ex_annotate as fs" "snd (sl_run (ex_shell None) (''go'' # as) fs) = fs" for as fs
    by (simp_all add: ex_shell_def)
  have "fst ?r = 0"
    by (simp add: vyx_main_def runBuild_def flag_name_def split_value_def scan_flags_def flag_or_def runAnnotateCmd_def run_in_def runCommand_def ex_shell_def ex_annotated Let_def)
  then have v: "?r = (0, snd ?r)" by (metis prod.collapse)
  show ?thesis using build_output_is_not_written [OF l(1,2) r l(3) v] by (simp add: ex_session_def)
qed

theorem dev_starts_production_witness:
  "\<exists>core_args extra. last (cs_runs (snd (vyx_main (ex_shell None) [''dev'', ''-addr'', '':9000''] ex_session))) = (''.vyx/core'' # core_args, extra) \<and>
     core_main core_args = RunServer False False"
proof -
  let ?r = "vyx_main (ex_shell None) [''dev'', ''-addr'', '':9000''] ex_session"
  have p: "parse_flags [''config'', ''addr''] [''-addr'', '':9000''] Map.empty = Parsed [''addr'' \<mapsto> '':9000'']"
    by (simp add: flag_name_def split_value_def Let_def)
  have "fst (runDev (ex_shell None) [''-addr'', '':9000''] ex_session) = 0"
    unfolding runDev_def p by (simp add: flag_or_def stat_ok_def ex_session_def runCommand_def run_in_def ex_shell_def Let_def)
  then have v: "?r = (0, snd ?r)" by (simp add: vyx_main_def prod_eq_iff)
  show ?thesis using dev_starts_production [OF p v] by blast
qed

theorem dev_never_downloads_witness:
  "wd_downloads (cs_world (snd (vyx_main (ex_shell None) [''dev''] ex_session))) = [] \<and> fst (Ensure (sl_provision (ex_shell None)) RuntimeNode ''20'' ''.vyx'' (ex_world [])) \<noteq> None"
proof -
  have r: "pe_request (sl_provision (ex_shell None)) url \<noteq> None" for url by (simp add: ex_shell_def)
  have w: "\<not> exists_file (ex_world []) p" "wd_downloads (cs_world ex_session) = []" for p by (simp_all add: exists_file_def ex_world_def ex_session_def)
  show ?thesis using dev_never_downloads [OF r, of "[]" ex_session "ex_world []" "''20''"] w by simp
qed

definition ex_backend :: "string \<Rightarrow> file_entry list" where
  "ex_backend dir =
     (if dir = ''backend/go''
      then [\<lparr>fe_path = ''backend/go/a.go'', fe_name = ''a.go'', fe_skip = False, fe_open = Inr (unlines (go_block (ex_route ''GET'' ''/a'' [''admin''] [])))\<rparr>]
      else [])"

lemma ex_backend_collected: "\<exists>r es. collect ex_backend default_dirs = Some ([r], es)"
proof -
  let ?r = "ex_route ''GET'' ''/a'' [''admin''] []"
  have a: "annotatable ?r"
    by (simp add: annotatable_def ex_route_def token_def rx_word_def ToUpper_def upper_char_def is_space_def go_block_def
        route_annot_def validate_annot_def auth_annot_def quoted_def maxScanTokenSize_def)
  have "idle scan_init \<and> list_all annotatable [?r]" using a by (simp add: idle_def scan_init_def)
  then obtain s where s: "scan_all (go_line ''backend/go/a.go'' ''go:go'') (go_block ?r) scan_init = Some s" "idle s" "ss_errs s = []"
      "ss_routes s = [?r\<lparr>rt_File := ''backend/go/a.go'', rt_WorkerID := ''go:go'', rt_Line := 1\<rparr>]"
    using scan_go_block [of ?r scan_init "''backend/go/a.go''" "''go:go''"] by (auto simp: scan_init_def)
  have l: "scan_lines (unlines (go_block ?r)) = go_block ?r" using go_block_lines [OF a] by (intro scan_lines_unlines) blast
  have b: "filepath_Base ''backend/go'' = ''go''" by (simp add: filepath_Base_def)
  have "scan_dir ex_backend ParseGoFiles ''backend/go'' (''go:'' @ filepath_Base ''backend/go'') =
      Some ([?r\<lparr>rt_File := ''backend/go/a.go'', rt_WorkerID := ''go:go'', rt_Line := 1\<rparr>], [])"
    using s(2) by (simp add: scan_dir_def ParseGoFiles_def ex_backend_def b HasSuffix_def HasPrefix_def parseGoFile_def l s result_of_def add_pending_def idle_def)
  moreover have "ex_backend ''backend/node'' = []" "ex_backend ''backend/python'' = []" "ex_backend ''frontend/src'' = []" by (simp_all add: ex_backend_def)
  ultimately show ?thesis
    by (simp add: collect_def default_dirs_def join_parsed_def) (simp add: scan_dir_def ParseTSFiles_def ParsePyFiles_def ParseTSXFiles_def)
qed

theorem new_project_routes_unreachable_witness:
  "\<exists>r es. collect ex_backend default_dirs = Some ([r], es) \<and>
     Send NewTransport (re_WorkerID (entry_of r)) ex_hello None = (Some (WErrorf ErrWorkerNotConnected ('': '' @ rt_WorkerID r)), NewTransport)"
proof -
  let ?s = "startServices ex_os ex_env (\<lambda>_. Inr []) ex_context (\<lambda>_. ex_instance [Inr ex_hello]) (new_project_config ''app'') setupCoreServices"
  obtain r es where r: "collect ex_backend default_dirs = Some ([r], es)" using ex_backend_collected by blast
  have m: "r \<in> set [r]" and s: "?s = (fst ?s, snd ?s)" and c: "dom (tp_connections NewTransport) \<subseteq> dom (tp_listeners (su_transport (snd ?s)))"
    by (simp_all add: NewTransport_def)
  show ?thesis using r new_project_routes_unreachable [OF r m s c] by blast
qed

end
