(* ===== verification/JsonValues.thy ===== *)
theory JsonValues
  imports Framing Complex_Main "HOL-Library.List_Lexorder" "HOL-Library.Char_ord"
begin

text \<open>
  What the example workers use of Go's \<open>encoding/json\<close> and \<open>fmt\<close>: JSON values, the decoding of a value into the fields of a
  struct, the text \<open>fmt.Sprintf("%v", x)\<close> gives for a decoded value, the order in which a Go map is printed, and the base64 text
  of a byte slice. The scanner and the printer of JSON texts and the conversion of decimal literals to \<open>float64\<close> are parameters,
  grouped in \<open>json_env\<close>.
\<close>

section \<open>Values\<close>

text \<open>A number keeps its literal, and an object its members in the order of the text, repeated keys included.\<close>

datatype json =
    JNull
  | JBool bool
  | JNumber string
  | JString string
  | JArray "json list"
  | JObject "(string \<times> json) list"

text \<open>
  \<open>je_parse\<close> reads a text and \<open>je_print\<close> writes one; \<open>je_float\<close> is the \<open>float64\<close> nearest to a literal, \<open>None\<close> when it is out of
  range; \<open>je_show\<close> and \<open>je_format\<close> are the texts \<open>json.Marshal\<close> and \<open>%v\<close> give for a \<open>float64\<close>.
\<close>

record json_env =
  je_parse :: "bytes \<Rightarrow> go_error + json"
  je_print :: "json \<Rightarrow> bytes"
  je_float :: "string \<Rightarrow> rat option"
  je_show :: "rat \<Rightarrow> string"
  je_format :: "rat \<Rightarrow> string"

section \<open>Decoding into a struct\<close>

text \<open>
  Keys are compared without regard to case. Besides the ASCII letters two runes fold to one: U+017F to S and U+212A to K.
\<close>

fun foldName :: "string \<Rightarrow> string" where
  "foldName [] = []"
| "foldName (c # s) =
     (if take 2 (c # s) = [CHR 0xC5, CHR 0xBF] then CHR ''S'' # foldName (drop 1 s)
      else if take 3 (c # s) = [CHR 0xE2, CHR 0x84, CHR 0xAA] then CHR ''K'' # foldName (drop 2 s)
      else upper_char c # foldName s)"

text \<open>
  A field is its key and the way a value is stored into it, \<open>None\<close> when the value has the wrong type. Members of an object
  are stored in their order, unknown keys are skipped, \<open>null\<close> leaves the struct as it is, and any other value is refused.
\<close>

type_synonym 'a field = "string \<times> (json \<Rightarrow> 'a \<Rightarrow> 'a option)"

definition set_member :: "'a field list \<Rightarrow> string \<Rightarrow> json \<Rightarrow> 'a \<Rightarrow> 'a option" where
  "set_member fs k v x =
     (case find (\<lambda>f. foldName (fst f) = foldName k) fs of None \<Rightarrow> Some x | Some f \<Rightarrow> snd f v x)"

fun set_members :: "'a field list \<Rightarrow> (string \<times> json) list \<Rightarrow> 'a \<Rightarrow> 'a option" where
  "set_members fs [] x = Some x"
| "set_members fs ((k, v) # ms) x = (case set_member fs k v x of None \<Rightarrow> None | Some y \<Rightarrow> set_members fs ms y)"

fun decode_struct :: "'a field list \<Rightarrow> json \<Rightarrow> 'a \<Rightarrow> 'a option" where
  "decode_struct fs JNull x = Some x"
| "decode_struct fs (JObject ms) x = set_members fs ms x"
| "decode_struct fs _ x = None"

text \<open>\<open>json.Unmarshal\<close> of a raw message; an absent one is an empty text, which is an error.\<close>

definition Unmarshal :: "'a field list \<Rightarrow> json option \<Rightarrow> 'a \<Rightarrow> 'a option" where
  "Unmarshal fs raw x = (case raw of None \<Rightarrow> None | Some v \<Rightarrow> decode_struct fs v x)"

fun set_string :: "((string \<Rightarrow> string) \<Rightarrow> 'a \<Rightarrow> 'a) \<Rightarrow> json \<Rightarrow> 'a \<Rightarrow> 'a option" where
  "set_string upd (JString s) x = Some (upd (\<lambda>_. s) x)"
| "set_string upd JNull x = Some x"
| "set_string upd _ x = None"

fun set_string_ptr :: "((string option \<Rightarrow> string option) \<Rightarrow> 'a \<Rightarrow> 'a) \<Rightarrow> json \<Rightarrow> 'a \<Rightarrow> 'a option" where
  "set_string_ptr upd (JString s) x = Some (upd (\<lambda>_. Some s) x)"
| "set_string_ptr upd JNull x = Some (upd (\<lambda>_. None) x)"
| "set_string_ptr upd _ x = None"

fun set_bool_ptr :: "((bool option \<Rightarrow> bool option) \<Rightarrow> 'a \<Rightarrow> 'a) \<Rightarrow> json \<Rightarrow> 'a \<Rightarrow> 'a option" where
  "set_bool_ptr upd (JBool b) x = Some (upd (\<lambda>_. Some b) x)"
| "set_bool_ptr upd JNull x = Some (upd (\<lambda>_. None) x)"
| "set_bool_ptr upd _ x = None"

text \<open>A literal is stored into an \<open>int\<close> only when it is an integer of 64 bits without fraction and exponent.\<close>

definition is_digit_char :: "char \<Rightarrow> bool" where
  "is_digit_char c = (48 \<le> (of_char c :: nat) \<and> (of_char c :: nat) \<le> 57)"

definition digits_value :: "string \<Rightarrow> int" where
  "digits_value s = foldl (\<lambda>n c. 10 * n + (of_char c - 48)) 0 s"

definition ParseInt :: "string \<Rightarrow> 64 word option" where
  "ParseInt l =
     (let neg = (l \<noteq> [] \<and> hd l = CHR ''-''); ds = (if neg then tl l else l);
          n = (if neg then - digits_value ds else digits_value ds)
      in if ds = [] \<or> \<not> list_all is_digit_char ds \<or> n < - (2 ^ 63) \<or> 2 ^ 63 \<le> n then None else Some (word_of_int n))"

fun set_int :: "((64 word \<Rightarrow> 64 word) \<Rightarrow> 'a \<Rightarrow> 'a) \<Rightarrow> json \<Rightarrow> 'a \<Rightarrow> 'a option" where
  "set_int upd (JNumber l) x = map_option (\<lambda>n. upd (\<lambda>_. n) x) (ParseInt l)"
| "set_int upd JNull x = Some x"
| "set_int upd _ x = None"

fun set_float :: "json_env \<Rightarrow> ((rat \<Rightarrow> rat) \<Rightarrow> 'a \<Rightarrow> 'a) \<Rightarrow> json \<Rightarrow> 'a \<Rightarrow> 'a option" where
  "set_float E upd (JNumber l) x = map_option (\<lambda>f. upd (\<lambda>_. f) x) (je_float E l)"
| "set_float E upd JNull x = Some x"
| "set_float E upd _ x = None"

text \<open>
  A \<open>map[string]string\<close> keeps the entries it has, a later member replaces an earlier one, and \<open>null\<close> among the members
  stores the empty string; \<open>null\<close> for the whole map empties it.
\<close>

fun json_string_value :: "json \<Rightarrow> string option" where
  "json_string_value (JString s) = Some s"
| "json_string_value JNull = Some []"
| "json_string_value _ = None"

fun set_map :: "(((string \<rightharpoonup> string) \<Rightarrow> (string \<rightharpoonup> string)) \<Rightarrow> 'a \<Rightarrow> 'a) \<Rightarrow> json \<Rightarrow> 'a \<Rightarrow> 'a option" where
  "set_map upd (JObject ms) x =
     (if list_all (\<lambda>(k, v). json_string_value v \<noteq> None) ms
      then Some (upd (\<lambda>m. m ++ map_of (rev (map (\<lambda>(k, v). (k, the (json_string_value v))) ms))) x) else None)"
| "set_map upd JNull x = Some (upd (\<lambda>_. Map.empty) x)"
| "set_map upd _ x = None"

text \<open>A value of type \<open>any\<close> is refused only for a number no \<open>float64\<close> can hold.\<close>

fun any_ok :: "json_env \<Rightarrow> json \<Rightarrow> bool" where
  "any_ok E (JNumber l) = (je_float E l \<noteq> None)"
| "any_ok E (JArray vs) = list_all (any_ok E) vs"
| "any_ok E (JObject ms) = list_all (\<lambda>(k, v). any_ok E v) ms"
| "any_ok E _ = True"

fun set_any_map :: "json_env \<Rightarrow> (((string \<rightharpoonup> json) \<Rightarrow> (string \<rightharpoonup> json)) \<Rightarrow> 'a \<Rightarrow> 'a) \<Rightarrow> json \<Rightarrow> 'a \<Rightarrow> 'a option" where
  "set_any_map E upd (JObject ms) x =
     (if list_all (\<lambda>(k, v). any_ok E v) ms then Some (upd (\<lambda>m. m ++ map_of (rev ms)) x) else None)"
| "set_any_map E upd JNull x = Some (upd (\<lambda>_. Map.empty) x)"
| "set_any_map E upd _ x = None"

section \<open>Texts\<close>

text \<open>Maps are printed in the order of their keys, one entry for each.\<close>

definition in_key_order :: "(string \<times> 'v) list \<Rightarrow> (string \<times> 'v) list" where
  "in_key_order ms = map (\<lambda>k. (k, the (map_of (rev ms) k))) (sort (remdups (map fst ms)))"

fun join_words :: "string list \<Rightarrow> string" where
  "join_words [] = []"
| "join_words [w] = w"
| "join_words (w # ws) = w @ '' '' @ join_words ws"

fun Sprintf_v :: "json_env \<Rightarrow> json \<Rightarrow> string" where
  "Sprintf_v E JNull = ''<nil>''"
| "Sprintf_v E (JBool b) = (if b then ''true'' else ''false'')"
| "Sprintf_v E (JNumber l) = (case je_float E l of Some f \<Rightarrow> je_format E f | None \<Rightarrow> [])"
| "Sprintf_v E (JString s) = s"
| "Sprintf_v E (JArray vs) = ''['' @ join_words (map (Sprintf_v E) vs) @ '']''"
| "Sprintf_v E (JObject ms) =
     ''map['' @ join_words (map (\<lambda>(k, t). k @ '':'' @ t) (in_key_order (map (\<lambda>(k, v). (k, Sprintf_v E v)) ms))) @ '']''"

text \<open>A \<open>map[string]string\<close> as a JSON object, for a list of its keys.\<close>

definition map_json :: "string list \<Rightarrow> (string \<rightharpoonup> string) \<Rightarrow> json" where
  "map_json ks m = JObject (map (\<lambda>k. (k, JString (the (m k)))) (sort (remdups ks)))"

text \<open>A \<open>[]byte\<close> is printed as the base64 text of its bytes.\<close>

definition base64_char :: "nat \<Rightarrow> char" where
  "base64_char n = ''ABCDEFGHIJKLMNOPQRSTUVWXYZabcdefghijklmnopqrstuvwxyz0123456789+/'' ! (n mod 64)"

fun base64 :: "bytes \<Rightarrow> string" where
  "base64 [] = []"
| "base64 [a] = (let n = unat a * 2 ^ 16 in [base64_char (n div 2 ^ 18), base64_char (n div 2 ^ 12), CHR ''='', CHR ''=''])"
| "base64 [a, b] = (let n = unat a * 2 ^ 16 + unat b * 2 ^ 8
     in [base64_char (n div 2 ^ 18), base64_char (n div 2 ^ 12), base64_char (n div 2 ^ 6), CHR ''=''])"
| "base64 (a # b # c # bs) = (let n = unat a * 2 ^ 16 + unat b * 2 ^ 8 + unat c
     in [base64_char (n div 2 ^ 18), base64_char (n div 2 ^ 12), base64_char (n div 2 ^ 6), base64_char n]) @ base64 bs"

section \<open>Facts\<close>

lemma decode_struct_string [simp]: "decode_struct fs (JString s) x = None"
  by simp

text \<open>A decoder whose setters keep a predicate keeps it.\<close>

lemma set_members_invariant:
  assumes "\<And>n f v y z. (n, f) \<in> set fs \<Longrightarrow> P y \<Longrightarrow> f v y = Some z \<Longrightarrow> P z"
  shows "P x \<Longrightarrow> set_members fs ms x = Some y \<Longrightarrow> P y"
proof (induction ms arbitrary: x)
  case (Cons m ms)
  obtain k v where m: "m = (k, v)" by fastforce
  from Cons.prems(2) obtain z where z: "set_member fs k v x = Some z" "set_members fs ms z = Some y"
    by (auto simp: m split: option.splits)
  have "P z"
    using z(1) Cons.prems(1) assms by (auto simp: set_member_def find_Some_iff split: option.splits) (metis nth_mem prod.collapse)
  then show ?case using Cons.IH z(2) by blast
qed simp

text \<open>Members with unknown keys leave the struct alone, so a later field is all that matters.\<close>

lemma set_members_append:
  "set_members fs (ms @ ms') x = (case set_members fs ms x of None \<Rightarrow> None | Some y \<Rightarrow> set_members fs ms' y)"
  by (induction ms arbitrary: x) (auto split: option.splits)

lemma set_map_map_json:
  assumes "set ks = dom m"
  shows "set_map upd (map_json ks m) x = Some (upd (\<lambda>m'. m' ++ m) x)"
proof -
  let ?ms = "map (\<lambda>k. (k, JString (the (m k)))) (sort (remdups ks))"
  have "list_all (\<lambda>(k, v). json_string_value v \<noteq> None) ?ms" by (simp add: list_all_iff)
  moreover have "map_of (rev (map (\<lambda>(k, v). (k, the (json_string_value v))) ?ms)) = m"
  proof
    fix k
    have "map_of (rev (map (\<lambda>k. (k, the (m k))) (sort (remdups ks)))) k = (if k \<in> set ks then Some (the (m k)) else None)"
      by (simp add: rev_map map_of_map_restrict restrict_map_def comp_def)
    then show "map_of (rev (map (\<lambda>(k, v). (k, the (json_string_value v))) ?ms)) k = m k"
      using assms by (auto simp: comp_def)
  qed
  ultimately show ?thesis by (simp add: map_json_def)
qed

end
