(* ===== verification/WorkerLoop.thy ===== *)
theory WorkerLoop
  imports JsonValues Dispatcher Health
begin

text \<open>
  A worker in Go, as the examples write it: the frames and the main loop that the four \<open>examples/*/workers/go/main.go\<close> share,
  the handlers of \<open>hello-world\<close>, and the request payload the gateway sends them. The connection delivers its bytes in chunks of any
  size, so that what a \<open>Read\<close> returns is not assumed to be a whole frame.

  A dispatcher of a worker takes the number of the call: what differs from call to call without being part of the state, the
  clock and the iteration order of maps, is a function of it.
\<close>

section \<open>Types of the protocol\<close>

record worker_frame =
  fr_Length :: "32 word"
  fr_MsgType :: message_type
  fr_Payload :: bytes

record worker_request =
  wq_Method :: string
  wq_Path :: string
  wq_Headers :: "string \<rightharpoonup> string"
  wq_Query :: "string \<rightharpoonup> string"
  wq_Params :: "string \<rightharpoonup> string"
  wq_Body :: "json option"
  wq_Claims :: "string \<rightharpoonup> json"

definition zero_request :: worker_request where
  "zero_request = \<lparr>wq_Method = [], wq_Path = [], wq_Headers = Map.empty, wq_Query = Map.empty, wq_Params = Map.empty,
     wq_Body = None, wq_Claims = Map.empty\<rparr>"

text \<open>The map of headers is a literal of the program: its entries in the order of their keys.\<close>

record worker_reply =
  wa_StatusCode :: int
  wa_Headers :: "(string \<times> string) list"
  wa_Body :: json
  wa_CorrelationID :: string

definition request_fields :: "json_env \<Rightarrow> worker_request field list" where
  "request_fields E =
     [(''method'', set_string wq_Method_update), (''path'', set_string wq_Path_update), (''headers'', set_map wq_Headers_update),
      (''query'', set_map wq_Query_update), (''params'', set_map wq_Params_update),
      (''body'', \<lambda>v r. Some (r\<lparr>wq_Body := Some v\<rparr>)), (''claims'', set_any_map E wq_Claims_update)]"

definition decode_request :: "json_env \<Rightarrow> bytes \<Rightarrow> worker_request option" where
  "decode_request E p = (case je_parse E p of Inl err \<Rightarrow> None | Inr v \<Rightarrow> decode_struct (request_fields E) v zero_request)"

definition reply_json :: "worker_reply \<Rightarrow> json" where
  "reply_json r =
     JObject ([(''status_code'', JNumber (Itoa (wa_StatusCode r))),
               (''headers'', JObject (map (\<lambda>(k, v). (k, JString v)) (wa_Headers r))), (''body'', wa_Body r)] @
              (if wa_CorrelationID r = [] then [] else [(''correlation_id'', JString (wa_CorrelationID r))]))"

definition json_reply :: "int \<Rightarrow> json \<Rightarrow> worker_reply" where
  "json_reply status body =
     \<lparr>wa_StatusCode = status, wa_Headers = [(''Content-Type'', ''application/json'')], wa_Body = body, wa_CorrelationID = []\<rparr>"

definition error_reply :: "int \<Rightarrow> string \<Rightarrow> worker_reply" where
  "error_reply status msg = json_reply status (JObject [(''error'', JString msg)])"

definition handshake_json :: "string \<Rightarrow> capability list \<Rightarrow> json" where
  "handshake_json wid caps =
     JObject [(''worker_id'', JString wid),
       (''capabilities'', JArray (map (\<lambda>c. JObject [(''path'', JString (cap_Path c)), (''method'', JString (cap_Method c))]) caps))]"

section \<open>The connection\<close>

text \<open>
  \<open>wc_in\<close> are the chunks still to arrive and \<open>wc_end\<close> the error every \<open>Read\<close> returns after them; \<open>wc_out\<close> are the bytes that went
  out, and \<open>wc_fail\<close> says which calls of \<open>Write\<close> fail and after how many bytes.
\<close>

record worker_conn =
  wc_in :: "bytes list"
  wc_end :: go_error
  wc_out :: bytes
  wc_writes :: nat
  wc_fail :: "nat \<Rightarrow> (nat \<times> go_error) option"

definition conn_Write :: "worker_conn \<Rightarrow> bytes \<Rightarrow> go_error option \<times> worker_conn" where
  "conn_Write c bs =
     (case wc_fail c (wc_writes c) of
        None \<Rightarrow> (None, c\<lparr>wc_out := wc_out c @ bs, wc_writes := wc_writes c + 1\<rparr>)
      | Some (n, err) \<Rightarrow> (Some err, c\<lparr>wc_out := wc_out c @ take n bs, wc_writes := wc_writes c + 1\<rparr>))"

definition writeFrame :: "worker_conn \<Rightarrow> message_type \<Rightarrow> bytes \<Rightarrow> go_error option \<times> worker_conn" where
  "writeFrame c msgType payload = conn_Write c ((PutUint32 (of_nat (length payload)) @ [msgType]) @ payload)"

text \<open>\<open>conn.Read\<close> fills at most \<open>n\<close> bytes from the first chunk and leaves the rest of it.\<close>

fun conn_Read :: "go_error \<Rightarrow> bytes list \<Rightarrow> nat \<Rightarrow> (go_error + bytes) \<times> bytes list" where
  "conn_Read err [] n = (Inl err, [])"
| "conn_Read err (b # bs) n = (if length b \<le> n then (Inr b, bs) else (Inr (take n b), drop n b # bs))"

lemma conn_Read_progress: "conn_Read err bs n = (Inr got, bs') \<Longrightarrow> 0 < n \<Longrightarrow> length bs' + (n - length got) < length bs + n"
  by (cases bs) (auto split: if_splits)

text \<open>The loop of \<open>readFull\<close>: \<open>acc\<close> is the part of the buffer that is filled.\<close>

function readFull :: "go_error \<Rightarrow> bytes list \<Rightarrow> nat \<Rightarrow> bytes \<Rightarrow> (go_error + bytes) \<times> bytes list" where
  "readFull err bs n acc =
     (if length acc < n
      then (case conn_Read err bs (n - length acc) of
              (Inl e, bs') \<Rightarrow> (Inl e, bs')
            | (Inr got, bs') \<Rightarrow> readFull err bs' n (acc @ got))
      else (Inr acc, bs))"
  by pat_completeness auto
termination
proof (relation "measure (\<lambda>(err, bs, n, acc). length bs + (n - length acc))", goal_cases)
  case (2 err bs n acc r bs' got)
  then have "conn_Read err bs (n - length acc) = (Inr got, bs')" by simp
  with conn_Read_progress [OF this] 2(1) show ?case by simp
qed simp

declare readFull.simps [simp del]

definition readFrame :: "worker_conn \<Rightarrow> (go_error + worker_frame) \<times> worker_conn" where
  "readFrame c =
     (case readFull (wc_end c) (wc_in c) 5 [] of
        (Inl err, bs) \<Rightarrow> (Inl err, c\<lparr>wc_in := bs\<rparr>)
      | (Inr header, bs) \<Rightarrow>
          (let len = Uint32 (take 4 header); msgType = header ! 4
           in if 0 < len
              then (case readFull (wc_end c) bs (unat len) [] of
                      (Inl err, bs') \<Rightarrow> (Inl err, c\<lparr>wc_in := bs'\<rparr>)
                    | (Inr payload, bs') \<Rightarrow>
                        (Inr \<lparr>fr_Length = len, fr_MsgType = msgType, fr_Payload = payload\<rparr>, c\<lparr>wc_in := bs'\<rparr>))
              else (Inr \<lparr>fr_Length = len, fr_MsgType = msgType, fr_Payload = []\<rparr>, c\<lparr>wc_in := bs\<rparr>)))"

section \<open>Reading does not depend on the chunks\<close>

abbreviation remaining :: "worker_conn \<Rightarrow> bytes" where
  "remaining c \<equiv> concat (wc_in c)"

lemma readFull_concat:
  "if n - length acc \<le> length (concat bs)
   then \<exists>bs'. readFull err bs n acc = (Inr (acc @ take (n - length acc) (concat bs)), bs') \<and> concat bs' = drop (n - length acc) (concat bs)
   else \<exists>bs'. readFull err bs n acc = (Inl err, bs') \<and> concat bs' = []"
proof (induction err bs n acc rule: readFull.induct)
  case (1 err bs n acc)
  show ?case
  proof (cases "length acc < n")
    case True
    show ?thesis
    proof (cases bs)
      case Nil
      then have "readFull err bs n acc = (Inl err, [])" using True by (simp add: readFull.simps [of err "[]"])
      then show ?thesis using True Nil by simp
    next
      case (Cons b rest)
      obtain got bs' where r: "conn_Read err bs (n - length acc) = (Inr got, bs')"
        by (cases "length b \<le> n - length acc") (auto simp: Cons)
      have g: "length got \<le> n - length acc" "concat bs = got @ concat bs'" using r by (auto simp: Cons split: if_splits)
      have step: "readFull err bs n acc = readFull err bs' n (acc @ got)" using True r by (simp add: readFull.simps [of err bs])
      have "n - length (acc @ got) \<le> length (concat bs') \<longleftrightarrow> n - length acc \<le> length (concat bs)" using g by auto
      with 1 [OF True r [symmetric] refl] g show ?thesis unfolding step by (auto split: if_splits)
    qed
  qed (simp add: readFull.simps [of err bs])
qed

lemma readFull_enough:
  "n \<le> length (concat bs) \<Longrightarrow> \<exists>bs'. readFull err bs n [] = (Inr (take n (concat bs)), bs') \<and> concat bs' = drop n (concat bs)"
  using readFull_concat [of n "[]" bs err] by simp

lemma readFull_short: "length (concat bs) < n \<Longrightarrow> \<exists>bs'. readFull err bs n [] = (Inl err, bs') \<and> concat bs' = []"
  using readFull_concat [of n "[]" bs err] by simp

text \<open>What \<open>readFrame\<close> makes of the bytes of the stream, whatever their chunks.\<close>

definition frame_of_bytes :: "bytes \<Rightarrow> (worker_frame \<times> bytes) option" where
  "frame_of_bytes bs =
     (if length bs < 5 \<or> length bs - 5 < unat (Uint32 (take 4 bs)) then None
      else Some (\<lparr>fr_Length = Uint32 (take 4 bs), fr_MsgType = bs ! 4, fr_Payload = take (unat (Uint32 (take 4 bs))) (drop 5 bs)\<rparr>,
                 drop (unat (Uint32 (take 4 bs))) (drop 5 bs)))"

lemma readFrame_bytes:
  "case frame_of_bytes (remaining c) of
     None \<Rightarrow> \<exists>bs. readFrame c = (Inl (wc_end c), c\<lparr>wc_in := bs\<rparr>) \<and> concat bs = []
   | Some (f, rest) \<Rightarrow> \<exists>bs. readFrame c = (Inr f, c\<lparr>wc_in := bs\<rparr>) \<and> concat bs = rest"
proof (cases "length (remaining c) < 5")
  case True
  with readFull_short [OF True, of "wc_end c"] show ?thesis by (auto simp: readFrame_def frame_of_bytes_def)
next
  case False
  let ?b = "remaining c"
  let ?l = "Uint32 (take 4 ?b)"
  obtain bs where h: "readFull (wc_end c) (wc_in c) 5 [] = (Inr (take 5 ?b), bs)" "concat bs = drop 5 ?b"
    using readFull_enough [of 5 "wc_in c" "wc_end c"] False by auto
  have t: "take 4 (take 5 ?b) = take 4 ?b" "take 5 ?b ! 4 = ?b ! 4" by simp_all
  consider "?l = 0" | "0 < ?l" "unat ?l \<le> length (concat bs)" | "0 < ?l" "length (concat bs) < unat ?l"
    using word_neq_0_conv by (metis not_le)
  then show ?thesis
  proof cases
    case 1
    then show ?thesis using False h by (auto simp: readFrame_def frame_of_bytes_def t Let_def)
  next
    case 2
    then show ?thesis using False h readFull_enough [of "unat ?l" bs "wc_end c"]
      by (auto simp: readFrame_def frame_of_bytes_def t Let_def)
  next
    case 3
    then show ?thesis using False h readFull_short [of bs "unat ?l" "wc_end c"]
      by (auto simp: readFrame_def frame_of_bytes_def t Let_def)
  qed
qed

lemma readFrame_progress:
  assumes "readFrame c = (Inr f, c1)"
  shows "length (remaining c1) < length (remaining c)"
  using readFrame_bytes [of c] assms by (auto simp: frame_of_bytes_def split: option.splits if_splits)

section \<open>The main loop\<close>

type_synonym 's worker_dispatch = "nat \<Rightarrow> 's \<Rightarrow> worker_request \<Rightarrow> worker_reply \<times> 's"

definition serve_frame :: "json_env \<Rightarrow> 's worker_dispatch \<Rightarrow> nat \<Rightarrow> worker_frame \<Rightarrow> 's \<Rightarrow> worker_conn \<Rightarrow> 's \<times> worker_conn" where
  "serve_frame E D k f s c =
     (if fr_MsgType f = TypeHeartbeat then (s, snd (writeFrame c TypeHeartbeat []))
      else if fr_MsgType f = TypeRequest
      then (case decode_request E (fr_Payload f) of
              None \<Rightarrow> (s, c)
            | Some req \<Rightarrow>
                (case D k s req of
                   (resp, s') \<Rightarrow> (s', snd (writeFrame c TypeResponse (je_print E (reply_json resp))))))
      else (s, c))"

lemma writeFrame_in [simp]: "wc_in (snd (writeFrame c t p)) = wc_in c"
  by (simp add: writeFrame_def conn_Write_def split: option.splits prod.splits)

lemma serve_frame_in [simp]: "wc_in (snd (serve_frame E D k f s c)) = wc_in c"
  by (simp add: serve_frame_def split: option.splits prod.splits)

function worker_loop :: "json_env \<Rightarrow> 's worker_dispatch \<Rightarrow> nat \<Rightarrow> 's \<Rightarrow> worker_conn \<Rightarrow> 's \<times> worker_conn" where
  "worker_loop E D k s c =
     (case readFrame c of
        (Inl err, c1) \<Rightarrow> (s, c1)
      | (Inr f, c1) \<Rightarrow> (case serve_frame E D k f s c1 of (s', c2) \<Rightarrow> worker_loop E D (k + 1) s' c2))"
  by pat_completeness auto
termination
proof (relation "measure (\<lambda>(E, D, k, s, c). length (remaining c))", goal_cases)
  case (2 E D k s c r c1 f s' c2)
  have "remaining c2 = remaining c1" using 2(3) serve_frame_in [of E D k f s c1] by (metis snd_conv)
  moreover have "length (remaining c1) < length (remaining c)" using 2 by (intro readFrame_progress [of c f]) simp
  ultimately show ?case by simp
qed simp

declare worker_loop.simps [simp del]

lemma readFrame_out [simp]: "wc_out (snd (readFrame c)) = wc_out c"
  by (simp add: readFrame_def Let_def split: sum.splits prod.splits)

lemma serve_frame_out: "\<exists>r. wc_out (snd (serve_frame E D k f s c)) = wc_out c @ r"
  by (simp add: serve_frame_def writeFrame_def conn_Write_def split: option.splits prod.splits)

lemma serve_out: "\<exists>r. wc_out (snd (worker_loop E D k s c)) = wc_out c @ r"
proof (induction E D k s c rule: worker_loop.induct)
  case (1 E D k s c)
  obtain r c1 where c1: "readFrame c = (r, c1)" "wc_out c1 = wc_out c" using readFrame_out [of c] by (metis prod.collapse)
  show ?case
  proof (cases r)
    case (Inr f)
    obtain s' c2 where f: "serve_frame E D k f s c1 = (s', c2)" by fastforce
    have "worker_loop E D k s c = worker_loop E D (k + 1) s' c2" by (simp add: worker_loop.simps [of E D k s c] c1(1) Inr f)
    moreover have "\<exists>r. wc_out c2 = wc_out c @ r" using serve_frame_out [of E D k f s c1] f c1(2) by simp
    moreover have "\<exists>r. wc_out (snd (worker_loop E D (k + 1) s' c2)) = wc_out c2 @ r"
      using 1 [OF c1(1) [symmetric] Inr f [symmetric]] .
    ultimately show ?thesis by auto
  qed (use c1 in \<open>simp add: worker_loop.simps [of E D k s c]\<close>)
qed

text \<open>
  \<open>main\<close>: dial the socket the core names, send the handshake and a first heartbeat, then serve until the connection ends. The
  goroutine that exits on a signal is not modelled.
\<close>

datatype 's worker_end = Fatal string | Served 's worker_conn

definition worker_socket :: "bool \<Rightarrow> string option \<Rightarrow> string" where
  "worker_socket windows flag =
     (case flag of
        Some p \<Rightarrow> p
      | None \<Rightarrow> if windows then [CHR 0x5C, CHR 0x5C, CHR ''.'', CHR 0x5C] @ ''pipe'' @ [CHR 0x5C] @ ''vyx-go:api'' else ''/tmp/vyx/go:api.sock'')"

definition run_worker ::
  "json_env \<Rightarrow> 's worker_dispatch \<Rightarrow> 's \<Rightarrow> capability list \<Rightarrow> go_error + worker_conn \<Rightarrow> 's worker_end" where
  "run_worker E D s0 caps dialled =
     (case dialled of
        Inl err \<Rightarrow> Fatal (''[go:api] failed to connect to core: '' @ Error err)
      | Inr c \<Rightarrow>
          (case writeFrame c TypeHandshake (je_print E (handshake_json ''go:api'' caps)) of
             (Some err, c1) \<Rightarrow> Fatal (''[go:api] handshake failed: '' @ Error err)
           | (None, c1) \<Rightarrow>
               (case writeFrame c1 TypeHeartbeat [] of
                  (Some err, c2) \<Rightarrow> Fatal (''[go:api] initial heartbeat failed: '' @ Error err)
                | (None, c2) \<Rightarrow> (case worker_loop E D 0 s0 c2 of (s, c3) \<Rightarrow> Served s c3))))"

section \<open>The hello-world worker\<close>

definition handleHello :: "json_env \<Rightarrow> worker_request \<Rightarrow> worker_reply" where
  "handleHello E req =
     (let userID = (case wq_Claims req ''sub'' of Some sub \<Rightarrow> Sprintf_v E sub | None \<Rightarrow> [])
      in json_reply 200 (JObject [(''message'', JString ''Hello from the Go worker!''), (''user'', JString userID)]))"

record greet_body =
  gb_Name :: string

definition handleGreet :: "worker_request \<Rightarrow> worker_reply" where
  "handleGreet req =
     (case Unmarshal [(''name'', set_string gb_Name_update)] (wq_Body req) \<lparr>gb_Name = []\<rparr> of
        None \<Rightarrow> error_reply 400 ''invalid body''
      | Some body \<Rightarrow> json_reply 200 (JObject [(''message'', JString (''Hello, '' @ gb_Name body @ ''! Greetings from the Go worker.''))]))"

definition hello_dispatch :: "json_env \<Rightarrow> unit worker_dispatch" where
  "hello_dispatch E k s req =
     ((if wq_Method req = ''GET'' \<and> wq_Path req = ''/api/hello'' then handleHello E req
       else if wq_Method req = ''POST'' \<and> wq_Path req = ''/api/greet'' then handleGreet req
       else error_reply 404 ''route not found''), s)"

definition hello_main :: "json_env \<Rightarrow> bool \<Rightarrow> string option \<Rightarrow> (string \<Rightarrow> go_error + worker_conn) \<Rightarrow> unit worker_end" where
  "hello_main E windows flag dial =
     run_worker E (hello_dispatch E) ()
       [\<lparr>cap_Path = ''/api/hello'', cap_Method = ''GET''\<rparr>, \<lparr>cap_Path = ''/api/greet'', cap_Method = ''POST''\<rparr>]
       (dial (worker_socket windows flag))"

section \<open>What a worker promises\<close>

text \<open>The contract of the loop: one message in, the messages out and the next state.\<close>

definition session_step :: "json_env \<Rightarrow> 's worker_dispatch \<Rightarrow> nat \<Rightarrow> 's \<Rightarrow> message \<Rightarrow> message list \<times> 's" where
  "session_step E D k s m =
     (if m_Type m = TypeHeartbeat then ([\<lparr>m_Type = TypeHeartbeat, m_Payload = []\<rparr>], s)
      else if m_Type m = TypeRequest
      then (case decode_request E (m_Payload m) of
              None \<Rightarrow> ([], s)
            | Some req \<Rightarrow> ([\<lparr>m_Type = TypeResponse, m_Payload = je_print E (reply_json (fst (D k s req)))\<rparr>], snd (D k s req)))
      else ([], s))"

fun session :: "json_env \<Rightarrow> 's worker_dispatch \<Rightarrow> nat \<Rightarrow> 's \<Rightarrow> message list \<Rightarrow> message list \<times> 's" where
  "session E D k s [] = ([], s)"
| "session E D k s (m # ms) =
     (let (out, s') = session_step E D k s m; (outs, s'') = session E D (k + 1) s' ms in (out @ outs, s''))"

lemma writeFrame_frame:
  assumes "wc_fail c = (\<lambda>_. None)" and "length p < 2 ^ 32"
  shows "writeFrame c t p = (None, c\<lparr>wc_out := wc_out c @ frame \<lparr>m_Type = t, m_Payload = p\<rparr>, wc_writes := wc_writes c + 1\<rparr>)"
  using assms by (simp add: writeFrame_def conn_Write_def frame_small)

lemma frame_of_bytes_frame:
  assumes "length (m_Payload m) < 2 ^ 32"
  shows "frame_of_bytes (frame m @ rest) =
    Some (\<lparr>fr_Length = of_nat (length (m_Payload m)), fr_MsgType = m_Type m, fr_Payload = m_Payload m\<rparr>, rest)"
  using unat_len32 [OF assms] by (simp add: frame_of_bytes_def frame_small [OF assms] nth_append Uint32_PutUint32)

lemma readFrame_frame:
  assumes "length (m_Payload m) < 2 ^ 32" and "remaining c = frame m @ rest"
  shows "\<exists>f bs. readFrame c = (Inr f, c\<lparr>wc_in := bs\<rparr>) \<and> concat bs = rest \<and> fr_MsgType f = m_Type m \<and> fr_Payload f = m_Payload m"
  using readFrame_bytes [of c] by (simp add: assms(2) frame_of_bytes_frame [OF assms(1)]) force

lemma serve_frame_session:
  assumes "wc_fail c = (\<lambda>_. None)" and "\<forall>m' \<in> set (fst (session_step E D k s m)). length (m_Payload m') < 2 ^ 32"
    and "fr_MsgType f = m_Type m" and "fr_Payload f = m_Payload m"
  shows "fst (serve_frame E D k f s c) = snd (session_step E D k s m) \<and>
    wc_out (snd (serve_frame E D k f s c)) = wc_out c @ concat (map frame (fst (session_step E D k s m))) \<and>
    wc_fail (snd (serve_frame E D k f s c)) = (\<lambda>_. None)"
  using assms by (simp add: serve_frame_def session_step_def writeFrame_frame split_beta split: option.splits if_splits)

text \<open>The loop implements the contract, for every way the network may cut the stream.\<close>

lemma serve_session:
  assumes "wc_fail c = (\<lambda>_. None)" and "\<forall>m \<in> set ms. length (m_Payload m) < 2 ^ 32"
    and "\<forall>m \<in> set (fst (session E D k s ms)). length (m_Payload m) < 2 ^ 32" and "remaining c = concat (map frame ms)"
  shows "fst (worker_loop E D k s c) = snd (session E D k s ms) \<and>
    wc_out (snd (worker_loop E D k s c)) = wc_out c @ concat (map frame (fst (session E D k s ms)))"
  using assms
proof (induction ms arbitrary: k s c)
  case Nil
  have "frame_of_bytes (remaining c) = None" using Nil.prems(4) by (simp add: frame_of_bytes_def del: concat_eq_Nil_conv)
  with readFrame_bytes [of c] show ?case by (auto simp: worker_loop.simps [of E D k s c])
next
  case (Cons m ms)
  obtain f bs where f: "readFrame c = (Inr f, c\<lparr>wc_in := bs\<rparr>)" "concat bs = concat (map frame ms)"
      "fr_MsgType f = m_Type m" "fr_Payload f = m_Payload m"
    using readFrame_frame [of m c "concat (map frame ms)"] Cons.prems(2,4) by auto
  obtain out s' where st: "session_step E D k s m = (out, s')" by fastforce
  obtain outs s'' where ss: "session E D (Suc k) s' ms = (outs, s'')" by fastforce
  obtain c2 where c2: "serve_frame E D k f s (c\<lparr>wc_in := bs\<rparr>) = (s', c2)" "wc_out c2 = wc_out c @ concat (map frame out)"
      "wc_fail c2 = (\<lambda>_. None)" "remaining c2 = concat (map frame ms)"
    using serve_frame_session [of "c\<lparr>wc_in := bs\<rparr>" E D k s m f] f Cons.prems(1,3) serve_frame_in [of E D k f s "c\<lparr>wc_in := bs\<rparr>"]
    by (cases "serve_frame E D k f s (c\<lparr>wc_in := bs\<rparr>)") (auto simp: st ss)
  have "worker_loop E D k s c = worker_loop E D (Suc k) s' c2" by (simp add: worker_loop.simps [of E D k s c] f(1) c2(1))
  with Cons.IH [of c2 "Suc k" s'] c2 Cons.prems(2,3) show ?case by (simp add: st ss)
qed

lemma session_append:
  "session E D k s (ms @ ms') =
     (let (out, s') = session E D k s ms; (outs, s'') = session E D (k + length ms) s' ms' in (out @ outs, s''))"
  by (induction ms arbitrary: k s) (simp_all add: split_beta Let_def)

lemma session_types: "m \<in> set (fst (session E D k s ms)) \<Longrightarrow> m_Type m \<in> {TypeHeartbeat, TypeResponse}"
proof (induction ms arbitrary: k s)
  case (Cons m' ms)
  have "\<forall>m \<in> set (fst (session_step E D k s m')). m_Type m \<in> {TypeHeartbeat, TypeResponse}"
    by (auto simp: session_step_def split: option.splits)
  with Cons show ?case by (auto simp: split_beta Let_def)
qed simp

section \<open>Interface: a worker with a store\<close>

text \<open>
  What the loop needs of a worker's handlers to keep the store intact: every request keeps the invariant, also one that is refused.
\<close>

locale worker_store =
  fixes D :: "'s worker_dispatch" and inv :: "'s \<Rightarrow> bool"
  assumes keeps: "inv s \<Longrightarrow> inv (snd (D k s req))"
begin

lemma serve_frame_keeps: "inv s \<Longrightarrow> inv (fst (serve_frame E D k f s c))"
  using keeps [of s k] by (auto simp: serve_frame_def split: option.splits prod.splits) (metis snd_conv)+

lemma serve_keeps: "inv s \<Longrightarrow> inv (fst (worker_loop E D k s c))"
proof (induction "length (remaining c)" arbitrary: k s c rule: less_induct)
  case less
  show ?case
  proof (cases "readFrame c")
    case (Pair r c1)
    show ?thesis
    proof (cases r)
      case (Inr f)
      obtain s' c2 where f: "serve_frame E D k f s c1 = (s', c2)" by fastforce
      have "length (remaining c2) < length (remaining c)"
        using readFrame_progress [of c f c1] serve_frame_in [of E D k f s c1] Pair Inr f by simp
      moreover have "inv s'" using serve_frame_keeps [OF less.prems, of E k f c1] f by simp
      ultimately show ?thesis using less.hyps [of c2 s' "k + 1"] by (simp add: worker_loop.simps [of E D k s c] Pair Inr f)
    qed (use Pair less.prems in \<open>simp add: worker_loop.simps [of E D k s c]\<close>)
  qed
qed

lemma run_worker_keeps:
  assumes "inv s0" and "run_worker E D s0 caps dialled = Served s c"
  shows "inv s"
  using assms(2) serve_keeps [OF assms(1)]
  by (auto simp: run_worker_def split: sum.splits prod.splits option.splits) (metis fst_conv)+

end

section \<open>Decimal numbers\<close>

lemma digit_char_inj:
  assumes "(char_of (48 + a) :: char) = char_of (48 + b)" and "a < 10" and "b < (10 :: nat)"
  shows "a = b"
proof -
  have "of_char (char_of (48 + a) :: char) = (of_char (char_of (48 + b) :: char) :: nat)" by (simp only: assms(1))
  with assms(2,3) show ?thesis by simp
qed

lemma nat_digits_nonempty [simp]: "nat_digits k \<noteq> []" "[] \<noteq> nat_digits k"
  by (simp_all add: nat_digits.simps [of k])

lemma nat_digits_inj: "nat_digits m = nat_digits n \<Longrightarrow> m = n"
proof (induction m arbitrary: n rule: nat_digits.induct)
  case (1 m)
  show ?case
  proof (cases "m < 10")
    case True
    have "n < 10"
    proof (rule ccontr)
      assume "\<not> n < 10"
      then show False using 1(2) True nat_digits_nonempty(2) [of "n div 10"] by (simp add: nat_digits.simps [of m] nat_digits.simps [of n])
    qed
    with 1(2) True digit_char_inj [of m n] show ?thesis by (simp add: nat_digits.simps [of m] nat_digits.simps [of n])
  next
    case False
    then have n: "\<not> n < 10" using 1(2) by (auto simp: nat_digits.simps [of m] nat_digits.simps [of n] split: if_splits)
    then have "nat_digits (m div 10) = nat_digits (n div 10)" "(char_of (48 + m mod 10) :: char) = char_of (48 + n mod 10)"
      using False 1(2) by (simp_all add: nat_digits.simps [of m] nat_digits.simps [of n])
    then have "m div 10 = n div 10" "m mod 10 = n mod 10"
      using 1(1) [OF False, of "n div 10"] digit_char_inj [of "m mod 10" "n mod 10"] by simp_all
    then show ?thesis by (metis div_mult_mod_eq)
  qed
qed

lemma Itoa_inj: "0 \<le> m \<Longrightarrow> 0 \<le> n \<Longrightarrow> Itoa m = Itoa n \<Longrightarrow> m = n"
  using nat_digits_inj [of "nat m" "nat n"] by (simp add: Itoa_def)

section \<open>What the gateway sends\<close>

text \<open>
  The request payload of the dispatcher. \<open>keys\<close> enumerates the keys of a map and \<open>dur\<close> is \<open>Duration.String\<close>. The body is a byte
  slice, so it is printed as a base64 text, and the claims have no JSON tags, so their keys are the names of the Go fields (a nil slice
  of roles is printed as \<open>null\<close>; no worker reads it).
\<close>

definition claims_json :: "claims option \<Rightarrow> json" where
  "claims_json cl =
     (case cl of
        None \<Rightarrow> JNull
      | Some c \<Rightarrow> JObject [(''UserID'', JString (cl_UserID c)), (''Roles'', JArray (map JString (cl_Roles c)))])"

definition requestPayload :: "(headers \<Rightarrow> string list) \<Rightarrow> (duration \<Rightarrow> string) \<Rightarrow> gateway_request \<Rightarrow> string \<Rightarrow> duration \<Rightarrow> json" where
  "requestPayload keys dur req cid timeout =
     JObject ([(''method'', JString (gq_Method req)), (''path'', JString (gq_Path req)),
        (''headers'', map_json (keys (gq_Headers req)) (gq_Headers req)), (''query'', map_json (keys (gq_Query req)) (gq_Query req)),
        (''params'', case gq_Params req of None \<Rightarrow> JNull | Some m \<Rightarrow> map_json (keys m) m),
        (''body'', JString (base64 (gq_Body req))), (''claims'', claims_json (gq_Claims req))] @
       (if gq_ClientIP req = [] then [] else [(''client_ip'', JString (gq_ClientIP req))]) @
       [(''correlation_id'', JString cid)] @ (if dur timeout = [] then [] else [(''timeout'', JString (dur timeout))]))"

definition buildIPCPayload ::
  "json_env \<Rightarrow> (headers \<Rightarrow> string list) \<Rightarrow> (duration \<Rightarrow> string) \<Rightarrow> gateway_request \<Rightarrow> string \<Rightarrow> duration \<Rightarrow> bytes" where
  "buildIPCPayload E keys dur req cid timeout = je_print E (requestPayload keys dur req cid timeout)"

text \<open>The request a worker decodes from such a payload.\<close>

definition as_received :: "gateway_request \<Rightarrow> worker_request" where
  "as_received req =
     \<lparr>wq_Method = gq_Method req, wq_Path = gq_Path req, wq_Headers = gq_Headers req, wq_Query = gq_Query req,
      wq_Params = (case gq_Params req of None \<Rightarrow> Map.empty | Some m \<Rightarrow> m), wq_Body = Some (JString (base64 (gq_Body req))),
      wq_Claims = (case gq_Claims req of
         None \<Rightarrow> Map.empty
       | Some c \<Rightarrow> [''UserID'' \<mapsto> JString (cl_UserID c), ''Roles'' \<mapsto> JArray (map JString (cl_Roles c))])\<rparr>"

lemma foldName_request:
  "foldName ''method'' = ''METHOD''" "foldName ''path'' = ''PATH''" "foldName ''headers'' = ''HEADERS''" "foldName ''query'' = ''QUERY''"
  "foldName ''params'' = ''PARAMS''" "foldName ''body'' = ''BODY''" "foldName ''claims'' = ''CLAIMS''"
  "foldName ''client_ip'' = ''CLIENT_IP''" "foldName ''correlation_id'' = ''CORRELATION_ID''" "foldName ''timeout'' = ''TIMEOUT''"
  by code_simp+

lemma request_members [simp]:
  "set_member (request_fields E) ''method'' = set_string wq_Method_update"
  "set_member (request_fields E) ''path'' = set_string wq_Path_update"
  "set_member (request_fields E) ''headers'' = set_map wq_Headers_update"
  "set_member (request_fields E) ''query'' = set_map wq_Query_update"
  "set_member (request_fields E) ''params'' = set_map wq_Params_update"
  "set_member (request_fields E) ''body'' = (\<lambda>v r. Some (r\<lparr>wq_Body := Some v\<rparr>))"
  "set_member (request_fields E) ''claims'' = set_any_map E wq_Claims_update"
  "set_member (request_fields E) ''client_ip'' = (\<lambda>v. Some)"
  "set_member (request_fields E) ''correlation_id'' = (\<lambda>v. Some)"
  "set_member (request_fields E) ''timeout'' = (\<lambda>v. Some)"
  by (intro ext, simp add: set_member_def request_fields_def foldName_request del: foldName.simps)+

lemma set_any_map_claims:
  "set_any_map E upd (claims_json cl) x =
     Some (upd (\<lambda>m. case cl of None \<Rightarrow> Map.empty
       | Some c \<Rightarrow> m ++ [''UserID'' \<mapsto> JString (cl_UserID c), ''Roles'' \<mapsto> JArray (map JString (cl_Roles c))]) x)"
  by (cases cl) (auto simp: claims_json_def list_all_iff fun_upd_twist)

lemma decode_gateway_payload:
  assumes "je_parse E (je_print E (requestPayload keys dur req cid timeout)) = Inr (requestPayload keys dur req cid timeout)"
    and "\<And>m. m \<in> {gq_Headers req, gq_Query req} \<union> set_option (gq_Params req) \<Longrightarrow> set (keys m) = dom m"
  shows "decode_request E (buildIPCPayload E keys dur req cid timeout) = Some (as_received req)"
proof -
  have h: "set (keys (gq_Headers req)) = dom (gq_Headers req)" "set (keys (gq_Query req)) = dom (gq_Query req)"
    using assms(2) by blast+
  have p: "set_map wq_Params_update (case gq_Params req of None \<Rightarrow> JNull | Some m \<Rightarrow> map_json (keys m) m) (x\<lparr>wq_Params := Map.empty\<rparr>) =
      Some (x\<lparr>wq_Params := case gq_Params req of None \<Rightarrow> Map.empty | Some m \<Rightarrow> m\<rparr>)" for x
    using assms(2) by (cases "gq_Params req") (simp_all add: set_map_map_json)
  let ?r = "\<lparr>wq_Method = gq_Method req, wq_Path = gq_Path req, wq_Headers = gq_Headers req, wq_Query = gq_Query req,
      wq_Params = Map.empty, wq_Body = None, wq_Claims = Map.empty\<rparr>"
  have "decode_struct (request_fields E) (requestPayload keys dur req cid timeout) zero_request = Some (as_received req)"
    using p [of ?r]
    by (simp add: requestPayload_def zero_request_def as_received_def set_map_map_json h set_any_map_claims set_members_append
        split: option.splits)
  then show ?thesis by (simp add: decode_request_def buildIPCPayload_def assms(1))
qed

text \<open>A body that came through the gateway is never an object, so no struct can be decoded from it, and no claim is named \<open>sub\<close>.\<close>

lemma Unmarshal_as_received [simp]: "Unmarshal fs (wq_Body (as_received req)) x = None"
  by (simp add: as_received_def Unmarshal_def)

lemma claims_as_received [simp]: "wq_Claims (as_received req) ''sub'' = None"
  by (simp add: as_received_def split: option.splits)

lemma method_as_received [simp]: "wq_Method (as_received req) = gq_Method req" "wq_Path (as_received req) = gq_Path req"
  by (simp_all add: as_received_def)

lemma run_worker_serves:
  assumes "wc_fail c = (\<lambda>_. None)"
  shows "\<exists>s' c'. run_worker E D s caps (Inr c) = Served s' c'"
  using assms by (simp add: run_worker_def writeFrame_def conn_Write_def split_beta)

section \<open>The conversation of a worker and the core\<close>

text \<open>
  C16: A worker's conversation, whatever its handlers and however the network cuts the stream: the core reads the handshake, the first
  heartbeat, and then one answer for each heartbeat and each request that can be parsed, in their order, and nothing else; the worker
  returns when the connection ends, in the state its handlers led to.
\<close>
theorem worker_conversation:
  assumes "remaining c = concat (map frame ms)" and "wc_out c = []" and "wc_fail c = (\<lambda>_. None)"
    and "\<forall>m \<in> set ms. length (m_Payload m) < 2 ^ 32" and "length (je_print E (handshake_json ''go:api'' caps)) \<le> MaxPayloadSize"
    and "\<forall>m \<in> set (fst (session E D 0 s ms)). length (m_Payload m) \<le> MaxPayloadSize"
  shows "\<exists>c'. run_worker E D s caps (Inr c) = Served (snd (session E D 0 s ms)) c' \<and>
    read_frames Read (2 + length (fst (session E D 0 s ms))) (wc_out c') =
      Inr (\<lparr>m_Type = TypeHandshake, m_Payload = je_print E (handshake_json ''go:api'' caps)\<rparr> # \<lparr>m_Type = TypeHeartbeat, m_Payload = []\<rparr> #
           fst (session E D 0 s ms), [])"
proof -
  let ?h = "\<lparr>m_Type = TypeHandshake, m_Payload = je_print E (handshake_json ''go:api'' caps)\<rparr>"
  let ?b = "\<lparr>m_Type = TypeHeartbeat, m_Payload = []\<rparr>" and ?out = "fst (session E D 0 s ms)"
  let ?c1 = "c\<lparr>wc_out := frame ?h, wc_writes := wc_writes c + 1\<rparr>"
  let ?c2 = "?c1\<lparr>wc_out := frame ?h @ frame ?b, wc_writes := wc_writes c + 2\<rparr>"
  have big: "MaxPayloadSize < 2 ^ 32" by (simp add: MaxPayloadSize_def)
  have w: "writeFrame c TypeHandshake (m_Payload ?h) = (None, ?c1)" "writeFrame ?c1 TypeHeartbeat [] = (None, ?c2)"
    using writeFrame_frame [of c "m_Payload ?h" TypeHandshake] writeFrame_frame [of ?c1 "[]" TypeHeartbeat] assms(2,3,5) big by simp_all
  have "\<forall>m \<in> set ?out. length (m_Payload m) < 2 ^ 32" using assms(6) big by fastforce
  then have s: "fst (worker_loop E D 0 s ?c2) = snd (session E D 0 s ms)"
      "wc_out (snd (worker_loop E D 0 s ?c2)) = (frame ?h @ frame ?b) @ concat (map frame ?out)"
    using serve_session [of ?c2 ms E D 0 s] assms(1,3,4) by simp_all
  have "run_worker E D s caps (Inr c) = Served (snd (session E D 0 s ms)) (snd (worker_loop E D 0 s ?c2))"
    using w s(1) by (simp add: run_worker_def split_beta)
  moreover have "\<forall>m \<in> set (?h # ?b # ?out). wire_ok m"
    using assms(5,6) session_types [of _ E D 0 s ms] by (fastforce simp: wire_ok_def validateType_def)
  then have "read_frames Read (2 + length ?out) (wc_out (snd (worker_loop E D 0 s ?c2))) = Inr (?h # ?b # ?out, [])"
    using wire.read_frames_enc [of "?h # ?b # ?out" "[]"] unfolding s(2) by simp
  ultimately show ?thesis by blast
qed

text \<open>A core that says hello: two heartbeats and one request that is not JSON, delivered a byte at a time.\<close>

definition ex_json :: json_env where
  "ex_json = \<lparr>je_parse = \<lambda>b. if b = [1] then Inr (JObject [(''method'', JString ''GET''), (''path'', JString ''/api/hello'')]) else Inl (Errorf ''bad''),
     je_print = \<lambda>_. [9], je_float = \<lambda>_. None, je_show = \<lambda>_. [], je_format = \<lambda>_. []\<rparr>"

definition ex_messages :: "message list" where
  "ex_messages = [\<lparr>m_Type = TypeHeartbeat, m_Payload = []\<rparr>, \<lparr>m_Type = TypeRequest, m_Payload = [2]\<rparr>, \<lparr>m_Type = TypeRequest, m_Payload = [1]\<rparr>]"

definition ex_worker_conn :: worker_conn where
  "ex_worker_conn = \<lparr>wc_in = map (\<lambda>b. [b]) (concat (map frame ex_messages)), wc_end = EOF, wc_out = [], wc_writes = 0, wc_fail = \<lambda>_. None\<rparr>"

lemma ex_hello_request: "decode_request ex_json [1] = Some (zero_request\<lparr>wq_Method := ''GET'', wq_Path := ''/api/hello''\<rparr>)"
  by (simp add: decode_request_def ex_json_def)

lemma ex_session:
  "session ex_json (hello_dispatch ex_json) 0 () ex_messages =
     ([\<lparr>m_Type = TypeHeartbeat, m_Payload = []\<rparr>, \<lparr>m_Type = TypeResponse, m_Payload = [9]\<rparr>], ())"
proof -
  have "decode_request ex_json [2] = None" "je_print ex_json v = [9]" for v by (simp_all add: decode_request_def ex_json_def)
  then show ?thesis by (simp add: ex_messages_def session_step_def ex_hello_request)
qed

theorem worker_conversation_witness:
  "\<exists>c'. hello_main ex_json False None (\<lambda>_. Inr ex_worker_conn) = Served () c' \<and>
    read_frames Read 4 (wc_out c') = Inr ([\<lparr>m_Type = TypeHandshake, m_Payload = [9]\<rparr>, \<lparr>m_Type = TypeHeartbeat, m_Payload = []\<rparr>,
      \<lparr>m_Type = TypeHeartbeat, m_Payload = []\<rparr>, \<lparr>m_Type = TypeResponse, m_Payload = [9]\<rparr>], [])"
proof -
  have p: "je_print ex_json v = [9]" for v by (simp add: ex_json_def)
  have r: "concat (map (\<lambda>b. [b]) bs) = bs" for bs :: bytes by (induction bs) simp_all
  have "\<forall>m \<in> set ex_messages. length (m_Payload m) < 2 ^ 32" by (simp add: ex_messages_def)
  moreover have "\<forall>m \<in> set (fst (session ex_json (hello_dispatch ex_json) 0 () ex_messages)). length (m_Payload m) \<le> MaxPayloadSize"
    by (simp add: ex_session MaxPayloadSize_def)
  moreover have "remaining ex_worker_conn = concat (map frame ex_messages)" by (simp only: ex_worker_conn_def worker_conn.simps r)
  ultimately show ?thesis
    using worker_conversation [of ex_worker_conn ex_messages ex_json
        "[\<lparr>cap_Path = ''/api/hello'', cap_Method = ''GET''\<rparr>, \<lparr>cap_Path = ''/api/greet'', cap_Method = ''POST''\<rparr>]" "hello_dispatch ex_json" "()"]
    by (simp add: hello_main_def ex_session p ex_worker_conn_def MaxPayloadSize_def)
qed

end
