(* ===== verification/Shop.thy ===== *)
theory Shop
  imports WorkerLoop Schemas
begin

text \<open>
  The worker of the e-commerce example, \<open>examples/ecommerce/workers/go/main.go\<close>: the products and carts it keeps in memory and one
  definition per handler. A handler returns its response and the store; the mutex makes each of them one step. The iteration order
  of the product map is given by a function of the map.
\<close>

section \<open>The store\<close>

record product =
  pr_ID :: string
  pr_Name :: string
  pr_Description :: string
  pr_Price :: rat
  pr_Category :: string
  pr_Stock :: "64 word"

record cart_item =
  ci_ProductID :: string
  ci_Quantity :: "64 word"

text \<open>A cart is its list of items. No two entries of \<open>carts\<close> share one, so the pointers are left out.\<close>

record shop =
  sh_products :: "string \<rightharpoonup> product"
  sh_carts :: "string \<rightharpoonup> cart_item list"
  sh_nextProdID :: int

text \<open>A constant of the program: the \<open>float64\<close> nearest to the literal.\<close>

definition price :: "json_env \<Rightarrow> string \<Rightarrow> rat" where
  "price E l = (case je_float E l of Some f \<Rightarrow> f | None \<Rightarrow> 0)"

definition shop_init :: "json_env \<Rightarrow> shop" where
  "shop_init E =
     \<lparr>sh_products = [
        ''1'' \<mapsto> \<lparr>pr_ID = ''1'', pr_Name = ''Smartphone'', pr_Description = ''Latest model smartphone'', pr_Price = price E ''999.99'',
                pr_Category = ''electronics'', pr_Stock = 50\<rparr>,
        ''2'' \<mapsto> \<lparr>pr_ID = ''2'', pr_Name = ''T-Shirt'', pr_Description = ''Cotton t-shirt'', pr_Price = price E ''29.99'',
                pr_Category = ''clothing'', pr_Stock = 200\<rparr>,
        ''3'' \<mapsto> \<lparr>pr_ID = ''3'', pr_Name = ''Notebook'', pr_Description = ''Premium notebook'', pr_Price = price E ''49.99'',
                pr_Category = ''books'', pr_Stock = 100\<rparr>],
      sh_carts = Map.empty, sh_nextProdID = 4\<rparr>"

definition zero_product :: product where
  "zero_product = \<lparr>pr_ID = [], pr_Name = [], pr_Description = [], pr_Price = 0, pr_Category = [], pr_Stock = 0\<rparr>"

definition product_fields :: "json_env \<Rightarrow> product field list" where
  "product_fields E =
     [(''id'', set_string pr_ID_update), (''name'', set_string pr_Name_update), (''description'', set_string pr_Description_update),
      (''price'', set_float E pr_Price_update), (''category'', set_string pr_Category_update), (''stock'', set_int pr_Stock_update)]"

definition product_json :: "json_env \<Rightarrow> product \<Rightarrow> json" where
  "product_json E p =
     JObject ([(''id'', JString (pr_ID p)), (''name'', JString (pr_Name p))] @
       (if pr_Description p = [] then [] else [(''description'', JString (pr_Description p))]) @
       [(''price'', JNumber (je_show E (pr_Price p)))] @
       (if pr_Category p = [] then [] else [(''category'', JString (pr_Category p))]) @
       (if pr_Stock p = 0 then [] else [(''stock'', JNumber (Itoa (sint (pr_Stock p))))]))"

definition cart_item_fields :: "cart_item field list" where
  "cart_item_fields = [(''product_id'', set_string ci_ProductID_update), (''quantity'', set_int ci_Quantity_update)]"

definition cart_json :: "cart_item list \<Rightarrow> json" where
  "cart_json items =
     JObject [(''items'', JArray (map (\<lambda>i. JObject [(''product_id'', JString (ci_ProductID i)),
       (''quantity'', JNumber (Itoa (sint (ci_Quantity i))))]) items))]"

section \<open>Helpers\<close>

definition TrimRight :: "char \<Rightarrow> string \<Rightarrow> string" where
  "TrimRight c s = rev (dropWhile (\<lambda>x. x = c) (rev s))"

fun match_segs :: "string list \<Rightarrow> string list \<Rightarrow> params \<Rightarrow> params option" where
  "match_segs (q # ps) (seg # segs) params =
     (if HasPrefix q '':'' then match_segs ps segs (params(drop 1 q \<mapsto> seg))
      else if q \<noteq> seg then None else match_segs ps segs params)"
| "match_segs _ _ params = Some params"

definition matchPattern :: "string \<Rightarrow> string \<Rightarrow> params option" where
  "matchPattern path pattern =
     (let pathSegs = Split (CHR ''/'') (Trim (CHR ''/'') (TrimRight (CHR ''/'') path));
          patSegs = Split (CHR ''/'') (Trim (CHR ''/'') (TrimRight (CHR ''/'') pattern))
      in if length pathSegs \<noteq> length patSegs then None else match_segs patSegs pathSegs Map.empty)"

definition matchPatternBool :: "string \<Rightarrow> string \<Rightarrow> bool" where
  "matchPatternBool path pattern = (matchPattern path pattern \<noteq> None)"

definition jsonResponse :: "json \<Rightarrow> worker_reply" where
  "jsonResponse body = json_reply 200 body"

definition jsonError :: "int \<Rightarrow> string \<Rightarrow> worker_reply" where
  "jsonError status msg = error_reply status msg"

definition product_not_found :: "string \<Rightarrow> worker_reply" where
  "product_not_found i = jsonError 404 (''product '' @ i @ '' not found'')"

text \<open>\<open>req.Params["id"]\<close>: the empty string when the gateway sent no such parameter.\<close>

definition param :: "worker_request \<Rightarrow> string \<Rightarrow> string" where
  "param req k = (case wq_Params req k of Some v \<Rightarrow> v | None \<Rightarrow> [])"

definition claim_sub :: "json_env \<Rightarrow> worker_request \<Rightarrow> string" where
  "claim_sub E req = (case wq_Claims req ''sub'' of Some v \<Rightarrow> Sprintf_v E v | None \<Rightarrow> [])"

section \<open>Handlers\<close>

definition handleListProducts :: "json_env \<Rightarrow> string list \<Rightarrow> shop \<Rightarrow> worker_reply" where
  "handleListProducts E order s =
     jsonResponse (JObject [(''products'', JArray (map (product_json E) (List.map_filter (sh_products s) order)))])"

definition handleCreateProduct :: "json_env \<Rightarrow> shop \<Rightarrow> worker_request \<Rightarrow> worker_reply \<times> shop" where
  "handleCreateProduct E s req =
     (case Unmarshal (product_fields E) (wq_Body req) zero_product of
        None \<Rightarrow> (jsonError 400 ''invalid product payload'', s)
      | Some p \<Rightarrow>
          (let i = Itoa (sh_nextProdID s); p' = p\<lparr>pr_ID := i\<rparr>
           in (json_reply 201 (product_json E p'),
               s\<lparr>sh_nextProdID := sh_nextProdID s + 1, sh_products := (sh_products s)(i \<mapsto> p')\<rparr>)))"

definition handleGetProduct :: "json_env \<Rightarrow> shop \<Rightarrow> worker_request \<Rightarrow> worker_reply" where
  "handleGetProduct E s req =
     (case sh_products s (param req ''id'') of
        None \<Rightarrow> product_not_found (param req ''id'')
      | Some p \<Rightarrow> jsonResponse (product_json E p))"

definition apply_updates :: "product \<Rightarrow> product \<Rightarrow> product" where
  "apply_updates updates existing =
     (let p1 = (if pr_Name updates \<noteq> [] then existing\<lparr>pr_Name := pr_Name updates\<rparr> else existing);
          p2 = (if pr_Description updates \<noteq> [] then p1\<lparr>pr_Description := pr_Description updates\<rparr> else p1);
          p3 = (if 0 < pr_Price updates then p2\<lparr>pr_Price := pr_Price updates\<rparr> else p2);
          p4 = (if pr_Category updates \<noteq> [] then p3\<lparr>pr_Category := pr_Category updates\<rparr> else p3)
      in if 0 \<le> sint (pr_Stock updates) then p4\<lparr>pr_Stock := pr_Stock updates\<rparr> else p4)"

definition handleUpdateProduct :: "json_env \<Rightarrow> shop \<Rightarrow> worker_request \<Rightarrow> worker_reply \<times> shop" where
  "handleUpdateProduct E s req =
     (case Unmarshal (product_fields E) (wq_Body req) zero_product of
        None \<Rightarrow> (jsonError 400 ''invalid product payload'', s)
      | Some updates \<Rightarrow>
          (case sh_products s (param req ''id'') of
             None \<Rightarrow> (product_not_found (param req ''id''), s)
           | Some existing \<Rightarrow>
               (let p = apply_updates updates existing
                in (jsonResponse (product_json E p), s\<lparr>sh_products := (sh_products s)(param req ''id'' \<mapsto> p)\<rparr>))))"

definition handleDeleteProduct :: "shop \<Rightarrow> worker_request \<Rightarrow> worker_reply \<times> shop" where
  "handleDeleteProduct s req =
     (case sh_products s (param req ''id'') of
        None \<Rightarrow> (product_not_found (param req ''id''), s)
      | Some _ \<Rightarrow>
          (jsonResponse (JObject [(''id'', JString (param req ''id'')), (''status'', JString ''deleted'')]),
           s\<lparr>sh_products := (sh_products s)(param req ''id'' := None)\<rparr>))"

definition handleGetCart :: "json_env \<Rightarrow> shop \<Rightarrow> worker_request \<Rightarrow> worker_reply \<times> shop" where
  "handleGetCart E s req =
     (let sub = claim_sub E req
      in if sub = [] then (jsonError 401 ''unauthorized'', s)
         else (case sh_carts s sub of
                 None \<Rightarrow> (jsonResponse (cart_json []), s\<lparr>sh_carts := (sh_carts s)(sub \<mapsto> [])\<rparr>)
               | Some items \<Rightarrow> (jsonResponse (cart_json items), s)))"

text \<open>The quantity of the first item with the product's number grows, or the item is appended.\<close>

fun add_item :: "cart_item \<Rightarrow> cart_item list \<Rightarrow> cart_item list" where
  "add_item item [] = [item]"
| "add_item item (ci # rest) =
     (if ci_ProductID ci = ci_ProductID item then ci\<lparr>ci_Quantity := ci_Quantity ci + ci_Quantity item\<rparr> # rest
      else ci # add_item item rest)"

definition handleAddCartItem :: "json_env \<Rightarrow> shop \<Rightarrow> worker_request \<Rightarrow> worker_reply \<times> shop" where
  "handleAddCartItem E s req =
     (let sub = claim_sub E req
      in if sub = [] then (jsonError 401 ''unauthorized'', s)
         else (case Unmarshal cart_item_fields (wq_Body req) \<lparr>ci_ProductID = [], ci_Quantity = 0\<rparr> of
                 None \<Rightarrow> (jsonError 400 ''invalid cart item payload'', s)
               | Some item \<Rightarrow>
                   if sh_products s (ci_ProductID item) = None then (product_not_found (ci_ProductID item), s)
                   else (let items = (case sh_carts s sub of Some is \<Rightarrow> is | None \<Rightarrow> []);
                             result = add_item item items
                         in (json_reply 201 (cart_json result), s\<lparr>sh_carts := (sh_carts s)(sub \<mapsto> result)\<rparr>))))"

section \<open>The dispatcher and the main function\<close>

definition shop_dispatch :: "json_env \<Rightarrow> (nat \<Rightarrow> (string \<rightharpoonup> product) \<Rightarrow> string list) \<Rightarrow> shop worker_dispatch" where
  "shop_dispatch E order k s req =
     (let m = wq_Method req; p = wq_Path req
      in if m = ''GET'' \<and> p = ''/api/products'' then (handleListProducts E (order k (sh_products s)) s, s)
         else if m = ''POST'' \<and> p = ''/api/products'' then handleCreateProduct E s req
         else if m = ''GET'' \<and> matchPatternBool p ''/api/products/:id'' then (handleGetProduct E s req, s)
         else if m = ''PUT'' \<and> matchPatternBool p ''/api/products/:id'' then handleUpdateProduct E s req
         else if m = ''DELETE'' \<and> matchPatternBool p ''/api/products/:id'' then handleDeleteProduct s req
         else if m = ''GET'' \<and> p = ''/api/cart'' then handleGetCart E s req
         else if m = ''POST'' \<and> p = ''/api/cart/items'' then handleAddCartItem E s req
         else (jsonError 404 ''route not found'', s))"

definition shop_main ::
  "json_env \<Rightarrow> (nat \<Rightarrow> (string \<rightharpoonup> product) \<Rightarrow> string list) \<Rightarrow> bool \<Rightarrow> string option \<Rightarrow> (string \<Rightarrow> go_error + worker_conn) \<Rightarrow>
     shop worker_end" where
  "shop_main E order windows flag dial =
     run_worker E (shop_dispatch E order) (shop_init E)
       [\<lparr>cap_Path = ''/api/products'', cap_Method = ''GET''\<rparr>, \<lparr>cap_Path = ''/api/products'', cap_Method = ''POST''\<rparr>,
        \<lparr>cap_Path = ''/api/products/:id'', cap_Method = ''GET''\<rparr>, \<lparr>cap_Path = ''/api/products/:id'', cap_Method = ''PUT''\<rparr>,
        \<lparr>cap_Path = ''/api/products/:id'', cap_Method = ''DELETE''\<rparr>, \<lparr>cap_Path = ''/api/cart'', cap_Method = ''GET''\<rparr>,
        \<lparr>cap_Path = ''/api/cart/items'', cap_Method = ''POST''\<rparr>]
       (dial (worker_socket windows flag))"

lemmas shop_handlers =
  handleCreateProduct_def handleUpdateProduct_def handleDeleteProduct_def handleGetCart_def handleAddCartItem_def

section \<open>The store stays consistent\<close>

text \<open>
  A product is filed under its own number, numbers are decimal texts below the next one to be issued, every cart has a named
  owner, and a cart has one line for a product, whose number was issued (the product may have been deleted since).
\<close>

definition issued :: "shop \<Rightarrow> string \<Rightarrow> bool" where
  "issued s i \<longleftrightarrow> (\<exists>n. 1 \<le> n \<and> n < sh_nextProdID s \<and> i = Itoa n)"

definition shop_ok :: "shop \<Rightarrow> bool" where
  "shop_ok s \<longleftrightarrow> 1 \<le> sh_nextProdID s \<and> (\<forall>i p. sh_products s i = Some p \<longrightarrow> pr_ID p = i \<and> issued s i) \<and>
     (\<forall>u items. sh_carts s u = Some items \<longrightarrow>
        u \<noteq> [] \<and> distinct (map ci_ProductID items) \<and> (\<forall>ci \<in> set items. issued s (ci_ProductID ci)))"

lemma apply_updates_ID [simp]: "pr_ID (apply_updates u p) = pr_ID p"
  by (simp add: apply_updates_def Let_def)

lemma add_item_ids:
  "map ci_ProductID (add_item item items) =
     map ci_ProductID items @ (if ci_ProductID item \<in> ci_ProductID ` set items then [] else [ci_ProductID item])"
  by (induction items) auto

lemma add_item_id: "ci \<in> set (add_item item items) \<Longrightarrow> ci_ProductID ci = ci_ProductID item \<or> (\<exists>ci' \<in> set items. ci_ProductID ci = ci_ProductID ci')"
  by (induction items) (auto split: if_splits)

lemma shop_ok_init: "shop_ok (shop_init E)"
proof -
  have n: "''1'' = Itoa 1" "''2'' = Itoa 2" "''3'' = Itoa 3" by code_simp+
  have "issued (shop_init E) ''1'' \<and> issued (shop_init E) ''2'' \<and> issued (shop_init E) ''3''"
    unfolding issued_def shop_init_def n by (intro conjI exI [of _ 1] exI [of _ 2] exI [of _ 3]) simp_all
  then show ?thesis unfolding shop_ok_def by (auto simp: shop_init_def split: if_splits)
qed

lemma issued_mono: "sh_nextProdID s \<le> sh_nextProdID s' \<Longrightarrow> issued s i \<Longrightarrow> issued s' i"
  by (force simp: issued_def)

lemma shop_ok_products:
  assumes "shop_ok s" and "sh_nextProdID s \<le> n" and "\<And>i p. ps i = Some p \<Longrightarrow> pr_ID p = i \<and> issued (s\<lparr>sh_nextProdID := n\<rparr>) i"
  shows "shop_ok (s\<lparr>sh_nextProdID := n, sh_products := ps\<rparr>)"
  using assms issued_mono [of s "s\<lparr>sh_nextProdID := n\<rparr>"] by (fastforce simp: shop_ok_def issued_def)

lemma shop_ok_cart:
  assumes "shop_ok s" and "u \<noteq> []" and "distinct (map ci_ProductID items)" and "\<And>ci. ci \<in> set items \<Longrightarrow> issued s (ci_ProductID ci)"
  shows "shop_ok (s\<lparr>sh_carts := (sh_carts s)(u \<mapsto> items)\<rparr>)"
  using assms by (auto simp: shop_ok_def issued_def)

lemma shop_ok_create: "shop_ok s \<Longrightarrow> shop_ok (snd (handleCreateProduct E s req))"
proof (cases "Unmarshal (product_fields E) (wq_Body req) zero_product")
  case (Some p)
  assume ok: "shop_ok s"
  then have "issued (s\<lparr>sh_nextProdID := sh_nextProdID s + 1\<rparr>) (Itoa (sh_nextProdID s))"
    by (auto simp: issued_def shop_ok_def)
  with ok issued_mono [of s "s\<lparr>sh_nextProdID := sh_nextProdID s + 1\<rparr>"] show ?thesis
    by (auto simp: handleCreateProduct_def Some Let_def shop_ok_def [of s] intro!: shop_ok_products split: if_splits)
qed (simp add: handleCreateProduct_def)

lemma shop_ok_update: "shop_ok s \<Longrightarrow> shop_ok (snd (handleUpdateProduct E s req))"
  using shop_ok_products [of s "sh_nextProdID s"]
  by (auto simp: handleUpdateProduct_def Let_def shop_ok_def issued_def split: option.splits)

lemma shop_ok_delete: "shop_ok s \<Longrightarrow> shop_ok (snd (handleDeleteProduct s req))"
  by (auto simp: handleDeleteProduct_def shop_ok_def issued_def split: option.splits)

lemma shop_ok_get_cart: "shop_ok s \<Longrightarrow> shop_ok (snd (handleGetCart E s req))"
  by (auto simp: handleGetCart_def Let_def intro!: shop_ok_cart split: option.splits)

lemma shop_ok_add_item: "shop_ok s \<Longrightarrow> shop_ok (snd (handleAddCartItem E s req))"
proof (cases "claim_sub E req = []"; cases "Unmarshal cart_item_fields (wq_Body req) \<lparr>ci_ProductID = [], ci_Quantity = 0\<rparr>")
  fix item assume ok: "shop_ok s" and u: "claim_sub E req \<noteq> []"
    and i: "Unmarshal cart_item_fields (wq_Body req) \<lparr>ci_ProductID = [], ci_Quantity = 0\<rparr> = Some item"
  let ?is = "case sh_carts s (claim_sub E req) of Some is \<Rightarrow> is | None \<Rightarrow> []"
  have c: "distinct (map ci_ProductID ?is)" "\<And>ci. ci \<in> set ?is \<Longrightarrow> issued s (ci_ProductID ci)"
    using ok by (cases "sh_carts s (claim_sub E req)"; fastforce simp: shop_ok_def)+
  show ?thesis
  proof (cases "sh_products s (ci_ProductID item)")
    case (Some p)
    then have p: "issued s (ci_ProductID item)" using ok by (auto simp: shop_ok_def)
    have "issued s (ci_ProductID ci)" if "ci \<in> set (add_item item ?is)" for ci
      using add_item_id [OF that] c(2) p by metis
    moreover have "distinct (map ci_ProductID (add_item item ?is))" using c(1) unfolding add_item_ids by auto
    ultimately show ?thesis using ok u i Some by (auto simp: handleAddCartItem_def Let_def intro: shop_ok_cart)
  qed (simp add: handleAddCartItem_def i u ok Let_def)
qed (simp_all add: handleAddCartItem_def Let_def)

interpretation shop: worker_store "shop_dispatch E order" shop_ok
  by unfold_locales
    (simp add: shop_dispatch_def Let_def shop_ok_create shop_ok_update shop_ok_delete shop_ok_get_cart shop_ok_add_item)

text \<open>
  C20: Whatever the core sends, in whatever pieces, and whether or not the answers reach it, the shop ends in a consistent state.
\<close>
theorem shop_stays_consistent:
  assumes "shop_main E order windows flag dial = Served s c"
  shows "1 \<le> sh_nextProdID s \<and> (\<forall>i p. sh_products s i = Some p \<longrightarrow> pr_ID p = i \<and> issued s i) \<and>
    (\<forall>u items. sh_carts s u = Some items \<longrightarrow>
       u \<noteq> [] \<and> distinct (map ci_ProductID items) \<and> (\<forall>ci \<in> set items. issued s (ci_ProductID ci)))"
  using shop.run_worker_keeps [OF shop_ok_init assms [unfolded shop_main_def]] by (simp add: shop_ok_def)

theorem shop_stays_consistent_witness:
  "\<exists>s c. shop_main ex_json (\<lambda>_ _. []) False None (\<lambda>_. Inr ex_worker_conn) = Served s c \<and> 1 \<le> sh_nextProdID s"
proof -
  have "wc_fail ex_worker_conn = (\<lambda>_. None)" by (simp add: ex_worker_conn_def)
  then have "\<exists>s c. shop_main ex_json (\<lambda>_ _. []) False None (\<lambda>_. Inr ex_worker_conn) = Served s c"
    unfolding shop_main_def by (rule run_worker_serves)
  then obtain s c where s: "shop_main ex_json (\<lambda>_ _. []) False None (\<lambda>_. Inr ex_worker_conn) = Served s c" by blast
  from shop_stays_consistent [OF s] s show ?thesis by blast
qed

section \<open>What the handlers do\<close>

text \<open>Numbers are never issued twice: two products never share one, even after a deletion.\<close>
theorem created_product_is_new:
  assumes "shop_ok s" and "Unmarshal (product_fields E) (wq_Body req) zero_product = Some p"
  shows "\<exists>i s'. handleCreateProduct E s req = (json_reply 201 (product_json E (p\<lparr>pr_ID := i\<rparr>)), s') \<and>
    \<not> issued s i \<and> sh_products s i = None \<and> sh_products s' = (sh_products s)(i \<mapsto> p\<lparr>pr_ID := i\<rparr>) \<and> issued s' i"
proof -
  have "\<not> issued s (Itoa (sh_nextProdID s))"
  proof
    assume "issued s (Itoa (sh_nextProdID s))"
    then obtain n where n: "1 \<le> n" "n < sh_nextProdID s" "Itoa (sh_nextProdID s) = Itoa n" unfolding issued_def by blast
    then show False using Itoa_inj [of "sh_nextProdID s" n] by simp
  qed
  moreover have "sh_products s (Itoa (sh_nextProdID s)) = None"
    using assms(1) calculation unfolding shop_ok_def by (metis option.exhaust)
  moreover have "issued (s\<lparr>sh_nextProdID := sh_nextProdID s + 1, sh_products := ps\<rparr>) (Itoa (sh_nextProdID s))" for ps
    using assms(1) by (auto simp: issued_def shop_ok_def)
  ultimately show ?thesis
    using assms(2) by (intro exI [of _ "Itoa (sh_nextProdID s)"]) (simp add: handleCreateProduct_def Let_def)
qed

text \<open>
  A cart refines a map from products to quantities: adding a line adds its quantity, as a 64-bit number, to the product's, and
  leaves the other products and the other customers alone.
\<close>

definition quantity :: "shop \<Rightarrow> string \<Rightarrow> string \<Rightarrow> 64 word" where
  "quantity s u p = (case sh_carts s u of None \<Rightarrow> 0 | Some items \<Rightarrow> sum_list (map ci_Quantity (filter (\<lambda>ci. ci_ProductID ci = p) items)))"

lemma add_item_quantity:
  "sum_list (map ci_Quantity (filter (\<lambda>ci. ci_ProductID ci = p) (add_item item items))) =
     sum_list (map ci_Quantity (filter (\<lambda>ci. ci_ProductID ci = p) items)) + (if p = ci_ProductID item then ci_Quantity item else 0)"
  by (induction items) auto

theorem added_item_counts:
  assumes "claim_sub E req \<noteq> []" and "Unmarshal cart_item_fields (wq_Body req) \<lparr>ci_ProductID = [], ci_Quantity = 0\<rparr> = Some item"
    and "sh_products s (ci_ProductID item) \<noteq> None"
  shows "quantity (snd (handleAddCartItem E s req)) u p =
    quantity s u p + (if u = claim_sub E req \<and> p = ci_ProductID item then ci_Quantity item else 0)"
  using assms add_item_quantity [of p item] by (auto simp: handleAddCartItem_def quantity_def Let_def split: option.splits)

text \<open>
  An update that does not mention the stock sets it to zero: an absent field decodes to zero, which passes the test for a value
  that is not negative. The other fields keep their value when they are absent.
\<close>

lemma foldName_stock: "foldName ''stock'' = ''STOCK''"
  by code_simp

lemma decoded_without_stock:
  assumes "\<forall>(k, v) \<in> set ms. foldName k \<noteq> ''STOCK''" and "set_members (product_fields E) ms x = Some y"
  shows "pr_Stock y = pr_Stock x"
  using assms
proof (induction ms arbitrary: x)
  case (Cons m ms)
  obtain k v where m: "m = (k, v)" by fastforce
  from Cons.prems(2) obtain z where z: "set_member (product_fields E) k v x = Some z" "set_members (product_fields E) ms z = Some y"
    by (auto simp: m split: option.splits)
  have "pr_Stock z = pr_Stock x"
    using z(1) Cons.prems(1) by (cases v) (auto simp: m set_member_def product_fields_def foldName_stock simp del: foldName.simps split: if_splits)
  then show ?case using Cons.IH [of z] z(2) Cons.prems(1) by (simp add: m)
qed simp

theorem update_without_stock_clears_it:
  assumes "wq_Body req = Some (JObject ms)" and "\<forall>(k, v) \<in> set ms. foldName k \<noteq> ''STOCK''"
    and "decode_struct (product_fields E) (JObject ms) zero_product = Some u" and "sh_products s (param req ''id'') = Some p"
  shows "\<exists>p'. sh_products (snd (handleUpdateProduct E s req)) (param req ''id'') = Some p' \<and> pr_Stock p' = 0 \<and>
    (pr_Name u = [] \<longrightarrow> pr_Name p' = pr_Name p) \<and> (pr_Category u = [] \<longrightarrow> pr_Category p' = pr_Category p)"
proof -
  have "pr_Stock u = 0" using decoded_without_stock [OF assms(2), of E zero_product u] assms(3) by (simp add: zero_product_def)
  then show ?thesis using assms by (simp add: handleUpdateProduct_def Unmarshal_def apply_updates_def Let_def)
qed

text \<open>
  Through the gateway the shop is read-only but for deletions: a posted body arrives as a base64 text and no caller has a name, so every
  request other than a deletion leaves the store as it is.
\<close>
theorem gateway_only_deletes:
  "gq_Method req \<noteq> ''DELETE'' \<Longrightarrow> snd (shop_dispatch E order k s (as_received req)) = s"
  by (simp add: shop_dispatch_def Let_def shop_handlers claim_sub_def)

end
