(* ===== verification/Dashboard.thy ===== *)
theory Dashboard
  imports WorkerLoop Schemas
begin

text \<open>
  The worker of the dashboard example, \<open>examples/dashboard/workers/go/main.go\<close>: accounts and their settings in memory, a mock login, and
  handlers that let a caller read and change their own account, or any account for an administrator.
\<close>

section \<open>The store\<close>

record user =
  us_ID :: string
  us_Name :: string
  us_Email :: string
  us_Role :: string
  us_Password :: string

record settings =
  se_Theme :: string
  se_NotificationsEnabled :: bool
  se_Language :: string
  se_Timezone :: string

record user_public =
  up_ID :: string
  up_Name :: string
  up_Email :: string
  up_Role :: string

record login_request =
  lq_Username :: string
  lq_Password :: string

record dashboard =
  db_users :: "string \<rightharpoonup> user"
  db_settings :: "string \<rightharpoonup> settings"
  db_nextID :: int

definition dashboard_init :: dashboard where
  "dashboard_init =
     \<lparr>db_users = [
        ''1'' \<mapsto> \<lparr>us_ID = ''1'', us_Name = ''Admin User'', us_Email = ''admin@dashboard.local'', us_Role = ''admin'', us_Password = ''admin123''\<rparr>,
        ''2'' \<mapsto> \<lparr>us_ID = ''2'', us_Name = ''Regular User'', us_Email = ''user@dashboard.local'', us_Role = ''user'', us_Password = ''password''\<rparr>],
      db_settings = [
        ''1'' \<mapsto> \<lparr>se_Theme = ''dark'', se_NotificationsEnabled = True, se_Language = ''en'', se_Timezone = ''UTC''\<rparr>,
        ''2'' \<mapsto> \<lparr>se_Theme = ''light'', se_NotificationsEnabled = False, se_Language = ''en'', se_Timezone = ''America/New_York''\<rparr>],
      db_nextID = 3\<rparr>"

definition toPublic :: "user \<Rightarrow> user_public" where
  "toPublic u = \<lparr>up_ID = us_ID u, up_Name = us_Name u, up_Email = us_Email u, up_Role = us_Role u\<rparr>"

definition public_json :: "user_public \<Rightarrow> json" where
  "public_json u =
     JObject [(''id'', JString (up_ID u)), (''name'', JString (up_Name u)), (''email'', JString (up_Email u)), (''role'', JString (up_Role u))]"

definition settings_json :: "settings \<Rightarrow> json" where
  "settings_json s =
     JObject [(''theme'', JString (se_Theme s)), (''notifications_enabled'', JBool (se_NotificationsEnabled s)),
       (''language'', JString (se_Language s)), (''timezone'', JString (se_Timezone s))]"

section \<open>Handlers\<close>

text \<open>The first user, in the order in which the map is iterated, whose name and password are those of the body.\<close>

definition handleLogin :: "string list \<Rightarrow> dashboard \<Rightarrow> worker_request \<Rightarrow> worker_reply" where
  "handleLogin order s req =
     (case Unmarshal [(''username'', set_string lq_Username_update), (''password'', set_string lq_Password_update)] (wq_Body req)
             \<lparr>lq_Username = [], lq_Password = []\<rparr> of
        None \<Rightarrow> error_reply 400 ''invalid request body''
      | Some body \<Rightarrow>
          (case find (\<lambda>u. us_Name u = lq_Username body \<and> us_Password u = lq_Password body) (List.map_filter (db_users s) order) of
             None \<Rightarrow> error_reply 401 ''invalid credentials''
           | Some u \<Rightarrow>
               json_reply 200 (JObject [(''token'', JString (''vyx_'' @ us_ID u @ ''_'' @ us_Role u)), (''user'', public_json (toPublic u))])))"

definition handleListUsers :: "string list \<Rightarrow> dashboard \<Rightarrow> worker_reply" where
  "handleListUsers order s =
     (let userList = map toPublic (List.map_filter (db_users s) order)
      in json_reply 200 (JObject [(''total'', JNumber (Itoa (int (length userList)))), (''users'', JArray (map public_json userList))]))"

definition requested_id :: "worker_request \<Rightarrow> string" where
  "requested_id req = (case wq_Params req ''id'' of Some v \<Rightarrow> v | None \<Rightarrow> [])"

text \<open>The check of the caller, the same text in four handlers: made only when the claims have a subject.\<close>

definition forbidden :: "json_env \<Rightarrow> worker_request \<Rightarrow> bool" where
  "forbidden E req =
     (case wq_Claims req ''sub'' of
        None \<Rightarrow> False
      | Some sub \<Rightarrow>
          (let callerID = Sprintf_v E sub; callerRole = (case wq_Claims req ''role'' of Some (JString r) \<Rightarrow> r | _ \<Rightarrow> [])
           in callerID \<noteq> requested_id req \<and> callerRole \<noteq> ''admin''))"

definition handleGetUser :: "json_env \<Rightarrow> dashboard \<Rightarrow> worker_request \<Rightarrow> worker_reply" where
  "handleGetUser E s req =
     (if requested_id req = [] then error_reply 400 ''missing user id''
      else if forbidden E req then error_reply 403 ''forbidden: you can only access your own profile''
      else (case db_users s (requested_id req) of
              None \<Rightarrow> error_reply 404 ''user not found''
            | Some u \<Rightarrow> json_reply 200 (public_json (toPublic u))))"

record user_body =
  ub_Name :: string
  ub_Email :: string
  ub_Role :: string

definition user_body_fields :: "user_body field list" where
  "user_body_fields =
     [(''name'', set_string ub_Name_update), (''email'', set_string ub_Email_update), (''role'', set_string ub_Role_update)]"

abbreviation zero_user_body :: user_body where
  "zero_user_body \<equiv> \<lparr>ub_Name = [], ub_Email = [], ub_Role = []\<rparr>"

definition handleCreateUser :: "dashboard \<Rightarrow> worker_request \<Rightarrow> worker_reply \<times> dashboard" where
  "handleCreateUser s req =
     (case Unmarshal user_body_fields (wq_Body req) zero_user_body of
        None \<Rightarrow> (error_reply 400 ''invalid request body'', s)
      | Some body \<Rightarrow>
          (let role = (if ub_Role body = [] then ''user'' else ub_Role body); i = Itoa (db_nextID s);
               u = \<lparr>us_ID = i, us_Name = ub_Name body, us_Email = ub_Email body, us_Role = role, us_Password = ''password''\<rparr>
           in (json_reply 201 (public_json (toPublic u)),
               s\<lparr>db_nextID := db_nextID s + 1, db_users := (db_users s)(i \<mapsto> u),
                 db_settings := (db_settings s)(i \<mapsto>
                   \<lparr>se_Theme = ''system'', se_NotificationsEnabled = True, se_Language = ''en'', se_Timezone = ''UTC''\<rparr>)\<rparr>)))"

definition handleUpdateUser :: "json_env \<Rightarrow> dashboard \<Rightarrow> worker_request \<Rightarrow> worker_reply \<times> dashboard" where
  "handleUpdateUser E s req =
     (if requested_id req = [] then (error_reply 400 ''missing user id'', s)
      else if forbidden E req then (error_reply 403 ''forbidden: you can only update your own profile'', s)
      else (case Unmarshal user_body_fields (wq_Body req) zero_user_body of
              None \<Rightarrow> (error_reply 400 ''invalid request body'', s)
            | Some body \<Rightarrow>
                (case db_users s (requested_id req) of
                   None \<Rightarrow> (error_reply 404 ''user not found'', s)
                 | Some u \<Rightarrow>
                     (let u1 = (if ub_Name body \<noteq> [] then u\<lparr>us_Name := ub_Name body\<rparr> else u);
                          u2 = (if ub_Email body \<noteq> [] then u1\<lparr>us_Email := ub_Email body\<rparr> else u1);
                          u3 = (if ub_Role body \<noteq> [] then u2\<lparr>us_Role := ub_Role body\<rparr> else u2)
                      in (json_reply 200 (public_json (toPublic u3)), s\<lparr>db_users := (db_users s)(requested_id req \<mapsto> u3)\<rparr>)))))"

definition handleGetSettings :: "json_env \<Rightarrow> dashboard \<Rightarrow> worker_request \<Rightarrow> worker_reply" where
  "handleGetSettings E s req =
     (if requested_id req = [] then error_reply 400 ''missing user id''
      else if forbidden E req then error_reply 403 ''forbidden: you can only access your own settings''
      else (case db_settings s (requested_id req) of
              None \<Rightarrow> error_reply 404 ''settings not found''
            | Some t \<Rightarrow> json_reply 200 (settings_json t)))"

record settings_body =
  sb_Theme :: "string option"
  sb_NotificationsEnabled :: "bool option"
  sb_Language :: "string option"
  sb_Timezone :: "string option"

definition settings_body_fields :: "settings_body field list" where
  "settings_body_fields =
     [(''theme'', set_string_ptr sb_Theme_update), (''notifications_enabled'', set_bool_ptr sb_NotificationsEnabled_update),
      (''language'', set_string_ptr sb_Language_update), (''timezone'', set_string_ptr sb_Timezone_update)]"

definition handleUpdateSettings :: "json_env \<Rightarrow> dashboard \<Rightarrow> worker_request \<Rightarrow> worker_reply \<times> dashboard" where
  "handleUpdateSettings E s req =
     (if requested_id req = [] then (error_reply 400 ''missing user id'', s)
      else if forbidden E req then (error_reply 403 ''forbidden: you can only update your own settings'', s)
      else (case Unmarshal settings_body_fields (wq_Body req)
                   \<lparr>sb_Theme = None, sb_NotificationsEnabled = None, sb_Language = None, sb_Timezone = None\<rparr> of
              None \<Rightarrow> (error_reply 400 ''invalid request body'', s)
            | Some body \<Rightarrow>
                (case db_settings s (requested_id req) of
                   None \<Rightarrow> (error_reply 404 ''settings not found'', s)
                 | Some t \<Rightarrow>
                     (let t1 = (case sb_Theme body of Some v \<Rightarrow> t\<lparr>se_Theme := v\<rparr> | None \<Rightarrow> t);
                          t2 = (case sb_NotificationsEnabled body of Some v \<Rightarrow> t1\<lparr>se_NotificationsEnabled := v\<rparr> | None \<Rightarrow> t1);
                          t3 = (case sb_Language body of Some v \<Rightarrow> t2\<lparr>se_Language := v\<rparr> | None \<Rightarrow> t2);
                          t4 = (case sb_Timezone body of Some v \<Rightarrow> t3\<lparr>se_Timezone := v\<rparr> | None \<Rightarrow> t3)
                      in (json_reply 200 (settings_json t4), s\<lparr>db_settings := (db_settings s)(requested_id req \<mapsto> t4)\<rparr>)))))"

section \<open>The dispatcher and the main function\<close>

definition route_not_found :: worker_reply where
  "route_not_found = error_reply 404 ''route not found''"

abbreviation users_prefix :: string where "users_prefix \<equiv> ''/api/users/''"

text \<open>The tests of the cases with a user number in the path.\<close>

definition user_path :: "string \<Rightarrow> bool" where
  "user_path path \<longleftrightarrow> HasPrefix path users_prefix \<and> count_list path (CHR ''/'') = 3 \<and> \<not> HasSuffix path ''/settings''"

definition settings_path :: "string \<Rightarrow> bool" where
  "settings_path path \<longleftrightarrow> HasSuffix path ''/settings'' \<and> HasPrefix path users_prefix"

definition with_id :: "worker_request \<Rightarrow> string list \<Rightarrow> worker_request" where
  "with_id req parts = req\<lparr>wq_Params := [''id'' \<mapsto> parts ! 3]\<rparr>"

definition dashboard_dispatch :: "json_env \<Rightarrow> (nat \<Rightarrow> (string \<rightharpoonup> user) \<Rightarrow> string list) \<Rightarrow> dashboard worker_dispatch" where
  "dashboard_dispatch E order k s req =
     (let m = wq_Method req; path0 = TrimSuffix (wq_Path req) ''/''; path = (if path0 = [] then ''/'' else path0);
          parts = Split (CHR ''/'') path; sparts = Split (CHR ''/'') (TrimSuffix path ''/settings'')
      in if m = ''POST'' \<and> path = ''/api/auth/login'' then (handleLogin (order k (db_users s)) s req, s)
         else if m = ''GET'' \<and> path = ''/api/users'' then (handleListUsers (order k (db_users s)) s, s)
         else if m = ''GET'' \<and> user_path path
         then (if length parts = 4 then (handleGetUser E s (with_id req parts), s) else (route_not_found, s))
         else if m = ''POST'' \<and> path = ''/api/users'' then handleCreateUser s req
         else if m = ''PUT'' \<and> user_path path
         then (if length parts = 4 then handleUpdateUser E s (with_id req parts) else (route_not_found, s))
         else if m = ''GET'' \<and> settings_path path
         then (if length sparts = 4 then (handleGetSettings E s (with_id req sparts), s) else (route_not_found, s))
         else if m = ''PUT'' \<and> settings_path path
         then (if length sparts = 4 then handleUpdateSettings E s (with_id req sparts) else (route_not_found, s))
         else (route_not_found, s))"

definition dashboard_main ::
  "json_env \<Rightarrow> (nat \<Rightarrow> (string \<rightharpoonup> user) \<Rightarrow> string list) \<Rightarrow> bool \<Rightarrow> string option \<Rightarrow> (string \<Rightarrow> go_error + worker_conn) \<Rightarrow>
     dashboard worker_end" where
  "dashboard_main E order windows flag dial =
     run_worker E (dashboard_dispatch E order) dashboard_init
       [\<lparr>cap_Path = ''/api/auth/login'', cap_Method = ''POST''\<rparr>, \<lparr>cap_Path = ''/api/users'', cap_Method = ''GET''\<rparr>,
        \<lparr>cap_Path = ''/api/users/:id'', cap_Method = ''GET''\<rparr>, \<lparr>cap_Path = ''/api/users'', cap_Method = ''POST''\<rparr>,
        \<lparr>cap_Path = ''/api/users/:id'', cap_Method = ''PUT''\<rparr>, \<lparr>cap_Path = ''/api/users/:id/settings'', cap_Method = ''GET''\<rparr>,
        \<lparr>cap_Path = ''/api/users/:id/settings'', cap_Method = ''PUT''\<rparr>]
       (dial (worker_socket windows flag))"

lemmas dashboard_writers = handleCreateUser_def handleUpdateUser_def handleUpdateSettings_def

section \<open>Accounts and settings stay in step\<close>

definition dashboard_ok :: "dashboard \<Rightarrow> bool" where
  "dashboard_ok s \<longleftrightarrow> 3 \<le> db_nextID s \<and> dom (db_settings s) = dom (db_users s) \<and>
     (\<forall>i u. db_users s i = Some u \<longrightarrow> us_ID u = i \<and> (\<exists>n. 1 \<le> n \<and> n < db_nextID s \<and> i = Itoa n))"

lemma dashboard_ok_init: "dashboard_ok dashboard_init"
proof -
  have n: "''1'' = Itoa 1" "''2'' = Itoa 2" by code_simp+
  have "\<exists>m. 1 \<le> m \<and> m < 3 \<and> ''1'' = Itoa m" "\<exists>m. 1 \<le> m \<and> m < 3 \<and> ''2'' = Itoa m"
    using n by (metis one_less_numeral_iff order_refl semiring_norm(77), intro exI [of _ 2]) simp
  then show ?thesis by (auto simp: dashboard_ok_def dashboard_init_def split: if_splits)
qed

lemma dashboard_ok_create: "dashboard_ok s \<Longrightarrow> dashboard_ok (snd (handleCreateUser s req))"
proof (cases "Unmarshal user_body_fields (wq_Body req) zero_user_body")
  case (Some body)
  assume ok: "dashboard_ok s"
  then have "\<exists>n. 1 \<le> n \<and> n < db_nextID s + 1 \<and> Itoa (db_nextID s) = Itoa n"
    by (intro exI [of _ "db_nextID s"]) (simp add: dashboard_ok_def)
  moreover have "\<exists>n. 1 \<le> n \<and> n < db_nextID s + 1 \<and> i = Itoa n" if "db_users s i = Some u" for i u
    using ok that by (force simp: dashboard_ok_def)
  ultimately show ?thesis using ok by (auto simp: handleCreateUser_def Some Let_def dashboard_ok_def split: if_splits)
qed (simp add: handleCreateUser_def)

lemma dashboard_ok_update: "dashboard_ok s \<Longrightarrow> dashboard_ok (snd (handleUpdateUser E s req))"
  by (auto simp: handleUpdateUser_def dashboard_ok_def Let_def split: option.splits)

lemma dashboard_ok_settings: "dashboard_ok s \<Longrightarrow> dashboard_ok (snd (handleUpdateSettings E s req))"
  by (auto simp: handleUpdateSettings_def dashboard_ok_def Let_def split: option.splits)

interpretation dash: worker_store "dashboard_dispatch E order" dashboard_ok
  by unfold_locales
    (simp add: dashboard_dispatch_def Let_def dashboard_ok_create dashboard_ok_update dashboard_ok_settings)

text \<open>
  Whatever the core sends, every account has settings and every settings record an account, and an account is filed under its own number.
\<close>
theorem dashboard_stays_consistent:
  assumes "dashboard_main E order windows flag dial = Served s c"
  shows "dom (db_settings s) = dom (db_users s) \<and>
    (\<forall>i u. db_users s i = Some u \<longrightarrow> us_ID u = i \<and> (\<exists>n. 1 \<le> n \<and> n < db_nextID s \<and> i = Itoa n))"
  using dash.run_worker_keeps [OF dashboard_ok_init assms [unfolded dashboard_main_def]] by (simp add: dashboard_ok_def)

section \<open>Who may touch an account\<close>

lemma with_id_simps [simp]:
  "requested_id (with_id req parts) = parts ! 3" "wq_Claims (with_id req parts) = wq_Claims req" "wq_Body (with_id req parts) = wq_Body req"
  by (simp_all add: with_id_def requested_id_def)

lemma handleUpdateUser_other:
  "forbidden E req \<or> i \<noteq> requested_id req \<Longrightarrow>
    db_users (snd (handleUpdateUser E s req)) i = db_users s i \<and> db_settings (snd (handleUpdateUser E s req)) = db_settings s"
  by (auto simp: handleUpdateUser_def Let_def split: option.splits)

lemma handleUpdateSettings_other:
  "forbidden E req \<or> i \<noteq> requested_id req \<Longrightarrow>
    db_settings (snd (handleUpdateSettings E s req)) i = db_settings s i \<and> db_users (snd (handleUpdateSettings E s req)) = db_users s"
  by (auto simp: handleUpdateSettings_def Let_def split: option.splits)


definition ex_promotion :: worker_request where
  "ex_promotion = \<lparr>wq_Method = ''PUT'', wq_Path = ''/api/users/1'', wq_Headers = Map.empty, wq_Query = Map.empty, wq_Params = Map.empty,
     wq_Body = Some (JObject [(''role'', JString ''user'')]), wq_Claims = [''sub'' \<mapsto> JString ''2'', ''role'' \<mapsto> JString ''user'']\<rparr>"


lemma takeWhile_to: "c \<notin> set a \<Longrightarrow> takeWhile (\<lambda>x. x \<noteq> c) (a @ c # b) = a"
  by (induction a) auto

lemma user_path_id:
  assumes "i \<noteq> []" and "CHR ''/'' \<notin> set i" and "i \<noteq> ''settings''"
  shows "user_path (users_prefix @ i)" "Split (CHR ''/'') (users_prefix @ i) = [[], ''api'', ''users'', i]"
    "TrimSuffix (users_prefix @ i) ''/'' = users_prefix @ i"
proof -
  have "\<not> HasSuffix (users_prefix @ i) ''/settings''"
  proof
    assume "HasSuffix (users_prefix @ i) ''/settings''"
    then obtain r where "rev (users_prefix @ i) = rev ''/settings'' @ r" unfolding HasSuffix_def using HasPrefixE by blast
    then have "rev i @ CHR ''/'' # ''sresu/ipa/'' = ''sgnittes'' @ CHR ''/'' # r" by simp
    then have "takeWhile (\<lambda>x. x \<noteq> CHR ''/'') (rev i @ CHR ''/'' # ''sresu/ipa/'') = takeWhile (\<lambda>x. x \<noteq> CHR ''/'') (''sgnittes'' @ CHR ''/'' # r)"
      by (simp only:)
    then have "rev i = ''sgnittes''" using assms(2) by (subst (asm) takeWhile_to; simp)
    then have "i = rev ''sgnittes''" by (metis rev_rev_ident)
    with assms(3) show False by simp
  qed
  then show "user_path (users_prefix @ i)"
    using assms(2) by (simp add: user_path_def HasPrefix_def count_notin)
  show "Split (CHR ''/'') (users_prefix @ i) = [[], ''api'', ''users'', i]"
    using assms(2) by (simp add: Split_no_sep)
  have "last i \<noteq> CHR ''/''" using assms(1,2) last_in_set by metis
  then have "\<not> HasSuffix (users_prefix @ i) ''/''"
    using assms(1) by (cases i rule: rev_cases) (simp_all add: HasSuffix_def HasPrefix_def)
  then show "TrimSuffix (users_prefix @ i) ''/'' = users_prefix @ i" by (simp add: TrimSuffix_def)
qed

text \<open>
  The gateway never names the caller to the worker (its claims are called \<open>UserID\<close> and \<open>Roles\<close>), so the check is never made: whoever
  may use the route at all reads every account and its settings.
\<close>
theorem gateway_callers_read_all:
  assumes "gq_Method req = ''GET''" and "gq_Path req = users_prefix @ i" and "i \<noteq> []" and "CHR ''/'' \<notin> set i" and "i \<noteq> ''settings''"
    and "db_users s i = Some u"
  shows "dashboard_dispatch E order k s (as_received req) = (json_reply 200 (public_json (toPublic u)), s)"
proof -
  note p = user_path_id [OF assms(3-5)]
  have "forbidden E (with_id (as_received req) parts) = False" for parts by (simp add: forbidden_def)
  then show ?thesis using assms(1-3,6) p by (simp add: dashboard_dispatch_def Let_def handleGetUser_def)
qed

text \<open>A user who may update their own profile may also make themselves an administrator.\<close>

theorem users_promote_themselves:
  assumes "wq_Claims req ''sub'' = Some (JString i)" and "i \<noteq> []" and "requested_id req = i" and "db_users s i = Some u"
    and "Unmarshal user_body_fields (wq_Body req) zero_user_body = Some body" and "ub_Role body = ''admin''"
  shows "\<exists>v. db_users (snd (handleUpdateUser E s req)) i = Some v \<and> us_Role v = ''admin''"
  using assms by (simp add: handleUpdateUser_def forbidden_def Let_def)

text \<open>An account made by an administrator can be entered by anyone who knows its name.\<close>

theorem created_account_open:
  assumes "Unmarshal user_body_fields (wq_Body req) zero_user_body = Some body"
    and "Unmarshal [(''username'', set_string lq_Username_update), (''password'', set_string lq_Password_update)] (wq_Body login)
      \<lparr>lq_Username = [], lq_Password = []\<rparr> = Some \<lparr>lq_Username = ub_Name body, lq_Password = ''password''\<rparr>"
    and "set order = dom (db_users (snd (handleCreateUser s req)))"
  shows "wa_StatusCode (handleLogin order (snd (handleCreateUser s req)) login) = 200"
proof -
  let ?s = "snd (handleCreateUser s req)" and ?i = "Itoa (db_nextID s)"
  obtain u where u: "db_users ?s ?i = Some u" "us_Name u = ub_Name body" "us_Password u = ''password''"
    using assms(1) by (simp add: handleCreateUser_def Let_def)
  then have "?i \<in> set order" using assms(3) by auto
  with u(1) have "u \<in> set (List.map_filter (db_users ?s) order)" by (force simp: map_filter_def)
  with u have "find (\<lambda>u. us_Name u = ub_Name body \<and> us_Password u = ''password'') (List.map_filter (db_users ?s) order) \<noteq> None"
    by (auto simp: find_None_iff)
  then show ?thesis by (auto simp: handleLogin_def assms(2) json_reply_def)
qed

end
