(* ===== verification/Landpage.thy ===== *)
theory Landpage
  imports WorkerLoop
begin

text \<open>
  The worker of the landing page example, \<open>examples/landpage/workers/go/main.go\<close>: a bounded list of contact messages and a list of
  newsletter subscribers. The text of the time in \<open>handleHealth\<close> is a function of the number of the call.
\<close>

section \<open>The store\<close>

record contact_entry =
  ce_Name :: string
  ce_Email :: string
  ce_Message :: string
  ce_Subject :: string

record newsletter_entry =
  ne_Email :: string
  ne_Name :: string

record landpage =
  lp_contactMessages :: "contact_entry list"
  lp_newsletterEmails :: "newsletter_entry list"

definition landpage_init :: landpage where
  "landpage_init = \<lparr>lp_contactMessages = [], lp_newsletterEmails = []\<rparr>"

definition maxContactEntries :: nat where
  "maxContactEntries = 100"

section \<open>Handlers\<close>

definition handleHealth :: "string \<Rightarrow> worker_reply" where
  "handleHealth now =
     json_reply 200 (JObject [(''service'', JString ''landpage''), (''status'', JString ''ok''), (''timestamp'', JString now)])"

definition contact_fields :: "contact_entry field list" where
  "contact_fields =
     [(''name'', set_string ce_Name_update), (''email'', set_string ce_Email_update), (''message'', set_string ce_Message_update),
      (''subject'', set_string ce_Subject_update)]"

definition handleContact :: "landpage \<Rightarrow> worker_request \<Rightarrow> worker_reply \<times> landpage" where
  "handleContact s req =
     (case Unmarshal contact_fields (wq_Body req) \<lparr>ce_Name = [], ce_Email = [], ce_Message = [], ce_Subject = []\<rparr> of
        None \<Rightarrow> (error_reply 400 ''invalid body'', s)
      | Some body \<Rightarrow>
          if maxContactEntries \<le> length (lp_contactMessages s) then (error_reply 503 ''contact store full, try again later'', s)
          else (let subject = (if ce_Subject body = [] then ''general'' else ce_Subject body)
                in (json_reply 200 (JObject [(''message'', JString (''Thank you for your message! We'' @ [CHR 0x27] @ ''ll get back to you soon.''))]),
                    s\<lparr>lp_contactMessages := lp_contactMessages s @ [body\<lparr>ce_Subject := subject\<rparr>]\<rparr>)))"

definition handleNewsletter :: "landpage \<Rightarrow> worker_request \<Rightarrow> worker_reply \<times> landpage" where
  "handleNewsletter s req =
     (case Unmarshal [(''email'', set_string ne_Email_update), (''name'', set_string ne_Name_update)] (wq_Body req)
             \<lparr>ne_Email = [], ne_Name = []\<rparr> of
        None \<Rightarrow> (error_reply 400 ''invalid body'', s)
      | Some body \<Rightarrow>
          if list_ex (\<lambda>entry. ne_Email entry = ne_Email body) (lp_newsletterEmails s)
          then (json_reply 200 (JObject [(''message'', JString ''You are already subscribed!'')]), s)
          else (json_reply 200 (JObject [(''message'', JString ''Successfully subscribed to the newsletter!'')]),
                s\<lparr>lp_newsletterEmails := lp_newsletterEmails s @ [body]\<rparr>))"

definition handleListSubscribers :: "landpage \<Rightarrow> worker_reply" where
  "handleListSubscribers s =
     json_reply 200 (JObject
       [(''subscribers'', JArray (map (\<lambda>e. JObject [(''email'', JString (ne_Email e)), (''name'', JString (ne_Name e))]) (lp_newsletterEmails s))),
        (''total'', JNumber (Itoa (int (length (lp_newsletterEmails s)))))])"

section \<open>The dispatcher and the main function\<close>

definition landpage_dispatch :: "(nat \<Rightarrow> string) \<Rightarrow> landpage worker_dispatch" where
  "landpage_dispatch clock k s req =
     (let m = wq_Method req; p = wq_Path req
      in if m = ''GET'' \<and> p = ''/api/health'' then (handleHealth (clock k), s)
         else if m = ''POST'' \<and> p = ''/api/contact'' then handleContact s req
         else if m = ''POST'' \<and> p = ''/api/newsletter'' then handleNewsletter s req
         else if m = ''GET'' \<and> p = ''/api/newsletter/subscribers'' then (handleListSubscribers s, s)
         else (error_reply 404 ''route not found'', s))"

definition landpage_main ::
  "json_env \<Rightarrow> (nat \<Rightarrow> string) \<Rightarrow> bool \<Rightarrow> string option \<Rightarrow> (string \<Rightarrow> go_error + worker_conn) \<Rightarrow> landpage worker_end" where
  "landpage_main E clock windows flag dial =
     run_worker E (landpage_dispatch clock) landpage_init
       [\<lparr>cap_Path = ''/api/health'', cap_Method = ''GET''\<rparr>, \<lparr>cap_Path = ''/api/contact'', cap_Method = ''POST''\<rparr>,
        \<lparr>cap_Path = ''/api/newsletter'', cap_Method = ''POST''\<rparr>, \<lparr>cap_Path = ''/api/newsletter/subscribers'', cap_Method = ''GET''\<rparr>]
       (dial (worker_socket windows flag))"

section \<open>Bounds of the store\<close>

text \<open>
  At most a hundred messages are kept, each with a subject, and an address subscribes once. The list of subscribers has no bound.
\<close>

definition landpage_ok :: "landpage \<Rightarrow> bool" where
  "landpage_ok s \<longleftrightarrow> length (lp_contactMessages s) \<le> maxContactEntries \<and> (\<forall>e \<in> set (lp_contactMessages s). ce_Subject e \<noteq> []) \<and>
     distinct (map ne_Email (lp_newsletterEmails s))"

interpretation land: worker_store "landpage_dispatch clock" landpage_ok
proof unfold_locales
  fix s k req assume ok: "landpage_ok s"
  then have "landpage_ok (snd (handleContact s req))" by (auto simp: handleContact_def landpage_ok_def Let_def split: option.splits)
  moreover have "landpage_ok (snd (handleNewsletter s req))"
    using ok by (auto simp: handleNewsletter_def landpage_ok_def list_ex_iff split: option.splits)
  ultimately show "landpage_ok (snd (landpage_dispatch clock k s req))" using ok by (simp add: landpage_dispatch_def Let_def)
qed

theorem landpage_store_bounded:
  assumes "landpage_main E clock windows flag dial = Served s c"
  shows "length (lp_contactMessages s) \<le> 100 \<and> (\<forall>e \<in> set (lp_contactMessages s). ce_Subject e \<noteq> []) \<and>
    distinct (map ne_Email (lp_newsletterEmails s))"
proof -
  have "landpage_ok landpage_init" by (simp add: landpage_ok_def landpage_init_def)
  from land.run_worker_keeps [OF this assms [unfolded landpage_main_def]] show ?thesis by (simp add: landpage_ok_def maxContactEntries_def)
qed

text \<open>A subscription is kept: once an address is on the list, no request takes it off, and subscribing again changes nothing.\<close>

theorem subscribers_stay:
  "e \<in> set (lp_newsletterEmails s) \<Longrightarrow> e \<in> set (lp_newsletterEmails (snd (landpage_dispatch clock k s req)))"
  by (auto simp: landpage_dispatch_def Let_def handleContact_def handleNewsletter_def split: option.splits)

end
