(* ===== verification/Examples.thy ===== *)
theory Examples
  imports Startup Shop Dashboard Landpage
begin

text \<open>
  The example workers behind the gateway: what the core makes of their handshake and of their answers, and what they make of the
  requests it sends. Each half is the code of its own side; the theorems put the two together.
\<close>

section \<open>The core's side of the payloads\<close>

text \<open>\<open>json.Unmarshal\<close> of a handshake. The handler uses the capabilities only.\<close>

definition set_capabilities :: "json \<Rightarrow> string \<times> capability list \<Rightarrow> (string \<times> capability list) option" where
  "set_capabilities v x =
     (case v of
        JNull \<Rightarrow> Some (fst x, [])
      | JArray vs \<Rightarrow>
          (let cs = map (\<lambda>v. decode_struct [(''path'', set_string cap_Path_update), (''method'', set_string cap_Method_update)] v
                       \<lparr>cap_Path = [], cap_Method = []\<rparr>) vs
           in if None \<in> set cs then None else Some (fst x, map the cs))
      | _ \<Rightarrow> None)"

definition decode_handshake :: "json_env \<Rightarrow> bytes \<Rightarrow> go_error + capability list" where
  "decode_handshake E p =
     (case je_parse E p of
        Inl err \<Rightarrow> Inl err
      | Inr v \<Rightarrow>
          (case decode_struct [(''worker_id'', set_string apfst), (''capabilities'', set_capabilities)] v ([], []) of
             None \<Rightarrow> Inl (Errorf ''json: cannot unmarshal'')
           | Some x \<Rightarrow> Inr (snd x)))"

text \<open>
  The worker's envelope. The body is a byte slice: a string is read as base64 by \<open>dec\<close>, an array as the bytes it lists, and an object is
  refused.
\<close>

definition set_bytes :: "(string \<Rightarrow> bytes option) \<Rightarrow> ((bytes \<Rightarrow> bytes) \<Rightarrow> 'a \<Rightarrow> 'a) \<Rightarrow> json \<Rightarrow> 'a \<Rightarrow> 'a option" where
  "set_bytes dec upd v x =
     (case v of
        JNull \<Rightarrow> Some (upd (\<lambda>_. []) x)
      | JString s \<Rightarrow> map_option (\<lambda>b. upd (\<lambda>_. b) x) (dec s)
      | JArray vs \<Rightarrow>
          (let bs = map (\<lambda>v. case v of JNull \<Rightarrow> Some 0
                       | JNumber l \<Rightarrow> (case ParseInt l of Some n \<Rightarrow> if n < 256 then Some (ucast n) else None | None \<Rightarrow> None)
                       | _ \<Rightarrow> None) vs
           in if None \<in> set bs then None else Some (upd (\<lambda>_. map the bs) x))
      | _ \<Rightarrow> None)"

definition set_status :: "json \<Rightarrow> worker_response \<Rightarrow> worker_response option" where
  "set_status v x =
     (case v of
        JNumber l \<Rightarrow> map_option (\<lambda>n. x\<lparr>wr_StatusCode := sint n\<rparr>) (ParseInt l)
      | JNull \<Rightarrow> Some x
      | _ \<Rightarrow> None)"

definition worker_response_fields :: "(string \<Rightarrow> bytes option) \<Rightarrow> worker_response field list" where
  "worker_response_fields dec =
     [(''status_code'', set_status), (''headers'', set_map wr_Headers_update), (''body'', set_bytes dec wr_Body_update),
      (''correlation_id'', set_string wr_CorrelationID_update)]"

definition decode_worker_response :: "json_env \<Rightarrow> (string \<Rightarrow> bytes option) \<Rightarrow> bytes \<Rightarrow> go_error + worker_response" where
  "decode_worker_response E dec p =
     (case je_parse E p of
        Inl err \<Rightarrow> Inl err
      | Inr v \<Rightarrow>
          (case decode_struct (worker_response_fields dec) v
                  \<lparr>wr_StatusCode = 0, wr_Headers = Map.empty, wr_Body = [], wr_CorrelationID = []\<rparr> of
             None \<Rightarrow> Inl (Errorf ''json: cannot unmarshal'')
           | Some x \<Rightarrow> Inr x))"

section \<open>The handshake of an example\<close>

lemma foldName_capability: "foldName ''path'' = ''PATH''" "foldName ''method'' = ''METHOD''" "foldName ''worker_id'' = ''WORKER_ID''"
    "foldName ''capabilities'' = ''CAPABILITIES''"
  by code_simp+

lemma set_capabilities_json:
  "set_capabilities (JArray (map (\<lambda>c. JObject [(''path'', JString (cap_Path c)), (''method'', JString (cap_Method c))]) caps)) x =
     Some (fst x, caps)"
proof -
  have "decode_struct [(''path'', set_string cap_Path_update), (''method'', set_string cap_Method_update)]
      (JObject [(''path'', JString (cap_Path c)), (''method'', JString (cap_Method c))]) \<lparr>cap_Path = [], cap_Method = []\<rparr> = Some c" for c
    by (simp add: set_member_def foldName_capability del: foldName.simps)
  then show ?thesis by (simp add: set_capabilities_def comp_def image_iff)
qed

lemma decode_handshake_json:
  assumes "je_parse E (je_print E (handshake_json wid caps)) = Inr (handshake_json wid caps)"
  shows "decode_handshake E (je_print E (handshake_json wid caps)) = Inr caps"
proof -
  have "decode_struct [(''worker_id'', set_string apfst), (''capabilities'', set_capabilities)] (handshake_json wid caps) ([], []) =
      Some (wid, caps)"
    by (simp add: handshake_json_def set_member_def foldName_capability set_capabilities_json del: foldName.simps)
  then show ?thesis by (simp add: decode_handshake_def assms)
qed

lemma first_message:
  assumes "run_worker E D s0 caps (Inr c) = Served s c'" and "wc_out c = []" and "wc_fail c = (\<lambda>_. None)"
    and "length (je_print E (handshake_json ''go:api'' caps)) \<le> MaxPayloadSize"
  shows "\<exists>rest. Read (wc_out c') = Inr (\<lparr>m_Type = TypeHandshake, m_Payload = je_print E (handshake_json ''go:api'' caps)\<rparr>, rest)"
proof -
  let ?h = "\<lparr>m_Type = TypeHandshake, m_Payload = je_print E (handshake_json ''go:api'' caps)\<rparr>"
  let ?c1 = "c\<lparr>wc_out := frame ?h, wc_writes := wc_writes c + 1\<rparr>"
  have ok: "wire_ok ?h" using assms(4) by (simp add: wire_ok_def validateType_def)
  have w: "writeFrame c TypeHandshake (m_Payload ?h) = (None, ?c1)"
    using writeFrame_frame [of c "m_Payload ?h" TypeHandshake] assms(2-4) by (simp add: MaxPayloadSize_def)
  obtain c2 where c2: "writeFrame ?c1 TypeHeartbeat [] = (None, c2)" "wc_out c2 = frame ?h @ frame \<lparr>m_Type = TypeHeartbeat, m_Payload = []\<rparr>"
    using writeFrame_frame [of ?c1 "[]" TypeHeartbeat] assms(3) by simp
  have "worker_loop E D 0 s0 c2 = (s, c')" using assms(1) w c2(1) by (simp add: run_worker_def split: prod.splits)
  then obtain r where "wc_out c' = frame ?h @ r" using serve_out [of E D 0 s0 c2] c2(2) by auto
  then show ?thesis using Read_frame [OF ok, of r] by auto
qed

text \<open>
  The hello-world project takes the gateway down at start-up: the first message the core reads from its worker announces two routes, and
  the handshake handler has no route map to look them up in.
\<close>
theorem hello_world_crashes_gateway:
  assumes "hello_main E windows flag dial = Served s c'" and "dial (worker_socket windows flag) = Inr c"
    and "wc_out c = []" and "wc_fail c = (\<lambda>_. None)" and "\<And>v. je_parse E (je_print E v) = Inr v" and "\<And>v. length (je_print E v) \<le> MaxPayloadSize"
    and "ie_listen x = None" and "prepareWorkerCommand O1 w i dir = Some cmd"
    and "SpawnWorker P (su_service st) (spawn_request O1 w i cmd) (ie_spawned x) = (Inr wk, s1)"
    and "ie_attempts x = a # as" and "at_received a = (case Read (wc_out c') of Inl err \<Rightarrow> Inl err | Inr (m, rest) \<Rightarrow> Inr m)"
  shows "fst (spawnWorkerInstance O1 P (decode_handshake E) ctx dir w i x st) = Crashes"
proof -
  let ?caps = "[\<lparr>cap_Path = ''/api/hello'', cap_Method = ''GET''\<rparr>, \<lparr>cap_Path = ''/api/greet'', cap_Method = ''POST''\<rparr>]"
  let ?m = "\<lparr>m_Type = TypeHandshake, m_Payload = je_print E (handshake_json ''go:api'' ?caps)\<rparr>"
  obtain rest where "Read (wc_out c') = Inr (?m, rest)"
    using first_message [OF assms(1) [unfolded hello_main_def assms(2)] assms(3,4,6)] by blast
  then have "at_received a = Inr ?m" using assms(11) by simp
  moreover have "decode_handshake E (m_Payload ?m) = Inr ?caps" using decode_handshake_json [OF assms(5)] by simp
  ultimately show ?thesis
    using announced_routes_crash [where U = "decode_handshake E", OF assms(7) assms(8) assms(9) assms(10)] by simp
qed

section \<open>Requests through the gateway\<close>

lemma shop_as_received [simp]:
  "snd (handleCreateProduct E s (as_received req)) = s" "snd (handleUpdateProduct E s (as_received req)) = s"
  "snd (handleGetCart E s (as_received req)) = s" "snd (handleAddCartItem E s (as_received req)) = s"
  by (simp_all add: shop_handlers claim_sub_def)

lemma handleDeleteProduct_carts [simp]: "sh_carts (snd (handleDeleteProduct s req)) = sh_carts s"
  by (simp add: handleDeleteProduct_def split: option.splits)

lemma dashboard_as_received [simp]:
  "snd (handleCreateUser s (as_received req)) = s" "snd (handleUpdateUser E s (with_id (as_received req) parts)) = s"
  "snd (handleUpdateSettings E s (with_id (as_received req) parts)) = s"
  by (simp_all add: dashboard_writers)


section \<open>Answers through the gateway\<close>

text \<open>Every answer of an example has an object as its body.\<close>

definition object_body :: "worker_reply \<Rightarrow> bool" where
  "object_body r = (case wa_Body r of JObject _ \<Rightarrow> True | _ \<Rightarrow> False)"

lemma object_body_simps [simp]:
  "object_body (json_reply n (JObject ms))" "object_body (error_reply n msg)" "object_body (json_reply n (product_json E p))"
  "object_body (json_reply n (cart_json items))" "object_body (json_reply n (public_json u))" "object_body (json_reply n (settings_json t))"
  by (simp_all add: object_body_def json_reply_def error_reply_def product_json_def cart_json_def public_json_def settings_json_def)

lemma hello_object: "object_body (fst (hello_dispatch E k s req))"
  by (simp add: hello_dispatch_def handleHello_def handleGreet_def Let_def split: option.splits)

lemma shop_handler_objects:
  "object_body (handleListProducts E ks s)" "object_body (fst (handleCreateProduct E s req))" "object_body (handleGetProduct E s req)"
  "object_body (fst (handleUpdateProduct E s req))" "object_body (fst (handleDeleteProduct s req))" "object_body (fst (handleGetCart E s req))"
  "object_body (fst (handleAddCartItem E s req))" "object_body (jsonError n msg)"
  by (simp_all add: handleListProducts_def handleGetProduct_def product_not_found_def jsonError_def jsonResponse_def
      shop_handlers Let_def split: option.split)

lemma shop_object: "object_body (fst (shop_dispatch E order k s req))"
  by (simp add: shop_dispatch_def shop_handler_objects Let_def)

lemma dashboard_handler_objects:
  "object_body (handleLogin ks s req)" "object_body (handleListUsers ks s)" "object_body (handleGetUser E s req)"
  "object_body (fst (handleCreateUser s req))" "object_body (fst (handleUpdateUser E s req))" "object_body (handleGetSettings E s req)"
  "object_body (fst (handleUpdateSettings E s req))" "object_body route_not_found"
  by (simp_all add: handleLogin_def handleListUsers_def handleGetUser_def handleGetSettings_def route_not_found_def
      dashboard_writers Let_def split: option.split)

lemma dashboard_object: "object_body (fst (dashboard_dispatch E order k s req))"
  by (simp add: dashboard_dispatch_def dashboard_handler_objects Let_def)

lemma landpage_object: "object_body (fst (landpage_dispatch clock k s req))"
  by (simp add: landpage_dispatch_def handleHealth_def handleContact_def handleNewsletter_def handleListSubscribers_def Let_def
      split: option.splits)

definition example_answer :: "json_env \<Rightarrow> worker_reply \<Rightarrow> bool" where
  "example_answer E r \<longleftrightarrow> (\<exists>k req. r = fst (hello_dispatch E k () req)) \<or> (\<exists>order k s req. r = fst (shop_dispatch E order k s req)) \<or>
     (\<exists>order k s req. r = fst (dashboard_dispatch E order k s req)) \<or> (\<exists>clock k s req. r = fst (landpage_dispatch clock k s req))"

lemma example_object: "example_answer E r \<Longrightarrow> object_body r"
  unfolding example_answer_def using hello_object shop_object dashboard_object landpage_object by blast

lemma foldName_response: "foldName ''status_code'' = ''STATUS_CODE''" "foldName ''headers'' = ''HEADERS''" "foldName ''body'' = ''BODY''"
    "foldName ''correlation_id'' = ''CORRELATION_ID''"
  by code_simp+

lemma envelope_refused:
  assumes "object_body r" and "je_parse E (je_print E (reply_json r)) = Inr (reply_json r)"
  shows "\<exists>err. decode_worker_response E dec (je_print E (reply_json r)) = Inl err"
proof -
  obtain ms where b: "wa_Body r = JObject ms" using assms(1) by (auto simp: object_body_def split: json.splits)
  have "set_member (worker_response_fields dec) ''body'' = set_bytes dec wr_Body_update"
    by (intro ext) (simp add: set_member_def worker_response_fields_def foldName_response del: foldName.simps)
  then have "set_members (worker_response_fields dec) ((''body'', JObject ms) # rest) x = None" for rest x
    by (simp add: set_bytes_def)
  then have "decode_struct (worker_response_fields dec) (reply_json r) x = None" for x
    by (auto simp: reply_json_def b split: option.splits)
  then show ?thesis by (simp add: decode_worker_response_def assms(2))
qed

text \<open>
  C18: The status of an example's answer never reaches the client: the core cannot decode an envelope whose body is an object, so it
  answers 200 and sends the whole envelope as the body, also when the worker refused the request; and neither the failure nor the success
  is recorded by the route's breaker.
\<close>
theorem example_statuses_are_lost:
  assumes "Lookup (dc_routes cfg) (gq_Method req) (gq_Path req) = Some rt" and "admissible cfg d (rq_start q) req (lr_Entry rt)"
    and "dc_listeners cfg = []" and "dc_hooks cfg = []" and "ds_poolMgr d = None"
    and "\<And>dr. ds_drainer d = Some dr \<Longrightarrow> \<forall>i. 0 \<le> inflight dr i" and "\<And>r c t. \<exists>p. dc_marshal cfg r c t = Inr p"
    and "dc_unmarshal cfg = decode_worker_response E dec" and "rq_send q (re_WorkerID (lr_Entry rt)) = None"
    and "rq_receive q (re_WorkerID (lr_Entry rt)) = Inr \<lparr>m_Type = TypeResponse, m_Payload = je_print E (reply_json r)\<rparr>"
    and "je_parse E (je_print E (reply_json r)) = Inr (reply_json r)" and "example_answer E r"
  shows "fst (Dispatch cfg d q req) = Returned (Some \<lparr>gr_StatusCode = 200, gr_Headers = Map.empty, gr_Body = je_print E (reply_json r),
      gr_CorrelationID = fst (initCorrelationID req (rq_uuid q))\<rparr>) None \<and>
    cb_of (snd (Dispatch cfg d q req)) (route_key req rt) = fst (snd (Allow (cb_of d (route_key req rt)) (rq_start q)))"
proof -
  obtain err where "decode_worker_response E dec (je_print E (reply_json r)) = Inl err"
    using envelope_refused [OF example_object [OF assms(12)] assms(11)] by blast
  then show ?thesis
    using Dispatch_expected [OF assms(1) assms(2) assms(3) assms(4) assms(5) assms(6) assms(7)] assms(8-10)
    by (simp add: expected_def recorded_def)
qed

section \<open>A concrete exchange\<close>

definition ex_post :: gateway_request where
  "ex_post = \<lparr>gq_Method = ''POST'', gq_Path = ''/api/contact'', gq_Headers = Map.empty, gq_Query = Map.empty, gq_Params = None,
     gq_Body = [123, 125], gq_Claims = Some \<lparr>cl_UserID = ''u1'', cl_Roles = [''admin'']\<rparr>, gq_ClientIP = ''10.0.0.1''\<rparr>"

definition ex_reader :: "json \<Rightarrow> json_env" where
  "ex_reader v = ex_json\<lparr>je_parse := \<lambda>_. Inr v\<rparr>"

abbreviation (input) ex_payload :: json where
  "ex_payload \<equiv> requestPayload (\<lambda>_. []) (\<lambda>_. ''5s'') ex_post ''c1'' 5"


theorem example_statuses_are_lost_witness:
  "\<exists>r. wa_StatusCode r = 404 \<and> example_answer (ex_reader (reply_json r)) r \<and>
     fst (Dispatch (ex_cfg\<lparr>dc_unmarshal := decode_worker_response (ex_reader (reply_json r)) (\<lambda>_. None)\<rparr>) ex_disp
            (ex_q\<lparr>rq_receive := \<lambda>_. Inr \<lparr>m_Type = TypeResponse, m_Payload = [9]\<rparr>\<rparr>) (ex_req ex_auth)) =
       Returned (Some \<lparr>gr_StatusCode = 200, gr_Headers = Map.empty, gr_Body = [9], gr_CorrelationID = ''c1''\<rparr>) None"
proof -
  let ?r = "error_reply 404 ''route not found''"
  let ?E = "ex_reader (reply_json ?r)"
  let ?cfg = "ex_cfg\<lparr>dc_unmarshal := decode_worker_response ?E (\<lambda>_. None)\<rparr>"
  let ?q = "ex_q\<lparr>rq_receive := \<lambda>_. Inr \<lparr>m_Type = TypeResponse, m_Payload = [9]\<rparr>\<rparr>"
  have "?r = fst (hello_dispatch ?E 0 () zero_request)" by (simp add: hello_dispatch_def zero_request_def)
  then have a: "example_answer ?E ?r" unfolding example_answer_def by blast
  have e: "je_print ?E v = [9]" "je_parse ?E b = Inr (reply_json ?r)" for v b by (simp_all add: ex_reader_def ex_json_def)
  have l: "Lookup (dc_routes ?cfg) (gq_Method (ex_req ex_auth)) (gq_Path (ex_req ex_auth)) = Some ex_rt" using ex_lookup [of ex_auth] by simp
  have d: "admissible ?cfg ex_disp (rq_start ?q) (ex_req ex_auth) (lr_Entry ex_rt)" using ex_admissible by (simp add: admissible_def)
  have f: "\<forall>i. 0 \<le> inflight dr i" if "ds_drainer ex_disp = Some dr" for dr
    using that ex_inflight by (simp add: ex_disp_def NewDispatcher_def)
  have c: "fst (initCorrelationID (ex_req ex_auth) (rq_uuid ?q)) = ''c1''" by (simp add: initCorrelationID_def ex_gateway Let_def)
  have "fst (Dispatch ?cfg ex_disp ?q (ex_req ex_auth)) = Returned (Some \<lparr>gr_StatusCode = 200, gr_Headers = Map.empty,
      gr_Body = je_print ?E (reply_json ?r), gr_CorrelationID = fst (initCorrelationID (ex_req ex_auth) (rq_uuid ?q))\<rparr>) None"
    by (rule example_statuses_are_lost [where dec = "\<lambda>_. None", OF l d, THEN conjunct1])
      (use f a e in \<open>auto simp: ex_cfg_def ex_disp_def NewDispatcher_def ex_q_def ex_entry_def\<close>)
  then have "fst (Dispatch ?cfg ex_disp ?q (ex_req ex_auth)) =
      Returned (Some \<lparr>gr_StatusCode = 200, gr_Headers = Map.empty, gr_Body = [9], gr_CorrelationID = ''c1''\<rparr>) None"
    unfolding c e .
  moreover have "wa_StatusCode ?r = 404" by (simp add: error_reply_def json_reply_def)
  ultimately show ?thesis using a by blast
qed

end
