(* ===== verification/Serving.thy ===== *)
theory Serving
  imports Startup Logs WebSocket
begin

text \<open>
  What surrounds the handlers once the gateway runs: the multiplexer that \<open>New\<close> of \<open>core/infrastructure/gateway/server.go\<close> installs in
  front of them, the loops \<open>startServices\<close> of \<open>core/cmd/vyx/main.go\<close> leaves running (heartbeats, reload on a signal, watching of
  files), the writers that copy log lines to the terminal, and the socket client of \<open>core/infrastructure/ipc/uds/client.go\<close>.
\<close>

section \<open>Routing of requests\<close>

text \<open>
  \<open>cleanPath\<close> of \<open>net/http\<close>: the canonical path, with a trailing slash kept. \<open>path.Clean\<close> is \<^const>\<open>filepath_Clean\<close> on Unix.
\<close>

definition cleanPath :: "string \<Rightarrow> string" where
  "cleanPath p =
     (if p = [] then ''/''
      else (let q = (if hd p \<noteq> CHR ''/'' then CHR ''/'' # p else p); np = filepath_Clean q
            in if last q = CHR ''/'' \<and> np \<noteq> ''/'' then np @ ''/'' else np))"

text \<open>
  The patterns \<open>/ws/\<close>, \<open>/metrics\<close> (only when the provider has a handler) and \<open>/\<close>. The multiplexer redirects to the canonical path
  first, except for \<open>CONNECT\<close>, and from a path without its trailing slash to a pattern that has it.
\<close>

datatype mux_target = MuxWS | MuxMetrics | MuxHandle | MuxRedirect string

definition mux_match :: "bool \<Rightarrow> string \<Rightarrow> mux_target" where
  "mux_match metrics p =
     (if HasPrefix p ''/ws/'' then MuxWS else if metrics \<and> p = ''/metrics'' then MuxMetrics else MuxHandle)"

definition mux_Handler :: "bool \<Rightarrow> http_request \<Rightarrow> mux_target" where
  "mux_Handler metrics r =
     (let p = (if hr_Method r = ''CONNECT'' then hr_Path r else cleanPath (hr_Path r))
      in if p = ''/ws'' then MuxRedirect (cleanPath (hr_Path r) @ ''/'')
         else if p \<noteq> hr_Path r then MuxRedirect p
         else mux_match metrics p)"

text \<open>
  A request as the server answers it. The CORS layer around the multiplexer allows no origin by default and passes every request on, so
  it is left out; \<open>OPTIONS *\<close> is answered by the library.
\<close>

datatype served = Redirected string | MetricsPage | Handled handled

definition serve_request :: "bool \<Rightarrow> server_config \<Rightarrow> http_env \<Rightarrow> server \<Rightarrow> http_request \<Rightarrow> served \<times> server" where
  "serve_request metrics cfg e s r =
     (case mux_Handler metrics r of
        MuxRedirect u \<Rightarrow> (Redirected u, s)
      | MuxMetrics \<Rightarrow> (MetricsPage, s)
      | MuxWS \<Rightarrow>
          (case ws_ServeHTTP (dc_routes (sc_dispatch cfg)) (dc_jwt (sc_dispatch cfg)) new_response r of
             WSRefused w \<Rightarrow> (Handled (Response w), s)
           | WSUpgrade route ps cl \<Rightarrow> (Handled (Upgraded route ps cl), s))
      | MuxHandle \<Rightarrow> (case handle cfg s e new_response r of (h, s') \<Rightarrow> (Handled h, s')))"

section \<open>Background loops\<close>

text \<open>The sender: at each tick the live workers are listed, and a failure to list them skips the tick.\<close>

fun sender_Run :: "(string \<Rightarrow> message \<Rightarrow> go_error option) \<Rightarrow> (go_error + string list) list \<Rightarrow> (string \<times> message \<times> go_error option) list" where
  "sender_Run send [] = []"
| "sender_Run send (Inl err # ticks) = sender_Run send ticks"
| "sender_Run send (Inr ids # ticks) = sendAll send ids @ sender_Run send ticks"

text \<open>Reload on \<open>SIGUSR1\<close>, for each signal the loop receives; a failure is only logged.\<close>

fun sigusr1_loop ::
  "env \<Rightarrow> (string list \<times> go_time \<times> (string \<Rightarrow> (go_time \<times> drain_event) list)) list \<Rightarrow> lifecycle \<Rightarrow> lifecycle" where
  "sigusr1_loop E [] s = s"
| "sigusr1_loop E ((order, now, es) # sigs) s = sigusr1_loop E sigs (snd (RestartAll E s order now es))"

text \<open>
  The loop of the file watcher: what the \<open>select\<close> receives, until the context is done or a channel is closed. Between two events
  time passes and timers run; \<open>between\<close> is what they did.
\<close>

datatype watcher_event = CtxDone | FsEvent fs_event | EventsClosed | WatcherError | ErrorsClosed

fun startWatcherLoop :: "string \<Rightarrow> watch_entry list \<Rightarrow> ((timers \<Rightarrow> timers) \<times> watcher_event) list \<Rightarrow> timers \<Rightarrow> timers" where
  "startWatcherLoop cfgPath ents [] s = s"
| "startWatcherLoop cfgPath ents ((between, ev) # evs) s =
     (case ev of
        CtxDone \<Rightarrow> cancelAllTimers (between s)
      | FsEvent e \<Rightarrow>
          (case handleWatcherEvent e cfgPath ents of
             RestartWorkers ids \<Rightarrow> startWatcherLoop cfgPath ents evs (foldl (\<lambda>s w. HotReload.scheduleRestart w s) (between s) ids)
           | _ \<Rightarrow> startWatcherLoop cfgPath ents evs (between s))
      | EventsClosed \<Rightarrow> between s
      | WatcherError \<Rightarrow> startWatcherLoop cfgPath ents evs (between s)
      | ErrorsClosed \<Rightarrow> between s)"

section \<open>Log lines for the terminal\<close>

text \<open>\<open>unmarshal\<close> is the JSON decoding of an entry.\<close>

definition muxWriteSyncer_Write :: "(string \<Rightarrow> entry option) \<Rightarrow> go_time \<Rightarrow> multiplexer \<Rightarrow> string \<Rightarrow> nat \<times> multiplexer" where
  "muxWriteSyncer_Write unmarshal now m p =
     (let e = (case unmarshal p of
                 None \<Rightarrow> zero_entry\<lparr>en_Timestamp := now, en_Source := ''CORE'', en_Level := ''INFO'', en_Raw := p\<rparr>
               | Some e \<Rightarrow> if en_Source e = [] then e\<lparr>en_Source := ''CORE''\<rparr> else e)
      in (length p, Push m e))"

definition muxLogWriter :: "(string \<Rightarrow> entry option) \<Rightarrow> go_time \<Rightarrow> multiplexer \<Rightarrow> string \<Rightarrow> string \<Rightarrow> multiplexer" where
  "muxLogWriter unmarshal now m workerID line =
     (let e = ParseEntry unmarshal now workerID line
      in Push m (if en_Source e = [] then e\<lparr>en_Source := workerID\<rparr> else e))"

datatype log_line = CoreLine go_time string | WorkerLine go_time string string

fun write_line :: "(string \<Rightarrow> entry option) \<Rightarrow> multiplexer \<Rightarrow> log_line \<Rightarrow> multiplexer" where
  "write_line U m (CoreLine now p) = snd (muxWriteSyncer_Write U now m p)"
| "write_line U m (WorkerLine now i line) = muxLogWriter U now m i line"

section \<open>The socket client\<close>

text \<open>\<open>cl_out\<close> are the bytes the client wrote and \<open>cl_in\<close> those it can read; \<open>cl_fail\<close> is the error of the connection.\<close>

record uds_client =
  cl_in :: bytes
  cl_out :: bytes
  cl_fail :: "go_error option"
  cl_closed :: bool

definition client_Dial :: "(string \<Rightarrow> go_error + uds_client) \<Rightarrow> string \<Rightarrow> go_error + uds_client" where
  "client_Dial dial socketPath =
     (case dial socketPath of Inl err \<Rightarrow> Inl (ErrorfW (''uds: dial '' @ socketPath @ '': '') err) | Inr c \<Rightarrow> Inr c)"

definition client_Send :: "uds_client \<Rightarrow> message \<Rightarrow> uds_client \<times> go_error option" where
  "client_Send c msg = Write (\<lambda>c bs. case cl_fail c of None \<Rightarrow> (c\<lparr>cl_out := cl_out c @ bs\<rparr>, None) | Some e \<Rightarrow> (c, Some e)) c msg"

definition client_Receive :: "uds_client \<Rightarrow> go_error + message \<times> uds_client" where
  "client_Receive c = (case Read (cl_in c) of Inl err \<Rightarrow> Inl err | Inr (m, rest) \<Rightarrow> Inr (m, c\<lparr>cl_in := rest\<rparr>))"

definition client_Close :: "uds_client \<Rightarrow> uds_client" where
  "client_Close c = c\<lparr>cl_closed := True\<rparr>"

section \<open>Canonical paths\<close>

definition canonical_seg :: "string \<Rightarrow> bool" where
  "canonical_seg e \<longleftrightarrow> e \<noteq> [] \<and> e \<noteq> ''.'' \<and> e \<noteq> ''..'' \<and> CHR ''/'' \<notin> set e"

lemma clean_elems_rooted:
  assumes "list_all canonical_seg out" and "\<forall>e \<in> set es. CHR ''/'' \<notin> set e"
  shows "list_all canonical_seg (clean_elems True out es)"
  using assms
proof (induction es arbitrary: out)
  case Nil
  then show ?case by (simp add: list_all_iff)
next
  case (Cons e es)
  consider "e = [] \<or> e = ''.''" | "e = ''..''" | "canonical_seg e" using Cons.prems(2) by (auto simp: canonical_seg_def)
  then show ?case
  proof cases
    case 2
    have "\<not> canonical_seg ''..''" by (simp add: canonical_seg_def)
    then show ?thesis using Cons 2 by (cases out) auto
  next
    case 3
    then have "e \<noteq> [] \<and> e \<noteq> ''.'' \<and> e \<noteq> ''..''" by (simp add: canonical_seg_def)
    then show ?thesis using Cons 3 by simp
  qed (use Cons in auto)
qed

lemma filepath_Clean_rooted:
  "\<exists>es. filepath_Clean (CHR ''/'' # p) = ''/'' @ Join es ''/'' \<and> list_all canonical_seg es"
proof -
  have "list_all canonical_seg (clean_elems True [] (Split (CHR ''/'') (CHR ''/'' # p)))"
    by (rule clean_elems_rooted) (use Split_pieces in auto)
  then show ?thesis
    by (intro exI [of _ "clean_elems True [] (Split (CHR ''/'') (CHR ''/'' # p))"]) (simp add: filepath_Clean_def HasPrefix_def Let_def)
qed

lemma Trim_snoc: "Trim c (u @ [c]) = Trim c u"
  by (cases "\<forall>x \<in> set u. x = c") (auto simp: Trim_def dropWhile_append dest: set_dropWhileD)

lemma cleanPath_segments: "list_all canonical_seg (splitPath (cleanPath p))"
proof (cases p)
  case (Cons c q)
  define r where "r = (if c \<noteq> CHR ''/'' then p else q)"
  have r: "(if hd p \<noteq> CHR ''/'' then CHR ''/'' # p else p) = CHR ''/'' # r" by (simp add: r_def Cons)
  obtain es where es: "filepath_Clean (CHR ''/'' # r) = ''/'' @ Join es ''/''" "list_all canonical_seg es"
    using filepath_Clean_rooted by blast
  have "\<forall>s \<in> set es. s \<noteq> [] \<and> CHR ''/'' \<notin> set s" using es(2) by (auto simp: list_all_iff canonical_seg_def)
  then have s: "splitPath (''/'' @ Join es ''/'') = es" by (rule splitPath_Join)
  have t: "splitPath (u @ ''/'') = splitPath u" for u by (simp add: splitPath_def Trim_snoc)
  have "cleanPath p = ''/'' @ Join es ''/'' \<or> cleanPath p = (''/'' @ Join es ''/'') @ ''/'' \<and> ''/'' @ Join es ''/'' \<noteq> ''/''"
    unfolding cleanPath_def r Let_def es(1) using Cons by auto
  then have "splitPath (cleanPath p) = es" using s t [of "''/'' @ Join es ''/''"] by auto
  with es(2) show ?thesis by simp
qed (simp add: cleanPath_def splitPath_def Trim_def)

lemma mux_canonical:
  assumes "mux_Handler metrics r = MuxHandle" and "hr_Method r \<noteq> ''CONNECT''"
  shows "cleanPath (hr_Path r) = hr_Path r" "\<not> HasPrefix (hr_Path r) ''/ws/''"
  using assms by (auto simp: mux_Handler_def mux_match_def Let_def split: if_splits)


lemma ex_built: "buildGatewayRequest ex_scfg ex_get (hr_Body ex_get) = (ex_req ex_auth)"
  by (auto simp: buildGatewayRequest_def ex_scfg_def ex_get_def ex_req_def RemoteAddr_ClientIP_def peer_of_def SplitHostPort_def
      sanitizeHeaderValue_def maxHeaderValueLen_def printable_def fun_eq_iff)


section \<open>The loops keep what their steps keep\<close>

text \<open>Reloading on a signal is a sequence of restarts of the lifecycle service, so everything proved of its runs holds.\<close>

theorem reload_is_lifecycle:
  "sigusr1_loop E sigs s = life_run E s (map (\<lambda>(order, now, es). (now, LRestartAll order es)) sigs)"
  by (induction E sigs s rule: sigusr1_loop.induct) simp_all

text \<open>Each tick sends every live worker one heartbeat, whatever happens to the others.\<close>

theorem sender_reaches_all:
  "length (filter (\<lambda>(i, m, _). i = w \<and> m_Type m = TypeHeartbeat) (sender_Run send ticks)) =
     sum_list (map (\<lambda>t. case t of Inl _ \<Rightarrow> 0 | Inr ids \<Rightarrow> count_list ids w) ticks)"
proof (induction send ticks rule: sender_Run.induct)
  case (3 send ids ticks)
  have "length (filter (\<lambda>(i, m, _). i = w \<and> m_Type m = TypeHeartbeat) (sendAll send ids)) = count_list ids w"
    by (induction ids) (simp_all add: sendAll_def Let_def)
  with 3 show ?case by simp
qed simp_all

text \<open>The watcher's loop runs within the step relation of the debounce timers, for which no change is lost.\<close>

lemma watch_reach_trans: "watch_reach s t \<Longrightarrow> watch_reach t u \<Longrightarrow> watch_reach s u"
  by (rotate_tac, induction rule: watch_reach.induct) (auto intro: watch_reach.intros)

lemma scheduleRestart_done [simp]: "tm_done (HotReload.scheduleRestart w s) = tm_done s"
  by (simp add: HotReload.scheduleRestart_def Let_def split: option.splits)

lemma schedule_all_reach: "\<not> tm_done s \<Longrightarrow> watch_reach s (foldl (\<lambda>s w. HotReload.scheduleRestart w s) s ids)"
proof (induction ids arbitrary: s)
  case (Cons w ids)
  have "watch_reach s (HotReload.scheduleRestart w s)" using Cons.prems by (meson watch_reach.intros watch_step.change)
  with Cons.IH [of "HotReload.scheduleRestart w s"] Cons.prems watch_reach_trans show ?case by fastforce
qed (simp add: watch_reach.intros)

lemma schedule_all_done: "tm_done (foldl (\<lambda>s w. HotReload.scheduleRestart w s) s ids) = tm_done s"
  by (induction ids arbitrary: s) simp_all

theorem watcher_loop_refines:
  assumes "\<And>between ev t. (between, ev) \<in> set evs \<Longrightarrow> watch_reach t (between t) \<and> tm_done (between t) = tm_done t" and "\<not> tm_done s"
  shows "watch_reach s (startWatcherLoop cfgPath ents evs s)"
  using assms
proof (induction evs arbitrary: s)
  case (Cons x evs)
  obtain between ev where x: "x = (between, ev)" by fastforce
  have b: "watch_reach s (between s)" "\<not> tm_done (between s)" using Cons.prems x by auto
  have loop: "watch_reach s (startWatcherLoop cfgPath ents evs t)" if "watch_reach (between s) t" "tm_done t = tm_done (between s)" for t
    using watch_reach_trans [OF b(1) watch_reach_trans [OF that(1)]] Cons.IH [of t] Cons.prems(1) that(2) b(2) by (metis list.set_intros(2))
  note rest = loop [OF watch_reach.refl HOL.refl] loop [OF schedule_all_reach [OF b(2)] schedule_all_done]
  have stop: "watch_reach s (cancelAllTimers (between s))" using watch_reach.step [OF b(1) watch_step.stop] .
  show ?case
    using b(1) rest stop by (cases ev) (simp_all add: x split: watch_action.split)
qed (simp add: watch_reach.intros)

section \<open>Every line has a source\<close>

lemma write_line_push:
  assumes "\<And>now i line. l = WorkerLine now i line \<Longrightarrow> i \<noteq> []"
  shows "\<exists>e. write_line U m l = Push m e \<and> en_Source e \<noteq> []"
  using assms
  by (cases l) (auto simp: muxWriteSyncer_Write_def muxLogWriter_def ParseEntry_def Let_def split: option.splits)

text \<open>
  Every line in the buffer says where it comes from, whether it was written by the core or by a worker and whether or not it was JSON, so
  the terminal's filter by source loses none.
\<close>
theorem lines_have_sources:
  assumes "\<forall>l \<in> set ls. \<forall>now i line. l = WorkerLine now i line \<longrightarrow> i \<noteq> []"
  shows "\<forall>e \<in> set (Entries (foldl (write_line U) (NewMultiplexer cap) ls)). en_Source e \<noteq> []"
proof -
  have "mux_inv (foldl (write_line U) m ls) \<and> (\<forall>e \<in> set (Entries (foldl (write_line U) m ls)). en_Source e \<noteq> [])"
    if "mux_inv m" "\<forall>e \<in> set (Entries m). en_Source e \<noteq> []" for m
    using that assms
  proof (induction ls arbitrary: m)
    case (Cons l ls)
    obtain e where e: "write_line U m l = Push m e" "en_Source e \<noteq> []" using write_line_push [of l U m] Cons.prems(3) by auto
    have "\<forall>x \<in> set (Entries (Push m e)). en_Source x \<noteq> []"
      using Entries_Push [OF Cons.prems(1), of e] Cons.prems(2) e(2) by (auto dest!: in_set_dropD)
    with Cons.IH [of "Push m e"] Push_inv [OF Cons.prems(1)] Cons.prems(3) e(1) show ?case by simp
  qed simp
  moreover have "Entries (NewMultiplexer cap) = []" by (simp add: Entries_def NewMultiplexer_def Let_def)
  ultimately show ?thesis using NewMultiplexer_inv [of cap] by simp
qed

section \<open>The client and the transport\<close>

text \<open>
  What a client sends is what the core's read pump sorts into its channels, in order; and what the core writes is what the client receives.
\<close>

lemma client_sends:
  assumes "cl_fail c = None"
  shows "cl_out (foldl (\<lambda>c m. fst (client_Send c m)) c ms) = cl_out c @ concat (map frame ms)"
  using assms by (induction ms arbitrary: c) (simp_all add: client_Send_def Write_def)

theorem client_messages_arrive:
  assumes "cl_fail c = None" and "cl_out c = []" and "\<forall>m \<in> set ms. wire_ok m"
    and "k = new_conn (cl_out (foldl (\<lambda>c m. fst (client_Send c m)) c ms))"
  shows "cn_heartbeatCh (pump (length ms) k) = foldl (chan_offer demuxChanSize) [] (filter for_heartbeat ms) \<and>
    cn_responseCh (pump (length ms) k) = foldl (chan_offer demuxChanSize) [] (filter for_response ms)"
  using pump_frames [OF assms(3), of k "[]"] client_sends [OF assms(1), of ms] assms(2,4) by (simp add: new_conn_def)

theorem client_receives:
  "wire_ok m \<Longrightarrow> client_Receive (c\<lparr>cl_in := frame m @ rest\<rparr>) = Inr (m, c\<lparr>cl_in := rest\<rparr>)"
  by (simp add: client_Receive_def Read_frame)

end
