(* ===== verification/Spec2Isabelle.thy ===== *)
theory Spec2Isabelle
  imports Circuit Routes Framing Streams Workers Pools Lifecycle Health RateLimit Dispatcher Http WebSocket Server Transport ConnPool Logs Scanner Config HotReload Processes Schemas Terminal Metrics SharedMemory Arrow Provision NamedPipes Startup CommandLine Examples Serving
begin

text \<open>
  Verification of the core of vyx, a gateway that receives HTTP and WebSocket requests, checks them against a route map generated from
  source annotations, and hands them over Unix sockets to worker processes that it starts, watches and restarts.

  \<^bold>\<open>How the parts work together.\<close> The scanner (\<open>scanner/\<close>) reads annotations and writes \<open>route_map.json\<close>. At start-up
  \<open>core/cmd/vyx/main.go\<close> loads \<open>vyx.yaml\<close> and the route map, builds the dispatcher, the rate limiter and the HTTP server, and spawns the
  workers through the lifecycle service. A request passes the server's checks (method, rate limit, content type, body size), then the
  dispatcher's (route, circuit breaker, listeners, draining, token and role, schema, hooks), is sent over the transport to a worker picked
  by a pool, and the answer comes back through the read pump of that worker's connection. Heartbeats and the monitor decide when a worker
  is restarted; the drainer counts requests in flight so that a restart can wait for them.

  \<^bold>\<open>Theories, in the order of their imports.\<close>
  \<^item> \<open>Prelude\<close>: Go values (times, errors with \<open>errors.Is\<close>, strings), the string functions the sources call, and the shared interfaces as
    locales: \<open>lazy_registry\<close> and \<open>lazy_store\<close> (maps that create entries on first use), \<open>bounded_fifo\<close> (buffered channels whose sender
    does not wait).
  \<^item> \<open>Circuit\<close>: \<open>core/domain/circuit/breaker.go\<close>, the breaker as a state machine and the registry of breakers. The invariant, the
    refusal during the cooldown, the number of probes, independence of routes (interpretation \<open>cbreg\<close>).
  \<^item> \<open>Routes\<close>: \<open>core/domain/gateway/route.go\<close>, the trie. \<open>Lookup\<close> refines a search of the route list for the most specific pattern;
    parameters are bound to their own segments.
  \<^item> \<open>Framing\<close>, \<open>Streams\<close>: \<open>core/domain/ipc\<close>, \<open>core/infrastructure/ipc/framing\<close> and \<open>codec\<close>. Bytes of a frame, exactly the
    byte strings \<open>Read\<close> accepts, sequences of frames (locale \<open>frame_codec\<close>), splitting and reassembly of streams. Lengths are 32-bit words.
  \<^item> \<open>Workers\<close>: \<open>core/domain/worker\<close>, the in-memory repository (locale \<open>worker_repository\<close>) and
    \<open>core/application/lifecycle/drainer.go\<close>. A drain is a list of events; it ends, and ending well means that nothing is in flight.
  \<^item> \<open>Pools\<close>: \<open>core/domain/pool\<close>. Round robin is fair, least-loaded picks a minimum, the monitor restores the number of replicas.
  \<^item> \<open>Lifecycle\<close>: \<open>core/application/lifecycle/service.go\<close> and runtime detection. Every operation with its effects in order; the published
    events mirror the states of the repository.
  \<^item> \<open>Processes\<close>: \<open>core/infrastructure/process\<close>, the table of child processes, stopping with a kill after the timeout, log lines. No
    started process is lost; a crashed worker cannot be restarted.
  \<^item> \<open>Health\<close>: \<open>core/application/monitor\<close>, \<open>heartbeat\<close>, \<open>handshake\<close>. Exactly the stale workers are marked and scheduled, the backoff
    table stays bounded, the heartbeat loop gives up at its threshold.
  \<^item> \<open>RateLimit\<close>: \<open>core/application/gateway/ratelimiter.go\<close> and \<open>clientip.go\<close>. Bounds per window, independence of clients
    (interpretation \<open>buckets\<close>).
  \<^item> \<open>Dispatcher\<close>: \<open>core/application/gateway/dispatcher.go\<close> with its listeners, hooks and metrics. The outcome of every dispatch, what
    a request must pass before a message is sent, the balance of the in-flight counters.
  \<^item> \<open>Http\<close>, \<open>Server\<close>, \<open>WebSocket\<close>: what the gateway uses of \<open>net/http\<close>, and \<open>core/infrastructure/gateway\<close>. No control characters in
    headers, error answers, accepted tokens, CORS; authorised upgrades and the two pumps of a session.
  \<^item> \<open>Transport\<close>, \<open>ConnPool\<close>: \<open>core/infrastructure/ipc/uds\<close>. The read pump sorts frames into two channels (interpretation \<open>demux\<close>); the
    connection pool as an interleaving of critical sections with exact counters.
  \<^item> \<open>Logs\<close>: \<open>core/infrastructure/log\<close> and \<open>core/domain/log\<close>. The ring buffer keeps the newest entries, subscribers (interpretation
    \<open>sub\<close>), redaction.
  \<^item> \<open>Scanner\<close>: \<open>scanner/\<close>. A backtracking matcher for the regular expressions, proved sound and complete for their language, the four
    parsers (locale \<open>line_scanner\<close>, four interpretations), validation and generation of the route map.
  \<^item> \<open>Config\<close>, \<open>HotReload\<close>: \<open>core/domain/config\<close>, \<open>core/infrastructure/config\<close> and parts of \<open>core/cmd/vyx/main.go\<close>. Accepted manifests,
    reloading, and the debounced restarts of development mode as a step relation.
  \<^item> \<open>Schemas\<close>: \<open>core/infrastructure/gateway/schema.go\<close>. The cache of compiled schemas is transparent; what becomes of the details of
    an error.
  \<^item> \<open>Terminal\<close>: \<open>core/cmd/tui\<close>. Keys, filters and the window of lines on the screen.
  \<^item> \<open>Metrics\<close>: \<open>core/infrastructure/metrics\<close> and the dispatcher's recording functions. Every update fits the labels its instrument was
    declared with.
  \<^item> \<open>SharedMemory\<close>, \<open>Arrow\<close>: \<open>core/infrastructure/ipc/shm\<close> and \<open>codec/arrow.go\<close>. Regions are released; rows survive the way through
    columns, with 64-bit integers as words.
  \<^item> \<open>Provision\<close>: \<open>core/infrastructure/runtime\<close>. Downloading, installing and resolving runtimes over the answers of servers and files.
  \<^item> \<open>NamedPipes\<close>: \<open>core/infrastructure/ipc/uds/named_pipe_windows.go\<close>, the pipe handles as a state machine.
  \<^item> \<open>Startup\<close>: \<open>core/cmd/vyx/main.go\<close>. Validators, dispatcher and server set-up, starting the workers one after the other with their
    handshakes (locale \<open>start_sequence\<close>), shutdown. Start-up refines the lifecycle service; replicas and announced routes.
  \<^item> \<open>CommandLine\<close>: \<open>cmd/vyx\<close>, \<open>cmd/annotate\<close> and the subcommands of the core. Scaffolding of a project and what the gateway makes of it.
  \<^item> \<open>JsonValues\<close>, \<open>WorkerLoop\<close>: a worker in Go as \<open>examples/hello-world\<close> writes it. JSON values and their decoding into structs, frames over
    a connection that delivers chunks of any size, the main loop. The loop implements a contract on messages, whatever the chunks; the
    locale \<open>worker_store\<close> carries an invariant of the handlers through the loop.
  \<^item> \<open>Shop\<close>, \<open>Dashboard\<close>, \<open>Landpage\<close>: the stores and handlers of the other three examples, each an interpretation of \<open>worker_store\<close>.
  \<^item> \<open>Examples\<close>: both sides of the wire together, the gateway's payloads read by the workers and their answers read by the gateway.
  \<^item> \<open>Serving\<close>: the multiplexer in front of the handlers, the background loops of a running gateway, the log writers and the socket
    client. No path traversal reaches a worker; the loops refine the lifecycle service and the debounce timers.
  \<^item> This theory: properties that need several components, from the HTTP request to the worker, from the worker's answer to a request,
    and from the annotations to the gateway.

  \<^bold>\<open>Modelling.\<close> State is passed explicitly; a record is a struct, a map a Go map. Errors are values of \<open>go_error\<close>; a panic is the
  value \<open>None\<close> or a constructor of the result. Where the Go runtime chooses an order (ranging over a map, \<open>select\<close>) or the outside world
  decides (clock, random numbers, system calls, process start, JSON and YAML libraries, token parsing and schema validation), the choice is
  an argument of the definition or a step of a relation, and what is assumed of it is a hypothesis of the theorem. Concurrency is modelled at
  the granularity of critical sections: as event lists for draining and heartbeats, as step relations for the connection pool and the
  debounce timers. All functions are total with a termination proof; there is no fuel. Strings are byte lists, and functions that
  depend on Unicode (case, white space, quoting) follow the sources on ASCII. Integers are unbounded except lengths and types on the
  wire, Arrow columns and the stock and quantities of the shop, which are words, and the backoff, whose overflow is modelled.

  \<^bold>\<open>Not modelled.\<close> System calls themselves (their results are arguments), the construction of listeners, TLS and h2c, the launching of goroutines,
  zap encoders and log adapters, panic recovery, the MessagePack adapter, the HTTP handler and
  the no-op provider of the metrics, usage texts, colours and layout of the terminal, security descriptors and the dialling client of
  Windows pipes, and the exit of a worker on a signal: they are calls of libraries or rendering around the modelled parts. The scanning
  and printing of JSON and YAML texts are arguments; the decoding of a JSON value into a struct is modelled where the examples use it.
\<close>

section \<open>From the client to the worker\<close>



section \<open>Answers and requests\<close>

lemma late_answer_queued:
  assumes "tp_connections tr w = Some c" and "cn_responseCh c = []" and "cn_pumpErr c = None"
    and "cn_in c = frame late @ rest" and "wire_ok late" and "m_Type late = TypeResponse"
  shows "ReceiveResponse tr w (Some DeadlineExceeded) b = Some (Inl DeadlineExceeded, tr)"
    and "fst (the (ReceiveResponse (put_conn tr w (pump_step c)) w None b')) = Inr late"
proof -
  have "put_conn tr w (c\<lparr>cn_responseCh := []\<rparr>) = tr"
    using assms(1,2) by (cases tr; cases c) (simp add: put_conn_def fun_upd_idem)
  then show "ReceiveResponse tr w (Some DeadlineExceeded) b = Some (Inl DeadlineExceeded, tr)"
    using assms(1-3) by (simp add: ReceiveResponse_def getConn_def receiveFrom_def)
  have "cn_responseCh (pump_step c) = [late]"
    using pump_frame [OF assms(5,4,3)] assms(2,6)
    by (simp add: demultiplex_channels for_response_def chan_offer_def demuxChanSize_def)
  then show "fst (the (ReceiveResponse (put_conn tr w (pump_step c)) w None b')) = Inr late"
    by (simp add: ReceiveResponse_def getConn_def receiveFrom_def put_conn_def)
qed

text \<open>
  C5: An answer that comes too late goes to the wrong request: when a request has given up waiting at its deadline and the worker's
  answer arrives afterwards, it stays in the worker's queue, and the next admitted request to that worker is given exactly that answer
  as its own, whatever the two requests are; neither the transport nor the dispatcher compares correlation identifiers.
\<close>
theorem late_answer_misdelivered:
  assumes "tp_connections tr w = Some c" and "cn_responseCh c = []" and "cn_pumpErr c = None"
    and "cn_in c = frame late @ rest" and "wire_ok late" and "m_Type late = TypeResponse"
    and "dc_unmarshal cfg (m_Payload late) = Inr wr"
    and "Lookup (dc_routes cfg) (gq_Method req) (gq_Path req) = Some rt" and "re_WorkerID (lr_Entry rt) = w"
    and "admissible cfg d (rq_start q) req (lr_Entry rt)"
    and "dc_listeners cfg = []" and "dc_hooks cfg = []" and "ds_poolMgr d = None"
    and "\<And>dr. ds_drainer d = Some dr \<Longrightarrow> \<forall>i. 0 \<le> inflight dr i" and "\<And>r c t. \<exists>p. dc_marshal cfg r c t = Inr p"
    and "rq_send q w = None" and "rq_receive q w = fst (the (ReceiveResponse (put_conn tr w (pump_step c)) w None b'))"
  shows "ReceiveResponse tr w (Some DeadlineExceeded) b = Some (Inl DeadlineExceeded, tr) \<and>
    (\<exists>cid. fst (Dispatch cfg d q req) =
       Returned (Some \<lparr>gr_StatusCode = (if wr_StatusCode wr = 0 then 200 else wr_StatusCode wr), gr_Headers = wr_Headers wr, gr_Body = wr_Body wr, gr_CorrelationID = cid\<rparr>) None)"
proof -
  note late = late_answer_queued [OF assms(1-6)]
  have r: "rq_receive q w = Inr late" using assms(17) late(2) [of b'] by simp
  show ?thesis
    using late(1) [of b] Dispatch_expected [OF assms(8,10-15)] assms(6,7,9,16) r
    by (auto simp: expected_def Let_def)
qed

definition ex_late :: message where
  "ex_late = \<lparr>m_Type = TypeResponse, m_Payload = [42]\<rparr>"

theorem late_answer_misdelivered_witness:
  "\<exists>cid. fst (Dispatch ex_cfg ex_disp (ex_q\<lparr>rq_receive := \<lambda>w. fst (the (ReceiveResponse (put_conn (accept_conn NewTransport ''w1'' (frame ex_late))
        ''w1'' (pump_step (new_conn (frame ex_late)))) ''w1'' None False))\<rparr>) (ex_req ex_auth)) =
     Returned (Some \<lparr>gr_StatusCode = 200, gr_Headers = Map.empty, gr_Body = [42], gr_CorrelationID = cid\<rparr>) None"
proof -
  let ?tr = "accept_conn NewTransport ''w1'' (frame ex_late)" and ?c = "new_conn (frame ex_late)"
  let ?q = "ex_q\<lparr>rq_receive := \<lambda>w. fst (the (ReceiveResponse (put_conn ?tr ''w1'' (pump_step ?c)) ''w1'' None False))\<rparr>"
  let ?wr = "\<lparr>wr_StatusCode = 0, wr_Headers = Map.empty, wr_Body = [42], wr_CorrelationID = []\<rparr>"
  have c: "tp_connections ?tr ''w1'' = Some ?c" "cn_responseCh ?c = []" "cn_pumpErr ?c = None" "cn_in ?c = frame ex_late @ []"
    by (simp_all add: accept_conn_def new_conn_def)
  have m: "wire_ok ex_late" "m_Type ex_late = TypeResponse" "dc_unmarshal ex_cfg (m_Payload ex_late) = Inr ?wr"
    by (simp_all add: ex_late_def wire_ok_def validateType_def MaxPayloadSize_def ex_cfg_def)
  have w: "re_WorkerID (lr_Entry ex_rt) = ''w1''" by (simp add: ex_entry_def)
  have a: "admissible ex_cfg ex_disp (rq_start ?q) (ex_req ex_auth) (lr_Entry ex_rt)" using ex_admissible by simp
  have d: "dc_listeners ex_cfg = []" "dc_hooks ex_cfg = []" "ds_poolMgr ex_disp = None" "rq_send ?q ''w1'' = None"
    by (simp_all add: ex_cfg_def ex_disp_def NewDispatcher_def ex_q_def)
  have n: "\<forall>i. 0 \<le> inflight dr i" if "ds_drainer ex_disp = Some dr" for dr
    using that ex_inflight by (simp add: ex_disp_def NewDispatcher_def)
  have p: "\<exists>p. dc_marshal ex_cfg r c t = Inr p" for r c t by (simp add: ex_cfg_def)
  have r: "rq_receive ?q ''w1'' = fst (the (ReceiveResponse (put_conn ?tr ''w1'' (pump_step ?c)) ''w1'' None False))" by simp
  from late_answer_misdelivered [OF c m ex_lookup w a d(1-3) n p d(4) r] show ?thesis by simp
qed

section \<open>From the annotations to the gateway\<close>

lemma Lookup_generated:
  assumes "valid_map rs" and "Lookup (NewRouteMap (map entry_of rs)) m p = Some rt"
  shows "re_Type (lr_Entry rt) = ''page'' \<or> re_AuthRoles (lr_Entry rt) \<noteq> []"
    and "re_Method (lr_Entry rt) = ToUpper m"
    and "ToUpper m \<in> {''POST'', ''PUT'', ''PATCH''} \<Longrightarrow> re_Validate (lr_Entry rt) \<noteq> []"
proof -
  have e: "lr_Entry rt \<in> set (map entry_of rs)" "ToUpper (re_Method (lr_Entry rt)) = ToUpper m"
    using last_entry_SomeD [OF Lookup_SomeD(2) [OF assms(2)]] by blast+
  then obtain r where r: "r \<in> set rs" "lr_Entry rt = entry_of r" by auto
  have v: "route_valid r" using assms(1) r(1) by (simp add: valid_map_def list_all_iff)
  then have u: "ToUpper (rt_Method r) = rt_Method r"
    by (auto simp: route_valid_def validMethods_def ToUpper_def upper_char_def)
  then show m: "re_Method (lr_Entry rt) = ToUpper m" using e(2) r(2) by (simp add: entry_of_def)
  show "re_Type (lr_Entry rt) = ''page'' \<or> re_AuthRoles (lr_Entry rt) \<noteq> []"
    using v r(2) by (auto simp: route_valid_def entry_of_def)
  show "re_Validate (lr_Entry rt) \<noteq> []" if "ToUpper m \<in> {''POST'', ''PUT'', ''PATCH''}"
    using v r(2) m that by (auto simp: route_valid_def entry_of_def)
qed

text \<open>
  C6: What the scanner writes keeps the gateway closed: when the gateway loads a route map that \<open>Generate\<close> wrote, every message the
  dispatcher hands to a worker belongs to a page or comes with a token that the validator accepted and whose roles include one the route
  asks for; and the body of a \<open>POST\<close>, \<open>PUT\<close> or \<open>PATCH\<close> has passed the route's schema. The only assumption on the JSON
  library is that it reads back the routes it wrote.
\<close>
theorem generated_map_keeps_gateway_closed:
  assumes "Generate walk marshal mkdir writeFile dirs = Some g" and "ge_written g = Some data"
    and "\<And>rs d. marshal rs = Inr d \<Longrightarrow> fv_json E d = Inr (map entry_of rs)"
    and "fv_ReadFile E path = Inr data" and "LoadRouteMap E path = Inr (dc_routes cfg)"
    and "Dispatch cfg d q req = (r, d')" and "ds_sent d' \<noteq> ds_sent d" and "\<forall>l \<in> set (dc_listeners cfg). inert l"
  shows "\<exists>rt. Lookup (dc_routes cfg) (gq_Method req) (gq_Path req) = Some rt \<and>
    (re_Type (lr_Entry rt) = ''page'' \<or>
      (\<exists>cl. dc_jwt cfg (stripBearerPrefix (hget (gq_Headers req) ''Authorization'')) = Inr cl \<and>
            hasRequiredRole (cl_Roles cl) (re_AuthRoles (lr_Entry rt)))) \<and>
    (ToUpper (gq_Method req) \<in> {''POST'', ''PUT'', ''PATCH''} \<and> gq_Body req \<noteq> [] \<longrightarrow>
      dc_schema cfg (re_Validate (lr_Entry rt)) (gq_Body req) = None)"
proof -
  obtain rs where rs: "valid_map rs" "marshal rs = Inr data"
    using assms(1,2)
    by (auto simp: Generate_def Let_def Validate_ok [symmetric] split: option.splits prod.splits if_splits sum.splits)
  have routes: "dc_routes cfg = NewRouteMap (map entry_of rs)"
    using assms(4,5) assms(3) [OF rs(2)] by (simp add: LoadRouteMap_def)
  obtain rt where rt: "Lookup (dc_routes cfg) (gq_Method req) (gq_Path req) = Some rt" "admissible cfg d (rq_start q) req (lr_Entry rt)"
    using Dispatch_sent_admissible [OF assms(6-8)] by blast
  note gen = Lookup_generated [OF rs(1) rt(1) [unfolded routes]]
  show ?thesis using rt gen by (auto simp: admissible_def)
qed

definition ex_source :: route where
  "ex_source = ex_route ''GET'' ''/a/:id'' [''admin''] []"

definition ex_walk :: "string \<Rightarrow> file_entry list" where
  "ex_walk dir = [\<lparr>fe_path = ''api/a.go'', fe_name = ''a.go'', fe_skip = False, fe_open = Inr (unlines (go_block ex_source))\<rparr>]"

definition ex_dirs :: source_dirs where
  "ex_dirs = \<lparr>sd_goDir = ''api'', sd_tsDir = [], sd_pyDir = [], sd_frontendDir = []\<rparr>"

text \<open>A JSON library that knows one list of routes.\<close>

definition ex_marshal :: "route list \<Rightarrow> route list \<Rightarrow> go_error + string" where
  "ex_marshal known rs = (if rs = known then Inr ''json'' else Inl (Errorf ''json''))"

definition ex_json_files :: "route list \<Rightarrow> file_env" where
  "ex_json_files known = \<lparr>fv_ReadFile = (\<lambda>_. Inr ''json''), fv_yaml = (\<lambda>_ c. Inr c), fv_json = (\<lambda>_. Inr (map entry_of known))\<rparr>"

lemma ex_collected: "\<exists>r. collect ex_walk ex_dirs = Some ([r], []) \<and> entry_of r = ex_entry\<lparr>re_WorkerID := ''go:api''\<rparr> \<and> route_valid r"
proof -
  have "annotatable ex_source"
    by (simp add: ex_source_def annotatable_def ex_route_def token_def rx_word_def ToUpper_def upper_char_def is_space_def go_block_def
        route_annot_def validate_annot_def auth_annot_def quoted_def maxScanTokenSize_def)
  then have "idle scan_init \<and> list_all annotatable [ex_source]" by (simp add: idle_def scan_init_def)
  then obtain s where s: "scan_all (go_line ''api/a.go'' ''go:api'') (go_block ex_source) scan_init = Some s" "idle s" "ss_errs s = []"
      "ss_routes s = [ex_source\<lparr>rt_File := ''api/a.go'', rt_WorkerID := ''go:api'', rt_Line := 1\<rparr>]"
    using scan_go_block [of ex_source scan_init "''api/a.go''" "''go:api''"] by (auto simp: scan_init_def)
  have l: "scan_lines (unlines (go_block ex_source)) = go_block ex_source"
    using go_block_lines [OF \<open>annotatable ex_source\<close>] by (intro scan_lines_unlines) blast
  have b: "filepath_Base ''api'' = ''api''" by (simp add: filepath_Base_def)
  have "collect ex_walk ex_dirs = Some ([ex_source\<lparr>rt_File := ''api/a.go'', rt_WorkerID := ''go:api'', rt_Line := 1\<rparr>], [])"
    using s(2) by (simp add: collect_def ex_dirs_def scan_dir_def ParseGoFiles_def ex_walk_def b HasSuffix_def HasPrefix_def parseGoFile_def l s
        result_of_def add_pending_def idle_def join_parsed_def)
  then show ?thesis
    by (simp add: ex_source_def ex_route_def entry_of_def ex_entry_def route_valid_def validMethods_def HasPrefix_def)
qed

theorem generated_map_keeps_gateway_closed_witness:
  "\<exists>known g. Generate ex_walk (ex_marshal known) None (\<lambda>_. None) ex_dirs = Some g \<and> ge_written g = Some ''json'' \<and>
     (\<exists>rt. LoadRouteMap (ex_json_files known) ''r.json'' = Inr (NewRouteMap (map entry_of known)) \<and>
       Lookup (NewRouteMap (map entry_of known)) ''GET'' ''/a/42'' = Some rt \<and>
       (\<exists>cl. dc_jwt ex_cfg ''t'' = Inr cl \<and> hasRequiredRole (cl_Roles cl) (re_AuthRoles (lr_Entry rt))))"
proof -
  obtain r where r: "collect ex_walk ex_dirs = Some ([r], [])" "entry_of r = ex_entry\<lparr>re_WorkerID := ''go:api''\<rparr>" "route_valid r"
    using ex_collected by blast
  let ?E = "ex_json_files [r]" and ?cfg = "ex_cfg\<lparr>dc_routes := NewRouteMap [entry_of r]\<rparr>" and ?req = "ex_req ex_auth"
  let ?rt = "\<lparr>lr_Entry = entry_of r, lr_Params = Some [''id'' \<mapsto> ''42'']\<rparr>"
  have v: "fst (Validate_routes [r]) = []" using r(3) by (simp add: Validate_ok valid_map_def)
  obtain g where g: "Generate ex_walk (ex_marshal [r]) None (\<lambda>_. None) ex_dirs = Some g" "ge_written g = Some ''json''"
    by (simp add: Generate_def r(1) v ex_marshal_def)
  have j: "ex_marshal [r] rs = Inr d \<Longrightarrow> fv_json ?E d = Inr (map entry_of rs)" for rs d
    by (simp add: ex_marshal_def ex_json_files_def split: if_splits)
  have f: "fv_ReadFile ?E ''r.json'' = Inr ''json''" "LoadRouteMap ?E ''r.json'' = Inr (dc_routes ?cfg)"
    by (simp_all add: ex_json_files_def LoadRouteMap_def)
  have lk: "Lookup (dc_routes ?cfg) (gq_Method ?req) (gq_Path ?req) = Some ?rt"
    by (simp add: r(2)) (simp add: ex_req_def ex_entry_def ex_eval)
  have "admissible ?cfg ex_disp (rq_start ex_q) ?req (entry_of r)"
    using ex_admissible by (simp add: r(2) admissible_def) (simp add: ex_gateway)
  then have "ds_sent (snd (Dispatch ?cfg ex_disp ex_q ?req)) \<noteq> ds_sent ex_disp"
    using Dispatch_sends [OF lk, of ex_disp ex_q "[1]"] by (simp add: ex_cfg_def ex_disp_def NewDispatcher_def)
  from generated_map_keeps_gateway_closed [OF g j f prod.collapse [symmetric] this]
  obtain rt where rt: "Lookup (dc_routes ?cfg) (gq_Method ?req) (gq_Path ?req) = Some rt"
      "re_Type (lr_Entry rt) = ''page'' \<or> (\<exists>cl. dc_jwt ?cfg (stripBearerPrefix (hget (gq_Headers ?req) ''Authorization'')) = Inr cl \<and>
         hasRequiredRole (cl_Roles cl) (re_AuthRoles (lr_Entry rt)))"
    by (auto simp: ex_cfg_def)
  moreover have "rt = ?rt" using rt(1) lk by simp
  moreover have "re_Type (entry_of r) = ''api''" by (simp add: r(2) ex_entry_def)
  moreover have "stripBearerPrefix (hget (gq_Headers ?req) ''Authorization'') = ''t''" by (simp add: ex_gateway)
  ultimately show ?thesis
    using g f(2) by (intro exI [of _ "[r]"] exI [of _ g]) (auto simp: ex_req_def)
qed

end
